(* ===== verification/Flow_Prelude.thy ===== *)
theory Flow_Prelude
  imports Main "HOL-Library.AList" "HOL-Library.Char_ord" "HOL-Library.List_Lexorder"
    "HOL-Library.Multiset" "HOL-Library.Word"
begin

text \<open>
  The shared layer of the flowstep development: Go maps as association lists, dynamically typed
  values (\<open>any\<close>), a generic marking traversal of a finite graph that several components run, and
  the list lemmas their proofs share. Nothing here models a particular source file.
\<close>

section \<open>Collections of rewrite rules\<close>

named_theorems flow_defs \<open>definitions the component proofs unfold\<close>

section \<open>Go maps\<close>

text \<open>
  A Go map is an association list. Its order stands for the order in which a \<open>range\<close> loop visits
  the entries, which Go leaves open: a theorem about all association lists is a theorem about all
  iteration orders. \<open>map_of\<close> is the lookup, \<open>AList.update\<close> the assignment \<open>m[k] = v\<close>. Where a nil
  map can be told from an empty one the map is under an \<open>option\<close>, \<open>None\<close> being nil.
\<close>

type_synonym ('k, 'v) gomap = "('k \<times> 'v) list"

abbreviation mkeys :: "('k, 'v) gomap \<Rightarrow> 'k list" where
  "mkeys m \<equiv> map fst m"

abbreviation mput :: "'k \<Rightarrow> 'v \<Rightarrow> ('k, 'v) gomap \<Rightarrow> ('k, 'v) gomap" where
  "mput \<equiv> AList.update"

definition wf_map :: "('k, 'v) gomap \<Rightarrow> bool" where
  "wf_map m \<longleftrightarrow> distinct (mkeys m)"

definition mitems :: "('k, 'v) gomap option \<Rightarrow> ('k, 'v) gomap" where
  "mitems m = (case m of None \<Rightarrow> [] | Some al \<Rightarrow> al)"

definition mlook :: "('k, 'v) gomap option \<Rightarrow> 'k \<Rightarrow> 'v option" where
  "mlook m k = map_of (mitems m) k"

lemma mitems_simps [simp]: "mitems None = []" "mitems (Some al) = al"
  by (simp_all add: mitems_def)

lemma mlook_simps [simp]: "mlook None k = None" "mlook (Some al) k = map_of al k"
  by (simp_all add: mlook_def)

lemma map_of_mput [simp]: "map_of (mput k v m) x = (if x = k then Some v else map_of m x)"
  by (simp add: update_conv')

lemma wf_map_Nil [simp]: "wf_map []"
  by (simp add: wf_map_def)

lemma wf_map_Cons [simp]: "wf_map ((k, v) # m) \<longleftrightarrow> k \<notin> fst ` set m \<and> wf_map m"
  by (auto simp: wf_map_def)

lemma wf_map_mput [simp]: "wf_map m \<Longrightarrow> wf_map (mput k v m)"
  by (simp add: wf_map_def distinct_update)

lemma set_mkeys_mput [simp]: "fst ` set (mput k v m) = insert k (fst ` set m)"
  by (induction m) auto

lemma map_of_in_set_wf: "wf_map m \<Longrightarrow> (k, v) \<in> set m \<longleftrightarrow> map_of m k = Some v"
  by (simp add: wf_map_def map_of_eq_Some_iff)

lemma map_of_key_iff: "(\<exists>v. map_of m k = Some v) \<longleftrightarrow> k \<in> fst ` set m"
  by (induction m) auto

lemma map_of_None_iff: "map_of m k = None \<longleftrightarrow> k \<notin> fst ` set m"
  by (auto simp: map_of_eq_None_iff)

section \<open>Values of type any\<close>

text \<open>
  A value of Go type \<open>any\<close>: the dynamic types the engine itself builds or inspects, and
  \<open>GOpaque\<close> for every other value, which the engine only passes on. \<open>GMap None\<close> is a nil
  \<open>map[string]any\<close> stored in an interface, which is not the nil interface \<open>GNil\<close>.
  Times and durations are integers (nanoseconds); the zero \<open>time.Time\<close> is 0.
\<close>

type_synonym gtime = int
type_synonym int64 = "64 word"

datatype gval =
    GNil
  | GString string
  | GInt int
  | GInt64 int64
  | GBool bool
  | GTime gtime
  | GMap "(string \<times> gval) list option"
  | GOpaque nat

type_synonym gparams = "(string, gval) gomap option"

section \<open>Marking traversal of a finite graph\<close>

text \<open>
  \<open>visit\<close> is the recursion that \<open>collectSubtreeStates\<close> and the \<open>enqueue\<close> closure of
  \<open>checkReachability\<close> share: skip a node that is marked, otherwise mark it, append it to the
  output and visit its successors in order.
\<close>

definition nexts :: "('a, 'a list) gomap \<Rightarrow> 'a \<Rightarrow> 'a list" where
  "nexts g x = (case map_of g x of None \<Rightarrow> [] | Some ys \<Rightarrow> ys)"

definition edges :: "('a, 'a list) gomap \<Rightarrow> ('a \<times> 'a) set" where
  "edges g = {(x, y). y \<in> set (nexts g x)}"

lemma nexts_outside [simp]: "x \<notin> fst ` set g \<Longrightarrow> nexts g x = []"
  by (simp add: nexts_def map_of_None_iff [symmetric])

function visit :: "('a, 'a list) gomap \<Rightarrow> 'a list \<Rightarrow> 'a list \<Rightarrow> 'a list \<Rightarrow> 'a list \<times> 'a list" where
  "visit g [] seen out = (seen, out)"
| "visit g (x # xs) seen out =
     (if x \<in> set seen then visit g xs seen out
      else (case visit g (nexts g x) (x # seen) (out @ [x]) of
              (seen', out') \<Rightarrow> visit g xs seen' out'))"
  by pat_completeness auto

lemma visit_dom_mono:
  "visit_dom (g, xs, seen, out) \<Longrightarrow> set seen \<subseteq> set (fst (visit g xs seen out))"
  by (induction g xs seen out rule: visit.pinduct) (force simp: visit.psimps split: prod.splits)+

termination visit
proof (relation "inv_image (finite_psubset <*lex*> less_than)
    (\<lambda>(g, xs, seen, out). (fst ` set g - set seen, length xs))", goal_cases)
  case 1
  show ?case by (simp add: wf_finite_psubset wf_lex_prod)
next
  case (2 g x xs seen out)
  then show ?case by simp
next
  case (3 g x xs seen out)
  then show ?case
    by (cases "x \<in> fst ` set g") (auto simp: finite_psubset_def)
next
  case (4 g x xs seen out seen' out')
  from visit_dom_mono [OF 4(3)] 4(2) [symmetric] have "set seen \<subseteq> set seen'" by auto
  then show ?case by (auto simp: finite_psubset_def)
qed


lemma visit_mono: "visit g xs seen out = (s, q) \<Longrightarrow> set seen \<subseteq> set s"
  by (induction g xs seen out arbitrary: s q rule: visit.induct)
    (fastforce split: if_splits prod.splits)+

lemma visit_covers: "visit g xs seen out = (s, q) \<Longrightarrow> set xs \<subseteq> set s"
proof (induction g xs seen out arbitrary: s q rule: visit.induct)
  case (1 g seen out)
  then show ?case by simp
next
  case (2 g x xs seen out)
  obtain s1 q1 where v: "visit g (nexts g x) (x # seen) (out @ [x]) = (s1, q1)"
    by fastforce
  show ?case
  proof (cases "x \<in> set seen")
    case True
    with 2 show ?thesis by (auto dest: visit_mono)
  next
    case False
    with 2 v have "visit g xs s1 q1 = (s, q)" and "set xs \<subseteq> set s" by auto
    with visit_mono [OF v] show ?thesis by (auto dest: visit_mono)
  qed
qed

lemma visit_closed:
  "visit g xs seen out = (s, q) \<Longrightarrow> y \<in> set s \<Longrightarrow> y \<notin> set seen \<Longrightarrow> set (nexts g y) \<subseteq> set s"
proof (induction g xs seen out arbitrary: s q rule: visit.induct)
  case (1 g seen out)
  then show ?case by simp
next
  case (2 g x xs seen out)
  obtain s1 q1 where v: "visit g (nexts g x) (x # seen) (out @ [x]) = (s1, q1)"
    by fastforce
  show ?case
  proof (cases "x \<in> set seen")
    case True
    with 2 show ?thesis by auto
  next
    case False
    with 2(4) v have r: "visit g xs s1 q1 = (s, q)" by simp
    show ?thesis
    proof (cases "y \<in> set s1")
      case True
      with 2(2) [OF False v] 2(6) visit_covers [OF v] have "set (nexts g y) \<subseteq> set s1" by fastforce
      with visit_mono [OF r] show ?thesis by blast
    next
      case F: False
      from 2(3) [OF False v [symmetric] r 2(5) F] show ?thesis .
    qed
  qed
qed

lemma visit_sound:
  "visit g xs seen out = (s, q) \<Longrightarrow> set s \<subseteq> set seen \<union> (edges g)\<^sup>* `` set xs"
proof (induction g xs seen out arbitrary: s q rule: visit.induct)
  case (1 g seen out)
  then show ?case by simp
next
  case (2 g x xs seen out)
  obtain s1 q1 where v: "visit g (nexts g x) (x # seen) (out @ [x]) = (s1, q1)"
    by fastforce
  show ?case
  proof (cases "x \<in> set seen")
    case True
    with 2 show ?thesis by auto
  next
    case False
    with 2(4) v have r: "visit g xs s1 q1 = (s, q)" by simp
    from 2(2) [OF False v] have "set s1 \<subseteq> insert x (set seen) \<union> (edges g)\<^sup>* `` set (nexts g x)"
      by simp
    moreover have "(edges g)\<^sup>* `` set (nexts g x) \<subseteq> (edges g)\<^sup>* `` {x}"
      by (auto simp: edges_def intro: converse_rtrancl_into_rtrancl)
    moreover have "(edges g)\<^sup>* `` set (x # xs) = (edges g)\<^sup>* `` {x} \<union> (edges g)\<^sup>* `` set xs"
      by auto
    moreover have "x \<in> (edges g)\<^sup>* `` {x}" by simp
    moreover have "S \<subseteq> M \<union> (C \<union> D)"
      if "A \<subseteq> insert x M \<union> B" "B \<subseteq> C" "x \<in> C" "S \<subseteq> A \<union> D" for A B C D M S :: "'a set"
      using that by blast
    ultimately show ?thesis
      using 2(3) [OF False v [symmetric] r] by (simp only:)
  qed
qed

lemma visit_out:
  "visit g xs seen out = (s, q) \<Longrightarrow>
     \<exists>new. q = out @ new \<and> set s = set seen \<union> set new \<and> set new \<inter> set seen = {} \<and> distinct new"
proof (induction g xs seen out arbitrary: s q rule: visit.induct)
  case (1 g seen out)
  then show ?case by simp
next
  case (2 g x xs seen out)
  obtain s1 q1 where v: "visit g (nexts g x) (x # seen) (out @ [x]) = (s1, q1)"
    by fastforce
  show ?case
  proof (cases "x \<in> set seen")
    case True
    with 2 show ?thesis by auto
  next
    case False
    with 2(4) v have r: "visit g xs s1 q1 = (s, q)" by simp
    from 2(2) [OF False v] obtain n1 where "q1 = (out @ [x]) @ n1"
      "set s1 = insert x (set seen) \<union> set n1" "set n1 \<inter> insert x (set seen) = {}" "distinct n1"
      by auto
    moreover from 2(3) [OF False v [symmetric] r] obtain n2 where "q = q1 @ n2"
      "set s = set s1 \<union> set n2" "set n2 \<inter> set s1 = {}" "distinct n2" by auto
    ultimately show ?thesis using False
      by (intro exI [of _ "x # n1 @ n2"]) auto
  qed
qed

lemma rtrancl_Image_closed: "r `` A \<subseteq> A \<Longrightarrow> r\<^sup>* `` A = A"
proof
  assume c: "r `` A \<subseteq> A"
  have "y \<in> A" if "(x, y) \<in> r\<^sup>*" "x \<in> A" for x y
    using that by (induction rule: rtrancl_induct) (use c in auto)
  then show "r\<^sup>* `` A \<subseteq> A" by auto
qed auto

text \<open>From an empty set of marks the traversal marks exactly what is reachable.\<close>

lemma visit_reachable:
  assumes "visit g xs [] out = (s, q)"
  shows "set s = (edges g)\<^sup>* `` set xs"
proof
  show "set s \<subseteq> (edges g)\<^sup>* `` set xs"
    using visit_sound [OF assms] by simp
  have "edges g `` set s \<subseteq> set s"
    using visit_closed [OF assms] by (auto simp: edges_def)
  then have "(edges g)\<^sup>* `` set s = set s" by (rule rtrancl_Image_closed)
  with visit_covers [OF assms] show "(edges g)\<^sup>* `` set xs \<subseteq> set s" by auto
qed

section \<open>Lists\<close>

lemma takeWhile_neq_split:
  "x \<in> set xs \<Longrightarrow> xs = takeWhile (\<lambda>y. y \<noteq> x) xs @ x # tl (dropWhile (\<lambda>y. y \<noteq> x) xs)"
  by (induction xs) auto

lemma find_first_split:
  "find P xs = Some x \<Longrightarrow> \<exists>ys zs. xs = ys @ x # zs \<and> P x \<and> (\<forall>y \<in> set ys. \<not> P y)"
proof (induction xs)
  case Nil
  then show ?case by simp
next
  case (Cons a xs)
  show ?case
  proof (cases "P a")
    case True
    with Cons.prems show ?thesis by (intro exI [of _ "[]"] exI [of _ xs]) auto
  next
    case False
    with Cons obtain ys zs where "xs = ys @ x # zs \<and> P x \<and> (\<forall>y \<in> set ys. \<not> P y)" by auto
    with False have "a # xs = (a # ys) @ x # zs \<and> P x \<and> (\<forall>y \<in> set (a # ys). \<not> P y)" by simp
    then show ?thesis by blast
  qed
qed

section \<open>Loops that return the first error\<close>

text \<open>A \<open>range\<close> loop whose body returns an error or goes on: the first error, or nil.\<close>

fun first_err :: "('a \<Rightarrow> 'e option) \<Rightarrow> 'a list \<Rightarrow> 'e option" where
  "first_err f [] = None"
| "first_err f (x # xs) = (case f x of None \<Rightarrow> first_err f xs | Some e \<Rightarrow> Some e)"

lemma first_err_None [simp]: "first_err f xs = None \<longleftrightarrow> (\<forall>x \<in> set xs. f x = None)"
  by (induction xs) (auto split: option.splits)

lemma first_err_Some: "first_err f xs = Some e \<Longrightarrow> \<exists>x \<in> set xs. f x = Some e"
  by (induction xs) (auto split: option.splits)

lemma err_None_simps:
  "(case e of None \<Rightarrow> k | Some x \<Rightarrow> Some x) = None \<longleftrightarrow> e = None \<and> k = None"
  "(if P then Some x else k) = None \<longleftrightarrow> \<not> P \<and> k = None"
  "(if P then None else Some x) = None \<longleftrightarrow> P"
  by (auto split: option.splits)

end
