(* ===== verification/Flow_Types.thy ===== *)
theory Flow_Types
  imports Flow_Prelude
begin

text \<open>
  The data model of flowstep: the structs of \<open>types/*.go\<close> as records, the enumerations as
  datatypes, the sentinel errors of \<open>errors.go\<close> and the error values the packages wrap them in,
  and the constructors and parsers of \<open>types/side_effect.go\<close>. A record field carries a prefix that
  tells its struct (\<open>st_\<close> for \<open>StateDef\<close>, \<open>tr_\<close> for \<open>TransitionDef\<close>, \<open>wi_\<close> for
  \<open>WorkflowInstance\<close>, and so on), since Go reuses field names across structs.
\<close>

section \<open>Errors\<close>

datatype sentinel =
    ErrNoInitialState | ErrMultipleInitialStates | ErrNoTerminalStates | ErrUnreachableState
  | ErrDeadEndState | ErrUnknownState | ErrMissingDefault | ErrDuplicateTransition
  | ErrInstanceNotFound | ErrInvalidTransition | ErrGuardFailed | ErrNoMatchingRoute
  | ErrAlreadyTerminal | ErrWorkflowStuck | ErrConcurrentModification | ErrEngineShutdown
  | ErrNoMatchingSignal | ErrSignalAmbiguous
  | ErrTaskNotFound | ErrTaskExpired | ErrTaskAlreadyCompleted | ErrInvalidChoice
  | ErrSpawnCycle | ErrCompoundStateNoInitialChild | ErrOrphanedChild | ErrCircularHierarchy
  | ErrParallelStateNoRegions | ErrParallelRegionNotCompound | ErrNestedParallelState
  | ErrSnapshotDefinitionMismatch | ErrSnapshotInstanceExists
  | ErrActivityNotRegistered | ErrActivityTimeout | ErrActivityNotFound

text \<open>
  An error value. \<open>Errorf f args cause\<close> is the result of \<open>fmt.Errorf\<close> (or \<open>errors.New\<close>) kept
  unrendered: the format string, its arguments and the error under \<open>%w\<close>, if there is one.
  \<open>TextErr f t\<close> is an \<open>fmt.Errorf\<close> that only prints a text. \<open>UserErr\<close> is an error made by code outside the engine (a guard, an activity, a driver), and
  \<open>Panic\<close> a Go run-time panic, which no code of the engine recovers. A string field that the engine
  fills with \<open>fmt.Sprintf\<close> is a \<open>gtext\<close>, unrendered in the same way; an error printed with \<open>%v\<close>
  is part of the text and not wrapped.
\<close>

datatype gerr =
    Sentinel sentinel
  | Errorf string "gval list" "gerr option"
  | GuardError string gerr
  | ValidationError sentinel string "gval list"
  | TextErr string gtext
  | UserErr nat
  | Panic string
and gtext = Text string | Sprintf string "gval list" gerr

fun err_is :: "gerr \<Rightarrow> sentinel \<Rightarrow> bool" where
  "err_is (Sentinel s) t = (s = t)"
| "err_is (Errorf f args None) t = False"
| "err_is (Errorf f args (Some e)) t = err_is e t"
| "err_is (GuardError g reason) t = (t = ErrGuardFailed \<or> err_is reason t)"
| "err_is (ValidationError s f args) t = (s = t)"
| "err_is (TextErr f x) t = False"
| "err_is (UserErr n) t = False"
| "err_is (Panic m) t = False"

abbreviation qs :: "string list \<Rightarrow> gval list" where
  "qs \<equiv> map GString"

section \<open>Instances, events and activities\<close>

record WorkflowInstance =
  wi_ID :: string
  wi_WorkflowType :: string
  wi_WorkflowVersion :: int
  wi_AggregateType :: string
  wi_AggregateID :: string
  wi_CurrentState :: string
  wi_StateData :: gparams
  wi_CorrelationID :: string
  wi_IsStuck :: bool
  wi_StuckReason :: gtext
  wi_StuckAt :: "gtime option"
  wi_RetryCount :: int
  wi_CreatedAt :: gtime
  wi_UpdatedAt :: gtime
  wi_ShallowHistory :: "(string, string) gomap option"
  wi_DeepHistory :: "(string, string) gomap option"
  wi_ActiveInParallel :: "(string, string) gomap option"
  wi_ParallelClock :: int64
  wi_LastReadUpdatedAt :: gtime

definition zero_instance :: WorkflowInstance where
  "zero_instance =
     \<lparr>wi_ID = [], wi_WorkflowType = [], wi_WorkflowVersion = 0, wi_AggregateType = [],
      wi_AggregateID = [], wi_CurrentState = [], wi_StateData = None, wi_CorrelationID = [],
      wi_IsStuck = False, wi_StuckReason = Text [], wi_StuckAt = None, wi_RetryCount = 0,
      wi_CreatedAt = 0, wi_UpdatedAt = 0, wi_ShallowHistory = None, wi_DeepHistory = None,
      wi_ActiveInParallel = None, wi_ParallelClock = 0, wi_LastReadUpdatedAt = 0\<rparr>"

record DomainEvent =
  ev_ID :: string
  ev_AggregateType :: string
  ev_AggregateID :: string
  ev_WorkflowType :: string
  ev_WorkflowVersion :: int
  ev_EventType :: string
  ev_CorrelationID :: string
  ev_CausationID :: string
  ev_ActorID :: string
  ev_StateBefore :: gparams
  ev_StateAfter :: gparams
  ev_TransitionName :: string
  ev_Error :: gparams
  ev_Payload :: gparams
  ev_CreatedAt :: gtime
  ev_SequenceNum :: int

datatype DispatchMode = FireAndForget | AwaitResult

record ActivityInput =
  in_WorkflowType :: string
  in_AggregateType :: string
  in_AggregateID :: string
  in_CorrelationID :: string
  in_Params :: gparams
  in_ScheduledAt :: gtime
  in_Transition :: string
  in_SourceState :: string
  in_EventID :: string

record ActivityResult =
  ar_Output :: gparams
  ar_Error :: string

text \<open>\<open>BackoffFactor\<close> is a \<open>float64\<close> that nothing reads: it is kept as its 64 bits.\<close>

record RetryPolicy =
  rp_MaxAttempts :: int
  rp_InitialBackoff :: int
  rp_MaxBackoff :: int
  rp_BackoffFactor :: "64 word"

record ActivityInvocation =
  ai_ID :: string
  ai_ActivityName :: string
  ai_WorkflowType :: string
  ai_AggregateType :: string
  ai_AggregateID :: string
  ai_CorrelationID :: string
  ai_Mode :: DispatchMode
  ai_Input :: ActivityInput
  ai_RetryPolicy :: "RetryPolicy option"
  ai_ResultSignals :: "(string, string) gomap option"
  ai_Timeout :: int
  ai_Status :: string
  ai_Result :: "ActivityResult option"
  ai_Attempts :: int
  ai_MaxAttempts :: int
  ai_NextRetryAt :: "gtime option"
  ai_ScheduledAt :: gtime
  ai_StartedAt :: "gtime option"
  ai_CompletedAt :: "gtime option"

definition ActivityStatusScheduled :: string where "ActivityStatusScheduled = ''SCHEDULED''"
definition ActivityStatusFailed :: string where "ActivityStatusFailed = ''FAILED''"

section \<open>Tasks and child workflows\<close>

record TaskDef =
  td_Type :: string
  td_Description :: string
  td_Options :: "string list"
  td_Timeout :: int

record PendingTask =
  tk_ID :: string
  tk_WorkflowType :: string
  tk_AggregateType :: string
  tk_AggregateID :: string
  tk_CorrelationID :: string
  tk_TaskType :: string
  tk_Description :: string
  tk_Options :: "string list"
  tk_State :: string
  tk_AssignedTo :: string
  tk_Timeout :: int
  tk_ExpiresAt :: gtime
  tk_CompletedAt :: "gtime option"
  tk_Choice :: string
  tk_CompletedBy :: string
  tk_Status :: string
  tk_CreatedAt :: gtime

definition TaskStatusPending :: string where "TaskStatusPending = ''PENDING''"
definition TaskStatusCompleted :: string where "TaskStatusCompleted = ''COMPLETED''"
definition TaskStatusExpired :: string where "TaskStatusExpired = ''EXPIRED''"
definition TaskStatusCancelled :: string where "TaskStatusCancelled = ''CANCELLED''"

lemmas status_defs = TaskStatusPending_def TaskStatusCompleted_def TaskStatusExpired_def
  TaskStatusCancelled_def ActivityStatusScheduled_def ActivityStatusFailed_def

record JoinPolicy =
  jp_Mode :: string
  jp_TerminalState :: string
  jp_Count :: int
  jp_CancelSiblings :: bool

definition JoinAll :: JoinPolicy where
  "JoinAll = \<lparr>jp_Mode = ''ALL'', jp_TerminalState = [], jp_Count = 0, jp_CancelSiblings = False\<rparr>"

definition JoinAny :: "string \<Rightarrow> JoinPolicy" where
  "JoinAny terminalState =
     \<lparr>jp_Mode = ''ANY'', jp_TerminalState = terminalState, jp_Count = 0, jp_CancelSiblings = False\<rparr>"

definition JoinN :: "int \<Rightarrow> JoinPolicy" where
  "JoinN n = \<lparr>jp_Mode = ''N'', jp_TerminalState = [], jp_Count = n, jp_CancelSiblings = False\<rparr>"

definition CancelRemaining :: "JoinPolicy \<Rightarrow> JoinPolicy" where
  "CancelRemaining j = j\<lparr>jp_CancelSiblings := True\<rparr>"

record ChildDef =
  cd_WorkflowType :: string
  cd_InputFrom :: string

text \<open>\<open>InputsFn\<close> is a Go function value; \<open>None\<close> is a nil function, whose call panics.\<close>

record ChildrenDef =
  cs_WorkflowType :: string
  cs_InputsFn :: "(gval \<Rightarrow> gparams list) option"
  cs_Join :: JoinPolicy

record ChildRelation =
  cr_ID :: string
  cr_GroupID :: string
  cr_ParentWorkflowType :: string
  cr_ParentAggregateType :: string
  cr_ParentAggregateID :: string
  cr_ChildWorkflowType :: string
  cr_ChildAggregateType :: string
  cr_ChildAggregateID :: string
  cr_CorrelationID :: string
  cr_Status :: string
  cr_ChildTerminalState :: string
  cr_JoinPolicy :: string
  cr_CreatedAt :: gtime
  cr_CompletedAt :: "gtime option"

definition ChildStatusActive :: string where "ChildStatusActive = ''ACTIVE''"
definition ChildStatusCompleted :: string where "ChildStatusCompleted = ''COMPLETED''"

section \<open>Workflow definitions\<close>

datatype TriggerType =
    TriggerDirect | TriggerSignal | TriggerTaskCompleted | TriggerChildCompleted
  | TriggerChildrenJoined | TriggerTimeout

text \<open>\<open>HistoryNone\<close> is the zero value of the Go string type, the mode of a transition without history.\<close>

datatype HistoryMode = HistoryNone | HistoryShallow | HistoryDeep

text \<open>
  A guard is an interface value: its \<open>Check\<close> method (\<open>None\<close> for a nil error), its \<open>Name\<close> method
  if it implements \<open>NamedGuard\<close>, and its dynamic type as \<open>%T\<close> prints it. The documented contract
  is that \<open>Check\<close> is deterministic and only reads its arguments: it is a function of them.
\<close>

record Guard =
  gd_Check :: "WorkflowInstance \<Rightarrow> gparams \<Rightarrow> gerr option"
  gd_Name :: "string option"
  gd_Type :: string

type_synonym Condition = "WorkflowInstance \<Rightarrow> gparams \<Rightarrow> gerr + bool"

record StateDef =
  st_Name :: string
  st_IsInitial :: bool
  st_IsTerminal :: bool
  st_IsWait :: bool
  st_Parent :: string
  st_Children :: "string list"
  st_InitialChild :: string
  st_IsCompound :: bool
  st_IsParallel :: bool
  st_EntryActivity :: string
  st_ExitActivity :: string

record Route =
  rt_Condition :: "Condition option"
  rt_Target :: string
  rt_IsDefault :: bool

record ActivityDef =
  ad_Name :: string
  ad_Mode :: DispatchMode
  ad_RetryPolicy :: "RetryPolicy option"
  ad_ResultSignals :: "(string, string) gomap option"
  ad_Timeout :: int

record TransitionDef =
  tr_Name :: string
  tr_Sources :: "string list"
  tr_Target :: string
  tr_Routes :: "Route list"
  tr_Event :: string
  tr_Guards :: "Guard list"
  tr_Activities :: "ActivityDef list"
  tr_TaskDef :: "TaskDef option"
  tr_ChildDef :: "ChildDef option"
  tr_ChildrenDef :: "ChildrenDef option"
  tr_TriggerType :: TriggerType
  tr_TriggerKey :: string
  tr_AllowSelfTransition :: bool
  tr_HistoryMode :: HistoryMode
  tr_Priority :: int

record Definition =
  df_AggregateType :: string
  df_WorkflowType :: string
  df_Version :: int
  df_States :: "(string, StateDef) gomap"
  df_Transitions :: "(string, TransitionDef) gomap"
  df_InitialState :: string
  df_TerminalStates :: "string list"
  df_Warnings :: "string list"

text \<open>Reading a missing key of a Go map of structs gives the zero struct.\<close>

definition zero_StateDef :: StateDef where
  "zero_StateDef =
     \<lparr>st_Name = [], st_IsInitial = False, st_IsTerminal = False, st_IsWait = False, st_Parent = [],
      st_Children = [], st_InitialChild = [], st_IsCompound = False, st_IsParallel = False,
      st_EntryActivity = [], st_ExitActivity = []\<rparr>"

definition state_of :: "Definition \<Rightarrow> string \<Rightarrow> StateDef" where
  "state_of def name = (case map_of (df_States def) name of None \<Rightarrow> zero_StateDef | Some st \<Rightarrow> st)"

lemma zero_StateDef_sel [simp]:
  "st_Parent zero_StateDef = []" "st_IsCompound zero_StateDef = False"
  "st_IsParallel zero_StateDef = False" "st_IsTerminal zero_StateDef = False"
  "st_Children zero_StateDef = []" "st_InitialChild zero_StateDef = []"
  "st_EntryActivity zero_StateDef = []" "st_ExitActivity zero_StateDef = []"
  by (simp_all add: zero_StateDef_def)

lemma state_of_Some [simp]: "map_of (df_States def) name = Some st \<Longrightarrow> state_of def name = st"
  by (simp add: state_of_def)

lemma state_of_None [simp]: "map_of (df_States def) name = None \<Longrightarrow> state_of def name = zero_StateDef"
  by (simp add: state_of_def)

section \<open>Results, signals, snapshots and observer events\<close>

record PostCommitWarning =
  pw_Operation :: string
  pw_Err :: gerr

record TransitionResult =
  rs_Instance :: WorkflowInstance
  rs_Event :: DomainEvent
  rs_PreviousState :: string
  rs_NewState :: string
  rs_TransitionName :: string
  rs_ActivitiesDispatched :: "string list"
  rs_TaskCreated :: "PendingTask option"
  rs_ChildrenSpawned :: "ChildRelation list"
  rs_IsTerminal :: bool
  rs_Warnings :: "PostCommitWarning list"

record SignalInput =
  si_TargetAggregateType :: string
  si_TargetAggregateID :: string
  si_SignalName :: string
  si_Payload :: gparams
  si_ActorID :: string

record Snapshot =
  sn_InstanceID :: string
  sn_WorkflowType :: string
  sn_WorkflowVersion :: int
  sn_AggregateType :: string
  sn_AggregateID :: string
  sn_CurrentState :: string
  sn_StateData :: gparams
  sn_CorrelationID :: string
  sn_IsStuck :: bool
  sn_StuckReason :: gtext
  sn_StuckAt :: "gtime option"
  sn_RetryCount :: int
  sn_CreatedAt :: gtime
  sn_ShallowHistory :: "(string, string) gomap option"
  sn_DeepHistory :: "(string, string) gomap option"
  sn_ActiveInParallel :: "(string, string) gomap option"
  sn_ParallelClock :: int64
  sn_DefinitionHash :: string
  sn_CapturedAt :: gtime

text \<open>The event structs of \<open>types/observer.go\<close>, one constructor each.\<close>

datatype ObserverEvent =
    TransitionEvent TransitionResult int
  | GuardFailureEvent string string string gerr
  | ActivityDispatchedEvent ActivityInvocation
  | ActivityCompletedEvent ActivityInvocation "ActivityResult option"
  | ActivityFailedEvent ActivityInvocation gerr
  | StuckEvent WorkflowInstance gtext
  | PostCommitErrorEvent string gerr

section \<open>Side-effect and activity-outcome events\<close>

definition zero_DomainEvent :: DomainEvent where
  "zero_DomainEvent =
     \<lparr>ev_ID = [], ev_AggregateType = [], ev_AggregateID = [], ev_WorkflowType = [],
      ev_WorkflowVersion = 0, ev_EventType = [], ev_CorrelationID = [], ev_CausationID = [],
      ev_ActorID = [], ev_StateBefore = None, ev_StateAfter = None, ev_TransitionName = [],
      ev_Error = None, ev_Payload = None, ev_CreatedAt = 0, ev_SequenceNum = 0\<rparr>"

definition NewSideEffectEvent ::
  "string \<Rightarrow> string \<Rightarrow> string \<Rightarrow> string \<Rightarrow> int \<Rightarrow> string \<Rightarrow> string \<Rightarrow> gval \<Rightarrow> gtime \<Rightarrow> DomainEvent" where
  "NewSideEffectEvent evID aggregateType aggregateID workflowType workflowVersion correlationID
     name result now =
     zero_DomainEvent
       \<lparr>ev_ID := evID, ev_AggregateType := aggregateType, ev_AggregateID := aggregateID,
        ev_WorkflowType := workflowType, ev_WorkflowVersion := workflowVersion,
        ev_EventType := ''SideEffect'', ev_CorrelationID := correlationID, ev_CreatedAt := now,
        ev_Payload := Some [(''_side_effect_name'', GString name),
                            (''_side_effect_result'', result)]\<rparr>"

text \<open>A type assertion to \<open>string\<close> whose failure yields the empty string, as \<open>s, _ := v.(string)\<close> does.\<close>

definition assert_string :: "gval option \<Rightarrow> string" where
  "assert_string v = (case v of Some (GString s) \<Rightarrow> s | _ \<Rightarrow> [])"

definition ParseSideEffect :: "DomainEvent \<Rightarrow> string \<times> gval \<times> bool" where
  "ParseSideEffect event =
     (if ev_EventType event \<noteq> ''SideEffect'' then ([], GNil, False)
      else (assert_string (mlook (ev_Payload event) ''_side_effect_name''),
            (case mlook (ev_Payload event) ''_side_effect_result'' of None \<Rightarrow> GNil | Some r \<Rightarrow> r), True))"

definition NewActivityOutcomeEvent ::
  "string \<Rightarrow> string \<Rightarrow> string \<Rightarrow> string \<Rightarrow> int \<Rightarrow> string \<Rightarrow> string \<Rightarrow> string \<Rightarrow> ActivityResult \<Rightarrow> string \<Rightarrow>
     gtime \<Rightarrow> DomainEvent" where
  "NewActivityOutcomeEvent evID aggregateType aggregateID workflowType workflowVersion correlationID
     activityID activityName result transitionPath now =
     zero_DomainEvent
       \<lparr>ev_ID := evID, ev_AggregateType := aggregateType, ev_AggregateID := aggregateID,
        ev_WorkflowType := workflowType, ev_WorkflowVersion := workflowVersion,
        ev_EventType := ''ActivityOutcome'', ev_CorrelationID := correlationID, ev_CreatedAt := now,
        ev_Payload := Some [(''_activity_id'', GString activityID),
                            (''_activity_name'', GString activityName),
                            (''_activity_result'',
                               GMap (Some [(''output'', GMap (ar_Output result)),
                                           (''error'', GString (ar_Error result))])),
                            (''_transition_path'', GString transitionPath)]\<rparr>"

definition ParseActivityOutcome ::
  "DomainEvent \<Rightarrow> string \<times> string \<times> ActivityResult \<times> string \<times> bool" where
  "ParseActivityOutcome event =
     (if ev_EventType event \<noteq> ''ActivityOutcome''
      then ([], [], \<lparr>ar_Output = None, ar_Error = []\<rparr>, [], False)
      else (assert_string (mlook (ev_Payload event) ''_activity_id''),
            assert_string (mlook (ev_Payload event) ''_activity_name''),
            (case mlook (ev_Payload event) ''_activity_result'' of
               Some (GMap resultMap) \<Rightarrow>
                 \<lparr>ar_Output = (case mlook resultMap ''output'' of Some (GMap output) \<Rightarrow> output | _ \<Rightarrow> None),
                  ar_Error = assert_string (mlook resultMap ''error'')\<rparr>
             | _ \<Rightarrow> \<lparr>ar_Output = None, ar_Error = []\<rparr>),
            assert_string (mlook (ev_Payload event) ''_transition_path''), True))"

lemma ParseSideEffect_New:
  "ParseSideEffect (NewSideEffectEvent i at aid wt wv cid name result now) = (name, result, True)"
  by (simp add: ParseSideEffect_def NewSideEffectEvent_def zero_DomainEvent_def assert_string_def)

lemma ParseActivityOutcome_New:
  "ParseActivityOutcome (NewActivityOutcomeEvent i at aid wt wv cid actID actName result path now) =
     (actID, actName, result, path, True)"
  by (cases result)
    (simp add: ParseActivityOutcome_def NewActivityOutcomeEvent_def zero_DomainEvent_def
      assert_string_def)

end
