(* ===== verification/Flow_Samples.thy ===== *)
theory Flow_Samples
  imports Flow_Types
begin

text \<open>
  Concrete workflow definitions on which the witnesses of the development evaluate the model: an
  order workflow with a compound state, history and a parallel state, and a hierarchy whose parent
  links form a cycle. They model no source file.
\<close>

definition s_leaf :: "string \<Rightarrow> string \<Rightarrow> StateDef" where
  "s_leaf name parent = zero_StateDef\<lparr>st_Name := name, st_Parent := parent\<rparr>"

definition s_compound :: "string \<Rightarrow> string \<Rightarrow> string list \<Rightarrow> StateDef" where
  "s_compound name parent children =
     zero_StateDef\<lparr>st_Name := name, st_Parent := parent, st_IsCompound := True,
       st_Children := children, st_InitialChild := hd children\<rparr>"

definition s_parallel :: "string \<Rightarrow> string list \<Rightarrow> StateDef" where
  "s_parallel name regions =
     zero_StateDef\<lparr>st_Name := name, st_IsCompound := True, st_IsParallel := True,
       st_Children := regions\<rparr>"

definition s_edge :: "string \<Rightarrow> string list \<Rightarrow> string \<Rightarrow> TransitionDef" where
  "s_edge name sources target =
     \<lparr>tr_Name = name, tr_Sources = sources, tr_Target = target, tr_Routes = [], tr_Event = name,
      tr_Guards = [], tr_Activities = [], tr_TaskDef = None, tr_ChildDef = None,
      tr_ChildrenDef = None, tr_TriggerType = TriggerDirect, tr_TriggerKey = [],
      tr_AllowSelfTransition = False, tr_HistoryMode = HistoryNone, tr_Priority = 0\<rparr>"

text \<open>
  \<open>NEW\<close> leads into the compound \<open>PROC\<close> (children \<open>REVIEW\<close>, \<open>PACK\<close>), from there into the
  parallel \<open>SHIP\<close> (regions \<open>LABEL\<close> and \<open>PICKUP\<close>) and to \<open>DONE\<close>; \<open>pause\<close> leaves \<open>PROC\<close> for
  \<open>HOLD\<close>, \<open>resume\<close> comes back with deep history.
\<close>

definition order_states :: "(string, StateDef) gomap" where
  "order_states =
     [(''NEW'', (s_leaf ''NEW'' [])\<lparr>st_IsInitial := True\<rparr>),
      (''PROC'', s_compound ''PROC'' [] [''REVIEW'', ''PACK'']),
      (''REVIEW'', (s_leaf ''REVIEW'' ''PROC'')\<lparr>st_IsWait := True\<rparr>),
      (''PACK'', s_leaf ''PACK'' ''PROC''),
      (''HOLD'', s_leaf ''HOLD'' []),
      (''SHIP'', s_parallel ''SHIP'' [''LABEL'', ''PICKUP'']),
      (''LABEL'', s_compound ''LABEL'' ''SHIP'' [''PRINT'', ''PRINTED'']),
      (''PRINT'', s_leaf ''PRINT'' ''LABEL''),
      (''PRINTED'', s_leaf ''PRINTED'' ''LABEL''),
      (''PICKUP'', s_compound ''PICKUP'' ''SHIP'' [''AWAIT'']),
      (''AWAIT'', s_leaf ''AWAIT'' ''PICKUP''),
      (''DONE'', (s_leaf ''DONE'' [])\<lparr>st_IsTerminal := True\<rparr>)]"

definition order_transitions :: "(string, TransitionDef) gomap" where
  "order_transitions =
     [(''begin'', s_edge ''begin'' [''NEW''] ''PROC''),
      (''pack'', s_edge ''pack'' [''REVIEW''] ''PACK''),
      (''pause'', s_edge ''pause'' [''PROC''] ''HOLD''),
      (''resume'', (s_edge ''resume'' [''HOLD''] ''PROC'')\<lparr>tr_HistoryMode := HistoryDeep\<rparr>),
      (''ship'', s_edge ''ship'' [''PACK''] ''SHIP''),
      (''print'', s_edge ''print'' [''PRINT''] ''PRINTED''),
      (''finish'', s_edge ''finish'' [''SHIP''] ''DONE'')]"

definition order_def :: Definition where
  "order_def =
     \<lparr>df_AggregateType = ''order'', df_WorkflowType = ''order_workflow'', df_Version = 1,
      df_States = order_states, df_Transitions = order_transitions, df_InitialState = ''NEW'',
      df_TerminalStates = [''DONE''], df_Warnings = []\<rparr>"

text \<open>
  \<open>A\<close> and \<open>B\<close> are each other's parent; the leaf \<open>C\<close> hangs below \<open>A\<close> and no transition leaves
  any of the three.
\<close>

definition circular_def :: Definition where
  "circular_def =
     \<lparr>df_AggregateType = ''loop'', df_WorkflowType = ''loop_workflow'', df_Version = 1,
      df_States =
        [(''I'', (s_leaf ''I'' [])\<lparr>st_IsInitial := True\<rparr>),
         (''T'', (s_leaf ''T'' [])\<lparr>st_IsTerminal := True\<rparr>),
         (''A'', s_compound ''A'' ''B'' [''C'', ''B'']),
         (''B'', s_compound ''B'' ''A'' [''A'']),
         (''C'', s_leaf ''C'' ''A'')],
      df_Transitions = [(''go'', s_edge ''go'' [''I''] ''T'')],
      df_InitialState = ''I'', df_TerminalStates = [''T''], df_Warnings = []\<rparr>"

lemmas sample_defs = s_leaf_def s_compound_def s_parallel_def s_edge_def zero_StateDef_def

end
