(* ===== verification/Flow_Compile.thy ===== *)
theory Flow_Compile
  imports Flow_Samples
begin

text \<open>
  \<open>internal/graph/compiled.go\<close>: the compiled machine, its ancestry chains, initial leaves, region
  index and transition index, the lowest common ancestor, and the canonical form that the
  definition hash digests. The reference notions are the parent relation of a definition and the
  chain of its parent links; the lemmas show that the memoising recursions of the code compute them.
\<close>

section \<open>Data\<close>

record CompiledTransition =
  ct_Def :: TransitionDef
  ct_GuardNames :: "string list"

record CompiledMachine =
  cm_Definition :: Definition
  cm_Ancestry :: "(string, string list) gomap"
  cm_DepthMap :: "(string, nat) gomap"
  cm_InitialLeafMap :: "(string, string) gomap"
  cm_RegionIndex :: "(string, string list) gomap"
  cm_DefinitionHash :: string
  cm_TransitionsByState :: "(string, CompiledTransition list) gomap"

text \<open>Reading a missing key of a map of slices gives the nil slice, which ranges like an empty one.\<close>

definition anc_of :: "(string, string list) gomap \<Rightarrow> string \<Rightarrow> string list" where
  "anc_of ancestry s = (case map_of ancestry s of None \<Rightarrow> [] | Some xs \<Rightarrow> xs)"

definition LCA :: "CompiledMachine \<Rightarrow> string \<Rightarrow> string \<Rightarrow> string \<times> bool" where
  "LCA cm stateA stateB =
     (let ancestorsA = anc_of (cm_Ancestry cm) stateA;
          ancestorsB = anc_of (cm_Ancestry cm) stateB
      in if ancestorsA = [] then ([], False)
         else if ancestorsB = [] then ([], False)
         else (case find (\<lambda>a. a \<in> set ancestorsB) ancestorsA of
                 Some a \<Rightarrow> (a, True)
               | None \<Rightarrow> ([], False)))"

section \<open>Ancestry\<close>

function buildAncestry ::
  "Definition \<Rightarrow> string \<Rightarrow> (string, string list) gomap \<Rightarrow> string list \<Rightarrow>
     (gerr + string list) \<times> (string, string list) gomap" where
  "buildAncestry def name memo visiting =
     (case map_of memo name of
        Some chain \<Rightarrow> (Inr chain, memo)
      | None \<Rightarrow>
          (case map_of (df_States def) name of
             None \<Rightarrow> (Inr [], mput name [] memo)
           | Some st \<Rightarrow>
               if st_Parent st = [] then (Inr [], mput name [] memo)
               else if name \<in> set visiting then
                 (Inl (ValidationError ErrCircularHierarchy
                    ''flowstep: circular parent-child hierarchy detected at state %q'' (qs [name])),
                  memo)
               else
                 (case buildAncestry def (st_Parent st) memo (name # visiting) of
                    (Inl e, memo') \<Rightarrow> (Inl e, memo')
                  | (Inr parentChain, memo') \<Rightarrow>
                      (Inr (st_Parent st # parentChain),
                       mput name (st_Parent st # parentChain) memo'))))"
  by pat_completeness auto
termination
proof (relation "inv_image finite_psubset
    (\<lambda>(def, name, memo, visiting). fst ` set (df_States def) - set visiting)", goal_cases)
  case 1
  show ?case by (simp add: wf_finite_psubset)
next
  case (2 def name memo visiting st)
  then have "name \<in> fst ` set (df_States def)"
    by (metis map_of_key_iff)
  with 2 show ?case by (auto simp: finite_psubset_def)
qed

declare buildAncestry.simps [simp del]

text \<open>The loop of \<open>Compile\<close> over all states, threading the memo.\<close>

fun ancestryLoop ::
  "Definition \<Rightarrow> string list \<Rightarrow> (string, string list) gomap \<Rightarrow> (string, string list) gomap \<Rightarrow>
     (string, nat) gomap \<Rightarrow> gerr + (string, string list) gomap \<times> (string, nat) gomap" where
  "ancestryLoop def [] memo anc depth = Inr (anc, depth)"
| "ancestryLoop def (name # names) memo anc depth =
     (case buildAncestry def name memo [] of
        (Inl e, _) \<Rightarrow> Inl e
      | (Inr chain, memo') \<Rightarrow>
          ancestryLoop def names memo' (if chain \<noteq> [] then mput name chain anc else anc)
            (mput name (length chain) depth))"

section \<open>Initial leaves\<close>

text \<open>
  The recursion follows \<open>InitialChild\<close> links. Nothing in the function bounds it, so \<open>None\<close> stands
  for a recursion that does not return.
\<close>

partial_function (option) resolveInitialLeaf ::
  "Definition \<Rightarrow> string \<Rightarrow> (string, string) gomap \<Rightarrow> (string \<times> (string, string) gomap) option" where
  "resolveInitialLeaf def name memo =
     (case map_of memo name of
        Some leaf \<Rightarrow> Some (leaf, memo)
      | None \<Rightarrow>
          (if \<not> st_IsCompound (state_of def name) \<or> st_InitialChild (state_of def name) = []
           then Some (name, memo)
           else Option.bind (resolveInitialLeaf def (st_InitialChild (state_of def name)) memo)
                  (\<lambda>(leaf, memo'). Some (leaf, mput name leaf memo'))))"

declare resolveInitialLeaf.simps [code]

definition hasInitialLeaf :: "StateDef \<Rightarrow> bool" where
  "hasInitialLeaf st \<longleftrightarrow> st_IsCompound st \<and> \<not> st_IsParallel st \<and> st_InitialChild st \<noteq> []"

fun initialLeafLoop ::
  "Definition \<Rightarrow> (string \<times> StateDef) list \<Rightarrow> (string, string) gomap \<Rightarrow> (string, string) gomap \<Rightarrow>
     (string, string) gomap option" where
  "initialLeafLoop def [] memo leafMap = Some leafMap"
| "initialLeafLoop def ((name, st) # rest) memo leafMap =
     (if hasInitialLeaf st
      then Option.bind (resolveInitialLeaf def name memo)
             (\<lambda>(leaf, memo'). initialLeafLoop def rest memo' (mput name leaf leafMap))
      else initialLeafLoop def rest memo leafMap)"

section \<open>Region index, guard names and transition index\<close>

fun regionLoop :: "(string \<times> StateDef) list \<Rightarrow> (string, string list) gomap \<Rightarrow> (string, string list) gomap" where
  "regionLoop [] idx = idx"
| "regionLoop ((name, st) # rest) idx =
     regionLoop rest (if st_IsParallel st then mput name (st_Children st) idx else idx)"

definition resolveGuardNames :: "Guard list \<Rightarrow> string list" where
  "resolveGuardNames guards =
     map (\<lambda>g. case gd_Name g of Some n \<Rightarrow> n | None \<Rightarrow> gd_Type g) guards"

definition compileTransition :: "TransitionDef \<Rightarrow> CompiledTransition" where
  "compileTransition tr = \<lparr>ct_Def = tr, ct_GuardNames = resolveGuardNames (tr_Guards tr)\<rparr>"

definition cts_of :: "(string, CompiledTransition list) gomap \<Rightarrow> string \<Rightarrow> CompiledTransition list" where
  "cts_of m s = (case map_of m s of None \<Rightarrow> [] | Some cts \<Rightarrow> cts)"

fun addSources ::
  "CompiledTransition \<Rightarrow> string list \<Rightarrow> (string, CompiledTransition list) gomap \<Rightarrow>
     (string, CompiledTransition list) gomap" where
  "addSources ct [] m = m"
| "addSources ct (src # srcs) m = addSources ct srcs (mput src (cts_of m src @ [ct]) m)"

fun transitionLoop ::
  "(string \<times> TransitionDef) list \<Rightarrow> (string, CompiledTransition list) gomap \<Rightarrow>
     (string, CompiledTransition list) gomap" where
  "transitionLoop [] m = m"
| "transitionLoop ((_, tr) # rest) m =
     transitionLoop rest (addSources (compileTransition tr) (tr_Sources tr) m)"

fun ensureStates ::
  "string list \<Rightarrow> (string, CompiledTransition list) gomap \<Rightarrow> (string, CompiledTransition list) gomap" where
  "ensureStates [] m = m"
| "ensureStates (name # names) m =
     ensureStates names (case map_of m name of None \<Rightarrow> mput name [] m | Some _ \<Rightarrow> m)"

section \<open>Canonical form and hash\<close>

text \<open>Decimal printing (\<open>%d\<close>), booleans and string slices under \<open>%v\<close>.\<close>

fun show_nat :: "nat \<Rightarrow> string" where
  "show_nat n = (if n < 10 then [char_of (48 + n)] else show_nat (n div 10) @ [char_of (48 + n mod 10)])"

declare show_nat.simps [simp del]

definition show_int :: "int \<Rightarrow> string" where
  "show_int i = (if i < 0 then ''-'' @ show_nat (nat (- i)) else show_nat (nat i))"

definition show_bool :: "bool \<Rightarrow> string" where
  "show_bool b = (if b then ''true'' else ''false'')"

fun join_with :: "string \<Rightarrow> string list \<Rightarrow> string" where
  "join_with sep [] = []"
| "join_with sep [x] = x"
| "join_with sep (x # y # ys) = x @ sep @ join_with sep (y # ys)"

definition show_slice :: "string list \<Rightarrow> string" where
  "show_slice xs = ''['' @ join_with '' '' xs @ '']''"

fun show_trigger :: "TriggerType \<Rightarrow> string" where
  "show_trigger TriggerDirect = ''DIRECT''"
| "show_trigger TriggerSignal = ''SIGNAL''"
| "show_trigger TriggerTaskCompleted = ''TASK_COMPLETED''"
| "show_trigger TriggerChildCompleted = ''CHILD_COMPLETED''"
| "show_trigger TriggerChildrenJoined = ''CHILDREN_JOINED''"
| "show_trigger TriggerTimeout = ''TIMEOUT''"

fun show_history :: "HistoryMode \<Rightarrow> string" where
  "show_history HistoryNone = []"
| "show_history HistoryShallow = ''SHALLOW''"
| "show_history HistoryDeep = ''DEEP''"

fun show_mode :: "DispatchMode \<Rightarrow> string" where
  "show_mode FireAndForget = ''FIRE_AND_FORGET''"
| "show_mode AwaitResult = ''AWAIT_RESULT''"

definition newline :: string where "newline = [char_of (10::nat)]"

definition canonState :: "StateDef \<Rightarrow> string" where
  "canonState st =
     ''state:'' @ st_Name st @ ''|init:'' @ show_bool (st_IsInitial st) @ ''|term:'' @
     show_bool (st_IsTerminal st) @ ''|wait:'' @ show_bool (st_IsWait st) @ ''|parent:'' @
     st_Parent st @ ''|children:'' @ show_slice (sort (st_Children st)) @ ''|initialChild:'' @
     st_InitialChild st @ ''|compound:'' @ show_bool (st_IsCompound st) @ ''|parallel:'' @
     show_bool (st_IsParallel st) @ ''|entry:'' @ st_EntryActivity st @ ''|exit:'' @
     st_ExitActivity st @ newline"

definition canonActivity :: "ActivityDef \<Rightarrow> string" where
  "canonActivity a =
     ''act:'' @ ad_Name a @ ''|mode:'' @ show_mode (ad_Mode a) @ ''|timeout:'' @
     show_int (ad_Timeout a) @ newline @
     concat (map (\<lambda>k. ''sig:'' @ k @ ''->'' @
                       (case mlook (ad_ResultSignals a) k of None \<Rightarrow> [] | Some v \<Rightarrow> v) @ newline)
                 (sort (mkeys (mitems (ad_ResultSignals a)))))"

text \<open>\<open>actMap\<close> keeps the last activity of each name.\<close>

definition actMap :: "ActivityDef list \<Rightarrow> (string, ActivityDef) gomap" where
  "actMap acts = fold (\<lambda>a m. mput (ad_Name a) a m) acts []"

definition canonActivities :: "ActivityDef list \<Rightarrow> string" where
  "canonActivities acts =
     concat (map (\<lambda>n. case map_of (actMap acts) n of None \<Rightarrow> [] | Some a \<Rightarrow> canonActivity a)
                 (sort (map ad_Name acts)))"

definition canonTransition :: "TransitionDef \<Rightarrow> string" where
  "canonTransition tr =
     ''tr:'' @ tr_Name tr @ ''|srcs:'' @ show_slice (sort (tr_Sources tr)) @ ''|target:'' @
     tr_Target tr @ ''|event:'' @ tr_Event tr @ ''|trigger:'' @ show_trigger (tr_TriggerType tr) @
     ''|key:'' @ tr_TriggerKey tr @ ''|history:'' @ show_history (tr_HistoryMode tr) @
     ''|priority:'' @ show_int (tr_Priority tr) @ newline @ canonActivities (tr_Activities tr)"

definition canonHeader :: "Definition \<Rightarrow> string" where
  "canonHeader def =
     ''agg:'' @ df_AggregateType def @ ''|wf:'' @ df_WorkflowType def @ ''|ver:'' @
     show_int (df_Version def) @ ''|init:'' @ df_InitialState def @ newline @
     ''terminals:'' @ show_slice (sort (df_TerminalStates def)) @ newline"

text \<open>
  The bytes written to the hash, and the hash. \<open>digest\<close> is SHA-256 followed by the hexadecimal
  rendering; only that it is a function of the bytes is used.
\<close>

definition canonical :: "Definition \<Rightarrow> string" where
  "canonical def =
     canonHeader def @
     concat (map (\<lambda>n. canonState (state_of def n)) (sort (mkeys (df_States def)))) @
     concat (map (\<lambda>n. case map_of (df_Transitions def) n of None \<Rightarrow> [] | Some tr \<Rightarrow> canonTransition tr)
                 (sort (mkeys (df_Transitions def))))"

definition computeHash :: "(string \<Rightarrow> string) \<Rightarrow> Definition \<Rightarrow> string" where
  "computeHash digest def = digest (canonical def)"

definition HashDefinition :: "(string \<Rightarrow> string) \<Rightarrow> Definition \<Rightarrow> string" where
  "HashDefinition digest def = computeHash digest def"

section \<open>Compile\<close>

definition Compile :: "(string \<Rightarrow> string) \<Rightarrow> Definition \<Rightarrow> (gerr + CompiledMachine) option" where
  "Compile digest def =
     (case ancestryLoop def (mkeys (df_States def)) [] [] [] of
        Inl e \<Rightarrow> Some (Inl e)
      | Inr (anc, depth) \<Rightarrow>
          Option.bind (initialLeafLoop def (df_States def) [] [])
            (\<lambda>leafMap. Some (Inr
               \<lparr>cm_Definition = def, cm_Ancestry = anc, cm_DepthMap = depth,
                cm_InitialLeafMap = leafMap, cm_RegionIndex = regionLoop (df_States def) [],
                cm_DefinitionHash = computeHash digest def,
                cm_TransitionsByState =
                  ensureStates (mkeys (df_States def)) (transitionLoop (df_Transitions def) [])\<rparr>)))"

section \<open>The parent relation\<close>

definition parent_of :: "Definition \<Rightarrow> string \<Rightarrow> string" where
  "parent_of def n = st_Parent (state_of def n)"

definition parent_rel :: "Definition \<Rightarrow> (string \<times> string) set" where
  "parent_rel def = {(n, p). p = parent_of def n \<and> p \<noteq> []}"

inductive chain :: "Definition \<Rightarrow> string \<Rightarrow> string list \<Rightarrow> bool" for def where
  chain_root: "parent_of def n = [] \<Longrightarrow> chain def n []"
| chain_step: "parent_of def n \<noteq> [] \<Longrightarrow> chain def (parent_of def n) ps \<Longrightarrow>
     chain def n (parent_of def n # ps)"

inductive_simps chain_Nil_iff [simp]: "chain def n []"
inductive_simps chain_Cons_iff: "chain def n (p # ps)"

lemma parent_relD: "(n, p) \<in> parent_rel def \<Longrightarrow> p = parent_of def n \<and> p \<noteq> []"
  by (auto simp: parent_rel_def)

lemma parent_of_key: "parent_of def n \<noteq> [] \<Longrightarrow> n \<in> fst ` set (df_States def)"
  by (metis parent_of_def state_of_None zero_StateDef_sel(1) map_of_None_iff)

lemma finite_parent_rel: "finite (parent_rel def)"
proof -
  have "parent_rel def \<subseteq> (\<lambda>n. (n, parent_of def n)) ` fst ` set (df_States def)"
    by (auto simp: parent_rel_def dest: parent_of_key)
  then show ?thesis by (rule finite_subset) simp
qed

lemma chain_unique: "chain def n c \<Longrightarrow> chain def n c' \<Longrightarrow> c = c'"
proof (induction arbitrary: c' rule: chain.induct)
  case (chain_root n)
  then show ?case by (auto elim: chain.cases)
next
  case (chain_step n ps)
  from chain_step.prems chain_step.hyps(1) obtain ps' where
    "c' = parent_of def n # ps'" "chain def (parent_of def n) ps'"
    by (auto elim: chain.cases)
  with chain_step.IH show ?case by blast
qed

lemma chain_set: "chain def n c \<Longrightarrow> set c = {m. (n, m) \<in> (parent_rel def)\<^sup>+}"
proof (induction rule: chain.induct)
  case (chain_root n)
  have "(n, m) \<notin> (parent_rel def)\<^sup>+" for m
    using chain_root by (auto dest!: tranclD simp: parent_rel_def)
  then show ?case by simp
next
  case (chain_step n ps)
  let ?p = "parent_of def n"
  have e: "(n, ?p) \<in> parent_rel def" using chain_step.hyps(1) by (simp add: parent_rel_def)
  have "(n, m) \<in> (parent_rel def)\<^sup>+ \<longleftrightarrow> m = ?p \<or> (?p, m) \<in> (parent_rel def)\<^sup>+" for m
  proof
    assume "(n, m) \<in> (parent_rel def)\<^sup>+"
    then show "m = ?p \<or> (?p, m) \<in> (parent_rel def)\<^sup>+"
      by (auto dest!: tranclD rtranclD simp: parent_rel_def)
  next
    assume "m = ?p \<or> (?p, m) \<in> (parent_rel def)\<^sup>+"
    with e show "(n, m) \<in> (parent_rel def)\<^sup>+" by (auto intro: trancl_into_trancl2)
  qed
  with chain_step.IH show ?case by auto
qed

lemma chain_suffix: "chain def n (xs @ m # ys) \<Longrightarrow> chain def m ys"
proof (induction xs arbitrary: n)
  case Nil
  then show ?case by (auto simp: chain_Cons_iff)
next
  case (Cons x xs)
  then show ?case by (auto simp: chain_Cons_iff)
qed

lemma chain_not_self: "chain def n c \<Longrightarrow> n \<notin> set c"
proof
  assume c: "chain def n c" and "n \<in> set c"
  then obtain xs ys where "c = xs @ n # ys" by (auto simp: in_set_conv_decomp)
  with chain_suffix chain_unique c have "c = ys" by metis
  with \<open>c = xs @ n # ys\<close> show False by simp
qed

lemma chain_distinct: "chain def n c \<Longrightarrow> distinct c"
proof (induction rule: chain.induct)
  case (chain_step n ps)
  then show ?case by (auto dest: chain_not_self)
qed simp

lemma chain_nonempty_names: "chain def n c \<Longrightarrow> [] \<notin> set c"
  by (induction rule: chain.induct) auto

lemma chain_acyclic: "chain def n c \<Longrightarrow> (n, n) \<notin> (parent_rel def)\<^sup>+"
  using chain_not_self chain_set by blast

lemma chain_exists_of_acyclic:
  assumes "acyclic (parent_rel def)"
  shows "\<exists>c. chain def n c"
proof -
  from assms have "wf ((parent_rel def)\<inverse>)"
    by (simp add: finite_parent_rel finite_acyclic_wf_converse)
  then show ?thesis
  proof (induction n rule: wf_induct_rule)
    case (less n)
    show ?case
    proof (cases "parent_of def n = []")
      case True
      then show ?thesis by (blast intro: chain_root)
    next
      case False
      then have "(parent_of def n, n) \<in> (parent_rel def)\<inverse>" by (simp add: parent_rel_def)
      from less [OF this] False show ?thesis by (blast intro: chain_step)
    qed
  qed
qed

section \<open>buildAncestry computes the chain\<close>

definition memo_ok :: "Definition \<Rightarrow> (string, string list) gomap \<Rightarrow> bool" where
  "memo_ok def memo \<longleftrightarrow> (\<forall>n c. map_of memo n = Some c \<longrightarrow> chain def n c)"

lemma memo_ok_Nil [simp]: "memo_ok def []"
  by (simp add: memo_ok_def)

lemma memo_ok_mput [simp]: "memo_ok def memo \<Longrightarrow> chain def n c \<Longrightarrow> memo_ok def (mput n c memo)"
  by (simp add: memo_ok_def)

lemma buildAncestry_Inr:
  "buildAncestry def name memo visiting = (Inr c, memo') \<Longrightarrow> memo_ok def memo \<Longrightarrow>
     chain def name c \<and> memo_ok def memo'"
proof (induction def name memo visiting arbitrary: c memo' rule: buildAncestry.induct)
  case (1 def name memo visiting)
  note eq = 1(2) [unfolded buildAncestry.simps [of def name memo visiting]]
  show ?case
  proof (cases "map_of memo name")
    case (Some chain)
    with eq 1(3) show ?thesis by (auto simp: memo_ok_def)
  next
    case N: None
    show ?thesis
    proof (cases "parent_of def name = []")
      case True
      with eq N 1(3) show ?thesis
        by (auto simp: parent_of_def chain_root split: option.splits if_splits)
    next
      case False
      then obtain st where st: "map_of (df_States def) name = Some st" "st_Parent st \<noteq> []"
          "parent_of def name = st_Parent st"
        by (cases "map_of (df_States def) name") (auto simp: parent_of_def)
      with eq N obtain pc m where
        r: "buildAncestry def (st_Parent st) memo (name # visiting) = (Inr pc, m)"
        and "c = st_Parent st # pc" "memo' = mput name (st_Parent st # pc) m" "name \<notin> set visiting"
        by (auto split: if_splits prod.splits sum.splits)
      with 1(1) [OF N st(1,2) _ r 1(3)] st(2,3) show ?thesis
        by (auto simp: chain_Cons_iff)
    qed
  qed
qed

lemma buildAncestry_Inl:
  "buildAncestry def name memo visiting = (Inl e, memo') \<Longrightarrow> memo_ok def memo \<Longrightarrow>
     (\<And>v. v \<in> set visiting \<Longrightarrow> (v, name) \<in> (parent_rel def)\<^sup>+) \<Longrightarrow>
     err_is e ErrCircularHierarchy \<and> (\<exists>n. (n, n) \<in> (parent_rel def)\<^sup>+)"
proof (induction def name memo visiting arbitrary: memo' rule: buildAncestry.induct)
  case (1 def name memo visiting)
  note eq = 1(2) [unfolded buildAncestry.simps [of def name memo visiting]]
  then have N: "map_of memo name = None"
    by (auto split: option.splits)
  from eq obtain st where st: "map_of (df_States def) name = Some st" "st_Parent st \<noteq> []"
    by (auto split: option.splits if_splits)
  show ?case
  proof (cases "name \<in> set visiting")
    case True
    with eq N st 1(4) [OF True] show ?thesis by auto
  next
    case False
    from eq N st False have r: "buildAncestry def (st_Parent st) memo (name # visiting) = (Inl e, memo')"
      by (auto split: prod.splits sum.splits)
    have p: "(name, st_Parent st) \<in> parent_rel def" using st by (simp add: parent_rel_def parent_of_def)
    show ?thesis
    proof (rule 1(1) [OF N st False r 1(3)])
      fix v assume "v \<in> set (name # visiting)"
      with p 1(4) show "(v, st_Parent st) \<in> (parent_rel def)\<^sup>+"
        by (auto intro: trancl_into_trancl)
    qed
  qed
qed

definition anc_inv ::
  "Definition \<Rightarrow> (string, string list) gomap \<Rightarrow> (string, nat) gomap \<Rightarrow> bool" where
  "anc_inv def anc depth \<longleftrightarrow>
     (\<forall>n c. map_of anc n = Some c \<longrightarrow> chain def n c \<and> c \<noteq> []) \<and>
     (\<forall>n k. map_of depth n = Some k \<longrightarrow> chain def n (anc_of anc n) \<and> k = length (anc_of anc n))"

lemma anc_inv_step:
  assumes "anc_inv def anc depth" and c: "chain def name c"
  shows "anc_inv def (if c \<noteq> [] then mput name c anc else anc) (mput name (length c) depth)"
proof (cases "c = []")
  case True
  have "anc_of anc name = []"
  proof (cases "map_of anc name")
    case (Some c')
    with assms(1) have "chain def name c'" "c' \<noteq> []" by (auto simp: anc_inv_def)
    with c True chain_unique show ?thesis by blast
  qed (simp add: anc_of_def)
  with True assms show ?thesis by (auto simp: anc_inv_def)
next
  case False
  with assms show ?thesis by (auto simp: anc_inv_def anc_of_def)
qed

lemma ancestryLoop_Inr:
  "ancestryLoop def names memo anc depth = Inr (anc', depth') \<Longrightarrow> memo_ok def memo \<Longrightarrow>
     anc_inv def anc depth \<Longrightarrow>
     anc_inv def anc' depth' \<and> fst ` set depth' = fst ` set depth \<union> set names"
proof (induction def names memo anc depth arbitrary: anc' depth' rule: ancestryLoop.induct)
  case (1 def memo anc depth)
  then show ?case by simp
next
  case (2 def name names memo anc depth)
  from 2(2) obtain c m where b: "buildAncestry def name memo [] = (Inr c, m)"
    and r: "ancestryLoop def names m (if c \<noteq> [] then mput name c anc else anc)
              (mput name (length c) depth) = Inr (anc', depth')"
    by (auto split: prod.splits sum.splits)
  from buildAncestry_Inr [OF b 2(3)] have c: "chain def name c" and m: "memo_ok def m" by auto
  from 2(1) [OF b [symmetric] refl r m anc_inv_step [OF 2(4) c]] show ?case by auto
qed

lemma ancestryLoop_Inl:
  "ancestryLoop def names memo anc depth = Inl e \<Longrightarrow> memo_ok def memo \<Longrightarrow>
     err_is e ErrCircularHierarchy \<and> \<not> acyclic (parent_rel def)"
proof (induction def names memo anc depth rule: ancestryLoop.induct)
  case (1 def memo anc depth)
  then show ?case by simp
next
  case (2 def name names memo anc depth)
  obtain r m where b: "buildAncestry def name memo [] = (r, m)" by fastforce
  show ?case
  proof (cases r)
    case (Inl e')
    with 2 b have "e' = e" by simp
    with buildAncestry_Inl [OF b [unfolded Inl] 2(3)] show ?thesis by (auto simp: acyclic_def)
  next
    case (Inr c)
    with b have b': "buildAncestry def name memo [] = (Inr c, m)" by simp
    from 2(2) b' have r: "ancestryLoop def names m (if c \<noteq> [] then mput name c anc else anc)
              (mput name (length c) depth) = Inl e" by simp
    from buildAncestry_Inr [OF b' 2(3)] have "memo_ok def m" by simp
    from 2(1) [OF b' [symmetric] refl r this] show ?thesis .
  qed
qed

lemma trancl_self_key: "(n, n) \<in> (parent_rel def)\<^sup>+ \<Longrightarrow> n \<in> fst ` set (df_States def)"
  by (auto dest!: tranclD parent_relD intro: parent_of_key)

lemma ancestryLoop_total_iff:
  "(\<exists>r. ancestryLoop def (mkeys (df_States def)) [] [] [] = Inr r) \<longleftrightarrow> acyclic (parent_rel def)"
proof
  assume "\<exists>r. ancestryLoop def (mkeys (df_States def)) [] [] [] = Inr r"
  then obtain anc depth where r: "ancestryLoop def (mkeys (df_States def)) [] [] [] = Inr (anc, depth)"
    by fastforce
  have "anc_inv def [] []" by (simp add: anc_inv_def)
  from ancestryLoop_Inr [OF r _ this] have inv: "anc_inv def anc depth"
    and dom: "fst ` set depth = fst ` set (df_States def)" by auto
  have "\<exists>c. chain def n c" if n: "n \<in> fst ` set (df_States def)" for n
  proof -
    from n dom obtain k where "map_of depth n = Some k" by (metis map_of_key_iff)
    with inv show ?thesis unfolding anc_inv_def by blast
  qed
  then show "acyclic (parent_rel def)"
    using trancl_self_key chain_acyclic by (metis acyclicI)
next
  assume a: "acyclic (parent_rel def)"
  show "\<exists>r. ancestryLoop def (mkeys (df_States def)) [] [] [] = Inr r"
  proof (cases "ancestryLoop def (mkeys (df_States def)) [] [] []")
    case (Inl e)
    with ancestryLoop_Inl a show ?thesis by fastforce
  qed blast
qed

text \<open>The ancestry map that \<open>Compile\<close> stores, in one statement.\<close>

lemma ancestryLoop_chain:
  assumes r: "ancestryLoop def (mkeys (df_States def)) [] [] [] = Inr (anc, depth)"
  shows "chain def n (anc_of anc n)"
    and "n \<in> fst ` set (df_States def) \<Longrightarrow> map_of depth n = Some (length (anc_of anc n))"
proof -
  have "anc_inv def [] []" by (simp add: anc_inv_def)
  from ancestryLoop_Inr [OF r _ this] have inv: "anc_inv def anc depth"
    and dom: "fst ` set depth = fst ` set (df_States def)" by auto
  have key: "chain def n (anc_of anc n) \<and> map_of depth n = Some (length (anc_of anc n))"
    if n: "n \<in> fst ` set (df_States def)"
  proof -
    from n dom obtain k where "map_of depth n = Some k" by (metis map_of_key_iff)
    with inv show ?thesis by (auto simp: anc_inv_def)
  qed
  then show "n \<in> fst ` set (df_States def) \<Longrightarrow> map_of depth n = Some (length (anc_of anc n))"
    by simp
  show "chain def n (anc_of anc n)"
  proof (cases "n \<in> fst ` set (df_States def)")
    case True
    with key show ?thesis by simp
  next
    case False
    with parent_of_key have p: "parent_of def n = []" by blast
    have "map_of anc n = None"
    proof (rule ccontr)
      assume "map_of anc n \<noteq> None"
      then obtain c where "map_of anc n = Some c" by auto
      with inv have "chain def n c" "c \<noteq> []" by (auto simp: anc_inv_def)
      with p show False by (auto elim: chain.cases)
    qed
    with p show ?thesis by (simp add: anc_of_def)
  qed
qed

section \<open>Lowest common ancestor\<close>

lemma chain_common_suffix:
  assumes a: "chain def a (xs @ m # ys)" and b: "chain def b (us @ m # vs)"
  shows "ys = vs"
  using chain_suffix [OF a] chain_suffix [OF b] chain_unique by blast

text \<open>
  On proper chains, \<open>LCA\<close> returns the nearest common proper ancestor: it lies on both chains, and
  the two chains agree above it and share nothing below it.
\<close>

lemma LCA_found:
  assumes a: "chain def a (anc_of (cm_Ancestry cm) a)" and b: "chain def b (anc_of (cm_Ancestry cm) b)"
    and l: "LCA cm a b = (l, True)"
  obtains xs ys zs where "anc_of (cm_Ancestry cm) a = xs @ l # zs"
    "anc_of (cm_Ancestry cm) b = ys @ l # zs" "set xs \<inter> set (ys @ l # zs) = {}"
    "set ys \<inter> set (xs @ l # zs) = {}"
proof -
  let ?A = "anc_of (cm_Ancestry cm) a" and ?B = "anc_of (cm_Ancestry cm) b"
  from l have f: "find (\<lambda>x. x \<in> set ?B) ?A = Some l"
    by (auto simp: LCA_def Let_def split: if_splits option.splits)
  from find_first_split [OF f] obtain xs zs where A: "?A = xs @ l # zs" "l \<in> set ?B"
    "\<forall>y \<in> set xs. y \<notin> set ?B" by auto
  from A(2) obtain ys vs where B: "?B = ys @ l # vs" by (auto simp: in_set_conv_decomp)
  from chain_common_suffix [OF a [unfolded A(1)] b [unfolded B]] have "vs = zs" by simp
  moreover from chain_distinct [OF b] B have "set ys \<inter> set (l # vs) = {}" by auto
  moreover from A(3) B have "set xs \<inter> set (ys @ l # vs) = {}" by auto
  ultimately show thesis using A(1) B by (intro that [of xs zs ys]) auto
qed

lemma LCA_not_found:
  "LCA cm a b = (l, False) \<Longrightarrow>
     l = [] \<and> set (anc_of (cm_Ancestry cm) a) \<inter> set (anc_of (cm_Ancestry cm) b) = {}"
  by (auto simp: LCA_def Let_def find_None_iff split: if_splits option.splits)

section \<open>Initial leaves\<close>

inductive initial_leaf :: "Definition \<Rightarrow> string \<Rightarrow> string \<Rightarrow> bool" for def where
  leaf_stop: "\<not> st_IsCompound (state_of def n) \<or> st_InitialChild (state_of def n) = [] \<Longrightarrow>
     initial_leaf def n n"
| leaf_step: "st_IsCompound (state_of def n) \<Longrightarrow> st_InitialChild (state_of def n) \<noteq> [] \<Longrightarrow>
     initial_leaf def (st_InitialChild (state_of def n)) l \<Longrightarrow> initial_leaf def n l"

lemma initial_leaf_unique: "initial_leaf def n l \<Longrightarrow> initial_leaf def n l' \<Longrightarrow> l = l'"
proof (induction rule: initial_leaf.induct)
  case (leaf_stop n)
  then show ?case by (auto elim: initial_leaf.cases)
next
  case (leaf_step n l)
  from leaf_step.prems leaf_step.hyps(1,2)
  have "initial_leaf def (st_InitialChild (state_of def n)) l'"
    by (auto elim: initial_leaf.cases)
  with leaf_step.IH show ?case by blast
qed

text \<open>
  A definition is hierarchical when its \<open>InitialChild\<close> links go to children in the sense of
  \<open>Parent\<close>; the builder produces only such definitions.
\<close>

definition init_links :: "Definition \<Rightarrow> bool" where
  "init_links def \<longleftrightarrow>
     (\<forall>n. st_IsCompound (state_of def n) \<and> st_InitialChild (state_of def n) \<noteq> [] \<longrightarrow>
          parent_of def (st_InitialChild (state_of def n)) = n)"

definition leaf_memo_ok :: "Definition \<Rightarrow> (string, string) gomap \<Rightarrow> bool" where
  "leaf_memo_ok def memo \<longleftrightarrow> (\<forall>n l. map_of memo n = Some l \<longrightarrow> initial_leaf def n l)"

lemma leaf_memo_ok_Nil [simp]: "leaf_memo_ok def []"
  by (simp add: leaf_memo_ok_def)

lemma leaf_memo_ok_mput [simp]:
  "leaf_memo_ok def memo \<Longrightarrow> initial_leaf def n l \<Longrightarrow> leaf_memo_ok def (mput n l memo)"
  by (simp add: leaf_memo_ok_def)

lemma parent_rel_nonroot:
  "init_links def \<Longrightarrow> st_IsCompound (state_of def n) \<Longrightarrow> st_InitialChild (state_of def n) \<noteq> [] \<Longrightarrow>
     n \<noteq> [] \<Longrightarrow> (st_InitialChild (state_of def n), n) \<in> parent_rel def"
  by (auto simp: init_links_def parent_rel_def)

text \<open>
  The state name \<open>[]\<close> (Go's empty string) stands for \<open>no parent\<close>; a compound state of that name
  could not be anyone's parent, so a hierarchical definition names no compound state so.
\<close>

definition named_compounds :: "Definition \<Rightarrow> bool" where
  "named_compounds def \<longleftrightarrow> \<not> st_IsCompound (state_of def [])"

lemma resolveInitialLeaf_total:
  assumes "acyclic (parent_rel def)" "init_links def" "named_compounds def"
  shows "leaf_memo_ok def memo \<Longrightarrow>
    \<exists>l memo'. resolveInitialLeaf def n memo = Some (l, memo') \<and> initial_leaf def n l \<and>
      leaf_memo_ok def memo'"
proof -
  from assms(1) have "wf (parent_rel def)" by (simp add: finite_parent_rel finite_acyclic_wf)
  then show "leaf_memo_ok def memo \<Longrightarrow> ?thesis"
  proof (induction n rule: wf_induct_rule)
    case (less n)
    let ?c = "st_InitialChild (state_of def n)"
    show ?case
    proof (cases "map_of memo n")
      case (Some l)
      with less.prems show ?thesis
        by (auto simp: resolveInitialLeaf.simps [of def n] leaf_memo_ok_def)
    next
      case None
      show ?thesis
      proof (cases "\<not> st_IsCompound (state_of def n) \<or> ?c = []")
        case True
        with None less.prems show ?thesis
          by (auto simp: resolveInitialLeaf.simps [of def n] leaf_stop)
      next
        case False
        with assms(3) have "n \<noteq> []" by (auto simp: named_compounds_def)
        with False parent_rel_nonroot [OF assms(2)] have "(?c, n) \<in> parent_rel def" by blast
        from less.IH [OF this less.prems] obtain l memo' where
          "resolveInitialLeaf def ?c memo = Some (l, memo')" "initial_leaf def ?c l"
          "leaf_memo_ok def memo'" by blast
        with None False show ?thesis
          by (auto simp: resolveInitialLeaf.simps [of def n] leaf_step)
      qed
    qed
  qed
qed

lemma initialLeafLoop_total:
  assumes "acyclic (parent_rel def)" "init_links def" "named_compounds def"
  shows "leaf_memo_ok def memo \<Longrightarrow> \<exists>m. initialLeafLoop def sts memo leafMap = Some m \<and>
    (\<forall>n. map_of m n =
       (if \<exists>st. (n, st) \<in> set sts \<and> hasInitialLeaf st then Some (THE l. initial_leaf def n l)
        else map_of leafMap n))"
proof (induction sts arbitrary: memo leafMap)
  case Nil
  then show ?case by simp
next
  case (Cons p sts)
  obtain n st where p: "p = (n, st)" by fastforce
  show ?case
  proof (cases "hasInitialLeaf st")
    case False
    from Cons.IH [OF Cons.prems, of leafMap] obtain m where
      "initialLeafLoop def sts memo leafMap = Some m" "\<forall>x. map_of m x =
       (if \<exists>st. (x, st) \<in> set sts \<and> hasInitialLeaf st then Some (THE l. initial_leaf def x l)
        else map_of leafMap x)" by blast
    with False p show ?thesis by (intro exI [of _ m]) auto
  next
    case True
    from resolveInitialLeaf_total [OF assms Cons.prems] obtain l memo' where
      r: "resolveInitialLeaf def n memo = Some (l, memo')" "initial_leaf def n l" "leaf_memo_ok def memo'"
      by blast
    then have "(THE l. initial_leaf def n l) = l" using initial_leaf_unique by blast
    moreover from Cons.IH [OF r(3), of "mput n l leafMap"] obtain m where
      "initialLeafLoop def sts memo' (mput n l leafMap) = Some m" "\<forall>x. map_of m x =
       (if \<exists>st. (x, st) \<in> set sts \<and> hasInitialLeaf st then Some (THE l. initial_leaf def x l)
        else map_of (mput n l leafMap) x)" by blast
    ultimately show ?thesis using True p r(1) by (intro exI [of _ m]) auto
  qed
qed

section \<open>Region and transition indices\<close>

lemma regionLoop_lookup:
  "wf_map sts \<Longrightarrow> map_of (regionLoop sts idx) n =
     (case map_of sts n of
        Some st \<Rightarrow> if st_IsParallel st then Some (st_Children st) else map_of idx n
      | None \<Rightarrow> map_of idx n)"
proof (induction sts idx rule: regionLoop.induct)
  case (1 idx)
  then show ?case by simp
next
  case (2 name st rest idx)
  then have "map_of rest name = None" by (simp add: map_of_None_iff)
  with 2 show ?case by (auto split: option.splits)
qed

lemma cts_of_mput [simp]: "cts_of (mput k v m) s = (if s = k then v else cts_of m s)"
  by (simp add: cts_of_def)

lemma cts_of_addSources:
  "cts_of (addSources ct srcs m) s = cts_of m s @ replicate (count_list srcs s) ct"
  by (induction srcs arbitrary: m) (auto simp: replicate_append_same)

lemma cts_of_transitionLoop:
  "cts_of (transitionLoop trs m) s =
     cts_of m s @ concat (map (\<lambda>(_, tr). replicate (count_list (tr_Sources tr) s) (compileTransition tr)) trs)"
  by (induction trs arbitrary: m) (auto simp: cts_of_addSources)

lemma cts_of_ensureStates: "cts_of (ensureStates names m) s = cts_of m s"
  by (induction names arbitrary: m) (auto simp: cts_of_def split: option.splits)

lemma compileTransition_sel [simp]:
  "ct_Def (compileTransition tr) = tr"
  "ct_GuardNames (compileTransition tr) = resolveGuardNames (tr_Guards tr)"
  by (simp_all add: compileTransition_def)

text \<open>
  Searching the index of a source state for a name finds the transition of that name: the lookup
  that \<open>validateTransition\<close> and \<open>collectParallelCandidates\<close> do.
\<close>

definition names_ok :: "Definition \<Rightarrow> bool" where
  "names_ok def \<longleftrightarrow> wf_map (df_States def) \<and> wf_map (df_Transitions def) \<and>
     (\<forall>(n, st) \<in> set (df_States def). st_Name st = n) \<and>
     (\<forall>(n, tr) \<in> set (df_Transitions def). tr_Name tr = n)"

lemma find_concat_replicate:
  assumes "wf_map trs" "\<forall>(n, tr) \<in> set trs. tr_Name tr = n" "map_of trs name = Some tr"
    "src \<in> set (tr_Sources tr)"
  shows "find (\<lambda>c. tr_Name (ct_Def c) = name)
     (concat (map (\<lambda>(_, tr). replicate (count_list (tr_Sources tr) src) (compileTransition tr)) trs)) =
     Some (compileTransition tr)"
  using assms
proof (induction trs)
  case Nil
  then show ?case by simp
next
  case (Cons p trs)
  obtain n t where p: "p = (n, t)" by fastforce
  have nm: "tr_Name t = n" using Cons.prems(2) p by simp
  show ?case
  proof (cases "n = name")
    case True
    with Cons.prems(3) p have "t = tr" by simp
    moreover from Cons.prems(4) have "count_list (tr_Sources tr) src \<noteq> 0"
      by (simp add: count_list_0_iff)
    then obtain k where "count_list (tr_Sources tr) src = Suc k" by (meson not0_implies_Suc)
    ultimately show ?thesis using p nm True by simp
  next
    case False
    have "find (\<lambda>c. tr_Name (ct_Def c) = name) (replicate k (compileTransition t) @ ys) =
        find (\<lambda>c. tr_Name (ct_Def c) = name) ys" for k ys
      using nm False by (induction k) auto
    with Cons p False show ?thesis by simp
  qed
qed

section \<open>What Compile returns\<close>

lemma Compile_Inr:
  assumes "Compile digest def = Some (Inr cm)"
  obtains anc depth leafMap where
    "ancestryLoop def (mkeys (df_States def)) [] [] [] = Inr (anc, depth)"
    "initialLeafLoop def (df_States def) [] [] = Some leafMap"
    "cm = \<lparr>cm_Definition = def, cm_Ancestry = anc, cm_DepthMap = depth,
                cm_InitialLeafMap = leafMap, cm_RegionIndex = regionLoop (df_States def) [],
                cm_DefinitionHash = computeHash digest def,
                cm_TransitionsByState =
                  ensureStates (mkeys (df_States def)) (transitionLoop (df_Transitions def) [])\<rparr>"
  using assms unfolding Compile_def
  by (auto simp: bind_eq_Some_conv split: sum.splits prod.splits)

lemma Compile_Definition [simp]: "Compile digest def = Some (Inr cm) \<Longrightarrow> cm_Definition cm = def"
  by (erule Compile_Inr) simp

lemma Compile_hash: "Compile digest def = Some (Inr cm) \<Longrightarrow> cm_DefinitionHash cm = computeHash digest def"
  by (erule Compile_Inr) simp

lemma Compile_chain: "Compile digest def = Some (Inr cm) \<Longrightarrow> chain def n (anc_of (cm_Ancestry cm) n)"
  by (erule Compile_Inr) (simp add: ancestryLoop_chain(1))

lemma Compile_acyclic: "Compile digest def = Some (Inr cm) \<Longrightarrow> acyclic (parent_rel def)"
  by (erule Compile_Inr) (metis ancestryLoop_total_iff)

lemma Compile_regions:
  "Compile digest def = Some (Inr cm) \<Longrightarrow> wf_map (df_States def) \<Longrightarrow>
     map_of (cm_RegionIndex cm) n =
       (if st_IsParallel (state_of def n) then Some (st_Children (state_of def n)) else None)"
  by (erule Compile_Inr) (auto simp: regionLoop_lookup state_of_def split: option.splits)

lemma Compile_find_transition:
  assumes "Compile digest def = Some (Inr cm)" "names_ok def"
    "map_of (df_Transitions def) name = Some tr" "src \<in> set (tr_Sources tr)"
  shows "find (\<lambda>c. tr_Name (ct_Def c) = name) (cts_of (cm_TransitionsByState cm) src) =
    Some (compileTransition tr)"
proof -
  from assms(1) have "cts_of (cm_TransitionsByState cm) src =
      concat (map (\<lambda>(_, tr). replicate (count_list (tr_Sources tr) src) (compileTransition tr))
        (df_Transitions def))"
    by (elim Compile_Inr) (simp add: cts_of_ensureStates cts_of_transitionLoop, simp add: cts_of_def)
  with assms(2-4) find_concat_replicate show ?thesis by (simp add: names_ok_def)
qed

lemma Compile_leaf:
  assumes c: "Compile digest def = Some (Inr cm)" and "init_links def" "named_compounds def"
    "wf_map (df_States def)"
  shows "map_of (cm_InitialLeafMap cm) n =
      (if hasInitialLeaf (state_of def n) then Some (THE l. initial_leaf def n l) else None)"
    and "map_of (cm_InitialLeafMap cm) n = Some l \<Longrightarrow> initial_leaf def n l"
proof -
  note tot = initialLeafLoop_total [OF Compile_acyclic [OF c] assms(2,3), of "[]"]
  have ex: "(\<exists>st. (n, st) \<in> set (df_States def) \<and> hasInitialLeaf st) \<longleftrightarrow> hasInitialLeaf (state_of def n)"
    using assms(4) by (cases "map_of (df_States def) n")
      (auto simp: map_of_in_set_wf hasInitialLeaf_def)
  from c tot [of "df_States def" "[]"] ex
  show *: "map_of (cm_InitialLeafMap cm) n =
      (if hasInitialLeaf (state_of def n) then Some (THE l. initial_leaf def n l) else None)"
    by (elim Compile_Inr) simp
  assume "map_of (cm_InitialLeafMap cm) n = Some l"
  with * have "l = (THE l. initial_leaf def n l)" by (auto split: if_splits)
  moreover obtain l' where "initial_leaf def n l'"
    using resolveInitialLeaf_total [OF Compile_acyclic [OF c] assms(2,3) leaf_memo_ok_Nil] by blast
  ultimately show "initial_leaf def n l" using initial_leaf_unique the_equality by metis
qed

section \<open>The sample workflow\<close>

definition order_cm :: CompiledMachine where
  "order_cm =
     (case Compile (\<lambda>bytes. bytes) order_def of
        Some (Inr cm) \<Rightarrow> cm
      | _ \<Rightarrow> \<lparr>cm_Definition = order_def, cm_Ancestry = [], cm_DepthMap = [], cm_InitialLeafMap = [],
              cm_RegionIndex = [], cm_DefinitionHash = [], cm_TransitionsByState = []\<rparr>)"

lemma order_compiles: "Compile (\<lambda>bytes. bytes) order_def = Some (Inr order_cm)"
proof -
  have "case Compile (\<lambda>bytes. bytes) order_def of Some (Inr cm) \<Rightarrow> True | _ \<Rightarrow> False" by code_simp
  then show ?thesis by (auto simp: order_cm_def split: option.splits sum.splits)
qed

lemma init_links_check:
  assumes "wf_map (df_States def)"
    "list_all (\<lambda>(n, st). \<not> st_IsCompound st \<or> st_InitialChild st = [] \<or>
       parent_of def (st_InitialChild st) = n) (df_States def)"
  shows "init_links def"
  unfolding init_links_def
proof (intro allI impI)
  fix n assume h: "st_IsCompound (state_of def n) \<and> st_InitialChild (state_of def n) \<noteq> []"
  then obtain st where st: "map_of (df_States def) n = Some st"
    by (cases "map_of (df_States def) n") auto
  with assms h show "parent_of def (st_InitialChild (state_of def n)) = n"
    by (auto simp: list_all_iff dest!: map_of_SomeD)
qed

lemma order_links: "init_links order_def" "named_compounds order_def" "wf_map (df_States order_def)"
  "names_ok order_def"
proof -
  show w: "wf_map (df_States order_def)" by code_simp
  show "init_links order_def" by (rule init_links_check [OF w]) code_simp
  show "named_compounds order_def" by code_simp
  show "names_ok order_def" by code_simp
qed

lemma order_acyclic: "acyclic (parent_rel order_def)"
  by (rule Compile_acyclic [OF order_compiles])

section \<open>Properties\<close>

lemma Compile_total:
  assumes "init_links def" and "named_compounds def"
  shows "if acyclic (parent_rel def)
         then \<exists>cm. Compile digest def = Some (Inr cm)
         else \<exists>e. Compile digest def = Some (Inl e) \<and> err_is e ErrCircularHierarchy"
proof (cases "acyclic (parent_rel def)")
  case True
  with ancestryLoop_total_iff obtain anc depth where
    "ancestryLoop def (mkeys (df_States def)) [] [] [] = Inr (anc, depth)" by fastforce
  moreover from initialLeafLoop_total [OF True assms, of "[]"] obtain m where
    "initialLeafLoop def (df_States def) [] [] = Some m" by fastforce
  ultimately show ?thesis using True by (simp add: Compile_def)
next
  case False
  then obtain e where e: "ancestryLoop def (mkeys (df_States def)) [] [] [] = Inl e"
    using ancestryLoop_total_iff by (metis sum.exhaust)
  with ancestryLoop_Inl [OF e] False show ?thesis by (simp add: Compile_def)
qed

text \<open>
  C11. \<open>Compile\<close> always returns on a definition whose \<open>InitialChild\<close> links go to children: with a
  compiled machine when the parent links are acyclic, and with \<open>ErrCircularHierarchy\<close> when they
  have a cycle, whatever the order in which the states are visited.
\<close>

theorem Compile_returns:
  assumes "init_links def" and "named_compounds def"
  shows "if acyclic (parent_rel def)
         then \<exists>cm. Compile digest def = Some (Inr cm)
         else \<exists>e. Compile digest def = Some (Inl e) \<and> err_is e ErrCircularHierarchy"
  by (rule Compile_total [OF assms])

theorem Compile_returns_witness: "\<exists>cm. Compile (\<lambda>bytes. bytes) order_def = Some (Inr cm)"
  using Compile_returns [OF order_links(1,2), of "\<lambda>bytes. bytes"] order_acyclic by simp

text \<open>
  C12. The compiled ancestry of a state is the chain of its parent links, nearest first: it lists
  without repetition exactly the proper ancestors, and the depth map holds its length.
\<close>

theorem Compile_ancestry:
  assumes "Compile digest def = Some (Inr cm)"
  shows "chain def n (anc_of (cm_Ancestry cm) n) \<and> distinct (anc_of (cm_Ancestry cm) n) \<and>
    set (anc_of (cm_Ancestry cm) n) = {m. (n, m) \<in> (parent_rel def)\<^sup>+} \<and>
    (n \<in> fst ` set (df_States def) \<longrightarrow>
       map_of (cm_DepthMap cm) n = Some (length (anc_of (cm_Ancestry cm) n)))"
proof -
  have "n \<in> fst ` set (df_States def) \<longrightarrow>
      map_of (cm_DepthMap cm) n = Some (length (anc_of (cm_Ancestry cm) n))"
    using assms by (elim Compile_Inr) (simp add: ancestryLoop_chain(2))
  with Compile_chain [OF assms] chain_distinct chain_set show ?thesis by blast
qed

theorem Compile_ancestry_witness:
  "anc_of (cm_Ancestry order_cm) ''PRINT'' = [''LABEL'', ''SHIP''] \<and>
   set [''LABEL'', ''SHIP''] = {m. (''PRINT'', m) \<in> (parent_rel order_def)\<^sup>+}"
proof -
  have "anc_of (cm_Ancestry order_cm) ''PRINT'' = [''LABEL'', ''SHIP'']" by code_simp
  with Compile_ancestry [OF order_compiles, of "''PRINT''"] show ?thesis by simp
qed

text \<open>
  C13. \<open>LCA\<close> returns the nearest common proper ancestor of two states: it is a common ancestor and
  every other one is an ancestor of it; it reports none exactly when the two have none in common.
\<close>

theorem LCA_correct:
  assumes "Compile digest def = Some (Inr cm)"
  shows "case LCA cm a b of
      (l, True) \<Rightarrow> (a, l) \<in> (parent_rel def)\<^sup>+ \<and> (b, l) \<in> (parent_rel def)\<^sup>+ \<and>
        (\<forall>m. (a, m) \<in> (parent_rel def)\<^sup>+ \<and> (b, m) \<in> (parent_rel def)\<^sup>+ \<longrightarrow>
             m = l \<or> (l, m) \<in> (parent_rel def)\<^sup>+)
    | (l, False) \<Rightarrow> l = [] \<and> \<not> (\<exists>m. (a, m) \<in> (parent_rel def)\<^sup>+ \<and> (b, m) \<in> (parent_rel def)\<^sup>+)"
proof -
  note ca = Compile_chain [OF assms, of a] and cb = Compile_chain [OF assms, of b]
  obtain l ok where lca: "LCA cm a b = (l, ok)" by fastforce
  show ?thesis
  proof (cases ok)
    case False
    with LCA_not_found [of cm a b l] lca chain_set [OF ca] chain_set [OF cb] show ?thesis by auto
  next
    case True
    with lca have "LCA cm a b = (l, True)" by simp
    from LCA_found [OF ca cb this] obtain xs ys zs where
      A: "anc_of (cm_Ancestry cm) a = xs @ l # zs" and B: "anc_of (cm_Ancestry cm) b = ys @ l # zs"
      and d: "set xs \<inter> set (ys @ l # zs) = {}" by metis
    from chain_suffix ca A have "chain def l zs" by metis
    from chain_set [OF this] chain_set [OF ca] chain_set [OF cb] A B d True lca show ?thesis by auto
  qed
qed

theorem LCA_correct_witness:
  "LCA order_cm ''REVIEW'' ''PACK'' = (''PROC'', True) \<and>
   (''REVIEW'', ''PROC'') \<in> (parent_rel order_def)\<^sup>+"
proof -
  have "LCA order_cm ''REVIEW'' ''PACK'' = (''PROC'', True)" by code_simp
  with LCA_correct [OF order_compiles, of "''REVIEW''" "''PACK''"] show ?thesis by simp
qed

text \<open>
  Two definitions have the same content when they differ only in the order of their maps, those of
  the states, of the transitions and of the result signals of an activity, and in the order in which
  children, sources and terminal states are listed.
\<close>

definition sorted_map :: "(string, 'v) gomap \<Rightarrow> (string, 'v) gomap" where
  "sorted_map m = map (\<lambda>k. (k, the (map_of m k))) (sort (mkeys m))"

definition norm_activity :: "ActivityDef \<Rightarrow> ActivityDef" where
  "norm_activity a = a\<lparr>ad_ResultSignals := map_option sorted_map (ad_ResultSignals a)\<rparr>"

definition norm_transition :: "TransitionDef \<Rightarrow> TransitionDef" where
  "norm_transition tr = tr\<lparr>tr_Sources := sort (tr_Sources tr), tr_Activities := map norm_activity (tr_Activities tr)\<rparr>"

definition same_content :: "Definition \<Rightarrow> Definition \<Rightarrow> bool" where
  "same_content d e \<longleftrightarrow>
     df_AggregateType d = df_AggregateType e \<and> df_WorkflowType d = df_WorkflowType e \<and>
     df_Version d = df_Version e \<and> df_InitialState d = df_InitialState e \<and>
     mset (df_TerminalStates d) = mset (df_TerminalStates e) \<and>
     mset (mkeys (df_States d)) = mset (mkeys (df_States e)) \<and>
     mset (mkeys (df_Transitions d)) = mset (mkeys (df_Transitions e)) \<and>
     (\<forall>n. (state_of d n)\<lparr>st_Children := sort (st_Children (state_of d n))\<rparr> =
          (state_of e n)\<lparr>st_Children := sort (st_Children (state_of e n))\<rparr>) \<and>
     (\<forall>n. map_option norm_transition (map_of (df_Transitions d) n) =
          map_option norm_transition (map_of (df_Transitions e) n))"

lemma same_content_sym: "same_content d e \<Longrightarrow> same_content e d"
  by (simp add: same_content_def)

lemma same_content_trans: "same_content d e \<Longrightarrow> same_content e f \<Longrightarrow> same_content d f"
  by (simp add: same_content_def)

lemma sort_eq_of_mset: "mset xs = mset ys \<Longrightarrow> sort xs = sort ys"
  by (rule properties_for_sort) simp_all

lemma canonState_sorted: "canonState st = canonState (st\<lparr>st_Children := sort (st_Children st)\<rparr>)"
  by (simp add: canonState_def sorted_sort_id)

lemma mkeys_sorted_map [simp]: "mkeys (sorted_map m) = sort (mkeys m)"
  by (simp add: sorted_map_def o_def)

lemma map_of_sorted_map: "k \<in> set (mkeys m) \<Longrightarrow> map_of (sorted_map m) k = map_of m k"
  by (cases "map_of m k") (auto simp: sorted_map_def map_of_map_restrict restrict_map_def map_of_eq_None_iff)

lemma canonActivity_norm: "canonActivity (norm_activity a) = canonActivity a"
proof (cases "ad_ResultSignals a")
  case None
  then show ?thesis by (simp add: norm_activity_def canonActivity_def)
next
  case (Some m)
  have "(case map_of (sorted_map m) k of None \<Rightarrow> [] | Some v \<Rightarrow> v) = (case map_of m k of None \<Rightarrow> [] | Some v \<Rightarrow> v)"
    if "k \<in> set (sort (mkeys m))" for k
    using map_of_sorted_map [of k m] that by simp
  then have "map (\<lambda>k. f k (case map_of (sorted_map m) k of None \<Rightarrow> [] | Some v \<Rightarrow> v)) (sort (mkeys m)) =
      map (\<lambda>k. f k (case map_of m k of None \<Rightarrow> [] | Some v \<Rightarrow> v)) (sort (mkeys m))" for f :: "string \<Rightarrow> string \<Rightarrow> string"
    by (intro map_cong [OF refl]) presburger
  from this [of "\<lambda>k v. ''sig:'' @ k @ ''->'' @ v @ newline"] Some show ?thesis
    by (simp add: norm_activity_def canonActivity_def mlook_def sorted_sort_id del: map_eq_conv)
qed

lemma actMap_norm: "map_of (actMap (map norm_activity acts)) n = map_option norm_activity (map_of (actMap acts) n)"
proof -
  have "map_of (fold (\<lambda>a m. mput (ad_Name a) a m) (map norm_activity acts) m') n =
      map_option norm_activity (map_of (fold (\<lambda>a m. mput (ad_Name a) a m) acts m) n)"
    if "\<forall>n. map_of m' n = map_option norm_activity (map_of m n)" for m m' :: "(string, ActivityDef) gomap"
    using that by (induction acts arbitrary: m m') (simp_all add: norm_activity_def)
  then show ?thesis by (simp add: actMap_def)
qed

lemma canonActivities_norm: "canonActivities (map norm_activity acts) = canonActivities acts"
proof -
  have "ad_Name (norm_activity a) = ad_Name a" for a by (simp add: norm_activity_def)
  then have "map ad_Name (map norm_activity acts) = map ad_Name acts" by simp
  moreover have "(case map_option norm_activity x of None \<Rightarrow> [] | Some a \<Rightarrow> canonActivity a) =
      (case x of None \<Rightarrow> [] | Some a \<Rightarrow> canonActivity a)" for x
    by (cases x) (simp_all add: canonActivity_norm)
  ultimately show ?thesis unfolding canonActivities_def actMap_norm by (simp only:)
qed

lemma canonTransition_norm: "canonTransition (norm_transition tr) = canonTransition tr"
  by (simp add: canonTransition_def norm_transition_def sorted_sort_id canonActivities_norm)

lemma computeHash_same_content:
  assumes "same_content d e"
  shows "computeHash digest d = computeHash digest e"
proof -
  have "canonState (state_of d n) = canonState (state_of e n)" for n
    using assms canonState_sorted unfolding same_content_def by metis
  moreover have "(case map_of (df_Transitions d) n of None \<Rightarrow> [] | Some tr \<Rightarrow> canonTransition tr) =
      (case map_of (df_Transitions e) n of None \<Rightarrow> [] | Some tr \<Rightarrow> canonTransition tr)" for n
  proof -
    have f: "(case x of None \<Rightarrow> [] | Some tr \<Rightarrow> canonTransition tr) =
        (case map_option norm_transition x of None \<Rightarrow> [] | Some tr \<Rightarrow> canonTransition tr)" for x
      by (cases x) (simp_all add: canonTransition_norm)
    have "map_option norm_transition (map_of (df_Transitions d) n) = map_option norm_transition (map_of (df_Transitions e) n)"
      using assms by (simp only: same_content_def)
    then show ?thesis by (subst (1 2) f) (rule arg_cong)
  qed
  moreover have "canonHeader d = canonHeader e"
  proof -
    from assms have "mset (df_TerminalStates d) = mset (df_TerminalStates e)"
      by (simp only: same_content_def)
    from sort_eq_of_mset [OF this] assms show ?thesis by (simp add: canonHeader_def same_content_def)
  qed
  moreover have "sort (mkeys (df_States d)) = sort (mkeys (df_States e))"
    by (rule sort_eq_of_mset) (use assms in \<open>simp only: same_content_def\<close>)
  moreover have "sort (mkeys (df_Transitions d)) = sort (mkeys (df_Transitions e))"
    by (rule sort_eq_of_mset) (use assms in \<open>simp only: same_content_def\<close>)
  ultimately show ?thesis by (simp add: computeHash_def canonical_def)
qed

text \<open>
  C36. The definition hash does not depend on the iteration order of the maps, of states, of transitions
  and of the result signals of the activities, nor on the order in which children, sources or terminal
  states are listed: two definitions with the same content have the same canonical form, hence the
  same hash.
\<close>

theorem computeHash_order_independent:
  assumes "same_content d e"
  shows "computeHash digest d = computeHash digest e"
  by (rule computeHash_same_content [OF assms])

definition signals_def :: "(string, StateDef) gomap \<Rightarrow> (string, string) gomap \<Rightarrow> Definition" where
  "signals_def states signals = order_def\<lparr>df_States := states, df_Transitions :=
     [(''begin'', (s_edge ''begin'' [''NEW''] ''PROC'')\<lparr>tr_Activities :=
        [\<lparr>ad_Name = ''charge'', ad_Mode = AwaitResult, ad_RetryPolicy = None, ad_ResultSignals = Some signals,
          ad_Timeout = 0\<rparr>]\<rparr>)]\<rparr>"

theorem computeHash_order_independent_witness:
  "computeHash (\<lambda>bytes. bytes) (signals_def (rev order_states) [(''ok'', ''paid''), (''error'', ''failed'')]) =
   computeHash (\<lambda>bytes. bytes) (signals_def order_states [(''error'', ''failed''), (''ok'', ''paid'')])"
proof (rule computeHash_order_independent)
  have "distinct (mkeys order_states)"
    using order_links(3) by (simp add: wf_map_def order_def_def)
  then have "map_of (rev order_states) = map_of order_states"
    by (intro map_of_inject_set [THEN iffD2]) (simp_all add: rev_map [symmetric])
  moreover have "sorted_map [(''ok'', ''paid''), (''error'', ''failed'')] = sorted_map [(''error'', ''failed''), (''ok'', ''paid'')]"
    by code_simp
  ultimately show "same_content (signals_def (rev order_states) [(''ok'', ''paid''), (''error'', ''failed'')])
      (signals_def order_states [(''error'', ''failed''), (''ok'', ''paid'')])"
    by (simp add: same_content_def signals_def_def state_of_def norm_transition_def norm_activity_def)
qed

end
