(* ===== verification/Flow_Validate.thy ===== *)
theory Flow_Validate
  imports Flow_Compile
begin

text \<open>
  \<open>internal/graph/validate.go\<close>: the structural checks on a definition and the breadth-first
  reachability check. A check returns \<open>None\<close> for nil and \<open>Some e\<close> for an error. The walk up the
  parent chain in \<open>hasOutgoingOrAncestorHas\<close> has no bound of its own, so it, \<open>checkDeadEnds\<close> and
  \<open>Validate\<close> return under one more \<open>option\<close>, whose \<open>None\<close> is a loop that never ends.
\<close>

section \<open>Structural checks\<close>

definition checkInitialState :: "Definition \<Rightarrow> gerr option" where
  "checkInitialState def =
     (let initialCount = length (filter (\<lambda>(_, st). st_IsInitial st) (df_States def))
      in if initialCount = 0
         then Some (ValidationError ErrNoInitialState ''flowstep: no initial state defined'' [])
         else if initialCount > 1
         then Some (ValidationError ErrMultipleInitialStates ''flowstep: multiple initial states defined'' [])
         else None)"

definition checkTerminalStates :: "Definition \<Rightarrow> gerr option" where
  "checkTerminalStates def =
     (if \<exists>(_, st) \<in> set (df_States def). st_IsTerminal st then None
      else Some (ValidationError ErrNoTerminalStates ''flowstep: no terminal states defined'' []))"

definition knownState :: "Definition \<Rightarrow> string \<Rightarrow> bool" where
  "knownState def n \<longleftrightarrow> map_of (df_States def) n \<noteq> None"

definition checkUnknownStates :: "Definition \<Rightarrow> gerr option" where
  "checkUnknownStates def =
     first_err (\<lambda>(name, tr).
       case first_err (\<lambda>src. if knownState def src then None
              else Some (ValidationError ErrUnknownState
                ''flowstep: transition %q references unknown source state %q'' (qs [name, src])))
              (tr_Sources tr) of
         Some e \<Rightarrow> Some e
       | None \<Rightarrow>
           if tr_Target tr \<noteq> [] \<and> \<not> knownState def (tr_Target tr)
           then Some (ValidationError ErrUnknownState
                  ''flowstep: transition %q references unknown target state %q'' (qs [name, tr_Target tr]))
           else first_err (\<lambda>route. if rt_Target route = [] \<or> knownState def (rt_Target route) then None
                  else Some (ValidationError ErrUnknownState
                    ''flowstep: transition %q route references unknown target state %q''
                    (qs [name, rt_Target route])))
                  (tr_Routes tr))
       (df_Transitions def)"

definition checkOrphanedChildren :: "Definition \<Rightarrow> gerr option" where
  "checkOrphanedChildren def =
     first_err (\<lambda>(name, st).
       if st_Parent st = [] \<or> knownState def (st_Parent st) then None
       else Some (ValidationError ErrOrphanedChild
              ''flowstep: state %q has Parent %q which does not exist'' (qs [name, st_Parent st])))
       (df_States def)"

definition checkRegion :: "Definition \<Rightarrow> string \<Rightarrow> string \<Rightarrow> gerr option" where
  "checkRegion def name childName =
     (case map_of (df_States def) childName of
        None \<Rightarrow> None
      | Some child \<Rightarrow>
          if st_IsParallel child
          then Some (ValidationError ErrNestedParallelState
                 ''flowstep: parallel state %q has nested parallel child %q (not supported)''
                 (qs [name, childName]))
          else if \<not> st_IsCompound child
          then Some (ValidationError ErrParallelRegionNotCompound
                 ''flowstep: parallel state %q child %q is not a compound state (region)''
                 (qs [name, childName]))
          else None)"

definition checkParallelStates :: "Definition \<Rightarrow> gerr option" where
  "checkParallelStates def =
     first_err (\<lambda>(name, st).
       if \<not> st_IsParallel st then None
       else if st_Parent st \<noteq> [] \<and> st_IsParallel (state_of def (st_Parent st))
       then Some (ValidationError ErrNestedParallelState
              ''flowstep: parallel state %q is nested inside parallel state %q (not supported)''
              (qs [name, st_Parent st]))
       else if st_Children st = []
       then Some (ValidationError ErrParallelStateNoRegions
              ''flowstep: parallel state %q has no regions (children)'' (qs [name]))
       else first_err (checkRegion def name) (st_Children st))
       (df_States def)"

definition checkCompoundStates :: "Definition \<Rightarrow> gerr option" where
  "checkCompoundStates def =
     first_err (\<lambda>(name, st).
       if \<not> st_IsCompound st then None
       else if st_IsParallel st then None
       else if st_InitialChild st = []
       then Some (ValidationError ErrCompoundStateNoInitialChild
              ''flowstep: compound state %q has no InitialChild'' (qs [name]))
       else if st_InitialChild st \<notin> set (st_Children st)
       then Some (ValidationError ErrCompoundStateNoInitialChild
              ''flowstep: compound state %q InitialChild %q is not in Children'' (qs [name, st_InitialChild st]))
       else None)
       (df_States def)"

definition checkCompoundNotTerminal :: "Definition \<Rightarrow> gerr option" where
  "checkCompoundNotTerminal def =
     first_err (\<lambda>(name, st). if st_IsCompound st \<and> st_IsTerminal st
       then Some (ValidationError ErrDeadEndState
              ''flowstep: compound state %q cannot be terminal'' (qs [name]))
       else None) (df_States def)"

definition checkInitialNotCompound :: "Definition \<Rightarrow> gerr option" where
  "checkInitialNotCompound def =
     first_err (\<lambda>(name, st). if st_IsInitial st \<and> st_IsCompound st
       then Some (ValidationError ErrDeadEndState
              ''flowstep: initial state %q cannot be compound (initial state must be a leaf)'' (qs [name]))
       else None) (df_States def)"

definition checkWaitLeafOnly :: "Definition \<Rightarrow> gerr option" where
  "checkWaitLeafOnly def =
     first_err (\<lambda>(name, st). if st_IsWait st \<and> st_IsCompound st
       then Some (ValidationError ErrDeadEndState
              ''flowstep: compound state %q cannot be a wait state (IsWait must be set on leaf states only)''
              (qs [name]))
       else None) (df_States def)"

section \<open>Dead ends\<close>

definition hasOutgoing :: "Definition \<Rightarrow> string \<Rightarrow> bool" where
  "hasOutgoing def name \<longleftrightarrow> (\<exists>(_, tr) \<in> set (df_Transitions def). name \<in> set (tr_Sources tr))"

partial_function (option) walkUp :: "Definition \<Rightarrow> string \<Rightarrow> bool option" where
  "walkUp def current =
     (if current = [] then Some False
      else if hasOutgoing def current then Some True
      else (case map_of (df_States def) current of
              Some ancestor \<Rightarrow> walkUp def (st_Parent ancestor)
            | None \<Rightarrow> Some False))"

declare walkUp.simps [code]

definition hasOutgoingOrAncestorHas :: "string \<Rightarrow> string \<Rightarrow> Definition \<Rightarrow> bool option" where
  "hasOutgoingOrAncestorHas name parent def =
     (if hasOutgoing def name then Some True else walkUp def parent)"

fun deadEndLoop :: "Definition \<Rightarrow> (string \<times> StateDef) list \<Rightarrow> gerr option option" where
  "deadEndLoop def [] = Some None"
| "deadEndLoop def ((name, st) # rest) =
     (if st_IsTerminal st \<or> st_IsCompound st then deadEndLoop def rest
      else (case hasOutgoingOrAncestorHas name (st_Parent st) def of
              None \<Rightarrow> None
            | Some True \<Rightarrow> deadEndLoop def rest
            | Some False \<Rightarrow>
                Some (Some (ValidationError ErrDeadEndState
                  ''flowstep: non-terminal state %q has no outgoing transitions'' (qs [name])))))"

definition checkDeadEnds :: "Definition \<Rightarrow> gerr option option" where
  "checkDeadEnds def = deadEndLoop def (df_States def)"

section \<open>Reachability\<close>

text \<open>
  \<open>entryGraph\<close> gives the states that entering a state reaches at once, the recursion of the
  \<open>enqueue\<close> closure; \<open>visit\<close> over it is a sequence of calls of \<open>enqueue\<close>, with the set
  \<open>reachable\<close> as the marks and the queue as the output.
\<close>

definition entryChildren :: "StateDef \<Rightarrow> string list" where
  "entryChildren st =
     (if \<not> st_IsCompound st then []
      else if st_IsParallel st then st_Children st
      else if st_InitialChild st \<noteq> [] then [st_InitialChild st] else [])"

definition entryGraph :: "Definition \<Rightarrow> (string, string list) gomap" where
  "entryGraph def = map (\<lambda>(n, st). (n, entryChildren st)) (df_States def)"

definition transTargets :: "Definition \<Rightarrow> string \<Rightarrow> string list" where
  "transTargets def current =
     concat (map (\<lambda>(_, tr). if current \<in> set (tr_Sources tr)
                   then (if tr_Target tr \<noteq> [] then [tr_Target tr] else []) @ map rt_Target (tr_Routes tr)
                   else []) (df_Transitions def))"

text \<open>Every name the search can meet: a finite set, which bounds it.\<close>

definition searchNames :: "Definition \<Rightarrow> string set" where
  "searchNames def =
     (\<Union>(n, st) \<in> set (df_States def). insert (st_InitialChild st) (set (st_Children st))) \<union>
     (\<Union>(n, tr) \<in> set (df_Transitions def). insert (tr_Target tr) (rt_Target ` set (tr_Routes tr)))"

lemma finite_searchNames [simp]: "finite (searchNames def)"
  by (auto simp: searchNames_def)

lemma nexts_entryGraph: "nexts (entryGraph def) n = entryChildren (state_of def n)"
proof -
  have "map_of (map (\<lambda>(n, st). (n, f st)) xs) n = map_option f (map_of xs n)"
    for f :: "StateDef \<Rightarrow> string list" and xs
    by (induction xs) auto
  then show ?thesis
    by (auto simp: nexts_def entryGraph_def state_of_def entryChildren_def split: option.splits)
qed

lemma entry_edge_searchNames: "(n, m) \<in> edges (entryGraph def) \<Longrightarrow> m \<in> searchNames def"
proof -
  assume "(n, m) \<in> edges (entryGraph def)"
  then have m: "m \<in> set (entryChildren (state_of def n))" by (simp add: edges_def nexts_entryGraph)
  then obtain st where st: "map_of (df_States def) n = Some st" "m \<in> set (entryChildren st)"
    by (cases "map_of (df_States def) n") (auto simp: entryChildren_def)
  from map_of_SomeD [OF st(1)] st(2) show ?thesis
    by (force simp: searchNames_def entryChildren_def split: if_splits)
qed

lemma transTargets_searchNames: "m \<in> set (transTargets def n) \<Longrightarrow> m \<in> searchNames def"
  by (force simp: transTargets_def searchNames_def split: if_splits)

lemma visit_targets_searchNames:
  assumes "visit (entryGraph def) (transTargets def c) seen q = (seen', q')"
  shows "set seen' \<subseteq> set seen \<union> searchNames def"
proof -
  have "m \<in> searchNames def" if "(n, m) \<in> (edges (entryGraph def))\<^sup>*" "n \<in> searchNames def" for n m
    using that by (induction rule: rtrancl_induct) (auto dest: entry_edge_searchNames)
  then have "(edges (entryGraph def))\<^sup>* `` set (transTargets def c) \<subseteq> searchNames def"
    by (auto dest: transTargets_searchNames)
  with visit_sound [OF assms] show ?thesis by blast
qed

function bfsLoop :: "Definition \<Rightarrow> string list \<Rightarrow> string list \<Rightarrow> string list" where
  "bfsLoop def [] reachable = reachable"
| "bfsLoop def (current # queue) reachable =
     (case visit (entryGraph def) (transTargets def current) reachable queue of
        (reachable', queue') \<Rightarrow> bfsLoop def queue' reachable')"
  by pat_completeness auto
termination
proof (relation "inv_image (finite_psubset <*lex*> less_than)
    (\<lambda>(def, queue, reachable). (searchNames def - set reachable, length queue))", goal_cases)
  case 1
  show ?case by (simp add: wf_finite_psubset wf_lex_prod)
next
  case (2 def current queue reachable reachable' queue')
  then have v: "visit (entryGraph def) (transTargets def current) reachable queue = (reachable', queue')"
    by simp
  from visit_out [OF v] obtain new where new: "queue' = queue @ new"
    "set reachable' = set reachable \<union> set new" "set new \<inter> set reachable = {}" by blast
  show ?case
  proof (cases new)
    case Nil
    with new show ?thesis by simp
  next
    case (Cons x xs)
    with new visit_targets_searchNames [OF v]
    have "x \<in> searchNames def - set reachable" "x \<in> set reachable'" by auto
    with new(2) show ?thesis by (auto simp: finite_psubset_def)
  qed
qed

definition reachableStates :: "Definition \<Rightarrow> string list" where
  "reachableStates def =
     (case visit (entryGraph def) [df_InitialState def] [] [] of
        (reachable, queue) \<Rightarrow> bfsLoop def queue reachable)"

definition checkReachability :: "Definition \<Rightarrow> gerr option" where
  "checkReachability def =
     (if df_InitialState def = [] then None
      else (let reachable = reachableStates def
            in first_err (\<lambda>(name, _). if name \<in> set reachable then None
                 else Some (ValidationError ErrUnreachableState
                        ''flowstep: state %q is unreachable from initial state'' (qs [name])))
                 (df_States def)))"

section \<open>Validate\<close>

text \<open>\<open>if err := ...; err != nil { return err }\<close> followed by the rest.\<close>

definition ret_err :: "gerr option \<Rightarrow> gerr option option \<Rightarrow> gerr option option" where
  "ret_err err rest = (case err of Some e \<Rightarrow> Some (Some e) | None \<Rightarrow> rest)"

definition Validate :: "Definition \<Rightarrow> gerr option option" where
  "Validate def =
     ret_err (checkInitialState def)
     (ret_err (checkTerminalStates def)
     (ret_err (checkUnknownStates def)
     (ret_err (checkOrphanedChildren def)
     (ret_err (checkCompoundStates def)
     (ret_err (checkParallelStates def)
     (ret_err (checkCompoundNotTerminal def)
     (ret_err (checkInitialNotCompound def)
     (ret_err (checkWaitLeafOnly def)
     (Option.bind (checkDeadEnds def) (\<lambda>err. ret_err err
     (Some (checkReachability def))))))))))))"

lemma ret_err_accept [simp]: "ret_err e k = Some None \<longleftrightarrow> e = None \<and> k = Some None"
  by (auto simp: ret_err_def split: option.splits)

lemma Validate_accept:
  "Validate def = Some None \<longleftrightarrow>
     checkInitialState def = None \<and> checkTerminalStates def = None \<and> checkUnknownStates def = None \<and>
     checkOrphanedChildren def = None \<and> checkCompoundStates def = None \<and>
     checkParallelStates def = None \<and> checkCompoundNotTerminal def = None \<and>
     checkInitialNotCompound def = None \<and> checkWaitLeafOnly def = None \<and>
     checkDeadEnds def = Some None \<and> checkReachability def = None"
  by (auto simp: Validate_def bind_eq_Some_conv)

section \<open>The search finds exactly the reachable states\<close>

definition reach_edges :: "Definition \<Rightarrow> (string \<times> string) set" where
  "reach_edges def =
     {(n, m). m \<in> set (entryChildren (state_of def n)) \<or> m \<in> set (transTargets def n)}"

definition bfs_inv :: "Definition \<Rightarrow> string list \<Rightarrow> string list \<Rightarrow> bool" where
  "bfs_inv def queue reachable \<longleftrightarrow>
     df_InitialState def \<in> set reachable \<and> set queue \<subseteq> set reachable \<and>
     set reachable \<subseteq> (reach_edges def)\<^sup>* `` {df_InitialState def} \<and>
     (\<forall>n \<in> set reachable. set (entryChildren (state_of def n)) \<subseteq> set reachable) \<and>
     (\<forall>n \<in> set reachable - set queue. set (transTargets def n) \<subseteq> set reachable)"

lemma entry_edges_subset: "edges (entryGraph def) \<subseteq> reach_edges def"
  by (auto simp: edges_def reach_edges_def nexts_entryGraph)

lemma bfs_inv_step:
  assumes inv: "bfs_inv def (c # queue) reachable"
    and v: "visit (entryGraph def) (transTargets def c) reachable queue = (reachable', queue')"
  shows "bfs_inv def queue' reachable'"
proof -
  let ?R = "(reach_edges def)\<^sup>* `` {df_InitialState def}"
  from visit_out [OF v] obtain new where new: "queue' = queue @ new"
    "set reachable' = set reachable \<union> set new" by blast
  have cR: "c \<in> ?R" using inv by (auto simp: bfs_inv_def)
  have step: "m \<in> ?R" if "n \<in> ?R" "(n, m) \<in> (reach_edges def)\<^sup>*" for n m
    using that by (auto intro: rtrancl_trans)
  have "(edges (entryGraph def))\<^sup>* `` set (transTargets def c) \<subseteq> ?R"
  proof
    fix m assume "m \<in> (edges (entryGraph def))\<^sup>* `` set (transTargets def c)"
    then obtain t where t: "t \<in> set (transTargets def c)" "(t, m) \<in> (reach_edges def)\<^sup>*"
      using rtrancl_mono [OF entry_edges_subset] by blast
    then have "(c, t) \<in> reach_edges def" by (simp add: reach_edges_def)
    with t(2) step [OF cR] show "m \<in> ?R" by (meson converse_rtrancl_into_rtrancl)
  qed
  moreover have "set reachable \<subseteq> ?R" using inv by (simp add: bfs_inv_def)
  ultimately have sub: "set reachable' \<subseteq> ?R" by (metis order_trans [OF visit_sound [OF v]] Un_least)
  have entry: "\<forall>n \<in> set reachable'. set (entryChildren (state_of def n)) \<subseteq> set reachable'"
    using visit_closed [OF v] visit_mono [OF v] inv
    by (metis bfs_inv_def nexts_entryGraph subset_trans)
  have trans: "\<forall>n \<in> set reachable' - set queue'. set (transTargets def n) \<subseteq> set reachable'"
    using visit_covers [OF v] visit_mono [OF v] inv new by (auto simp: bfs_inv_def)
  show ?thesis
    using sub entry trans inv new unfolding bfs_inv_def by auto
qed

lemma bfsLoop_reach:
  "bfs_inv def queue reachable \<Longrightarrow>
     set (bfsLoop def queue reachable) = (reach_edges def)\<^sup>* `` {df_InitialState def}"
proof (induction def queue reachable rule: bfsLoop.induct)
  case (1 def reachable)
  then have "reach_edges def `` set reachable \<subseteq> set reachable"
    by (auto simp: bfs_inv_def reach_edges_def)
  then have "(reach_edges def)\<^sup>* `` set reachable = set reachable" by (rule rtrancl_Image_closed)
  with 1 show ?case by (auto simp: bfs_inv_def)
next
  case (2 def c queue reachable)
  obtain r q where v: "visit (entryGraph def) (transTargets def c) reachable queue = (r, q)"
    by fastforce
  from 2(1) [OF v [symmetric] bfs_inv_step [OF 2(2) v]] v show ?case by simp
qed

lemma reachableStates_reach:
  "set (reachableStates def) = (reach_edges def)\<^sup>* `` {df_InitialState def}"
proof -
  obtain r q where v: "visit (entryGraph def) [df_InitialState def] [] [] = (r, q)" by fastforce
  from visit_out [OF v] have q: "set q = set r" by auto
  have "bfs_inv def q r"
    unfolding bfs_inv_def
  proof (intro conjI)
    show "df_InitialState def \<in> set r" using visit_covers [OF v] by simp
    show "set q \<subseteq> set r" using q by simp
    show "set r \<subseteq> (reach_edges def)\<^sup>* `` {df_InitialState def}"
      using visit_sound [OF v] rtrancl_mono [OF entry_edges_subset] by fastforce
    show "\<forall>n \<in> set r. set (entryChildren (state_of def n)) \<subseteq> set r"
      using visit_closed [OF v] by (simp add: nexts_entryGraph)
    show "\<forall>n \<in> set r - set q. set (transTargets def n) \<subseteq> set r" using q by simp
  qed
  from bfsLoop_reach [OF this] v show ?thesis by (simp add: reachableStates_def)
qed

section \<open>The walk up the parent chain\<close>

lemma walkUp_chain:
  "chain def n c \<Longrightarrow> n \<noteq> [] \<Longrightarrow> walkUp def n = Some (\<exists>m \<in> set (n # c). hasOutgoing def m)"
proof (induction rule: chain.induct)
  case (chain_root n)
  have "walkUp def [] = Some False" by (simp add: walkUp.simps)
  with chain_root show ?case
    by (cases "map_of (df_States def) n") (auto simp: walkUp.simps [of def n] parent_of_def)
next
  case (chain_step n ps)
  then obtain st where "map_of (df_States def) n = Some st" "st_Parent st = parent_of def n"
    by (cases "map_of (df_States def) n") (auto simp: parent_of_def)
  with chain_step show ?case by (auto simp: walkUp.simps [of def n])
qed

text \<open>On a parent cycle without outgoing transitions the loop never returns.\<close>

lemma walkUp_diverges:
  assumes closed: "\<And>m. m \<in> C \<Longrightarrow> m \<noteq> [] \<and> \<not> hasOutgoing def m \<and> parent_of def m \<in> C"
    and "n \<in> C"
  shows "walkUp def n = None"
proof -
  have "n \<notin> C" if r: "walkUp def n = Some b" for n b
  proof (rule walkUp.raw_induct [where P = "\<lambda>d n b. d = def \<longrightarrow> n \<notin> C", OF _ r, THEN mp, OF _ refl])
    fix f d n b
    assume IH: "\<And>d n b. f d n = Some b \<Longrightarrow> d = def \<longrightarrow> n \<notin> C"
      and eq: "(if n = [] then Some False
         else if hasOutgoing d n then Some True
              else case map_of (df_States d) n of Some ancestor \<Rightarrow> f d (st_Parent ancestor)
                   | None \<Rightarrow> Some False) = Some b"
    show "d = def \<longrightarrow> n \<notin> C"
    proof (intro impI notI)
      assume d: "d = def" and n: "n \<in> C"
      note c = closed [OF n]
      then have "parent_of def n \<noteq> []" using closed by blast
      then obtain st where st: "map_of (df_States def) n = Some st" "st_Parent st = parent_of def n"
        by (cases "map_of (df_States def) n") (auto simp: parent_of_def)
      with eq d c have "f d (parent_of def n) = Some b" by simp
      from IH [OF this] d c show False by simp
    qed
  qed
  with assms(2) show ?thesis by (cases "walkUp def n") auto
qed

section \<open>Acceptance, declaratively\<close>

text \<open>A state can be left when it or one of its ancestors has an outgoing transition.\<close>

definition can_leave :: "Definition \<Rightarrow> string \<Rightarrow> bool" where
  "can_leave def n \<longleftrightarrow> (\<exists>m. (n, m) \<in> (parent_rel def)\<^sup>* \<and> hasOutgoing def m)"

definition valid_spec :: "Definition \<Rightarrow> bool" where
  "valid_spec def \<longleftrightarrow>
     (let S = set (df_States def); known = fst ` S in
      card {n. \<exists>st. (n, st) \<in> S \<and> st_IsInitial st} = 1 \<and>
      (\<exists>(n, st) \<in> S. st_IsTerminal st) \<and>
      (\<forall>(n, tr) \<in> set (df_Transitions def).
         set (tr_Sources tr) \<subseteq> known \<and> (tr_Target tr = [] \<or> tr_Target tr \<in> known) \<and>
         (\<forall>r \<in> set (tr_Routes tr). rt_Target r = [] \<or> rt_Target r \<in> known)) \<and>
      (\<forall>(n, st) \<in> S. st_Parent st = [] \<or> st_Parent st \<in> known) \<and>
      (\<forall>(n, st) \<in> S. st_IsCompound st \<and> \<not> st_IsParallel st \<longrightarrow>
         st_InitialChild st \<noteq> [] \<and> st_InitialChild st \<in> set (st_Children st)) \<and>
      (\<forall>(n, st) \<in> S. st_IsParallel st \<longrightarrow> st_Children st \<noteq> [] \<and>
         \<not> (st_Parent st \<noteq> [] \<and> st_IsParallel (state_of def (st_Parent st))) \<and>
         (\<forall>c \<in> set (st_Children st) \<inter> known.
            \<not> st_IsParallel (state_of def c) \<and> st_IsCompound (state_of def c))) \<and>
      (\<forall>(n, st) \<in> S. \<not> (st_IsCompound st \<and> st_IsTerminal st)) \<and>
      (\<forall>(n, st) \<in> S. \<not> (st_IsInitial st \<and> st_IsCompound st)) \<and>
      (\<forall>(n, st) \<in> S. \<not> (st_IsWait st \<and> st_IsCompound st)) \<and>
      (\<forall>(n, st) \<in> S. \<not> st_IsTerminal st \<and> \<not> st_IsCompound st \<longrightarrow>
         can_leave def n) \<and>
      (df_InitialState def = [] \<or> known \<subseteq> (reach_edges def)\<^sup>* `` {df_InitialState def}))"

lemma knownState_iff: "knownState def n \<longleftrightarrow> n \<in> fst ` set (df_States def)"
  by (simp add: knownState_def map_of_None_iff)

lemma checkInitialState_None:
  assumes "wf_map (df_States def)"
  shows "checkInitialState def = None \<longleftrightarrow>
    card {n. \<exists>st. (n, st) \<in> set (df_States def) \<and> st_IsInitial st} = 1"
proof -
  let ?F = "filter (\<lambda>(_, st). st_IsInitial st) (df_States def)"
  have "distinct (map fst ?F)" using assms by (simp add: wf_map_def distinct_map_filter)
  then have "length ?F = card (fst ` set ?F)" by (metis distinct_card length_map set_map)
  also have "fst ` set ?F = {n. \<exists>st. (n, st) \<in> set (df_States def) \<and> st_IsInitial st}" by force
  finally show ?thesis by (auto simp: checkInitialState_def Let_def)
qed

lemma deadEndLoop_accept:
  assumes ac: "acyclic (parent_rel def)" and wf: "wf_map (df_States def)"
  shows "set sts \<subseteq> set (df_States def) \<Longrightarrow>
    \<exists>r. deadEndLoop def sts = Some r \<and> (r = None \<longleftrightarrow>
      (\<forall>(n, st) \<in> set sts. \<not> st_IsTerminal st \<and> \<not> st_IsCompound st \<longrightarrow>
         can_leave def n))"
proof (induction sts)
  case Nil
  then show ?case by simp
next
  case (Cons p sts)
  obtain n st where p: "p = (n, st)" by fastforce
  from Cons.prems p wf have st: "map_of (df_States def) n = Some st" by (simp add: map_of_in_set_wf)
  then have par: "parent_of def n = st_Parent st" by (simp add: parent_of_def)
  obtain c where c: "chain def n c" using chain_exists_of_acyclic [OF ac] by blast
  have walk: "hasOutgoingOrAncestorHas n (st_Parent st) def =
      Some (can_leave def n)"
  proof -
    have rt: "{m. (n, m) \<in> (parent_rel def)\<^sup>*} = set (n # c)"
      using chain_set [OF c] by (auto simp: rtrancl_eq_or_trancl)
    have "walkUp def (st_Parent st) = Some (\<exists>m \<in> set c. hasOutgoing def m)"
    proof (cases "st_Parent st = []")
      case True
      with c par have "c = []" by (auto elim: chain.cases)
      with True show ?thesis by (simp add: walkUp.simps)
    next
      case False
      with c par obtain ps where "c = st_Parent st # ps" "chain def (st_Parent st) ps"
        by (auto elim: chain.cases)
      with walkUp_chain False show ?thesis by simp
    qed
    with rt show ?thesis by (auto simp: hasOutgoingOrAncestorHas_def can_leave_def)
  qed
  from Cons obtain r where "deadEndLoop def sts = Some r" "r = None \<longleftrightarrow>
      (\<forall>(n, st) \<in> set sts. \<not> st_IsTerminal st \<and> \<not> st_IsCompound st \<longrightarrow>
         can_leave def n)" by force
  with p walk show ?case by (auto split: bool.splits)
qed

lemma checkUnknownStates_None:
  "checkUnknownStates def = None \<longleftrightarrow> (\<forall>(n, tr) \<in> set (df_Transitions def).
     set (tr_Sources tr) \<subseteq> fst ` set (df_States def) \<and>
     (tr_Target tr = [] \<or> tr_Target tr \<in> fst ` set (df_States def)) \<and>
     (\<forall>r \<in> set (tr_Routes tr). rt_Target r = [] \<or> rt_Target r \<in> fst ` set (df_States def)))"
  unfolding checkUnknownStates_def first_err_None
  by (rule ball_cong [OF refl])
    (simp only: split_beta err_None_simps first_err_None knownState_iff subset_eq de_Morgan_conj not_not)

lemma checkRegion_None:
  "checkRegion def name c = None \<longleftrightarrow> (c \<in> fst ` set (df_States def) \<longrightarrow>
     \<not> st_IsParallel (state_of def c) \<and> st_IsCompound (state_of def c))"
  using map_of_None_iff [of "df_States def" c] map_of_key_iff [of "df_States def" c]
  by (cases "map_of (df_States def) c") (auto simp: checkRegion_def)

lemma checkParallelStates_None:
  "checkParallelStates def = None \<longleftrightarrow> (\<forall>(n, st) \<in> set (df_States def). st_IsParallel st \<longrightarrow>
     st_Children st \<noteq> [] \<and>
     \<not> (st_Parent st \<noteq> [] \<and> st_IsParallel (state_of def (st_Parent st))) \<and>
     (\<forall>c \<in> set (st_Children st) \<inter> fst ` set (df_States def).
        \<not> st_IsParallel (state_of def c) \<and> st_IsCompound (state_of def c)))"
  unfolding checkParallelStates_def first_err_None
  by (rule ball_cong [OF refl]) (auto simp: checkRegion_None split: prod.splits if_splits)

lemma Validate_iff_spec:
  assumes ac: "acyclic (parent_rel def)" and wf: "wf_map (df_States def)"
  shows "\<exists>r. Validate def = Some r \<and> (r = None \<longleftrightarrow> valid_spec def)"
proof -
  from deadEndLoop_accept [OF ac wf, of "df_States def"] obtain d where
    d: "checkDeadEnds def = Some d" "d = None \<longleftrightarrow>
      (\<forall>(n, st) \<in> set (df_States def). \<not> st_IsTerminal st \<and> \<not> st_IsCompound st \<longrightarrow>
         can_leave def n)"
    unfolding checkDeadEnds_def by blast
  have ex: "\<exists>r. Validate def = Some r"
    using d(1) by (auto simp: Validate_def ret_err_def split: option.splits)
  have t: "checkTerminalStates def = None \<longleftrightarrow> (\<exists>(n, st) \<in> set (df_States def). st_IsTerminal st)"
    by (simp add: checkTerminalStates_def)
  have o: "checkOrphanedChildren def = None \<longleftrightarrow>
      (\<forall>(n, st) \<in> set (df_States def). st_Parent st = [] \<or> st_Parent st \<in> fst ` set (df_States def))"
    unfolding checkOrphanedChildren_def by (auto simp: knownState_iff split: if_splits)
  have c: "checkCompoundStates def = None \<longleftrightarrow>
      (\<forall>(n, st) \<in> set (df_States def). st_IsCompound st \<and> \<not> st_IsParallel st \<longrightarrow>
         st_InitialChild st \<noteq> [] \<and> st_InitialChild st \<in> set (st_Children st))"
    unfolding checkCompoundStates_def by (auto split: if_splits)
  have cn: "checkCompoundNotTerminal def = None \<longleftrightarrow>
      (\<forall>(n, st) \<in> set (df_States def). \<not> (st_IsCompound st \<and> st_IsTerminal st))"
    "checkInitialNotCompound def = None \<longleftrightarrow>
      (\<forall>(n, st) \<in> set (df_States def). \<not> (st_IsInitial st \<and> st_IsCompound st))"
    "checkWaitLeafOnly def = None \<longleftrightarrow>
      (\<forall>(n, st) \<in> set (df_States def). \<not> (st_IsWait st \<and> st_IsCompound st))"
    unfolding checkCompoundNotTerminal_def checkInitialNotCompound_def checkWaitLeafOnly_def
    by (auto split: if_splits)
  have r: "checkReachability def = None \<longleftrightarrow> df_InitialState def = [] \<or>
      fst ` set (df_States def) \<subseteq> (reach_edges def)\<^sup>* `` {df_InitialState def}"
    unfolding checkReachability_def by (auto simp: Let_def reachableStates_reach split: if_splits)
  have "Validate def = Some None \<longleftrightarrow> valid_spec def"
    unfolding Validate_accept valid_spec_def Let_def checkInitialState_None [OF wf] t
      checkUnknownStates_None o c checkParallelStates_None cn r d(1) option.inject d(2) ..
  with ex show ?thesis by auto
qed

section \<open>Properties of validation\<close>



text \<open>
  A parent cycle above a leaf that no transition leaves can keep \<open>Validate\<close> from returning: the walk of \<open>hasOutgoingOrAncestorHas\<close> goes round the cycle for ever, so
  \<open>Build\<close> and \<open>Register\<close> hang before \<open>Compile\<close> could report \<open>ErrCircularHierarchy\<close>.
\<close>

lemma Validate_diverges_on_cycle:
  "Validate circular_def = None \<and> \<not> acyclic (parent_rel circular_def) \<and> wf_map (df_States circular_def)"
proof -
  have w: "walkUp circular_def ''A'' = None"
    by (rule walkUp_diverges [where C = "{''A'', ''B''}"])
      (auto simp: hasOutgoing_def parent_of_def state_of_def circular_def_def sample_defs)
  have "checkInitialState circular_def = None" "checkTerminalStates circular_def = None"
    "checkUnknownStates circular_def = None" "checkOrphanedChildren circular_def = None"
    "checkCompoundStates circular_def = None" "checkParallelStates circular_def = None"
    "checkCompoundNotTerminal circular_def = None" "checkInitialNotCompound circular_def = None"
    "checkWaitLeafOnly circular_def = None" by code_simp+
  moreover have "checkDeadEnds circular_def = None"
    using w by (simp add: checkDeadEnds_def hasOutgoingOrAncestorHas_def hasOutgoing_def
        circular_def_def sample_defs)
  ultimately have "Validate circular_def = None" by (simp add: Validate_def ret_err_def)
  moreover have "(''A'', ''B'') \<in> parent_rel circular_def" "(''B'', ''A'') \<in> parent_rel circular_def"
    by (auto simp: parent_rel_def parent_of_def state_of_def circular_def_def sample_defs)
  then have "\<not> acyclic (parent_rel circular_def)"
    unfolding acyclic_def by (meson trancl.r_into_trancl trancl_into_trancl)
  moreover have "wf_map (df_States circular_def)" by code_simp
  ultimately show ?thesis by blast
qed

text \<open>
  The breadth-first search of \<open>checkReachability\<close> terminates and marks exactly the states that
  the initial state reaches through entries and transitions; the check reports an error exactly when
  a declared state is not among them.
\<close>

lemma checkReachability_correct:
  "set (reachableStates def) = (reach_edges def)\<^sup>* `` {df_InitialState def} \<and>
   (checkReachability def = None \<longleftrightarrow> df_InitialState def = [] \<or>
      fst ` set (df_States def) \<subseteq> (reach_edges def)\<^sup>* `` {df_InitialState def})"
  unfolding checkReachability_def by (auto simp: Let_def reachableStates_reach split: if_splits)

text \<open>
  Whether \<open>Validate\<close> accepts does not depend on the iteration order of the state and transition
  maps.
\<close>

lemma Validate_order_independent:
  assumes "acyclic (parent_rel def)" and "wf_map (df_States def)"
    and "mset states = mset (df_States def)" and "mset transitions = mset (df_Transitions def)"
  shows "Validate (def\<lparr>df_States := states, df_Transitions := transitions\<rparr>) = Some None \<longleftrightarrow>
    Validate def = Some None"
proof -
  let ?d = "def\<lparr>df_States := states, df_Transitions := transitions\<rparr>"
  have S: "set states = set (df_States def)" and T: "set transitions = set (df_Transitions def)"
    using assms(3,4) by (metis set_mset_mset)+
  have "mset (mkeys states) = mset (mkeys (df_States def))" using assms(3) by (metis mset_map)
  with assms(2) have wf: "wf_map states" unfolding wf_map_def by (metis mset_eq_imp_distinct_iff)
  with S assms(2) have m: "map_of states = map_of (df_States def)"
    by (simp add: wf_map_def map_of_inject_set)
  have "state_of ?d = state_of def" by (rule ext) (simp add: state_of_def m)
  then have "parent_rel ?d = parent_rel def" "hasOutgoing ?d = hasOutgoing def"
    "reach_edges ?d = reach_edges def"
    by (auto simp: parent_rel_def parent_of_def hasOutgoing_def T fun_eq_iff reach_edges_def
        transTargets_def)
  moreover from this(1,2) have "can_leave ?d = can_leave def" by (auto simp: can_leave_def fun_eq_iff)
  ultimately have "valid_spec ?d \<longleftrightarrow> valid_spec def"
    using \<open>state_of ?d = state_of def\<close> by (simp add: valid_spec_def S T)
  moreover have "acyclic (parent_rel ?d)" "wf_map (df_States ?d)"
    using \<open>parent_rel ?d = parent_rel def\<close> assms(1) wf by simp_all
  ultimately show ?thesis
    using Validate_iff_spec [of ?d] Validate_iff_spec [OF assms(1,2)] by auto
qed

lemma Validate_order_independent_witness:
  "Validate (order_def\<lparr>df_States := rev order_states, df_Transitions := rev order_transitions\<rparr>) = Some None"
proof -
  have "Validate order_def = Some None" by code_simp
  moreover have "mset (rev order_states) = mset (df_States order_def)"
    "mset (rev order_transitions) = mset (df_Transitions order_def)" by (simp_all add: order_def_def)
  ultimately show ?thesis
    using Validate_order_independent [OF order_acyclic order_links(3)] by blast
qed

lemma initial_leaf_descendant:
  "initial_leaf def n l \<Longrightarrow> init_links def \<Longrightarrow> named_compounds def \<Longrightarrow> (l, n) \<in> (parent_rel def)\<^sup>*"
proof (induction rule: initial_leaf.induct)
  case (leaf_stop n)
  then show ?case by simp
next
  case (leaf_step n l)
  then have "n \<noteq> []" by (auto simp: named_compounds_def)
  with leaf_step parent_rel_nonroot have "(st_InitialChild (state_of def n), n) \<in> parent_rel def"
    by blast
  with leaf_step show ?case by (meson rtrancl.rtrancl_into_rtrancl)
qed

lemma initial_leaf_rests: "initial_leaf def n l \<Longrightarrow>
    \<not> st_IsCompound (state_of def l) \<or> st_InitialChild (state_of def l) = []"
  by (induction rule: initial_leaf.induct) auto

definition rests :: "Definition \<Rightarrow> string \<Rightarrow> bool" where
  "rests def l \<longleftrightarrow> knownState def l \<and>
     (\<not> st_IsCompound (state_of def l) \<or> st_IsParallel (state_of def l))"

lemma Validate_compound_links:
  assumes "Validate def = Some None" "st_IsCompound (state_of def l)" "\<not> st_IsParallel (state_of def l)"
  shows "st_InitialChild (state_of def l) \<noteq> []"
proof -
  obtain st where st: "map_of (df_States def) l = Some st"
    using assms(2) by (cases "map_of (df_States def) l") auto
  from assms(1) have "checkCompoundStates def = None" by (simp add: Validate_accept)
  then have "st_IsCompound st \<Longrightarrow> \<not> st_IsParallel st \<Longrightarrow> st_InitialChild st \<noteq> []"
    using map_of_SomeD [OF st] unfolding checkCompoundStates_def first_err_None
    by (auto split: if_splits)
  with assms(2,3) st show ?thesis by simp
qed

lemma initial_leaf_resting:
  assumes "initial_leaf def n l" "l \<noteq> n" "Validate def = Some None" "init_links def" "named_compounds def"
  shows "rests def l \<and> (l, n) \<in> (parent_rel def)\<^sup>+"
proof -
  from initial_leaf_descendant [OF assms(1,4,5)] assms(2) have t: "(l, n) \<in> (parent_rel def)\<^sup>+"
    by (simp add: rtrancl_eq_or_trancl)
  then have "knownState def l"
    by (auto simp: knownState_iff dest!: tranclD parent_relD intro: parent_of_key)
  with initial_leaf_rests [OF assms(1)] Validate_compound_links [OF assms(3)] t show ?thesis
    by (auto simp: rests_def)
qed

text \<open>
  Where the \<open>InitialChild\<close> links go to children, entering a compound state of a validated and compiled
  definition ends in a descendant of it in which an instance can rest: a declared state that is a
  leaf or a parallel state.
\<close>

lemma InitialLeafMap_resting:
  assumes "Compile digest def = Some (Inr cm)" and "Validate def = Some None"
    and "init_links def" "named_compounds def" "wf_map (df_States def)"
    and "map_of (cm_InitialLeafMap cm) n = Some l"
  shows "initial_leaf def n l \<and> (l, n) \<in> (parent_rel def)\<^sup>+ \<and> rests def l"
proof -
  note il = Compile_leaf [OF assms(1,3-5)]
  from il(2) assms(6) have l: "initial_leaf def n l" by simp
  from il(1) [of n] assms(6) have "hasInitialLeaf (state_of def n)" by (auto split: if_splits)
  with initial_leaf_rests [OF l] have "l \<noteq> n" by (auto simp: hasInitialLeaf_def)
  with initial_leaf_resting [OF l _ assms(2-4)] l show ?thesis by blast
qed

end
