(* ===== verification/Flow_Spawn.thy ===== *)
theory Flow_Spawn
  imports Flow_Samples
begin

text \<open>
  \<open>internal/graph/spawn.go\<close>: the spawn graph between workflow types and its three-colour
  depth-first search, with the proof that it reports a cycle exactly when there is one.
\<close>

section \<open>The spawn graph\<close>

definition childTypes :: "TransitionDef \<Rightarrow> string list" where
  "childTypes tr =
     (case tr_ChildDef tr of
        Some c \<Rightarrow> if cd_WorkflowType c \<noteq> [] then [cd_WorkflowType c] else []
      | None \<Rightarrow> []) @
     (case tr_ChildrenDef tr of
        Some cs \<Rightarrow> if cs_WorkflowType cs \<noteq> [] then [cs_WorkflowType cs] else []
      | None \<Rightarrow> [])"

definition addSpawns :: "Definition \<Rightarrow> (string, string list) gomap \<Rightarrow> (string, string list) gomap" where
  "addSpawns def adj =
     mput (df_WorkflowType def)
       (nexts adj (df_WorkflowType def) @ concat (map (\<lambda>(_, tr). childTypes tr) (df_Transitions def)))
       adj"

definition spawnGraph :: "Definition list \<Rightarrow> (string, string list) gomap" where
  "spawnGraph defs = fold addSpawns defs []"

section \<open>Three-colour search\<close>

text \<open>A missing colour reads as 0, white; 1 is grey (on the current path), 2 black (done).\<close>

definition colour_of :: "(string, nat) gomap \<Rightarrow> string \<Rightarrow> nat" where
  "colour_of colour n = (case map_of colour n of None \<Rightarrow> 0 | Some c \<Rightarrow> c)"

lemma colour_of_mput [simp]: "colour_of (mput k c colour) n = (if n = k then c else colour_of colour n)"
  by (simp add: colour_of_def)

text \<open>
  The cycle is printed as the names joined by arrows; the model keeps the list of names. A grey
  neighbour that were not on the path would give \<open>path[-1:]\<close>, a run-time panic.
\<close>

definition cycleError :: "string \<Rightarrow> string list \<Rightarrow> gerr" where
  "cycleError neighbour path =
     (if neighbour \<in> set path
      then ValidationError ErrSpawnCycle ''flowstep: spawn cycle detected: %s''
             (qs (dropWhile (\<lambda>n. n \<noteq> neighbour) path @ [neighbour]))
      else Panic ''slice bounds out of range'')"

text \<open>
  \<open>dfsNeighbours\<close> is the loop over the neighbours of the node on top of the path, with the
  recursive call of \<open>dfs\<close> for a white neighbour written out.
\<close>

function dfsNeighbours ::
  "(string, string list) gomap \<Rightarrow> string list \<Rightarrow> (string, nat) gomap \<Rightarrow> string list \<Rightarrow>
     gerr option \<times> (string, nat) gomap \<times> string list" where
  "dfsNeighbours adj [] colour path = (None, colour, path)"
| "dfsNeighbours adj (n # ns) colour path =
     (if colour_of colour n = 1 then (Some (cycleError n path), colour, path)
      else if colour_of colour n = 0 then
        (case dfsNeighbours adj (nexts adj n) (mput n 1 colour) (path @ [n]) of
           (Some e, colour', path') \<Rightarrow> (Some e, colour', path')
         | (None, colour', path') \<Rightarrow> dfsNeighbours adj ns (mput n 2 colour') (butlast path'))
      else dfsNeighbours adj ns colour path)"
  by pat_completeness auto

lemma dfsNeighbours_dom_mono:
  "dfsNeighbours_dom (adj, ns, colour, path) \<Longrightarrow>
     dfsNeighbours adj ns colour path = (r, colour', path') \<Longrightarrow>
     colour_of colour' x = 0 \<Longrightarrow> colour_of colour x = 0"
proof (induction adj ns colour path arbitrary: r colour' path' rule: dfsNeighbours.pinduct)
  case (1 adj colour path)
  then show ?case by (simp add: dfsNeighbours.psimps)
next
  case (2 adj n ns colour path)
  consider "colour_of colour n = 1" | "colour_of colour n = 0" | "colour_of colour n \<noteq> 0" "colour_of colour n \<noteq> 1"
    by blast
  then show ?case
  proof cases
    case 1
    with 2 show ?thesis by (simp add: dfsNeighbours.psimps)
  next
    case w: 2
    obtain r1 c1 p1 where d: "dfsNeighbours adj (nexts adj n) (mput n 1 colour) (path @ [n]) = (r1, c1, p1)"
      by (metis prod_cases3)
    have IH1: "colour_of colour x = 0" if "colour_of c1 x = 0"
    proof -
      from w have "colour_of colour n \<noteq> 1" by simp
      from 2(2) [OF this w d that] show ?thesis by (auto split: if_splits)
    qed
    show ?thesis
    proof (cases r1)
      case (Some e)
      with 2 w d IH1 show ?thesis by (simp add: dfsNeighbours.psimps)
    next
      case None
      with 2(1,5) w d have "dfsNeighbours adj ns (mput n 2 c1) (butlast p1) = (r, colour', path')"
        by (simp add: dfsNeighbours.psimps)
      with 2(3) [OF _ w d [symmetric] _ _ this 2(6)] w IH1 None show ?thesis
        by (auto split: if_splits)
    qed
  next
    case 3
    with 2 show ?thesis by (simp add: dfsNeighbours.psimps)
  qed
qed

termination dfsNeighbours
proof (relation "inv_image (finite_psubset <*lex*> less_than)
    (\<lambda>(adj, ns, colour, path). ({n \<in> fst ` set adj. colour_of colour n = 0}, length ns))", goal_cases)
  case 1
  show ?case by (simp add: wf_finite_psubset wf_lex_prod)
next
  case (2 adj n ns colour path)
  then show ?case
    by (cases "n \<in> fst ` set adj") (auto simp: finite_psubset_def)
next
  case (3 adj n ns colour path t u colour' path')
  then have "dfsNeighbours adj (nexts adj n) (mput n 1 colour) (path @ [n]) = (None, colour', path')"
    by simp
  from dfsNeighbours_dom_mono [OF 3(6) this]
  have "x \<noteq> n \<and> colour_of colour x = 0" if "colour_of colour' x = 0" for x
    using that by (metis colour_of_mput zero_neq_one)
  then show ?case by (auto simp: finite_psubset_def split: if_splits)
next
  case (4 adj n ns colour path)
  then show ?case by simp
qed

definition dfsSpawn ::
  "(string, string list) gomap \<Rightarrow> string \<Rightarrow> (string, nat) gomap \<Rightarrow> string list \<Rightarrow>
     gerr option \<times> (string, nat) gomap \<times> string list" where
  "dfsSpawn adj node colour path =
     (case dfsNeighbours adj (nexts adj node) (mput node 1 colour) (path @ [node]) of
        (Some e, colour', path') \<Rightarrow> (Some e, colour', path')
      | (None, colour', path') \<Rightarrow> (None, mput node 2 colour', butlast path'))"

fun spawnLoop ::
  "(string, string list) gomap \<Rightarrow> string list \<Rightarrow> (string, nat) gomap \<Rightarrow> string list \<Rightarrow> gerr option" where
  "spawnLoop adj [] colour path = None"
| "spawnLoop adj (node # nodes) colour path =
     (if colour_of colour node = 0 then
        (case dfsSpawn adj node colour path of
           (Some e, colour', path') \<Rightarrow> Some e
         | (None, colour', path') \<Rightarrow> spawnLoop adj nodes colour' path')
      else spawnLoop adj nodes colour path)"

definition DetectSpawnCycles :: "Definition list \<Rightarrow> gerr option" where
  "DetectSpawnCycles definitions =
     (let adj = spawnGraph definitions in spawnLoop adj (mkeys adj) [] [])"


section \<open>Correctness of the search\<close>

text \<open>
  The state of the search between two steps: the path is the grey nodes, in order, each an edge
  away from the next, and the black nodes are closed under edges and lie on no cycle.
\<close>

definition dfs_inv :: "(string, string list) gomap \<Rightarrow> (string, nat) gomap \<Rightarrow> string list \<Rightarrow> bool" where
  "dfs_inv adj colour path \<longleftrightarrow>
     distinct path \<and> set path = {n. colour_of colour n = 1} \<and>
     successively (\<lambda>x y. (x, y) \<in> edges adj) path \<and>
     edges adj `` {n. colour_of colour n = 2} \<subseteq> {n. colour_of colour n = 2} \<and>
     (\<forall>n. colour_of colour n = 2 \<longrightarrow> (n, n) \<notin> (edges adj)\<^sup>+) \<and>
     (\<forall>n. colour_of colour n \<le> 2)"

definition cycle_report :: "(string, string list) gomap \<Rightarrow> gerr \<Rightarrow> bool" where
  "cycle_report adj e \<longleftrightarrow>
     (\<exists>x ys. (x, x) \<in> (edges adj)\<^sup>+ \<and> successively (\<lambda>a b. (a, b) \<in> edges adj) (x # ys @ [x]) \<and>
        e = ValidationError ErrSpawnCycle ''flowstep: spawn cycle detected: %s'' (qs (x # ys @ [x])))"

lemma successively_trancl:
  "successively (\<lambda>a b. (a, b) \<in> r) (x # ys @ [z]) \<Longrightarrow> (x, z) \<in> r\<^sup>+"
  by (induction ys arbitrary: x) (auto intro: trancl_into_trancl2)

lemma cycleError_report:
  assumes "dfs_inv adj colour path" "colour_of colour n = 1" "path \<noteq> [] \<Longrightarrow> (last path, n) \<in> edges adj"
  shows "cycle_report adj (cycleError n path)"
proof -
  from assms have n: "n \<in> set path" by (auto simp: dfs_inv_def)
  then obtain us vs where p: "path = us @ n # vs" "n \<notin> set us" by (meson split_list_first)
  then have d: "dropWhile (\<lambda>m. m \<noteq> n) path = n # vs" by (auto simp: dropWhile_append)
  have "successively (\<lambda>a b. (a, b) \<in> edges adj) (n # vs)"
    using assms(1) p by (auto simp: dfs_inv_def successively_append_iff)
  moreover have "(last (n # vs), n) \<in> edges adj" using assms(3) p by auto
  ultimately have "successively (\<lambda>a b. (a, b) \<in> edges adj) (n # vs @ [n])"
    using successively_append_iff [of "\<lambda>a b. (a, b) \<in> edges adj" "n # vs" "[n]"] by simp
  with successively_trancl [OF this] n d show ?thesis
    unfolding cycle_report_def cycleError_def by auto
qed

lemma dfs_inv_push:
  assumes "dfs_inv adj colour path" "colour_of colour n = 0" "path \<noteq> [] \<Longrightarrow> (last path, n) \<in> edges adj"
  shows "dfs_inv adj (mput n 1 colour) (path @ [n])"
  using assms unfolding dfs_inv_def
  by (auto simp: successively_append_iff split: if_splits)

lemma dfs_inv_pop:
  assumes i: "dfs_inv adj colour (path @ [n])" and b: "\<forall>m \<in> set (nexts adj n). colour_of colour m = 2"
  shows "dfs_inv adj (mput n 2 colour) path"
proof -
  let ?B = "{m. colour_of colour m = 2}"
  from i have c: "edges adj `` ?B \<subseteq> ?B" by (simp add: dfs_inv_def)
  have n: "colour_of colour n = 1" using i by (auto simp: dfs_inv_def)
  have "y \<in> ?B" if "(n, y) \<in> (edges adj)\<^sup>+" for y
    using that
  proof induction
    case (base y)
    with b show ?case by (simp add: edges_def)
  next
    case (step y z)
    with c show ?case by blast
  qed
  with n have "(n, n) \<notin> (edges adj)\<^sup>+" by fastforce
  moreover have "edges adj `` insert n ?B \<subseteq> insert n ?B" using c b by (auto simp: edges_def)
  moreover have "{m. colour_of (mput n 2 colour) m = 2} = insert n ?B" by auto
  ultimately show ?thesis
    using i unfolding dfs_inv_def by (auto simp: successively_append_iff)
qed

lemma dfsNeighbours_spec:
  "dfsNeighbours adj ns colour path = (r, colour', path') \<Longrightarrow> dfs_inv adj colour path \<Longrightarrow>
     (path \<noteq> [] \<Longrightarrow> \<forall>n \<in> set ns. (last path, n) \<in> edges adj) \<Longrightarrow>
     (case r of Some e \<Rightarrow> cycle_report adj e
      | None \<Rightarrow> dfs_inv adj colour' path' \<and> path' = path \<and> (\<forall>n \<in> set ns. n \<notin> set path \<longrightarrow> colour_of colour' n = 2) \<and>
                (\<forall>n. colour_of colour n = 2 \<longrightarrow> colour_of colour' n = 2) \<and> (\<forall>n \<in> set ns. n \<notin> set path))"
proof (induction adj ns colour path arbitrary: r colour' path' rule: dfsNeighbours.induct)
  case (1 adj colour path)
  then show ?case by simp
next
  case (2 adj n ns colour path)
  consider "colour_of colour n = 1" | "colour_of colour n = 0" | "colour_of colour n = 2"
    using 2(5) unfolding dfs_inv_def by (metis One_nat_def Suc_1 le_Suc_eq le_zero_eq)
  then show ?case
  proof cases
    case 1
    have "cycle_report adj (cycleError n path)"
      by (rule cycleError_report [OF 2(5) 1]) (use 2(6) in auto)
    with 2(4) 1 show ?thesis by auto
  next
    case w: 2
    obtain r1 c1 p1 where d: "dfsNeighbours adj (nexts adj n) (mput n 1 colour) (path @ [n]) = (r1, c1, p1)"
      by (metis prod_cases3)
    have i: "dfs_inv adj (mput n 1 colour) (path @ [n])"
      by (rule dfs_inv_push [OF 2(5) w]) (use 2(6) in auto)
    from 2(1) [OF _ w d i] w
    have IH1: "case r1 of Some e \<Rightarrow> cycle_report adj e
      | None \<Rightarrow> dfs_inv adj c1 p1 \<and> p1 = path @ [n] \<and>
                (\<forall>m \<in> set (nexts adj n). m \<notin> set (path @ [n]) \<longrightarrow> colour_of c1 m = 2) \<and>
                (\<forall>m. colour_of (mput n 1 colour) m = 2 \<longrightarrow> colour_of c1 m = 2) \<and>
                (\<forall>m \<in> set (nexts adj n). m \<notin> set (path @ [n]))"
      by (simp add: edges_def)
    show ?thesis
    proof (cases r1)
      case (Some e)
      with 2(4) w d IH1 show ?thesis by auto
    next
      case None
      with 2(4) w d have rest: "dfsNeighbours adj ns (mput n 2 c1) (butlast p1) = (r, colour', path')"
        by simp
      from IH1 None have f: "dfs_inv adj c1 (path @ [n])" "p1 = path @ [n]"
        "\<forall>m \<in> set (nexts adj n). colour_of c1 m = 2"
        "\<forall>m. m \<noteq> n \<longrightarrow> colour_of colour m = 2 \<longrightarrow> colour_of c1 m = 2" by auto
      from dfs_inv_pop [OF f(1,3)] have i2: "dfs_inv adj (mput n 2 c1) (butlast p1)" by (simp add: f(2))
      have last: "\<forall>n \<in> set ns. (last (butlast p1), n) \<in> edges adj" if "butlast p1 \<noteq> []"
        using that 2(6) f(2) by auto
      have "colour_of colour n \<noteq> 1" using w by simp
      from 2(2) [OF this w d [symmetric] None refl rest i2 last]
      have "case r of Some e \<Rightarrow> cycle_report adj e
        | None \<Rightarrow> dfs_inv adj colour' path' \<and> path' = path \<and> (\<forall>n \<in> set ns. n \<notin> set path \<longrightarrow> colour_of colour' n = 2) \<and>
                (\<forall>m. colour_of (mput n 2 c1) m = 2 \<longrightarrow> colour_of colour' m = 2) \<and> (\<forall>n \<in> set ns. n \<notin> set path)"
        by (auto simp: f(2) split: option.splits)
      moreover have "n \<notin> set path" using 2(5) w by (auto simp: dfs_inv_def)
      ultimately show ?thesis using f(4) by (auto split: option.splits)
    qed
  next
    case b: 3
    moreover from b 2(5) have "n \<notin> set path" by (auto simp: dfs_inv_def)
    ultimately show ?thesis using 2(3) [of r colour' path'] 2(4,5,6) by (auto split: option.splits)
  qed
qed


lemma dfsSpawn_spec:
  assumes "dfsSpawn adj node colour [] = (r, colour', path')" "dfs_inv adj colour []"
    "colour_of colour node = 0"
  shows "case r of Some e \<Rightarrow> cycle_report adj e
         | None \<Rightarrow> dfs_inv adj colour' [] \<and> path' = [] \<and> colour_of colour' node = 2 \<and>
                   (\<forall>n. colour_of colour n = 2 \<longrightarrow> colour_of colour' n = 2)"
proof -
  obtain r1 c1 p1 where d: "dfsNeighbours adj (nexts adj node) (mput node 1 colour) [node] = (r1, c1, p1)"
    by (metis prod_cases3)
  have i: "dfs_inv adj (mput node 1 colour) [node]" using dfs_inv_push [OF assms(2,3)] by simp
  note s = dfsNeighbours_spec [OF d i, simplified, unfolded edges_def, simplified]
  show ?thesis
  proof (cases r1)
    case (Some e)
    with assms(1) d s show ?thesis by (auto simp: dfsSpawn_def)
  next
    case None
    with s have f: "dfs_inv adj c1 ([] @ [node])" "p1 = [node]" "\<forall>m \<in> set (nexts adj node). colour_of c1 m = 2"
      "\<forall>n. n \<noteq> node \<longrightarrow> colour_of colour n = 2 \<longrightarrow> colour_of c1 n = 2" by auto
    from dfs_inv_pop [OF f(1,3)] f(2,4) None assms(1,3) d show ?thesis
      by (auto simp: dfsSpawn_def)
  qed
qed

lemma spawnLoop_spec:
  "dfs_inv adj colour [] \<Longrightarrow>
     (case spawnLoop adj nodes colour [] of Some e \<Rightarrow> cycle_report adj e
      | None \<Rightarrow> \<forall>n \<in> set nodes \<union> {n. colour_of colour n = 2}. (n, n) \<notin> (edges adj)\<^sup>+)"
proof (induction nodes arbitrary: colour)
  case Nil
  then show ?case by (simp add: dfs_inv_def)
next
  case (Cons node nodes)
  show ?case
  proof (cases "colour_of colour node = 0")
    case True
    obtain r c p where d: "dfsSpawn adj node colour [] = (r, c, p)" by (metis prod_cases3)
    show ?thesis
    proof (cases r)
      case (Some e)
      with dfsSpawn_spec [OF d Cons.prems True] d True show ?thesis by simp
    next
      case None
      with dfsSpawn_spec [OF d Cons.prems True] have f: "dfs_inv adj c []" "p = []" "colour_of c node = 2"
        "\<forall>n. colour_of colour n = 2 \<longrightarrow> colour_of c n = 2" by auto
      from Cons.IH [OF f(1)] None d f True show ?thesis by (auto split: option.splits)
    qed
  next
    case False
    from Cons.prems have "colour_of colour node \<noteq> 1" "colour_of colour node \<le> 2"
      by (auto simp: dfs_inv_def)
    with False have "colour_of colour node = 2" by linarith
    with Cons.IH [OF Cons.prems] False show ?thesis by (auto split: option.splits)
  qed
qed

text \<open>The spawn relation the search is about: type \<open>a\<close> can spawn type \<open>b\<close>.\<close>

definition spawns :: "Definition list \<Rightarrow> (string \<times> string) set" where
  "spawns defs = {(a, b). \<exists>d \<in> set defs. df_WorkflowType d = a \<and>
                     (\<exists>k tr. (k, tr) \<in> set (df_Transitions d) \<and> b \<in> set (childTypes tr))}"

lemma set_childTypes:
  "set (concat (map (\<lambda>(_, tr). childTypes tr) trs)) = {b. \<exists>k tr. (k, tr) \<in> set trs \<and> b \<in> set (childTypes tr)}"
  by (induction trs) auto

lemma nexts_mput: "nexts (mput k v m) x = (if x = k then v else nexts m x)"
  by (simp add: nexts_def)

lemma edges_addSpawns:
  "edges (addSpawns d adj) = edges adj \<union> spawns [d]"
  unfolding edges_def addSpawns_def spawns_def nexts_mput
  by (auto simp: set_childTypes simp del: set_concat set_map split: if_splits)

lemma edges_spawnGraph: "edges (spawnGraph defs) = spawns defs"
proof -
  have "edges (fold addSpawns defs adj) = edges adj \<union> spawns defs" for adj
  proof (induction defs arbitrary: adj)
    case Nil
    then show ?case by (simp add: spawns_def)
  next
    case (Cons d ds)
    have "spawns (d # ds) = spawns [d] \<union> spawns ds" by (auto simp: spawns_def)
    with Cons show ?case by (simp add: edges_addSpawns Un_assoc)
  qed
  then show ?thesis by (simp add: spawnGraph_def edges_def nexts_def)
qed

lemma dfs_inv_start: "dfs_inv adj [] []"
  by (simp add: dfs_inv_def colour_of_def)

lemma DetectSpawnCycles_spec:
  "case DetectSpawnCycles defs of Some e \<Rightarrow> cycle_report (spawnGraph defs) e | None \<Rightarrow> acyclic (spawns defs)"
proof -
  let ?g = "spawnGraph defs"
  have key: "x \<in> set (mkeys ?g)" if "(x, x) \<in> (edges ?g)\<^sup>+" for x
  proof -
    from that obtain y where "(x, y) \<in> edges ?g" by (meson converse_tranclE)
    then show ?thesis by (cases "x \<in> fst ` set ?g") (auto simp: edges_def)
  qed
  from spawnLoop_spec [OF dfs_inv_start, where adj = ?g and nodes = "mkeys ?g"] key show ?thesis
    by (auto simp: DetectSpawnCycles_def acyclic_def edges_spawnGraph [symmetric] Let_def split: option.splits)
qed

text \<open>
  C17. \<open>DetectSpawnCycles\<close> returns nil exactly when no workflow type can, through any number of
  spawns, spawn itself; otherwise its error is \<open>ErrSpawnCycle\<close> and the path it prints is a cycle
  of the spawn relation, closed by repeating its first workflow type. The search terminates on
  every list of definitions and its verdict does not depend on the order of map iteration.
\<close>

theorem DetectSpawnCycles_correct:
  "(DetectSpawnCycles defs = None \<longleftrightarrow> acyclic (spawns defs)) \<and>
   (\<forall>e. DetectSpawnCycles defs = Some e \<longrightarrow> err_is e ErrSpawnCycle \<and>
      (\<exists>x ys. successively (\<lambda>a b. (a, b) \<in> spawns defs) (x # ys @ [x]) \<and>
         e = ValidationError ErrSpawnCycle ''flowstep: spawn cycle detected: %s'' (qs (x # ys @ [x]))))"
  using DetectSpawnCycles_spec [of defs]
  by (auto simp: cycle_report_def acyclic_def edges_spawnGraph split: option.splits)

definition spawn_def :: "string \<Rightarrow> string \<Rightarrow> Definition" where
  "spawn_def a b = order_def\<lparr>df_WorkflowType := a,
     df_Transitions := [(''T'', (s_edge ''T'' [''A''] ''B'')
       \<lparr>tr_ChildDef := Some \<lparr>cd_WorkflowType = b, cd_InputFrom = []\<rparr>\<rparr>)]\<rparr>"

theorem DetectSpawnCycles_correct_witness:
  "DetectSpawnCycles [spawn_def ''a'' ''b'', spawn_def ''b'' ''a''] \<noteq> None \<and>
   \<not> acyclic (spawns [spawn_def ''a'' ''b'', spawn_def ''b'' ''a'']) \<and>
   acyclic (spawns [spawn_def ''a'' ''b'', spawn_def ''b'' ''c''])"
proof -
  have 1: "DetectSpawnCycles [spawn_def ''a'' ''b'', spawn_def ''b'' ''a''] \<noteq> None" by code_simp
  have 2: "DetectSpawnCycles [spawn_def ''a'' ''b'', spawn_def ''b'' ''c''] = None" by code_simp
  have iff: "DetectSpawnCycles defs = None \<longleftrightarrow> acyclic (spawns defs)" for defs
    by (rule DetectSpawnCycles_correct [THEN conjunct1])
  from 1 2 show ?thesis unfolding iff by (intro conjI)
qed

end
