(* ===== verification/Flow_Interfaces.thy ===== *)
theory Flow_Interfaces
  imports Flow_Types "HOL-Library.State_Monad"
begin

text \<open>
  The interfaces the engine is built on (\<open>types/interfaces.go\<close>, \<open>types/observer.go\<close>) and the
  observer registry (\<open>internal/runtime/observer.go\<close>). A method that may touch the outside world is
  a computation of the state monad over a type \<open>'w\<close> of worlds, which is a parameter: nothing is
  assumed here about what a store, a bus or an activity does. An interface is a record of methods,
  a nil interface value is \<open>None\<close>, and an optional extension that the code finds by type assertion
  is an optional field. The \<open>context.Context\<close> argument of every method is left out: the engine only
  hands it on.
\<close>

section \<open>Fallible computations\<close>

text \<open>
  A Go function with results \<open>(T, error)\<close> is a computation of type \<open>gerr + 'a\<close>, one with the
  single result \<open>error\<close> of type \<open>gerr option\<close>. \<open>attempt\<close> and \<open>check\<close> are the statement
  \<open>if err != nil\<close> after such a call, with its two continuations.
\<close>

type_synonym ('w, 'a) prog = "('w, gerr + 'a) state"
type_synonym 'w proc = "('w, gerr option) state"

definition ret :: "'a \<Rightarrow> ('w, 'a) state" where
  "ret = State_Monad.return"

definition fail :: "gerr \<Rightarrow> ('w, 'a) prog" where
  "fail e = ret (Inl e)"

definition ok :: "'a \<Rightarrow> ('w, 'a) prog" where
  "ok x = ret (Inr x)"

definition attempt ::
  "('w, 'a) prog \<Rightarrow> (gerr \<Rightarrow> ('w, 'b) state) \<Rightarrow> ('a \<Rightarrow> ('w, 'b) state) \<Rightarrow> ('w, 'b) state" where
  "attempt m onerr k = do { r \<leftarrow> m; case r of Inl e \<Rightarrow> onerr e | Inr x \<Rightarrow> k x }"

definition check :: "'w proc \<Rightarrow> (gerr \<Rightarrow> ('w, 'b) state) \<Rightarrow> ('w, 'b) state \<Rightarrow> ('w, 'b) state" where
  "check m onerr k = do { r \<leftarrow> m; case r of Some e \<Rightarrow> onerr e | None \<Rightarrow> k }"

text \<open>A loop that runs a body for each element and nothing else.\<close>

fun each :: "('a \<Rightarrow> ('w, unit) state) \<Rightarrow> 'a list \<Rightarrow> ('w, unit) state" where
  "each f [] = ret ()"
| "each f (x # xs) = do { f x; each f xs }"

lemma run_ret [simp]: "run_state (ret x) w = (x, w)"
  by (simp add: ret_def)

lemma run_fail [simp]: "run_state (fail e) w = (Inl e, w)"
  by (simp add: fail_def)

lemma run_ok [simp]: "run_state (ok x) w = (Inr x, w)"
  by (simp add: ok_def)

lemma run_attempt:
  "run_state (attempt m onerr k) w =
     (case run_state m w of (Inl e, w') \<Rightarrow> run_state (onerr e) w' | (Inr x, w') \<Rightarrow> run_state (k x) w')"
  by (simp add: attempt_def split: prod.splits sum.splits)

lemma run_check:
  "run_state (check m onerr k) w =
     (case run_state m w of (Some e, w') \<Rightarrow> run_state (onerr e) w' | (None, w') \<Rightarrow> run_state k w')"
  by (simp add: check_def split: prod.splits option.splits)

lemma run_attempt_Inr:
  "run_state m w = (Inr x, w') \<Longrightarrow> run_state (attempt m onerr k) w = run_state (k x) w'"
  by (simp add: run_attempt)

lemma run_attempt_Inl:
  "run_state m w = (Inl e, w') \<Longrightarrow> run_state (attempt m onerr k) w = run_state (onerr e) w'"
  by (simp add: run_attempt)

lemma run_check_None:
  "run_state m w = (None, w') \<Longrightarrow> run_state (check m onerr k) w = run_state k w'"
  by (simp add: run_check)

lemma run_check_Some:
  "run_state m w = (Some e, w') \<Longrightarrow> run_state (check m onerr k) w = run_state (onerr e) w'"
  by (simp add: run_check)

lemmas run_simps = run_attempt run_check

section \<open>Frames\<close>

text \<open>
  \<open>keeps v m\<close>: the computation \<open>m\<close> leaves the view \<open>v\<close> of the world as it is. The rules carry
  the property through the combinators, so that a frame is proved from those of the calls.
\<close>

definition keeps :: "('w \<Rightarrow> 'v) \<Rightarrow> ('w, 'a) state \<Rightarrow> bool" where
  "keeps v m \<longleftrightarrow> (\<forall>w. v (snd (run_state m w)) = v w)"

named_theorems frame \<open>introduction rules for keeps\<close>

lemma keepsD: "keeps v m \<Longrightarrow> run_state m w = (r, w') \<Longrightarrow> v w' = v w"
  by (metis keeps_def snd_conv)

lemma keeps_ret [frame]: "keeps v (ret x)"
  by (simp add: keeps_def)

lemma keeps_fail [frame]: "keeps v (fail x)"
  by (simp add: keeps_def)

lemma keeps_ok [frame]: "keeps v (ok x)"
  by (simp add: keeps_def)

lemma keeps_bind [frame]:
  "keeps v m \<Longrightarrow> (\<And>x. keeps v (f x)) \<Longrightarrow> keeps v (State_Monad.bind m f)"
  by (auto simp: keeps_def split: prod.splits) (metis snd_conv)

lemma keeps_attempt [frame]:
  "keeps v m \<Longrightarrow> (\<And>e. keeps v (onerr e)) \<Longrightarrow> (\<And>x. keeps v (k x)) \<Longrightarrow> keeps v (attempt m onerr k)"
  unfolding attempt_def by (intro keeps_bind) (auto split: sum.splits)

lemma keeps_check [frame]:
  "keeps v m \<Longrightarrow> (\<And>e. keeps v (onerr e)) \<Longrightarrow> keeps v k \<Longrightarrow> keeps v (check m onerr k)"
  unfolding check_def by (intro keeps_bind) (auto split: option.splits)

lemma keeps_if [frame]: "keeps v a \<Longrightarrow> keeps v b \<Longrightarrow> keeps v (if c then a else b)"
  by simp

lemma keeps_option [frame]:
  "keeps v a \<Longrightarrow> (\<And>x. keeps v (f x)) \<Longrightarrow> keeps v (case c of None \<Rightarrow> a | Some x \<Rightarrow> f x)"
  by (simp split: option.splits)

lemma keeps_prod [frame]: "(\<And>x y. keeps v (f x y)) \<Longrightarrow> keeps v (case p of (x, y) \<Rightarrow> f x y)"
  by (simp split: prod.splits)

lemma keeps_each [frame]: "(\<And>x. keeps v (f x)) \<Longrightarrow> keeps v (each f xs)"
  by (induction xs) (auto intro!: frame)

section \<open>Stores, transactions, bus, runner and clock\<close>

text \<open>A transaction handle is a value of type \<open>any\<close>; the engine passes nil outside a transaction.\<close>

record 'w EventStore =
  es_Append :: "gval \<Rightarrow> DomainEvent \<Rightarrow> 'w proc"
  es_ListByCorrelation :: "string \<Rightarrow> ('w, DomainEvent list) prog"
  es_ListByAggregate :: "string \<Rightarrow> string \<Rightarrow> ('w, DomainEvent list) prog"

record 'w InstanceStore =
  is_Get :: "string \<Rightarrow> string \<Rightarrow> ('w, WorkflowInstance) prog"
  is_Create :: "gval \<Rightarrow> WorkflowInstance \<Rightarrow> 'w proc"
  is_Update :: "gval \<Rightarrow> WorkflowInstance \<Rightarrow> 'w proc"
  is_ListStuck :: "('w, WorkflowInstance list) prog"

record 'w SavepointProvider =
  sp_Savepoint :: "gval \<Rightarrow> string \<Rightarrow> 'w proc"
  sp_RollbackTo :: "gval \<Rightarrow> string \<Rightarrow> 'w proc"

record 'w TxProvider =
  tx_Begin :: "('w, gval) prog"
  tx_Commit :: "gval \<Rightarrow> 'w proc"
  tx_Rollback :: "gval \<Rightarrow> 'w proc"
  tx_Savepoints :: "'w SavepointProvider option"

record 'w EventBus =
  bus_Emit :: "DomainEvent \<Rightarrow> 'w proc"

record 'w ChildStore =
  ch_Create :: "gval \<Rightarrow> ChildRelation \<Rightarrow> 'w proc"
  ch_GetByChild :: "string \<Rightarrow> string \<Rightarrow> ('w, ChildRelation) prog"
  ch_GetByParent :: "string \<Rightarrow> string \<Rightarrow> ('w, ChildRelation list) prog"
  ch_GetByGroup :: "string \<Rightarrow> ('w, ChildRelation list) prog"
  ch_Complete :: "gval \<Rightarrow> string \<Rightarrow> string \<Rightarrow> string \<Rightarrow> 'w proc"

text \<open>\<open>ts_InvalidateByStates\<close> is the optional \<open>TaskInvalidator\<close> extension.\<close>

record 'w TaskStore =
  ts_Create :: "gval \<Rightarrow> PendingTask \<Rightarrow> 'w proc"
  ts_Get :: "string \<Rightarrow> ('w, PendingTask) prog"
  ts_GetByAggregate :: "string \<Rightarrow> string \<Rightarrow> ('w, PendingTask list) prog"
  ts_Complete :: "gval \<Rightarrow> string \<Rightarrow> string \<Rightarrow> string \<Rightarrow> 'w proc"
  ts_ListPending :: "('w, PendingTask list) prog"
  ts_ListExpired :: "('w, PendingTask list) prog"
  ts_InvalidateByStates :: "(gval \<Rightarrow> string \<Rightarrow> string \<Rightarrow> string list \<Rightarrow> 'w proc) option"

record 'w ActivityStore =
  as_Create :: "gval \<Rightarrow> ActivityInvocation \<Rightarrow> 'w proc"
  as_Get :: "string \<Rightarrow> ('w, ActivityInvocation) prog"
  as_UpdateStatus :: "string \<Rightarrow> string \<Rightarrow> ActivityResult option \<Rightarrow> 'w proc"
  as_ListByAggregate :: "string \<Rightarrow> string \<Rightarrow> ('w, ActivityInvocation list) prog"
  as_ListPending :: "('w, ActivityInvocation list) prog"
  as_ListFailed :: "('w, ActivityInvocation list) prog"
  as_ListRetryable :: "('w, ActivityInvocation list) prog"

record 'w Activity =
  ac_Name :: string
  ac_Execute :: "ActivityInput \<Rightarrow> ('w, ActivityResult option) prog"

text \<open>\<open>rn_Resolve\<close> is the optional \<open>ActivityResolver\<close> extension.\<close>

record 'w ActivityRunner =
  rn_Dispatch :: "ActivityInvocation \<Rightarrow> 'w proc"
  rn_Resolve :: "(string \<Rightarrow> 'w Activity option) option"

section \<open>Observers\<close>

record 'w ActivityObserver =
  ao_OnActivityDispatched :: "ObserverEvent \<Rightarrow> ('w, unit) state"
  ao_OnActivityCompleted :: "ObserverEvent \<Rightarrow> ('w, unit) state"
  ao_OnActivityFailed :: "ObserverEvent \<Rightarrow> ('w, unit) state"

record 'w InfrastructureObserver =
  io_OnStuck :: "ObserverEvent \<Rightarrow> ('w, unit) state"
  io_OnPostCommitError :: "ObserverEvent \<Rightarrow> ('w, unit) state"

text \<open>An observer implements any of four interfaces; the first two have one method each.\<close>

record 'w Observer =
  ob_Transition :: "(ObserverEvent \<Rightarrow> ('w, unit) state) option"
  ob_Guard :: "(ObserverEvent \<Rightarrow> ('w, unit) state) option"
  ob_Activity :: "'w ActivityObserver option"
  ob_Infrastructure :: "'w InfrastructureObserver option"

record 'w ObserverRegistry =
  or_transition :: "(ObserverEvent \<Rightarrow> ('w, unit) state) list"
  or_guard :: "(ObserverEvent \<Rightarrow> ('w, unit) state) list"
  or_activity :: "'w ActivityObserver list"
  or_infrastructure :: "'w InfrastructureObserver list"

definition addObserver :: "'w Observer \<Rightarrow> 'w ObserverRegistry \<Rightarrow> 'w ObserverRegistry" where
  "addObserver ob r =
     \<lparr>or_transition = or_transition r @ (case ob_Transition ob of None \<Rightarrow> [] | Some t \<Rightarrow> [t]),
      or_guard = or_guard r @ (case ob_Guard ob of None \<Rightarrow> [] | Some g \<Rightarrow> [g]),
      or_activity = or_activity r @ (case ob_Activity ob of None \<Rightarrow> [] | Some a \<Rightarrow> [a]),
      or_infrastructure = or_infrastructure r @ (case ob_Infrastructure ob of None \<Rightarrow> [] | Some i \<Rightarrow> [i])\<rparr>"

definition NewObserverRegistry :: "'w Observer list \<Rightarrow> 'w ObserverRegistry" where
  "NewObserverRegistry observers =
     fold addObserver observers
       \<lparr>or_transition = [], or_guard = [], or_activity = [], or_infrastructure = []\<rparr>"

text \<open>The Notify methods accept a nil registry.\<close>

definition NotifyTransition :: "'w ObserverRegistry option \<Rightarrow> ObserverEvent \<Rightarrow> ('w, unit) state" where
  "NotifyTransition r event =
     (case r of None \<Rightarrow> ret () | Some r \<Rightarrow> each (\<lambda>h. h event) (or_transition r))"

definition NotifyGuardFailed :: "'w ObserverRegistry option \<Rightarrow> ObserverEvent \<Rightarrow> ('w, unit) state" where
  "NotifyGuardFailed r event =
     (case r of None \<Rightarrow> ret () | Some r \<Rightarrow> each (\<lambda>h. h event) (or_guard r))"

definition NotifyActivityDispatched :: "'w ObserverRegistry option \<Rightarrow> ObserverEvent \<Rightarrow> ('w, unit) state" where
  "NotifyActivityDispatched r event =
     (case r of None \<Rightarrow> ret () | Some r \<Rightarrow> each (\<lambda>h. ao_OnActivityDispatched h event) (or_activity r))"

definition NotifyActivityCompleted :: "'w ObserverRegistry option \<Rightarrow> ObserverEvent \<Rightarrow> ('w, unit) state" where
  "NotifyActivityCompleted r event =
     (case r of None \<Rightarrow> ret () | Some r \<Rightarrow> each (\<lambda>h. ao_OnActivityCompleted h event) (or_activity r))"

definition NotifyActivityFailed :: "'w ObserverRegistry option \<Rightarrow> ObserverEvent \<Rightarrow> ('w, unit) state" where
  "NotifyActivityFailed r event =
     (case r of None \<Rightarrow> ret () | Some r \<Rightarrow> each (\<lambda>h. ao_OnActivityFailed h event) (or_activity r))"

definition NotifyStuck :: "'w ObserverRegistry option \<Rightarrow> ObserverEvent \<Rightarrow> ('w, unit) state" where
  "NotifyStuck r event =
     (case r of None \<Rightarrow> ret () | Some r \<Rightarrow> each (\<lambda>h. io_OnStuck h event) (or_infrastructure r))"

definition NotifyPostCommitError :: "'w ObserverRegistry option \<Rightarrow> ObserverEvent \<Rightarrow> ('w, unit) state" where
  "NotifyPostCommitError r event =
     (case r of None \<Rightarrow> ret () | Some r \<Rightarrow> each (\<lambda>h. io_OnPostCommitError h event) (or_infrastructure r))"

lemma NewObserverRegistry_sel:
  "or_transition (NewObserverRegistry obs) = List.map_filter ob_Transition obs"
  "or_guard (NewObserverRegistry obs) = List.map_filter ob_Guard obs"
  "or_activity (NewObserverRegistry obs) = List.map_filter ob_Activity obs"
  "or_infrastructure (NewObserverRegistry obs) = List.map_filter ob_Infrastructure obs"
proof -
  have "or_transition (fold addObserver obs r) = or_transition r @ List.map_filter ob_Transition obs"
    "or_guard (fold addObserver obs r) = or_guard r @ List.map_filter ob_Guard obs"
    "or_activity (fold addObserver obs r) = or_activity r @ List.map_filter ob_Activity obs"
    "or_infrastructure (fold addObserver obs r) = or_infrastructure r @ List.map_filter ob_Infrastructure obs" for r
    by (induction obs arbitrary: r) (auto simp: addObserver_def map_filter_simps split: option.splits)
  then show
    "or_transition (NewObserverRegistry obs) = List.map_filter ob_Transition obs"
    "or_guard (NewObserverRegistry obs) = List.map_filter ob_Guard obs"
    "or_activity (NewObserverRegistry obs) = List.map_filter ob_Activity obs"
    "or_infrastructure (NewObserverRegistry obs) = List.map_filter ob_Infrastructure obs"
    by (simp_all add: NewObserverRegistry_def)
qed

end
