(* ===== verification/Flow_Runtime.thy ===== *)
theory Flow_Runtime
  imports Flow_Validate Flow_Spawn Flow_Interfaces
begin

text \<open>
  \<open>internal/runtime/runtime.go\<close>: the dependencies and the registry of the engine. The registry maps
  aggregate types to versions and their compiled machines; \<open>Register\<close> is the only operation that
  changes it. The mutex and the wait group are not modelled: operations are atomic here.
\<close>

section \<open>Dependencies and engine\<close>

text \<open>
  \<open>dp_RandRead\<close> is the source \<open>crypto/rand\<close> that \<open>generateID\<close> reads 16 bytes from. The sentinel
  fields of the Go struct always hold the errors of \<open>errors.go\<close> (\<open>NewEngine\<close> puts them there), so
  the model names the sentinels directly.
\<close>

record 'w Deps =
  dp_EventStore :: "'w EventStore"
  dp_InstanceStore :: "'w InstanceStore"
  dp_TaskStore :: "'w TaskStore option"
  dp_ChildStore :: "'w ChildStore option"
  dp_ActivityStore :: "'w ActivityStore option"
  dp_TxProvider :: "'w TxProvider"
  dp_EventBus :: "'w EventBus option"
  dp_ActivityRunner :: "'w ActivityRunner option"
  dp_Clock :: "('w, gtime) state"
  dp_Observers :: "'w ObserverRegistry option"
  dp_RandRead :: "('w, 8 word list) state"

record 'w Engine =
  en_deps :: "'w Deps"
  en_versions :: "(string, (int, Definition) gomap) gomap"
  en_latest :: "(string, Definition) gomap"
  en_compiled :: "(string, (int, CompiledMachine) gomap) gomap"
  en_latestCompiled :: "(string, CompiledMachine) gomap"
  en_hasSavepoints :: bool
  en_shutdown :: bool

definition New :: "'w Deps \<Rightarrow> 'w Engine" where
  "New deps =
     \<lparr>en_deps = deps, en_versions = [], en_latest = [], en_compiled = [], en_latestCompiled = [],
      en_hasSavepoints = (tx_Savepoints (dp_TxProvider deps) \<noteq> None), en_shutdown = False\<rparr>"

text \<open>\<open>ctxErr\<close> says how the wait ended: \<open>None\<close> if the operations in flight finished first.\<close>

definition Shutdown :: "gerr option \<Rightarrow> 'w Engine \<Rightarrow> gerr option \<times> 'w Engine" where
  "Shutdown ctxErr e = (ctxErr, e\<lparr>en_shutdown := True\<rparr>)"

definition checkShutdown :: "'w Engine \<Rightarrow> gerr option" where
  "checkShutdown e =
     (if en_shutdown e
      then Some (Errorf ''flowstep: engine is shut down: %w'' [] (Some (Sentinel ErrEngineShutdown)))
      else None)"

section \<open>Registration\<close>

text \<open>Indexing a map of maps: a missing outer key reads as the nil map, which has no entries.\<close>

definition inner :: "(string, (int, 'v) gomap) gomap \<Rightarrow> string \<Rightarrow> (int, 'v) gomap" where
  "inner m k = (case map_of m k of None \<Rightarrow> [] | Some vs \<Rightarrow> vs)"

definition put2 :: "string \<Rightarrow> int \<Rightarrow> 'v \<Rightarrow> (string, (int, 'v) gomap) gomap \<Rightarrow> (string, (int, 'v) gomap) gomap" where
  "put2 k v x m = mput k (mput v x (inner m k)) m"

definition allDefs :: "'w Engine \<Rightarrow> Definition list" where
  "allDefs e = map snd (concat (map snd (en_versions e)))"

definition commitDefinition :: "Definition \<Rightarrow> CompiledMachine \<Rightarrow> 'w Engine \<Rightarrow> 'w Engine" where
  "commitDefinition def cm e =
     e\<lparr>en_versions := put2 (df_AggregateType def) (df_Version def) def (en_versions e),
       en_latest :=
         (case map_of (en_latest e) (df_AggregateType def) of
            Some current \<Rightarrow>
              if df_Version def > df_Version current then mput (df_AggregateType def) def (en_latest e)
              else en_latest e
          | None \<Rightarrow> mput (df_AggregateType def) def (en_latest e)),
       en_compiled := put2 (df_AggregateType def) (df_Version def) cm (en_compiled e),
       en_latestCompiled :=
         (case map_of (en_latestCompiled e) (df_AggregateType def) of
            Some current \<Rightarrow>
              if df_Version def > df_Version (cm_Definition current)
              then mput (df_AggregateType def) cm (en_latestCompiled e) else en_latestCompiled e
          | None \<Rightarrow> mput (df_AggregateType def) cm (en_latestCompiled e))\<rparr>"

text \<open>The same content is registered already: the stored machine has the hash of the definition.\<close>

definition registeredHash :: "(string \<Rightarrow> string) \<Rightarrow> Definition \<Rightarrow> 'w Engine \<Rightarrow> bool" where
  "registeredHash digest def e =
     (case map_of (inner (en_compiled e) (df_AggregateType def)) (df_Version def) of
        Some existing \<Rightarrow> cm_DefinitionHash existing = HashDefinition digest def
      | None \<Rightarrow> False)"

text \<open>
  \<open>None\<close> is a call that does not return. The definition is stored only after the validation, the
  compilation and the search for spawn cycles have all succeeded.
\<close>

definition Register ::
  "(string \<Rightarrow> string) \<Rightarrow> Definition \<Rightarrow> 'w Engine \<Rightarrow> (gerr option \<times> 'w Engine) option" where
  "Register digest def e =
     Option.bind (Validate def) (\<lambda>invalid.
       if invalid \<noteq> None then Some (invalid, e)
       else if registeredHash digest def e then Some (None, e)
       else Option.bind (Compile digest def) (\<lambda>compiled.
         (case compiled of
            Inl err \<Rightarrow> Some (Some err, e)
          | Inr cm \<Rightarrow>
              let cycle = DetectSpawnCycles (allDefs e @ [def]) in
              if cycle \<noteq> None then Some (cycle, e)
              else Some (None, commitDefinition def cm e))))"

definition compiledFor :: "'w Engine \<Rightarrow> string \<Rightarrow> int \<Rightarrow> CompiledMachine option" where
  "compiledFor e aggregateType version =
     (if version = 0 then map_of (en_latestCompiled e) aggregateType
      else (case map_of (en_compiled e) aggregateType of
              None \<Rightarrow> None
            | Some versions \<Rightarrow> map_of versions version))"

section \<open>The registry invariant\<close>

lemma inner_put2 [simp]: "inner (put2 k v x m) k' = (if k' = k then mput v x (inner m k) else inner m k')"
  by (simp add: inner_def put2_def)

lemma compiledFor_version: "v \<noteq> 0 \<Longrightarrow> compiledFor e at v = map_of (inner (en_compiled e) at) v"
  by (simp add: compiledFor_def inner_def split: option.splits)

lemma compiledFor_latest: "compiledFor e at 0 = map_of (en_latestCompiled e) at"
  by (simp add: compiledFor_def)

text \<open>
  What the registry promises the rest of the engine: under each aggregate type and version stands a
  definition of that type and version, accepted by \<open>Validate\<close>, with its compiled machine; the
  machine for version 0 is compiled from a valid definition of the greatest registered version;
  and the registered definitions together spawn no cycle.
\<close>

definition entry_ok :: "(string \<Rightarrow> string) \<Rightarrow> 'w Engine \<Rightarrow> string \<Rightarrow> int \<Rightarrow> bool" where
  "entry_ok digest e at v \<longleftrightarrow>
     (case map_of (inner (en_versions e) at) v of
        None \<Rightarrow> map_of (inner (en_compiled e) at) v = None
      | Some d \<Rightarrow> df_AggregateType d = at \<and> df_Version d = v \<and> Validate d = Some None \<and>
          (\<exists>cm. map_of (inner (en_compiled e) at) v = Some cm \<and> Compile digest d = Some (Inr cm)))"

definition latest_ok :: "(string \<Rightarrow> string) \<Rightarrow> 'w Engine \<Rightarrow> string \<Rightarrow> bool" where
  "latest_ok digest e at \<longleftrightarrow>
     (case map_of (en_latestCompiled e) at of
        None \<Rightarrow> map_of (en_latest e) at = None \<and> (\<forall>v. map_of (inner (en_versions e) at) v = None)
      | Some cm \<Rightarrow>
          map_of (en_latest e) at = Some (cm_Definition cm) \<and>
          df_AggregateType (cm_Definition cm) = at \<and> Validate (cm_Definition cm) = Some None \<and>
          Compile digest (cm_Definition cm) = Some (Inr cm) \<and>
          map_of (inner (en_versions e) at) (df_Version (cm_Definition cm)) \<noteq> None \<and>
          (\<forall>v. map_of (inner (en_versions e) at) v \<noteq> None \<longrightarrow> v \<le> df_Version (cm_Definition cm)))"

definition registry_ok :: "(string \<Rightarrow> string) \<Rightarrow> 'w Engine \<Rightarrow> bool" where
  "registry_ok digest e \<longleftrightarrow>
     (\<forall>at v. entry_ok digest e at v) \<and> (\<forall>at. latest_ok digest e at) \<and> acyclic (spawns (allDefs e))"

lemma registry_ok_New: "registry_ok digest (New deps)"
  by (simp add: registry_ok_def entry_ok_def latest_ok_def New_def inner_def allDefs_def spawns_def
      acyclic_def)

lemma set_mput_subset: "set (mput k v m) \<subseteq> insert (k, v) (set m)"
  by (induction m) auto

lemma set_allDefs: "set (allDefs e) = {d. \<exists>k vs. (k, vs) \<in> set (en_versions e) \<and> d \<in> snd ` set vs}"
  by (force simp: allDefs_def)

lemma allDefs_commit: "set (allDefs (commitDefinition def cm e)) \<subseteq> set (allDefs e @ [def])"
proof
  fix d
  let ?at = "df_AggregateType def" and ?v = "df_Version def"
  let ?vs = "mput ?v def (inner (en_versions e) ?at)"
  assume "d \<in> set (allDefs (commitDefinition def cm e))"
  then obtain k vs where k: "(k, vs) \<in> set (mput ?at ?vs (en_versions e))" "d \<in> snd ` set vs"
    by (auto simp: set_allDefs commitDefinition_def put2_def)
  then consider "(k, vs) \<in> set (en_versions e)" | "vs = ?vs"
    using set_mput_subset [of ?at ?vs "en_versions e"] by blast
  then show "d \<in> set (allDefs e @ [def])"
  proof cases
    case 1
    with k(2) show ?thesis by (auto simp: set_allDefs)
  next
    case 2
    with k(2) set_mput_subset [of ?v def "inner (en_versions e) ?at"]
    have "d = def \<or> d \<in> snd ` set (inner (en_versions e) ?at)" by auto
    then show ?thesis
      using map_of_SomeD [of "en_versions e" ?at]
      by (cases "map_of (en_versions e) ?at") (auto simp: set_allDefs inner_def)
  qed
qed

lemma spawns_mono: "set ds \<subseteq> set ds' \<Longrightarrow> spawns ds \<subseteq> spawns ds'"
  by (auto simp: spawns_def)

declare Compile_Definition [simp del]

lemma registry_ok_commit:
  assumes ok: "registry_ok digest e" and v: "Validate def = Some None"
    and c: "Compile digest def = Some (Inr cm)" and cyc: "DetectSpawnCycles (allDefs e @ [def]) = None"
  shows "registry_ok digest (commitDefinition def cm e)"
proof -
  note d = Compile_Definition [OF c]
  have "entry_ok digest (commitDefinition def cm e) at w" for at w
  proof -
    from ok have "entry_ok digest e at w" by (simp add: registry_ok_def)
    with v c show ?thesis
      by (cases "at = df_AggregateType def \<and> w = df_Version def")
        (auto simp: entry_ok_def commitDefinition_def cong: option.case_cong)
  qed
  moreover have "latest_ok digest (commitDefinition def cm e) at" for at
  proof -
    from ok have l: "latest_ok digest e at" by (simp add: registry_ok_def)
    show ?thesis
    proof (cases "at = df_AggregateType def")
      case False
      with l show ?thesis by (simp add: latest_ok_def commitDefinition_def split: option.splits)
    next
      case True
      show ?thesis
      proof (cases "map_of (en_latestCompiled e) at")
        case None
        with l v c d True show ?thesis by (auto simp: latest_ok_def commitDefinition_def)
      next
        case (Some cur)
        with l have m: "map_of (en_latest e) at = Some (cm_Definition cur)"
          "w \<le> df_Version (cm_Definition cur)" if "map_of (inner (en_versions e) at) w \<noteq> None" for w
          using that by (auto simp: latest_ok_def)
        show ?thesis
        proof (cases "df_Version def > df_Version (cm_Definition cur)")
          case gt: True
          with m have "w \<le> df_Version def" if "map_of (inner (en_versions e) at) w \<noteq> None" for w
            using that by fastforce
          with gt Some True l v c d show ?thesis by (simp add: latest_ok_def commitDefinition_def)
        next
          case False
          with Some True l show ?thesis by (auto simp: latest_ok_def commitDefinition_def)
        qed
      qed
    qed
  qed
  moreover have "acyclic (spawns (allDefs (commitDefinition def cm e)))"
  proof (rule acyclic_subset)
    show "acyclic (spawns (allDefs e @ [def]))"
      using cyc DetectSpawnCycles_spec [of "allDefs e @ [def]"] by simp
    show "spawns (allDefs (commitDefinition def cm e)) \<subseteq> spawns (allDefs e @ [def])"
      by (rule spawns_mono [OF allDefs_commit])
  qed
  ultimately show ?thesis by (simp add: registry_ok_def)
qed

lemma Register_cases:
  assumes "Register digest def e = Some (err, e')"
  obtains (rejected) x where "err = Some x" "e' = e"
  | (known) "err = None" "e' = e" "Validate def = Some None" "registeredHash digest def e"
  | (stored) cm where "err = None" "Validate def = Some None" "Compile digest def = Some (Inr cm)"
      "\<not> registeredHash digest def e"
      "DetectSpawnCycles (allDefs e @ [def]) = None" "e' = commitDefinition def cm e"
proof -
  obtain invalid where v: "Validate def = Some invalid"
    using assms by (cases "Validate def") (simp_all add: Register_def)
  show ?thesis
  proof (cases "invalid \<noteq> None \<or> registeredHash digest def e")
    case True
    with assms v rejected known show ?thesis by (auto simp: Register_def split: if_splits)
  next
    case False
    with assms v obtain compiled where c: "Compile digest def = Some compiled"
      by (cases "Compile digest def") (simp_all add: Register_def)
    show ?thesis
    proof (cases compiled)
      case (Inl x)
      with assms v c False rejected show ?thesis by (auto simp: Register_def)
    next
      case (Inr cm)
      note inr = this
      show ?thesis
      proof (cases "DetectSpawnCycles (allDefs e @ [def])")
        case None
        with assms v c False inr stored show ?thesis by (auto simp: Register_def)
      next
        case (Some y)
        with assms v c False inr have "err = Some y" "e' = e" by (auto simp: Register_def)
        then show ?thesis by (rule rejected)
      qed
    qed
  qed
qed


text \<open>The engines a program can hold: \<open>New\<close>, then registrations and shutdowns that returned.\<close>

inductive engine_of :: "(string \<Rightarrow> string) \<Rightarrow> 'w Deps \<Rightarrow> 'w Engine \<Rightarrow> bool" for digest deps where
  created: "engine_of digest deps (New deps)"
| registered: "engine_of digest deps e \<Longrightarrow> Register digest def e = Some (err, e') \<Longrightarrow> engine_of digest deps e'"
| stopped: "engine_of digest deps e \<Longrightarrow> Shutdown ctxErr e = (r, e') \<Longrightarrow> engine_of digest deps e'"

lemma registry_ok_Register:
  "registry_ok digest e \<Longrightarrow> Register digest def e = Some (err, e') \<Longrightarrow> registry_ok digest e'"
  by (erule Register_cases) (auto intro: registry_ok_commit)

lemma registry_ok_Shutdown: "registry_ok digest e \<Longrightarrow> registry_ok digest (snd (Shutdown c e))"
  by (simp add: registry_ok_def entry_ok_def latest_ok_def Shutdown_def allDefs_def
      cong: option.case_cong)

lemma engine_of_registry: "engine_of digest deps e \<Longrightarrow> registry_ok digest e"
proof (induction rule: engine_of.induct)
  case created
  show ?case by (rule registry_ok_New)
next
  case (registered e def err e')
  then show ?case by (blast intro: registry_ok_Register)
next
  case (stopped e ctxErr r e')
  with registry_ok_Shutdown [of digest e ctxErr] show ?case by simp
qed

text \<open>What the other components take from the registry.\<close>

lemma registry_compiled:
  assumes "registry_ok digest e" "compiledFor e at v = Some cm"
  shows "Compile digest (cm_Definition cm) = Some (Inr cm)" "Validate (cm_Definition cm) = Some None"
    "df_AggregateType (cm_Definition cm) = at"
proof -
  have "Compile digest (cm_Definition cm) = Some (Inr cm) \<and> Validate (cm_Definition cm) = Some None \<and>
    df_AggregateType (cm_Definition cm) = at"
  proof (cases "v = 0")
    case True
    moreover from assms(1) have "latest_ok digest e at" by (simp add: registry_ok_def)
    ultimately show ?thesis using assms(2) by (simp add: latest_ok_def compiledFor_latest)
  next
    case False
    moreover from assms(1) have "entry_ok digest e at v" by (simp add: registry_ok_def)
    ultimately show ?thesis using assms(2)
      by (auto simp: entry_ok_def compiledFor_version split: option.splits dest: Compile_Definition)
  qed
  then show "Compile digest (cm_Definition cm) = Some (Inr cm)" "Validate (cm_Definition cm) = Some None"
    "df_AggregateType (cm_Definition cm) = at" by auto
qed

text \<open>
  C7. The registry invariant holds in every engine a program can reach by \<open>New\<close>, \<open>Register\<close> and
  \<open>Shutdown\<close>: every machine that \<open>compiledFor\<close> returns, for a version or for the latest, is the
  compilation of a definition that \<open>Validate\<close> accepts and that belongs to the aggregate type asked
  for; for a version other than 0 it has that version; an aggregate type with a registered version
  has a latest machine, whose version is itself registered and the highest of the registered ones;
  and no set of registered workflow types can spawn each other in a circle.
\<close>

theorem registry_invariant:
  assumes "engine_of digest deps e"
  shows "(\<forall>at v cm. compiledFor e at v = Some cm \<longrightarrow>
            Compile digest (cm_Definition cm) = Some (Inr cm) \<and> Validate (cm_Definition cm) = Some None \<and>
            df_AggregateType (cm_Definition cm) = at \<and> (v \<noteq> 0 \<longrightarrow> df_Version (cm_Definition cm) = v)) \<and>
         (\<forall>at versions. versions = {v. \<exists>cm. map_of (inner (en_compiled e) at) v = Some cm} \<and> versions \<noteq> {} \<longrightarrow>
            (\<exists>cm. compiledFor e at 0 = Some cm \<and> df_Version (cm_Definition cm) \<in> versions \<and>
                  (\<forall>v \<in> versions. v \<le> df_Version (cm_Definition cm)))) \<and>
         acyclic (spawns (allDefs e))"
proof -
  note ok = engine_of_registry [OF assms]
  have ent: "entry_ok digest e at v" for at v using ok by (simp add: registry_ok_def)
  have "df_Version (cm_Definition cm) = v" if "compiledFor e at v = Some cm" "v \<noteq> 0" for at v cm
    using ent [of at v] that
    by (auto simp: entry_ok_def compiledFor_version split: option.splits dest: Compile_Definition)
  moreover have "\<exists>cm. compiledFor e at 0 = Some cm \<and> df_Version (cm_Definition cm) \<in> vs \<and>
      (\<forall>v \<in> vs. v \<le> df_Version (cm_Definition cm))"
    if vs: "vs = {v. \<exists>cm. map_of (inner (en_compiled e) at) v = Some cm}" and ne: "vs \<noteq> {}" for at vs
  proof -
    have reg: "v \<in> vs \<longleftrightarrow> map_of (inner (en_versions e) at) v \<noteq> None" for v
      using ent [of at v] by (auto simp: entry_ok_def vs split: option.splits)
    have "latest_ok digest e at" using ok by (simp add: registry_ok_def)
    with ne reg obtain cm where "map_of (en_latestCompiled e) at = Some cm"
      "df_Version (cm_Definition cm) \<in> vs" "\<forall>v \<in> vs. v \<le> df_Version (cm_Definition cm)"
      unfolding latest_ok_def by (auto split: option.splits)
    then show ?thesis by (auto simp: compiledFor_latest)
  qed
  ultimately show ?thesis using registry_compiled [OF ok] ok by (auto simp: registry_ok_def)
qed

lemma order_sel: "df_AggregateType order_def = ''order''" "df_Version order_def = 1"
  by (simp_all add: order_def_def)

lemma order_registers:
  "Register (\<lambda>b. b) order_def (New deps) = Some (None, commitDefinition order_def order_cm (New deps))"
proof -
  have "Validate order_def = Some None" by code_simp
  moreover have "DetectSpawnCycles [order_def] = None" by code_simp
  ultimately show ?thesis
    by (simp add: Register_def order_compiles registeredHash_def New_def inner_def allDefs_def)
qed

theorem registry_invariant_witness:
  "\<exists>e :: unit Engine. \<exists>cm. compiledFor e ''order'' 0 = Some cm \<and> df_Version (cm_Definition cm) = 1 \<and>
     Compile (\<lambda>b. b) (cm_Definition cm) = Some (Inr cm) \<and> acyclic (spawns (allDefs e))"
proof -
  let ?e = "commitDefinition order_def order_cm (New undefined) :: unit Engine"
  have en: "engine_of (\<lambda>b. b) undefined ?e"
    by (rule registered [OF created order_registers])
  have vs: "{v. \<exists>cm. map_of (inner (en_compiled ?e) ''order'') v = Some cm} = {1}"
    by (auto simp: commitDefinition_def New_def order_sel inner_def put2_def split: if_splits)
  note inv = registry_invariant [OF en]
  from inv [THEN conjunct2, THEN conjunct1, THEN spec, of "''order''", THEN spec, of "{1}"] vs
  obtain cm where cm: "compiledFor ?e ''order'' 0 = Some cm" "df_Version (cm_Definition cm) = 1" by auto
  from inv [THEN conjunct1, THEN spec, of "''order''", THEN spec, of 0] inv [THEN conjunct2, THEN conjunct2] cm
  show ?thesis by blast
qed


text \<open>
  C31. \<open>Register\<close> is all or nothing. When it returns an error the engine is exactly what it was. When
  it returns nil the definition was valid, and one of two things has happened. Either a machine with
  the content hash of the definition was registered under its aggregate type and version already and
  the engine is exactly what it was, or the definition and its compiled machine are now registered
  there, while what is registered under any other aggregate type or version is untouched.
\<close>

theorem Register_all_or_nothing:
  assumes "Register digest def e = Some (err, e')"
  shows "let at = df_AggregateType def; v = df_Version def;
             known = (\<exists>cm. map_of (inner (en_compiled e) at) v = Some cm \<and>
                        cm_DefinitionHash cm = HashDefinition digest def) in
     (err \<noteq> None \<longrightarrow> e' = e) \<and>
     (err = None \<longrightarrow> Validate def = Some None) \<and>
     (err = None \<and> known \<longrightarrow> e' = e) \<and>
     (err = None \<and> \<not> known \<longrightarrow>
        (\<exists>cm. Compile digest def = Some (Inr cm) \<and> map_of (inner (en_compiled e') at) v = Some cm \<and>
              map_of (inner (en_versions e') at) v = Some def) \<and>
        (\<forall>at' v'. (at', v') \<noteq> (at, v) \<longrightarrow>
           map_of (inner (en_compiled e') at') v' = map_of (inner (en_compiled e) at') v' \<and>
           map_of (inner (en_versions e') at') v' = map_of (inner (en_versions e) at') v') \<and>
        (\<forall>at' v'. at' \<noteq> at \<longrightarrow> compiledFor e' at' v' = compiledFor e at' v'))"
  using assms
proof (cases rule: Register_cases)
  case (rejected x)
  then show ?thesis by simp
next
  case known
  then show ?thesis by (auto simp: registeredHash_def split: option.splits)
next
  case (stored cm)
  then show ?thesis
    by (auto simp: commitDefinition_def compiledFor_def put2_def registeredHash_def
        inner_def Let_def split: option.splits)
qed

theorem Register_all_or_nothing_witness:
  "let e = commitDefinition order_def order_cm (New undefined :: unit Engine) in
   map_of (inner (en_compiled e) ''order'') 1 = Some order_cm \<and> map_of (inner (en_versions e) ''order'') 1 = Some order_def"
proof -
  have "\<not> (\<exists>cm. map_of (inner (en_compiled (New undefined :: unit Engine)) ''order'') 1 = Some cm \<and>
      cm_DefinitionHash cm = HashDefinition (\<lambda>b. b) order_def)" by (simp add: New_def inner_def)
  with Register_all_or_nothing [OF order_registers [of "undefined :: unit Deps"]] order_compiles show ?thesis
    unfolding order_sel Let_def by (metis option.inject sum.inject(2))
qed

text \<open>
  A definition registered again under the latest version with changed content replaces the
  machine that instances of that version run on, but the machine used for new instances, version 0,
  stays the old one: from then on a new instance is created and first moved by the old machine and
  every later call on it uses the new one.
\<close>

lemma Register_same_version_keeps_latest:
  assumes "Register digest def e = Some (None, e')" "compiledFor e (df_AggregateType def) 0 = Some cur"
    "df_Version (cm_Definition cur) = df_Version def" "df_Version def \<noteq> 0"
    "\<not> registeredHash digest def e"
  shows "compiledFor e' (df_AggregateType def) 0 = Some cur \<and>
    (\<exists>cm. compiledFor e' (df_AggregateType def) (df_Version def) = Some cm \<and> cm_Definition cm = def)"
  using assms(1)
proof (cases rule: Register_cases)
  case (stored cm)
  with assms(2-4) Compile_Definition [OF stored(3)] show ?thesis
    by (simp add: compiledFor_latest compiledFor_version) (simp add: commitDefinition_def)
qed (use assms(5) in auto)

definition order_changed :: Definition where
  "order_changed = order_def\<lparr>df_WorkflowType := ''express_workflow'',
     df_Transitions := (''cancel'', s_edge ''cancel'' [''NEW''] ''DONE'') # order_transitions\<rparr>"

lemma Register_same_version_keeps_latest_example:
  "\<exists>e' :: unit Engine. compiledFor e' ''order'' 0 = Some order_cm \<and>
     (\<exists>cm. compiledFor e' ''order'' 1 = Some cm \<and> cm_Definition cm = order_changed)"
proof -
  let ?e = "commitDefinition order_def order_cm (New undefined) :: unit Engine"
  have v: "Validate order_changed = Some None" by code_simp
  have c: "\<exists>cm. Compile (\<lambda>b. b) order_changed = Some (Inr cm)"
  proof -
    have "case Compile (\<lambda>b. b) order_changed of Some (Inr cm) \<Rightarrow> True | _ \<Rightarrow> False" by code_simp
    then show ?thesis by (auto split: option.splits sum.splits)
  qed
  then obtain cm where c: "Compile (\<lambda>b. b) order_changed = Some (Inr cm)" by blast
  have h: "cm_DefinitionHash order_cm \<noteq> HashDefinition (\<lambda>b. b) order_changed"
    unfolding Compile_hash [OF order_compiles]
    by (simp add: HashDefinition_def computeHash_def canonical_def canonHeader_def order_changed_def order_def_def)
  have s: "DetectSpawnCycles [order_def, order_changed] = None" by code_simp
  have sel: "df_AggregateType order_changed = ''order''" "df_Version order_changed = 1"
    by (simp_all add: order_sel order_changed_def)
  have n: "\<not> registeredHash (\<lambda>b. b) order_changed ?e"
    using h by (simp add: registeredHash_def commitDefinition_def sel order_sel)
  have a: "allDefs ?e = [order_def]"
    by (simp add: allDefs_def commitDefinition_def New_def put2_def inner_def)
  have r: "Register (\<lambda>b. b) order_changed ?e = Some (None, commitDefinition order_changed cm ?e)"
    using v c s n a by (simp add: Register_def)
  have cur: "compiledFor ?e ''order'' 0 = Some order_cm"
    by (simp add: compiledFor_def commitDefinition_def New_def order_sel)
  have ver: "df_Version (cm_Definition order_cm) = 1"
    using Compile_Definition [OF order_compiles] order_sel by simp
  have "compiledFor (commitDefinition order_changed cm ?e) ''order'' 0 = Some order_cm \<and>
     (\<exists>m. compiledFor (commitDefinition order_changed cm ?e) ''order'' 1 = Some m \<and> cm_Definition m = order_changed)"
    by (rule Register_same_version_keeps_latest [OF r, unfolded sel, OF cur ver one_neq_zero n])
  then show ?thesis by (intro exI [where x = "commitDefinition order_changed cm ?e"])
qed

end
