(* ===== verification/Flow_Helpers.thy ===== *)
theory Flow_Helpers
  imports Flow_Runtime
begin

text \<open>
  \<open>internal/runtime/helpers.go\<close>: route and guard evaluation, identifiers, the exit and entry
  sequences of a transition, history recording and the bookkeeping of parallel regions.
\<close>

section \<open>Routes, guards and identifiers\<close>

fun routeLoop :: "Route list \<Rightarrow> string \<Rightarrow> WorkflowInstance \<Rightarrow> gparams \<Rightarrow> gerr + string" where
  "routeLoop [] defaultTarget aggregate params =
     (if defaultTarget \<noteq> [] then Inr defaultTarget
      else Inl (Errorf ''flowstep: no condition matched and no default route: %w'' []
                  (Some (Sentinel ErrNoMatchingRoute))))"
| "routeLoop (route # routes) defaultTarget aggregate params =
     (if rt_IsDefault route then routeLoop routes (rt_Target route) aggregate params
      else (case rt_Condition route of
              None \<Rightarrow> routeLoop routes defaultTarget aggregate params
            | Some evaluate \<Rightarrow>
                (case evaluate aggregate params of
                   Inl err \<Rightarrow> Inl (Errorf ''flowstep: condition evaluation failed: %w'' [] (Some err))
                 | Inr matched \<Rightarrow>
                     if matched then Inr (rt_Target route)
                     else routeLoop routes defaultTarget aggregate params)))"

definition resolveRoute :: "TransitionDef \<Rightarrow> WorkflowInstance \<Rightarrow> gparams \<Rightarrow> gerr + string" where
  "resolveRoute tr aggregate params = routeLoop (tr_Routes tr) [] aggregate params"

text \<open>Indexing \<open>GuardNames\<close> out of range would panic.\<close>

fun guardLoop ::
  "'w Deps \<Rightarrow> string \<Rightarrow> CompiledTransition \<Rightarrow> nat \<Rightarrow> Guard list \<Rightarrow> WorkflowInstance \<Rightarrow> gparams \<Rightarrow> 'w proc" where
  "guardLoop D workflowType ct i [] aggregate params = ret None"
| "guardLoop D workflowType ct i (guard # guards) aggregate params =
     (case gd_Check guard aggregate params of
        None \<Rightarrow> guardLoop D workflowType ct (Suc i) guards aggregate params
      | Some err \<Rightarrow>
          if i < length (ct_GuardNames ct) then do {
            NotifyGuardFailed (dp_Observers D)
              (GuardFailureEvent workflowType (tr_Name (ct_Def ct)) (ct_GuardNames ct ! i) err);
            ret (Some (GuardError (ct_GuardNames ct ! i) err))
          } else ret (Some (Panic ''index out of range'')))"

definition runGuards ::
  "'w Deps \<Rightarrow> string \<Rightarrow> CompiledTransition \<Rightarrow> WorkflowInstance \<Rightarrow> gparams \<Rightarrow> 'w proc" where
  "runGuards D workflowType ct aggregate params =
     guardLoop D workflowType ct 0 (tr_Guards (ct_Def ct)) aggregate params"

definition hexDigit :: "nat \<Rightarrow> char" where
  "hexDigit n = (''0123456789abcdef'' ! (n mod 16))"

definition hexEncode :: "8 word list \<Rightarrow> string" where
  "hexEncode bs = concat (map (\<lambda>b. [hexDigit (unat b div 16), hexDigit (unat b)]) bs)"

definition generateID :: "'w Deps \<Rightarrow> ('w, string) state" where
  "generateID D = do { b \<leftarrow> dp_RandRead D; ret (hexEncode b) }"

section \<open>Exit and entry sequences\<close>

definition computeExitSequence :: "string \<Rightarrow> string \<Rightarrow> (string, string list) gomap \<Rightarrow> string list" where
  "computeExitSequence source lca ancestry =
     source # takeWhile (\<lambda>ancestor. ancestor \<noteq> lca) (anc_of ancestry source)"

definition computeEntrySequence :: "string \<Rightarrow> string \<Rightarrow> (string, string list) gomap \<Rightarrow> string list" where
  "computeEntrySequence lca target ancestry =
     rev (takeWhile (\<lambda>a. a \<noteq> lca) (anc_of ancestry target)) @ [target]"

definition runSyncActivity :: "'w Deps \<Rightarrow> string \<Rightarrow> ActivityInput \<Rightarrow> 'w proc" where
  "runSyncActivity D activityName input =
     (case dp_ActivityRunner D of
        None \<Rightarrow> ret None
      | Some runner \<Rightarrow>
          (case rn_Resolve runner of
             None \<Rightarrow> ret None
           | Some resolve \<Rightarrow>
               (case resolve activityName of
                  None \<Rightarrow> ret None
                | Some act \<Rightarrow> attempt (ac_Execute act input) (\<lambda>err. ret (Some err)) (\<lambda>_. ret None))))"

definition childGraph :: "Definition \<Rightarrow> (string, string list) gomap" where
  "childGraph def = map (\<lambda>(n, st). (n, st_Children st)) (df_States def)"

definition collectSubtreeStates :: "string list \<Rightarrow> Definition \<Rightarrow> string list" where
  "collectSubtreeStates roots def = snd (visit (childGraph def) roots [] [])"

section \<open>History\<close>

definition recordState ::
  "string \<Rightarrow> string list \<Rightarrow> Definition \<Rightarrow> string \<Rightarrow> WorkflowInstance \<Rightarrow> WorkflowInstance" where
  "recordState sourceLeaf exitSeq def stateName inst =
     (if \<not> st_IsCompound (state_of def stateName) then inst
      else (case find (\<lambda>s. st_Parent (state_of def s) = stateName) exitSeq of
              None \<Rightarrow> inst
            | Some directChild \<Rightarrow>
                if directChild = [] then inst
                else inst\<lparr>wi_ShallowHistory := Some (mput stateName directChild (mitems (wi_ShallowHistory inst))),
                          wi_DeepHistory := Some (mput stateName sourceLeaf (mitems (wi_DeepHistory inst)))\<rparr>))"

definition recordHistory ::
  "WorkflowInstance \<Rightarrow> string \<Rightarrow> string list \<Rightarrow> Definition \<Rightarrow> WorkflowInstance" where
  "recordHistory inst sourceLeaf exitSeq def = fold (recordState sourceLeaf exitSeq def) exitSeq inst"

section \<open>Parallel regions\<close>

definition regions_of :: "CompiledMachine \<Rightarrow> string \<Rightarrow> string list" where
  "regions_of cm parallelState =
     (case map_of (cm_RegionIndex cm) parallelState of None \<Rightarrow> [] | Some rs \<Rightarrow> rs)"

definition leaf_in :: "CompiledMachine \<Rightarrow> string \<Rightarrow> string" where
  "leaf_in cm state =
     (case map_of (cm_InitialLeafMap cm) state of None \<Rightarrow> state | Some initialLeaf \<Rightarrow> initialLeaf)"

definition enterParallelRegions :: "WorkflowInstance \<Rightarrow> CompiledMachine \<Rightarrow> string \<Rightarrow> WorkflowInstance" where
  "enterParallelRegions inst cm parallelState =
     inst\<lparr>wi_ActiveInParallel :=
       Some (fold (\<lambda>region. mput region (leaf_in cm region)) (regions_of cm parallelState) [])\<rparr>"

definition computeParallelEntrySequence :: "CompiledMachine \<Rightarrow> string \<Rightarrow> string \<Rightarrow> string list" where
  "computeParallelEntrySequence cm lca parallelState =
     computeEntrySequence lca parallelState (cm_Ancestry cm) @
     concat (map (\<lambda>region. region # (case map_of (cm_InitialLeafMap cm) region of
                                        None \<Rightarrow> [] | Some initialLeaf \<Rightarrow> [initialLeaf]))
                 (regions_of cm parallelState))"

definition aip_leaf :: "WorkflowInstance \<Rightarrow> string \<Rightarrow> string" where
  "aip_leaf inst region = (case mlook (wi_ActiveInParallel inst) region of None \<Rightarrow> [] | Some l \<Rightarrow> l)"

definition sortedRegions :: "WorkflowInstance \<Rightarrow> string list" where
  "sortedRegions inst = sort (mkeys (mitems (wi_ActiveInParallel inst)))"

definition computeParallelExitSequence :: "WorkflowInstance \<Rightarrow> string \<Rightarrow> string list" where
  "computeParallelExitSequence inst parallelState =
     concat (map (\<lambda>region. if aip_leaf inst region \<noteq> region then [aip_leaf inst region, region]
                           else [aip_leaf inst region]) (sortedRegions inst)) @ [parallelState]"

definition activeStates :: "WorkflowInstance \<Rightarrow> string list" where
  "activeStates inst = wi_CurrentState inst # map snd (mitems (wi_ActiveInParallel inst))"

section \<open>Copies\<close>

definition copyTimePtr :: "gtime option \<Rightarrow> gtime option" where
  "copyTimePtr t = (case t of None \<Rightarrow> None | Some cp \<Rightarrow> Some cp)"

fun copyVal :: "gval \<Rightarrow> gval" where
  "copyVal (GMap nested) = GMap (map_option (map (\<lambda>(k, v). (k, copyVal v))) nested)"
| "copyVal v = v"

definition copyMap :: "gparams \<Rightarrow> gparams" where
  "copyMap m = map_option (map (\<lambda>(k, v). (k, copyVal v))) m"

lemma copyVal_eq: "copyVal v = v"
proof (induction v)
  case (GMap m)
  have "map (\<lambda>(k, v). (k, copyVal v)) al = al" if "m = Some al" for al
    by (rule map_idI) (use GMap that in fastforce)
  then show ?case by (cases m) simp_all
qed simp_all

text \<open>A deep copy holds the same values: what it changes is only which memory they are in.\<close>

lemma copyMap_eq [simp]: "copyMap m = m"
  by (cases m) (simp_all add: copyMap_def copyVal_eq)

lemma copyTimePtr_eq [simp]: "copyTimePtr t = t"
  by (simp add: copyTimePtr_def split: option.splits)

section \<open>Routes and guards\<close>

lemma guardLoop_pass:
  "(\<forall>g \<in> set guards. gd_Check g a p = None) \<Longrightarrow> guardLoop D wt ct i guards a p = ret None"
  by (induction guards arbitrary: i) auto

lemma guardLoop_fail:
  "guards = pre @ g # post \<Longrightarrow> (\<forall>h \<in> set pre. gd_Check h a p = None) \<Longrightarrow> gd_Check g a p = Some err \<Longrightarrow>
     i + length pre < length (ct_GuardNames ct) \<Longrightarrow>
     guardLoop D wt ct i guards a p = do {
       NotifyGuardFailed (dp_Observers D)
         (GuardFailureEvent wt (tr_Name (ct_Def ct)) (ct_GuardNames ct ! (i + length pre)) err);
       ret (Some (GuardError (ct_GuardNames ct ! (i + length pre)) err)) }"
  by (induction pre arbitrary: i guards) auto

lemma runGuards_pass:
  "(\<forall>g \<in> set (tr_Guards (ct_Def ct)). gd_Check g a p = None) \<Longrightarrow> runGuards D wt ct a p = ret None"
  by (simp add: runGuards_def guardLoop_pass)

text \<open>A route that the loop passes over: a default, one without condition, or one that does not match.\<close>

definition falls_through :: "WorkflowInstance \<Rightarrow> gparams \<Rightarrow> Route \<Rightarrow> bool" where
  "falls_through a p r \<longleftrightarrow> rt_IsDefault r \<or>
     (case rt_Condition r of None \<Rightarrow> True | Some c \<Rightarrow> c a p = Inr False)"

lemma routeLoop_eq:
  "routeLoop routes d a p =
     (case dropWhile (falls_through a p) routes of
        [] \<Rightarrow> (let t = last (d # map rt_Target (filter rt_IsDefault routes)) in
               if t \<noteq> [] then Inr t
               else Inl (Errorf ''flowstep: no condition matched and no default route: %w'' []
                  (Some (Sentinel ErrNoMatchingRoute))))
      | r # _ \<Rightarrow> (case the (rt_Condition r) a p of
                   Inl err \<Rightarrow> Inl (Errorf ''flowstep: condition evaluation failed: %w'' [] (Some err))
                 | Inr _ \<Rightarrow> Inr (rt_Target r)))"
proof (induction routes arbitrary: d)
  case (Cons r rs)
  then show ?case
    by (cases "rt_IsDefault r"; cases "rt_Condition r")
      (auto simp: falls_through_def Let_def split: sum.splits cong: list.case_cong)
qed simp

text \<open>
  \<open>resolveRoute\<close> takes the first route, in the order of the definition, whose condition does
  not evaluate to false: its target if the condition is true, the wrapped error if the evaluation
  failed. When every condition is false it takes the target of the last default route, and
  \<open>ErrNoMatchingRoute\<close> if there is no default route or its target is empty.
\<close>

lemma resolveRoute_correct:
  "resolveRoute tr a p =
     (case dropWhile (falls_through a p) (tr_Routes tr) of
        r # _ \<Rightarrow> (case the (rt_Condition r) a p of
                   Inl err \<Rightarrow> Inl (Errorf ''flowstep: condition evaluation failed: %w'' [] (Some err))
                 | Inr matched \<Rightarrow> Inr (rt_Target r))
      | [] \<Rightarrow> (let t = last ([] # map rt_Target (filter rt_IsDefault (tr_Routes tr))) in
               if t \<noteq> [] then Inr t
               else Inl (Errorf ''flowstep: no condition matched and no default route: %w'' []
                  (Some (Sentinel ErrNoMatchingRoute)))))"
  by (simp add: resolveRoute_def routeLoop_eq)

text \<open>
  \<open>runGuards\<close> checks the guards in order and stops at the first that fails. If none fails it
  returns nil without touching the world. If \<open>g\<close> is the first to fail, it notifies the guard
  observers once and returns a \<open>GuardError\<close> that carries the compiled name of \<open>g\<close> and its reason,
  which \<open>errors.Is\<close> recognises as \<open>ErrGuardFailed\<close>.
\<close>

lemma runGuards_first_failure:
  assumes "tr_Guards (ct_Def ct) = pre @ guards" "\<forall>h \<in> set pre. gd_Check h a p = None"
    "ct = compileTransition (ct_Def ct)"
  shows "(guards = [] \<longrightarrow> runGuards D wt ct a p = ret None) \<and>
     (\<forall>g post err. guards = g # post \<longrightarrow> gd_Check g a p = Some err \<longrightarrow>
        (let name = resolveGuardNames (tr_Guards (ct_Def ct)) ! length pre in
         runGuards D wt ct a p = do {
           NotifyGuardFailed (dp_Observers D) (GuardFailureEvent wt (tr_Name (ct_Def ct)) name err);
           ret (Some (GuardError name err)) } \<and>
         err_is (GuardError name err) ErrGuardFailed))"
proof -
  have names: "ct_GuardNames ct = resolveGuardNames (tr_Guards (ct_Def ct))"
    using assms(3) by (metis compileTransition_sel(2))
  have len: "length (resolveGuardNames gs) = length gs" for gs by (simp add: resolveGuardNames_def)
  show ?thesis
  proof (intro conjI impI allI)
    assume "guards = []"
    with assms show "runGuards D wt ct a p = ret None" by (simp add: runGuards_pass)
  next
    fix g post err
    assume g: "guards = g # post" "gd_Check g a p = Some err"
    from guardLoop_fail [OF assms(1) [unfolded g(1)] assms(2) g(2), of 0 ct D wt] assms(1) g(1)
    show "let name = resolveGuardNames (tr_Guards (ct_Def ct)) ! length pre in
         runGuards D wt ct a p = do {
           NotifyGuardFailed (dp_Observers D) (GuardFailureEvent wt (tr_Name (ct_Def ct)) name err);
           ret (Some (GuardError name err)) } \<and>
         err_is (GuardError name err) ErrGuardFailed"
      by (simp add: runGuards_def names len)
  qed
qed

definition reject_guard :: "string \<Rightarrow> Guard" where
  "reject_guard name = \<lparr>gd_Check = (\<lambda>_ _. Some (UserErr 1)), gd_Name = Some name, gd_Type = ''reject''\<rparr>"

lemma runGuards_first_failure_witness:
  "let ct = compileTransition ((s_edge ''t'' [''A''] ''B'')\<lparr>tr_Guards := [reject_guard ''g0'']\<rparr>) in
   runGuards (undefined :: unit Deps) ''wf'' ct undefined None = do {
     NotifyGuardFailed (dp_Observers (undefined :: unit Deps)) (GuardFailureEvent ''wf'' ''t'' ''g0'' (UserErr 1));
     ret (Some (GuardError ''g0'' (UserErr 1))) }"
  using runGuards_first_failure
    [of "compileTransition ((s_edge ''t'' [''A''] ''B'')\<lparr>tr_Guards := [reject_guard ''g0'']\<rparr>)" "[]"
      "[reject_guard ''g0'']" undefined None "undefined :: unit Deps" "''wf''"]
  by (simp add: compileTransition_def Let_def reject_guard_def resolveGuardNames_def s_edge_def)

section \<open>Exit and entry sequences move the active configuration\<close>

text \<open>The states that are active when the leaf \<open>s\<close> is the current state.\<close>

definition active_in :: "CompiledMachine \<Rightarrow> string \<Rightarrow> string list" where
  "active_in cm s = s # anc_of (cm_Ancestry cm) s"

lemma takeWhile_neq_absent: "x \<notin> set xs \<Longrightarrow> takeWhile (\<lambda>y. y \<noteq> x) xs = xs"
  by (induction xs) auto

lemma takeWhile_neq_first: "x \<notin> set xs \<Longrightarrow> takeWhile (\<lambda>y. y \<noteq> x) (xs @ x # ys) = xs"
  by (induction xs) auto

text \<open>The part of the active path that a move between \<open>a\<close> and \<open>b\<close> leaves alone.\<close>

definition kept_path :: "CompiledMachine \<Rightarrow> string \<Rightarrow> string \<Rightarrow> string list" where
  "kept_path cm a b = (case LCA cm a b of (lca, found) \<Rightarrow> if found then active_in cm lca else [])"

lemma paths_split:
  assumes c: "Compile digest def = Some (Inr cm)" and l: "LCA cm a b = (lca, found)"
  obtains xs ys where "takeWhile (\<lambda>x. x \<noteq> lca) (anc_of (cm_Ancestry cm) a) = xs"
    "takeWhile (\<lambda>x. x \<noteq> lca) (anc_of (cm_Ancestry cm) b) = ys"
    "active_in cm a = a # xs @ kept_path cm a b" "active_in cm b = b # ys @ kept_path cm a b"
    "set xs \<inter> set ys = {}"
proof (cases found)
  case False
  let ?A = "anc_of (cm_Ancestry cm) a" and ?B = "anc_of (cm_Ancestry cm) b"
  from LCA_not_found [of cm a b lca] l False have e: "lca = []" "set ?A \<inter> set ?B = {}" by auto
  from chain_nonempty_names [OF Compile_chain [OF c]] have "[] \<notin> set ?A" "[] \<notin> set ?B" by auto
  with e l False show thesis
    by (intro that [of ?A ?B]) (auto simp: takeWhile_neq_absent active_in_def kept_path_def)
next
  case True
  note ca = Compile_chain [OF c, of a] and cb = Compile_chain [OF c, of b]
  from True l have "LCA cm a b = (lca, True)" by simp
  from LCA_found [OF ca cb this] obtain xs ys zs where
    A: "anc_of (cm_Ancestry cm) a = xs @ lca # zs" and B: "anc_of (cm_Ancestry cm) b = ys @ lca # zs"
    and d: "set xs \<inter> set (ys @ lca # zs) = {}" "set ys \<inter> set (xs @ lca # zs) = {}" by metis
  from chain_suffix ca A have "chain def lca zs" by metis
  with chain_unique Compile_chain [OF c, of lca] have "anc_of (cm_Ancestry cm) lca = zs" by blast
  with A B d l True show thesis
    by (intro that [of xs ys]) (auto simp: takeWhile_neq_first active_in_def kept_path_def)
qed

text \<open>
  C10. Exit and entry sequences move the active configuration exactly. For a compiled machine, a source
  and a target with a common ancestor, the least one, or a source outside any compound state, the
  path from the source to its root is the exit sequence, innermost first, followed by the states that stay active; the path from the target to
  its root is the entry sequence backwards, so outermost is entered first, followed by the same
  states. No state occurs twice in either sequence, and only the source and the target themselves
  can be both left and entered.
\<close>

theorem exit_entry_refine_active:
  assumes "Compile digest def = Some (Inr cm)" "LCA cm source target = (lca, found)"
    "found \<or> parent_of def source = []"
  shows "let exit = computeExitSequence source lca (cm_Ancestry cm);
             enter = computeEntrySequence lca target (cm_Ancestry cm) in
         active_in cm source = exit @ kept_path cm source target \<and>
         active_in cm target = rev enter @ kept_path cm source target \<and>
         distinct (active_in cm source) \<and> distinct (active_in cm target) \<and>
         set exit \<inter> set enter \<subseteq> {source, target}"
proof -
  from paths_split [OF assms(1,2)] obtain xs ys where p:
    "takeWhile (\<lambda>x. x \<noteq> lca) (anc_of (cm_Ancestry cm) source) = xs"
    "takeWhile (\<lambda>x. x \<noteq> lca) (anc_of (cm_Ancestry cm) target) = ys"
    "active_in cm source = source # xs @ kept_path cm source target"
    "active_in cm target = target # ys @ kept_path cm source target" "set xs \<inter> set ys = {}" by metis
  have "distinct (active_in cm n)" for n
    using chain_distinct chain_not_self Compile_chain [OF assms(1), of n] by (auto simp: active_in_def)
  then have "distinct (active_in cm source)" "distinct (active_in cm target)" by auto
  moreover have "computeExitSequence source lca (cm_Ancestry cm) = source # xs"
    "computeEntrySequence lca target (cm_Ancestry cm) = rev ys @ [target]"
    using p(1,2) by (simp_all add: computeExitSequence_def computeEntrySequence_def)
  ultimately show ?thesis using p(3-5) by (auto simp: Let_def simp del: distinct.simps distinct_append)
qed

theorem exit_entry_refine_active_witness:
  "computeExitSequence ''PRINT'' ''SHIP'' (cm_Ancestry order_cm) = [''PRINT'', ''LABEL''] \<and>
   computeEntrySequence ''SHIP'' ''AWAIT'' (cm_Ancestry order_cm) = [''PICKUP'', ''AWAIT''] \<and>
   active_in order_cm ''PRINT'' = [''PRINT'', ''LABEL''] @ kept_path order_cm ''PRINT'' ''AWAIT'' \<and>
   active_in order_cm ''AWAIT'' = [''AWAIT'', ''PICKUP''] @ kept_path order_cm ''PRINT'' ''AWAIT''"
proof -
  have l: "LCA order_cm ''PRINT'' ''AWAIT'' = (''SHIP'', True)" by code_simp
  have "computeExitSequence ''PRINT'' ''SHIP'' (cm_Ancestry order_cm) = [''PRINT'', ''LABEL'']"
    "computeEntrySequence ''SHIP'' ''AWAIT'' (cm_Ancestry order_cm) = [''PICKUP'', ''AWAIT'']" by code_simp+
  then show ?thesis
    using exit_entry_refine_active [OF order_compiles l] by (simp add: Let_def)
qed

section \<open>Subtrees\<close>

lemma nexts_childGraph: "nexts (childGraph def) n = st_Children (state_of def n)"
proof -
  have "map_of (map (\<lambda>(n, st). (n, st_Children st)) m) n = map_option st_Children (map_of m n)"
    for m :: "(string, StateDef) gomap"
    by (induction m) auto
  then show ?thesis by (simp add: nexts_def childGraph_def state_of_def split: option.splits)
qed

lemma collectSubtreeStates_reach:
  "set (collectSubtreeStates roots def) = {(n, m). m \<in> set (st_Children (state_of def n))}\<^sup>* `` set roots"
  "distinct (collectSubtreeStates roots def)"
proof -
  obtain s q where v: "visit (childGraph def) roots [] [] = (s, q)" by fastforce
  have e: "edges (childGraph def) = {(n, m). m \<in> set (st_Children (state_of def n))}"
    by (simp add: edges_def nexts_childGraph)
  from visit_out [OF v] have q: "set q = set s" "distinct q" by auto
  with visit_reachable [OF v] show
    "set (collectSubtreeStates roots def) = {(n, m). m \<in> set (st_Children (state_of def n))}\<^sup>* `` set roots"
    "distinct (collectSubtreeStates roots def)"
    by (simp_all add: collectSubtreeStates_def v e)
qed

text \<open>
  \<open>collectSubtreeStates\<close> returns, without repetition, exactly the given states and all their
  descendants along \<open>Children\<close>; it terminates even where the children links form a cycle.
\<close>

lemma collectSubtreeStates_correct:
  "set (collectSubtreeStates roots def) = {(n, m). m \<in> set (st_Children (state_of def n))}\<^sup>* `` set roots \<and>
   distinct (collectSubtreeStates roots def)"
  by (intro conjI collectSubtreeStates_reach)

section \<open>History records the path that was left\<close>

lemma recordState_other [simp]:
  "wi_ID (recordState l seq def s i) = wi_ID i" "wi_WorkflowType (recordState l seq def s i) = wi_WorkflowType i"
  "wi_WorkflowVersion (recordState l seq def s i) = wi_WorkflowVersion i"
  "wi_AggregateType (recordState l seq def s i) = wi_AggregateType i"
  "wi_AggregateID (recordState l seq def s i) = wi_AggregateID i"
  "wi_CurrentState (recordState l seq def s i) = wi_CurrentState i"
  "wi_StateData (recordState l seq def s i) = wi_StateData i"
  "wi_CorrelationID (recordState l seq def s i) = wi_CorrelationID i"
  "wi_UpdatedAt (recordState l seq def s i) = wi_UpdatedAt i"
  "wi_ActiveInParallel (recordState l seq def s i) = wi_ActiveInParallel i"
  "wi_ParallelClock (recordState l seq def s i) = wi_ParallelClock i"
  "wi_IsStuck (recordState l seq def s i) = wi_IsStuck i"
  by (simp_all add: recordState_def split: option.splits)

lemma recordHistory_keeps:
  assumes "\<And>s i. g (recordState l seq def s i) = g i"
  shows "g (recordHistory i l seq def) = g i"
proof -
  have "g (fold (recordState l seq def) ss i) = g i" for ss
    using assms by (induction ss arbitrary: i) auto
  then show ?thesis by (simp add: recordHistory_def)
qed

lemma recordHistory_other [simp]:
  "wi_ID (recordHistory i l seq def) = wi_ID i" "wi_WorkflowType (recordHistory i l seq def) = wi_WorkflowType i"
  "wi_WorkflowVersion (recordHistory i l seq def) = wi_WorkflowVersion i"
  "wi_AggregateType (recordHistory i l seq def) = wi_AggregateType i"
  "wi_AggregateID (recordHistory i l seq def) = wi_AggregateID i"
  "wi_CurrentState (recordHistory i l seq def) = wi_CurrentState i"
  "wi_StateData (recordHistory i l seq def) = wi_StateData i"
  "wi_CorrelationID (recordHistory i l seq def) = wi_CorrelationID i"
  "wi_UpdatedAt (recordHistory i l seq def) = wi_UpdatedAt i"
  "wi_ActiveInParallel (recordHistory i l seq def) = wi_ActiveInParallel i"
  "wi_ParallelClock (recordHistory i l seq def) = wi_ParallelClock i"
  "wi_IsStuck (recordHistory i l seq def) = wi_IsStuck i"
proof -
  note f = recordHistory_keeps
  show "wi_ID (recordHistory i l seq def) = wi_ID i" by (rule f) simp
  show "wi_WorkflowType (recordHistory i l seq def) = wi_WorkflowType i" by (rule f) simp
  show "wi_WorkflowVersion (recordHistory i l seq def) = wi_WorkflowVersion i" by (rule f) simp
  show "wi_AggregateType (recordHistory i l seq def) = wi_AggregateType i" by (rule f) simp
  show "wi_AggregateID (recordHistory i l seq def) = wi_AggregateID i" by (rule f) simp
  show "wi_CurrentState (recordHistory i l seq def) = wi_CurrentState i" by (rule f) simp
  show "wi_StateData (recordHistory i l seq def) = wi_StateData i" by (rule f) simp
  show "wi_CorrelationID (recordHistory i l seq def) = wi_CorrelationID i" by (rule f) simp
  show "wi_UpdatedAt (recordHistory i l seq def) = wi_UpdatedAt i" by (rule f) simp
  show "wi_ActiveInParallel (recordHistory i l seq def) = wi_ActiveInParallel i" by (rule f) simp
  show "wi_ParallelClock (recordHistory i l seq def) = wi_ParallelClock i" by (rule f) simp
  show "wi_IsStuck (recordHistory i l seq def) = wi_IsStuck i" by (rule f) simp
qed

text \<open>The child that \<open>recordHistory\<close> writes for a state, if it writes one.\<close>

definition recorded_child :: "string list \<Rightarrow> Definition \<Rightarrow> string \<Rightarrow> string option" where
  "recorded_child exitSeq def s =
     (if s \<in> set exitSeq \<and> st_IsCompound (state_of def s)
      then (case find (\<lambda>c. st_Parent (state_of def c) = s) exitSeq of
              None \<Rightarrow> None | Some c \<Rightarrow> if c = [] then None else Some c)
      else None)"

lemma recordHistory_lookup:
  "mlook (wi_ShallowHistory (recordHistory i l seq def)) s =
     (case recorded_child seq def s of None \<Rightarrow> mlook (wi_ShallowHistory i) s | Some c \<Rightarrow> Some c)"
  "mlook (wi_DeepHistory (recordHistory i l seq def)) s =
     (case recorded_child seq def s of None \<Rightarrow> mlook (wi_DeepHistory i) s | Some c \<Rightarrow> Some l)"
proof -
  let ?f = "\<lambda>s. if st_IsCompound (state_of def s)
      then (case find (\<lambda>c. st_Parent (state_of def c) = s) seq of
              None \<Rightarrow> None | Some c \<Rightarrow> if c = [] then None else Some c) else None"
  have sh: "mlook (wi_ShallowHistory (fold (recordState l seq def) ss i)) s =
     (case (if s \<in> set ss then ?f s else None) of None \<Rightarrow> mlook (wi_ShallowHistory i) s | Some c \<Rightarrow> Some c)"
    for ss
    by (induction ss arbitrary: i) (auto simp: recordState_def mlook_def split: option.splits)
  have de: "mlook (wi_DeepHistory (fold (recordState l seq def) ss i)) s =
     (case (if s \<in> set ss then ?f s else None) of None \<Rightarrow> mlook (wi_DeepHistory i) s | Some c \<Rightarrow> Some l)"
    for ss
    by (induction ss arbitrary: i) (auto simp: recordState_def mlook_def split: option.splits)
  show "mlook (wi_ShallowHistory (recordHistory i l seq def)) s =
     (case recorded_child seq def s of None \<Rightarrow> mlook (wi_ShallowHistory i) s | Some c \<Rightarrow> Some c)"
    using sh [of seq] by (simp add: recordHistory_def recorded_child_def if_distrib cong: if_cong)
  show "mlook (wi_DeepHistory (recordHistory i l seq def)) s =
     (case recorded_child seq def s of None \<Rightarrow> mlook (wi_DeepHistory i) s | Some c \<Rightarrow> Some l)"
    using de [of seq] by (simp add: recordHistory_def recorded_child_def if_distrib cong: if_cong)
qed

lemma chain_parent_pred:
  "chain def n c \<Longrightarrow> n # c = pre @ p # post \<Longrightarrow> pre \<noteq> [] \<Longrightarrow> parent_of def (last pre) = p"
proof (induction arbitrary: pre rule: chain.induct)
  case (chain_root n)
  then show ?case by (cases pre) auto
next
  case (chain_step n ps)
  then show ?case by (cases pre) (auto simp: Cons_eq_append_conv)
qed

lemma find_append_first: "\<forall>x \<in> set xs. \<not> P x \<Longrightarrow> P y \<Longrightarrow> find P (xs @ y # ys) = Some y"
  by (induction xs) auto

lemma recorded_on_path:
  assumes c: "Compile digest def = Some (Inr cm)" and n: "leaf \<noteq> []"
    and e: "computeExitSequence leaf lca (cm_Ancestry cm) = pre @ child # s # post"
    and comp: "st_IsCompound (state_of def s)"
  shows "recorded_child (pre @ child # s # post) def s = Some child" and "parent_of def child = s"
proof -
  obtain rest where path: "leaf # anc_of (cm_Ancestry cm) leaf = pre @ child # s # post @ rest"
    using e takeWhile_dropWhile_id [of "\<lambda>x. x \<noteq> lca" "anc_of (cm_Ancestry cm) leaf"]
    by (metis (no_types, lifting) append.assoc append_Cons computeExitSequence_def)
  note ch = Compile_chain [OF c, of leaf]
  have dist: "distinct (pre @ child # s # post @ rest)"
    using chain_distinct [OF ch] chain_not_self [OF ch] path by (metis distinct.simps(2))
  show par: "parent_of def child = s"
    using chain_parent_pred [OF ch, of "pre @ [child]" s "post @ rest"] path by simp
  have "parent_of def x \<noteq> s" if "x \<in> set pre" for x
  proof -
    from that obtain u v where uv: "pre = u @ x # v" by (meson split_list)
    have "parent_of def x = hd (v @ [child])"
      using chain_parent_pred [OF ch, of "u @ [x]" "hd (v @ [child])" "tl (v @ [child]) @ s # post @ rest"] path uv
      by (cases v) auto
    with dist uv show ?thesis by (cases v) auto
  qed
  then have "find (\<lambda>x. st_Parent (state_of def x) = s) (pre @ child # s # post) = Some child"
    using par by (intro find_append_first) (auto simp: parent_of_def)
  moreover have "child \<noteq> []"
  proof -
    have "child \<in> set (leaf # anc_of (cm_Ancestry cm) leaf)" using path by simp
    then show ?thesis using n chain_nonempty_names [OF ch] by auto
  qed
  ultimately show "recorded_child (pre @ child # s # post) def s = Some child"
    using comp by (simp add: recorded_child_def)
qed

lemma recorded_off_path:
  assumes c: "Compile digest def = Some (Inr cm)" and n: "leaf \<noteq> []"
    and e: "exitSeq = computeExitSequence leaf lca (cm_Ancestry cm)"
    and s: "s \<notin> set (tl exitSeq) \<or> \<not> st_IsCompound (state_of def s)"
  shows "recorded_child exitSeq def s = None"
proof (cases "s = leaf")
  case True
  note ch = Compile_chain [OF c, of leaf]
  have "parent_of def x \<noteq> leaf" if "x \<in> set exitSeq" for x
  proof
    assume p: "parent_of def x = leaf"
    from that e have "x = leaf \<or> (leaf, x) \<in> (parent_rel def)\<^sup>+"
      using chain_set [OF ch] set_takeWhileD by (fastforce simp: computeExitSequence_def)
    moreover from p n have "(x, leaf) \<in> parent_rel def" by (simp add: parent_rel_def)
    ultimately have "(leaf, leaf) \<in> (parent_rel def)\<^sup>+" by auto
    with chain_acyclic [OF ch] show False by simp
  qed
  then have "find (\<lambda>x. st_Parent (state_of def x) = s) exitSeq = None"
    using True by (auto simp: find_None_iff parent_of_def)
  then show ?thesis by (simp add: recorded_child_def)
next
  case False
  with s e show ?thesis by (auto simp: recorded_child_def computeExitSequence_def)
qed

text \<open>
  C29. \<open>recordHistory\<close> on an exit sequence records the path that is left: every compound state on
  it above the leaf gets the leaf as its deep history and its own child on the path as its shallow
  history; every other entry of both maps, and every other field of the instance that a transition
  reads, is unchanged.
\<close>

theorem recordHistory_correct:
  assumes "Compile digest def = Some (Inr cm)" "leaf \<noteq> []"
    "exitSeq = computeExitSequence leaf lca (cm_Ancestry cm)"
  shows "(\<forall>pre child s post. exitSeq = pre @ child # s # post \<and> st_IsCompound (state_of def s) \<longrightarrow>
            parent_of def child = s \<and>
            mlook (wi_ShallowHistory (recordHistory inst leaf exitSeq def)) s = Some child \<and>
            mlook (wi_DeepHistory (recordHistory inst leaf exitSeq def)) s = Some leaf) \<and>
         (\<forall>s. s \<notin> set (tl exitSeq) \<or> \<not> st_IsCompound (state_of def s) \<longrightarrow>
            mlook (wi_ShallowHistory (recordHistory inst leaf exitSeq def)) s = mlook (wi_ShallowHistory inst) s \<and>
            mlook (wi_DeepHistory (recordHistory inst leaf exitSeq def)) s = mlook (wi_DeepHistory inst) s)"
proof (intro conjI allI impI)
  fix pre child s post
  assume "exitSeq = pre @ child # s # post \<and> st_IsCompound (state_of def s)"
  with recorded_on_path [OF assms(1,2)] assms(3)
  have "recorded_child exitSeq def s = Some child" "parent_of def child = s" by metis+
  then show "parent_of def child = s"
    "mlook (wi_ShallowHistory (recordHistory inst leaf exitSeq def)) s = Some child"
    "mlook (wi_DeepHistory (recordHistory inst leaf exitSeq def)) s = Some leaf"
    by (simp_all add: recordHistory_lookup)
next
  fix s
  assume "s \<notin> set (tl exitSeq) \<or> \<not> st_IsCompound (state_of def s)"
  from recorded_off_path [OF assms this]
  show "mlook (wi_ShallowHistory (recordHistory inst leaf exitSeq def)) s = mlook (wi_ShallowHistory inst) s"
    "mlook (wi_DeepHistory (recordHistory inst leaf exitSeq def)) s = mlook (wi_DeepHistory inst) s"
    by (simp_all add: recordHistory_lookup)
qed

theorem recordHistory_correct_witness:
  "mlook (wi_DeepHistory (recordHistory zero_instance ''PACK''
      (computeExitSequence ''PACK'' [] (cm_Ancestry order_cm)) order_def)) ''PROC'' = Some ''PACK''"
proof -
  have "computeExitSequence ''PACK'' [] (cm_Ancestry order_cm) = [] @ ''PACK'' # ''PROC'' # []"
    "st_IsCompound (state_of order_def ''PROC'')" by code_simp+
  with recordHistory_correct [OF order_compiles _ refl, of "''PACK''" "[]" zero_instance] show ?thesis
    by blast
qed

end
