(* ===== verification/Flow_Executor.thy ===== *)
theory Flow_Executor
  imports Flow_Helpers
begin

text \<open>
  \<open>internal/runtime/executor.go\<close>: loading and creating instances, validating a transition,
  committing it, \<open>ForceState\<close> and \<open>SideEffect\<close>. Where the Go code changes the instance behind a
  pointer the model returns the changed instance with the result. \<open>Transition\<close> itself, which also
  needs the dispatcher and the parallel code, is in \<open>Flow_Engine\<close>.
\<close>

section \<open>Loading and creating instances\<close>

definition newInstance ::
  "CompiledMachine \<Rightarrow> string \<Rightarrow> string \<Rightarrow> string \<Rightarrow> string \<Rightarrow> gtime \<Rightarrow> WorkflowInstance" where
  "newInstance cm aggregateType aggregateID wfID correlationID now =
     zero_instance
       \<lparr>wi_ID := wfID,
        wi_WorkflowType := df_WorkflowType (cm_Definition cm),
        wi_WorkflowVersion := df_Version (cm_Definition cm),
        wi_AggregateType := aggregateType, wi_AggregateID := aggregateID,
        wi_CurrentState := leaf_in cm (df_InitialState (cm_Definition cm)),
        wi_StateData := Some [], wi_ShallowHistory := Some [], wi_DeepHistory := Some [],
        wi_CorrelationID := correlationID, wi_CreatedAt := now, wi_UpdatedAt := now\<rparr>"

definition createInstance ::
  "'w Deps \<Rightarrow> CompiledMachine \<Rightarrow> string \<Rightarrow> string \<Rightarrow> ('w, WorkflowInstance) prog" where
  "createInstance D cm aggregateType aggregateID = do {
     now \<leftarrow> dp_Clock D;
     wfID \<leftarrow> generateID D;
     correlationID \<leftarrow> generateID D;
     let inst = newInstance cm aggregateType aggregateID wfID correlationID now;
     attempt (tx_Begin (dp_TxProvider D))
       (\<lambda>err. fail (Errorf ''flowstep: begin tx for create: %w'' [] (Some err)))
     (\<lambda>tx.
       check (is_Create (dp_InstanceStore D) tx inst)
         (\<lambda>err. do {
            _ \<leftarrow> tx_Rollback (dp_TxProvider D) tx;
            fail (Errorf ''flowstep: create instance: %w'' [] (Some err)) })
       (check (tx_Commit (dp_TxProvider D) tx)
         (\<lambda>err. fail (Errorf ''flowstep: commit create: %w'' [] (Some err)))
         (ok inst)))
   }"

definition versionError :: "string \<Rightarrow> int \<Rightarrow> gerr" where
  "versionError aggregateType version =
     Errorf ''flowstep: no workflow version %d registered for aggregate type %q''
       [GInt version, GString aggregateType] None"

definition loadInstanceAndCompiled ::
  "'w Engine \<Rightarrow> string \<Rightarrow> string \<Rightarrow> ('w, CompiledMachine \<times> WorkflowInstance) prog" where
  "loadInstanceAndCompiled e aggregateType aggregateID =
     attempt (is_Get (dp_InstanceStore (en_deps e)) aggregateType aggregateID)
       (\<lambda>err.
         if \<not> err_is err ErrInstanceNotFound
         then fail (Errorf ''flowstep: get instance: %w'' [] (Some err))
         else (case compiledFor e aggregateType 0 of
                 None \<Rightarrow> fail (Errorf ''flowstep: no workflow registered for aggregate type %q''
                                 [GString aggregateType] None)
               | Some cm \<Rightarrow>
                   attempt (createInstance (en_deps e) cm aggregateType aggregateID) fail
                     (\<lambda>inst. ok (cm, inst))))
       (\<lambda>inst.
         case compiledFor e aggregateType (wi_WorkflowVersion inst) of
           None \<Rightarrow> fail (versionError aggregateType (wi_WorkflowVersion inst))
         | Some cm \<Rightarrow> ok (cm, inst))"

section \<open>Validating a transition\<close>

text \<open>The state the transition is taken from: the current state or its nearest listed ancestor.\<close>

definition effectiveSource :: "CompiledMachine \<Rightarrow> TransitionDef \<Rightarrow> string \<Rightarrow> string option" where
  "effectiveSource cm tr current =
     (if current \<in> set (tr_Sources tr) then Some current
      else find (\<lambda>ancestor. ancestor \<in> set (tr_Sources tr)) (anc_of (cm_Ancestry cm) current))"

definition isTerminalState :: "CompiledMachine \<Rightarrow> string \<Rightarrow> bool" where
  "isTerminalState cm s =
     (case map_of (df_States (cm_Definition cm)) s of None \<Rightarrow> False | Some st \<Rightarrow> st_IsTerminal st)"

definition terminalError :: "WorkflowInstance \<Rightarrow> string \<Rightarrow> gerr" where
  "terminalError inst s =
     Errorf ''flowstep: workflow %s/%s is in terminal state %q: %w''
       (qs [wi_AggregateType inst, wi_AggregateID inst, s]) (Some (Sentinel ErrAlreadyTerminal))"

definition validateTransition ::
  "'w Engine \<Rightarrow> CompiledMachine \<Rightarrow> WorkflowInstance \<Rightarrow> string \<Rightarrow> gparams \<Rightarrow>
     ('w, CompiledTransition \<times> string) prog" where
  "validateTransition e cm inst transitionName params =
     (case map_of (df_Transitions (cm_Definition cm)) transitionName of
        None \<Rightarrow> fail (Errorf ''flowstep: transition %q not found in workflow %q: %w''
                  (qs [transitionName, df_WorkflowType (cm_Definition cm)])
                  (Some (Sentinel ErrInvalidTransition)))
      | Some tr \<Rightarrow>
          if isTerminalState cm (wi_CurrentState inst)
          then fail (terminalError inst (wi_CurrentState inst))
          else (case effectiveSource cm tr (wi_CurrentState inst) of
            None \<Rightarrow> fail (Errorf ''flowstep: transition %q not valid from state %q (expected one of %v): %w''
                      (qs (transitionName # wi_CurrentState inst # tr_Sources tr))
                      (Some (Sentinel ErrInvalidTransition)))
          | Some src \<Rightarrow>
              (case find (\<lambda>c. tr_Name (ct_Def c) = transitionName) (cts_of (cm_TransitionsByState cm) src) of
                 None \<Rightarrow> fail (Errorf ''flowstep: compiled transition %q missing for state %q: %w''
                           (qs [transitionName, src]) (Some (Sentinel ErrInvalidTransition)))
               | Some ct \<Rightarrow>
                   check (runGuards (en_deps e) (df_WorkflowType (cm_Definition cm)) ct inst params) fail
                     (if tr_Routes tr \<noteq> []
                      then (case resolveRoute tr inst params of
                              Inl err \<Rightarrow> fail err
                            | Inr resolved \<Rightarrow> ok (ct, resolved))
                      else ok (ct, tr_Target tr)))))"

section \<open>Committing a transition\<close>

definition resolveTarget :: "CompiledMachine \<Rightarrow> WorkflowInstance \<Rightarrow> CompiledTransition \<Rightarrow> string \<Rightarrow> string" where
  "resolveTarget cm inst ct targetState =
     (case tr_HistoryMode (ct_Def ct) of
        HistoryShallow \<Rightarrow>
          (case mlook (wi_ShallowHistory inst) targetState of
             Some recorded \<Rightarrow> leaf_in cm recorded
           | None \<Rightarrow> leaf_in cm targetState)
      | HistoryDeep \<Rightarrow>
          (case mlook (wi_DeepHistory inst) targetState of
             Some recorded \<Rightarrow> recorded
           | None \<Rightarrow> leaf_in cm targetState)
      | HistoryNone \<Rightarrow> leaf_in cm targetState)"

definition transitionEvent ::
  "CompiledMachine \<Rightarrow> WorkflowInstance \<Rightarrow> string \<Rightarrow> string \<Rightarrow> string \<Rightarrow> string \<Rightarrow> gparams \<Rightarrow> gtime \<Rightarrow> DomainEvent" where
  "transitionEvent cm inst evID eventType actorID transitionName payload now =
     zero_DomainEvent
       \<lparr>ev_ID := evID, ev_AggregateType := wi_AggregateType inst, ev_AggregateID := wi_AggregateID inst,
        ev_WorkflowType := df_WorkflowType (cm_Definition cm),
        ev_WorkflowVersion := df_Version (cm_Definition cm), ev_EventType := eventType,
        ev_CorrelationID := wi_CorrelationID inst, ev_ActorID := actorID,
        ev_TransitionName := transitionName, ev_StateBefore := copyMap (wi_StateData inst),
        ev_StateAfter := copyMap (wi_StateData inst), ev_Payload := payload, ev_CreatedAt := now\<rparr>"

definition activityInput ::
  "CompiledMachine \<Rightarrow> WorkflowInstance \<Rightarrow> string \<Rightarrow> string \<Rightarrow> string \<Rightarrow> gparams \<Rightarrow> ActivityInput" where
  "activityInput cm inst transitionName sourceState evID params =
     \<lparr>in_WorkflowType = df_WorkflowType (cm_Definition cm), in_AggregateType = wi_AggregateType inst,
      in_AggregateID = wi_AggregateID inst, in_CorrelationID = wi_CorrelationID inst,
      in_Params = params, in_ScheduledAt = 0, in_Transition = transitionName,
      in_SourceState = sourceState, in_EventID = evID\<rparr>"

definition isParallelState :: "CompiledMachine \<Rightarrow> string \<Rightarrow> bool" where
  "isParallelState cm s = (map_of (cm_RegionIndex cm) s \<noteq> None)"

definition exitSeqOf :: "CompiledMachine \<Rightarrow> string \<Rightarrow> string \<Rightarrow> string list" where
  "exitSeqOf cm sourceLeaf resolvedTarget =
     computeExitSequence sourceLeaf (fst (LCA cm sourceLeaf resolvedTarget)) (cm_Ancestry cm)"

definition entrySeqOf :: "CompiledMachine \<Rightarrow> string \<Rightarrow> string \<Rightarrow> string list" where
  "entrySeqOf cm sourceLeaf resolvedTarget =
     (let lca = fst (LCA cm sourceLeaf resolvedTarget) in
      if isParallelState cm resolvedTarget then computeParallelEntrySequence cm lca resolvedTarget
      else computeEntrySequence lca resolvedTarget (cm_Ancestry cm))"

fun exitLoop :: "'w Deps \<Rightarrow> Definition \<Rightarrow> ActivityInput \<Rightarrow> gval \<Rightarrow> string list \<Rightarrow> 'w proc" where
  "exitLoop D def actInput tx [] = ret None"
| "exitLoop D def actInput tx (stateName # seq) =
     (let activity = st_ExitActivity (state_of def stateName) in
      if activity = [] then exitLoop D def actInput tx seq
      else check (runSyncActivity D activity actInput)
             (\<lambda>err. do {
                _ \<leftarrow> tx_Rollback (dp_TxProvider D) tx;
                ret (Some (Errorf ''flowstep: exit activity %q failed for state %q: %w''
                       (qs [activity, stateName]) (Some err))) })
             (exitLoop D def actInput tx seq))"

text \<open>
  \<open>New\<close> sets \<open>en_hasSavepoints\<close> from the provider, so the type assertion at the call site, which
  would panic, always succeeds where the flag is set.
\<close>

definition savepoints :: "'w Engine \<Rightarrow> 'w SavepointProvider option" where
  "savepoints e = (if en_hasSavepoints e then tx_Savepoints (dp_TxProvider (en_deps e)) else None)"

definition stuckText :: "string \<Rightarrow> string \<Rightarrow> gerr \<Rightarrow> gtext" where
  "stuckText activity stateName err =
     Sprintf ''entry activity %q failed for state %q: %v'' (qs [activity, stateName]) err"

definition stuckError :: "gtext \<Rightarrow> gerr" where
  "stuckError reason = TextErr ''flowstep: %s'' reason"

definition markStuck :: "WorkflowInstance \<Rightarrow> string \<Rightarrow> gtext \<Rightarrow> gtime \<Rightarrow> WorkflowInstance" where
  "markStuck inst sourceLeaf reason now =
     inst\<lparr>wi_LastReadUpdatedAt := wi_UpdatedAt inst, wi_CurrentState := sourceLeaf,
          wi_IsStuck := True, wi_StuckReason := reason, wi_UpdatedAt := now\<rparr>"

text \<open>Without savepoints the stuck mark goes into a transaction of its own; its errors are dropped.\<close>

definition persistStuck :: "'w Deps \<Rightarrow> WorkflowInstance \<Rightarrow> ('w, unit) state" where
  "persistStuck D inst =
     attempt (tx_Begin (dp_TxProvider D)) (\<lambda>_. ret ())
       (\<lambda>stuckTx. do {
          _ \<leftarrow> is_Update (dp_InstanceStore D) stuckTx inst;
          _ \<leftarrow> tx_Commit (dp_TxProvider D) stuckTx;
          ret () })"

text \<open>
  The entry loop: \<open>Inr None\<close> when every activity succeeded, \<open>Inr (Some reason)\<close> when one failed
  and the transaction was rolled back to its savepoint, \<open>Inl err\<close> when the whole transaction was
  rolled back and the function returns.
\<close>

fun entryLoop ::
  "'w Engine \<Rightarrow> Definition \<Rightarrow> ActivityInput \<Rightarrow> gval \<Rightarrow> WorkflowInstance \<Rightarrow> string \<Rightarrow> gtime \<Rightarrow> string list \<Rightarrow>
     ('w, gtext option) prog" where
  "entryLoop e def actInput tx inst sourceLeaf now [] = ok None"
| "entryLoop e def actInput tx inst sourceLeaf now (stateName # seq) =
     (let activity = st_EntryActivity (state_of def stateName);
          point = ''entry_'' @ stateName in
      if activity = [] then entryLoop e def actInput tx inst sourceLeaf now seq
      else do {
        _ \<leftarrow> (case savepoints e of None \<Rightarrow> ret None | Some sp \<Rightarrow> sp_Savepoint sp tx point);
        check (runSyncActivity (en_deps e) activity actInput)
          (\<lambda>err.
            let reason = stuckText activity stateName err in
            case savepoints e of
              Some sp \<Rightarrow> do { _ \<leftarrow> sp_RollbackTo sp tx point; ok (Some reason) }
            | None \<Rightarrow> do {
                _ \<leftarrow> tx_Rollback (dp_TxProvider (en_deps e)) tx;
                persistStuck (en_deps e) (markStuck inst sourceLeaf reason now);
                fail (stuckError reason) })
          (entryLoop e def actInput tx inst sourceLeaf now seq)
      })"

definition invalidateTasks ::
  "'w Deps \<Rightarrow> Definition \<Rightarrow> gval \<Rightarrow> WorkflowInstance \<Rightarrow> string list \<Rightarrow> ('w, unit) state" where
  "invalidateTasks D def tx inst exitSeq =
     (case dp_TaskStore D of
        None \<Rightarrow> ret ()
      | Some store \<Rightarrow>
          (case ts_InvalidateByStates store of
             None \<Rightarrow> ret ()
           | Some invalidate \<Rightarrow>
               let exitedStates = collectSubtreeStates exitSeq def in
               if exitedStates = [] then ret ()
               else check (invalidate tx (wi_AggregateType inst) (wi_AggregateID inst) exitedStates)
                      (\<lambda>err. NotifyPostCommitError (dp_Observers D)
                               (PostCommitErrorEvent ''TaskInvalidator.InvalidateByStates'' err))
                      (ret ())))"

definition moveInstance ::
  "CompiledMachine \<Rightarrow> WorkflowInstance \<Rightarrow> string \<Rightarrow> gtext option \<Rightarrow> string \<Rightarrow> gtime \<Rightarrow> WorkflowInstance" where
  "moveInstance cm inst sourceLeaf stuck resolvedTarget now =
     (case stuck of
        Some reason \<Rightarrow> markStuck inst sourceLeaf reason now
      | None \<Rightarrow>
          (let i = inst\<lparr>wi_LastReadUpdatedAt := wi_UpdatedAt inst, wi_CurrentState := resolvedTarget,
                        wi_UpdatedAt := now\<rparr> in
           if isParallelState cm resolvedTarget then enterParallelRegions i cm resolvedTarget
           else i\<lparr>wi_ActiveInParallel := None\<rparr>))"

text \<open>The tail that all committing operations share: append the event, update the instance, commit.\<close>

definition appendUpdateCommit :: "'w Deps \<Rightarrow> gval \<Rightarrow> DomainEvent \<Rightarrow> WorkflowInstance \<Rightarrow> 'w proc" where
  "appendUpdateCommit D tx event inst =
     check (es_Append (dp_EventStore D) tx event)
       (\<lambda>err. do {
          _ \<leftarrow> tx_Rollback (dp_TxProvider D) tx;
          ret (Some (Errorf ''flowstep: append event: %w'' [] (Some err))) })
     (check (is_Update (dp_InstanceStore D) tx inst)
       (\<lambda>err. do {
          _ \<leftarrow> tx_Rollback (dp_TxProvider D) tx;
          ret (Some (Errorf ''flowstep: update instance: %w'' [] (Some err))) })
     (check (tx_Commit (dp_TxProvider D) tx)
       (\<lambda>err. ret (Some (Errorf ''flowstep: commit tx: %w'' [] (Some err))))
       (ret None)))"

definition commitTransition ::
  "'w Engine \<Rightarrow> CompiledMachine \<Rightarrow> WorkflowInstance \<Rightarrow> CompiledTransition \<Rightarrow> string \<Rightarrow> string \<Rightarrow> string \<Rightarrow>
     gparams \<Rightarrow> ('w, DomainEvent \<times> WorkflowInstance) prog" where
  "commitTransition e cm inst ct targetState transitionName actorID params = do {
     let D = en_deps e;
     let sourceLeaf = wi_CurrentState inst;
     now \<leftarrow> dp_Clock D;
     let resolvedTarget = resolveTarget cm inst ct targetState;
     evID \<leftarrow> generateID D;
     let event = transitionEvent cm inst evID (tr_Event (ct_Def ct)) actorID transitionName params now;
     let exitSeq = exitSeqOf cm sourceLeaf resolvedTarget;
     let entrySeq = entrySeqOf cm sourceLeaf resolvedTarget;
     let inst = recordHistory inst sourceLeaf exitSeq (cm_Definition cm);
     let actInput = activityInput cm inst transitionName sourceLeaf evID params;
     attempt (tx_Begin (dp_TxProvider D))
       (\<lambda>err. fail (Errorf ''flowstep: begin tx: %w'' [] (Some err)))
     (\<lambda>tx.
       check (exitLoop D (cm_Definition cm) actInput tx exitSeq) fail
       (attempt (entryLoop e (cm_Definition cm) actInput tx inst sourceLeaf now entrySeq) fail
       (\<lambda>stuck. do {
         invalidateTasks D (cm_Definition cm) tx inst exitSeq;
         let moved = moveInstance cm inst sourceLeaf stuck resolvedTarget now;
         check (appendUpdateCommit D tx event moved) fail
           (case stuck of
              Some reason \<Rightarrow> fail (stuckError reason)
            | None \<Rightarrow> ok (event, moved))
       })))
   }"

section \<open>Side effects\<close>

definition SideEffect ::
  "'w Engine \<Rightarrow> string \<Rightarrow> string \<Rightarrow> string \<Rightarrow> ('w, gval) prog \<Rightarrow> ('w, gval) prog" where
  "SideEffect e aggregateType aggregateID name fn = (
     let D = en_deps e in
     case checkShutdown e of
       Some err \<Rightarrow> fail err
     | None \<Rightarrow>
         attempt (is_Get (dp_InstanceStore D) aggregateType aggregateID)
           (\<lambda>err. fail (Errorf ''flowstep: SideEffect get instance: %w'' [] (Some err)))
         (\<lambda>inst. attempt fn fail (\<lambda>result. do {
            evID \<leftarrow> generateID D;
            now \<leftarrow> dp_Clock D;
            let event = NewSideEffectEvent evID aggregateType aggregateID (wi_WorkflowType inst)
                          (wi_WorkflowVersion inst) (wi_CorrelationID inst) name result now;
            attempt (tx_Begin (dp_TxProvider D))
              (\<lambda>err. fail (Errorf ''flowstep: SideEffect begin tx: %w'' [] (Some err)))
            (\<lambda>tx.
              check (es_Append (dp_EventStore D) tx event)
                (\<lambda>err. do {
                   _ \<leftarrow> tx_Rollback (dp_TxProvider D) tx;
                   fail (Errorf ''flowstep: SideEffect append event: %w'' [] (Some err)) })
              (check (tx_Commit (dp_TxProvider D) tx)
                (\<lambda>err. fail (Errorf ''flowstep: SideEffect commit tx: %w'' [] (Some err)))
                (ok result)))
          })))"

section \<open>ForceState\<close>

text \<open>A failed post-commit step is reported to the observers and becomes a warning of the result.\<close>

definition warn :: "'w Deps \<Rightarrow> string \<Rightarrow> gerr \<Rightarrow> ('w, PostCommitWarning list) state" where
  "warn D operation err = do {
     NotifyPostCommitError (dp_Observers D) (PostCommitErrorEvent operation err);
     ret [\<lparr>pw_Operation = operation, pw_Err = err\<rparr>]
   }"

definition emitToBus :: "'w Deps \<Rightarrow> DomainEvent \<Rightarrow> ('w, PostCommitWarning list) state" where
  "emitToBus D event =
     (case dp_EventBus D of
        None \<Rightarrow> ret []
      | Some bus \<Rightarrow> check (bus_Emit bus event) (warn D ''EventBus.Emit'') (ret []))"

definition forcedInstance :: "CompiledMachine \<Rightarrow> WorkflowInstance \<Rightarrow> string \<Rightarrow> gtime \<Rightarrow> WorkflowInstance" where
  "forcedInstance cm inst target now =
     (let i = inst\<lparr>wi_LastReadUpdatedAt := wi_UpdatedAt inst, wi_CurrentState := target,
                   wi_IsStuck := False, wi_StuckReason := Text [], wi_ShallowHistory := Some [],
                   wi_DeepHistory := Some [], wi_ActiveInParallel := None, wi_UpdatedAt := now\<rparr> in
      if isParallelState cm target then enterParallelRegions i cm target else i)"

definition ForceState ::
  "'w Engine \<Rightarrow> string \<Rightarrow> string \<Rightarrow> string \<Rightarrow> string \<Rightarrow> string \<Rightarrow> ('w, TransitionResult) prog" where
  "ForceState e aggregateType aggregateID targetState actorID reason = (
     let D = en_deps e in
     case checkShutdown e of
       Some err \<Rightarrow> fail err
     | None \<Rightarrow>
         attempt (is_Get (dp_InstanceStore D) aggregateType aggregateID)
           (\<lambda>err. fail (Errorf ''flowstep: get instance: %w'' [] (Some err)))
         (\<lambda>inst.
           case compiledFor e aggregateType (wi_WorkflowVersion inst) of
             None \<Rightarrow> fail (versionError aggregateType (wi_WorkflowVersion inst))
           | Some cm \<Rightarrow>
               if map_of (df_States (cm_Definition cm)) targetState = None
               then fail (Errorf ''flowstep: target state %q not found in workflow %q: %w''
                      (qs [targetState, df_WorkflowType (cm_Definition cm)])
                      (Some (Sentinel ErrInvalidTransition)))
               else do {
                 let target = leaf_in cm targetState;
                 now \<leftarrow> dp_Clock D;
                 let previousState = wi_CurrentState inst;
                 evID \<leftarrow> generateID D;
                 let event = (transitionEvent cm inst evID ''StateForced'' actorID ''_force_state''
                       (Some [(''_reason'', GString reason), (''_from'', GString previousState),
                              (''_to'', GString target)]) now)
                       \<lparr>ev_AggregateType := aggregateType, ev_AggregateID := aggregateID\<rparr>;
                 let forced = forcedInstance cm inst target now;
                 attempt (tx_Begin (dp_TxProvider D))
                   (\<lambda>err. fail (Errorf ''flowstep: begin tx: %w'' [] (Some err)))
                 (\<lambda>tx. check (appendUpdateCommit D tx event forced) fail (do {
                   warnings \<leftarrow> emitToBus D event;
                   ok \<lparr>rs_Instance = forced, rs_Event = event, rs_PreviousState = previousState,
                       rs_NewState = target, rs_TransitionName = ''_force_state'',
                       rs_ActivitiesDispatched = [], rs_TaskCreated = None, rs_ChildrenSpawned = [],
                       rs_IsTerminal = isTerminalState cm target, rs_Warnings = warnings\<rparr>
                 }))
               }))"

end
