(* ===== verification/Flow_Dispatcher.thy ===== *)
theory Flow_Dispatcher
  imports Flow_Executor
begin

text \<open>
  \<open>internal/runtime/dispatcher.go\<close>: the steps after the commit. Each returns its warnings beside
  what it did; a failure here never undoes the transition.
\<close>

section \<open>Activities\<close>

definition newInvocation ::
  "CompiledMachine \<Rightarrow> WorkflowInstance \<Rightarrow> ActivityDef \<Rightarrow> gparams \<Rightarrow> gtime \<Rightarrow> string \<Rightarrow> ActivityInvocation" where
  "newInvocation cm inst actDef params now invID =
     \<lparr>ai_ID = invID, ai_ActivityName = ad_Name actDef,
      ai_WorkflowType = df_WorkflowType (cm_Definition cm), ai_AggregateType = wi_AggregateType inst,
      ai_AggregateID = wi_AggregateID inst, ai_CorrelationID = wi_CorrelationID inst,
      ai_Mode = ad_Mode actDef,
      ai_Input = \<lparr>in_WorkflowType = df_WorkflowType (cm_Definition cm),
        in_AggregateType = wi_AggregateType inst, in_AggregateID = wi_AggregateID inst,
        in_CorrelationID = wi_CorrelationID inst, in_Params = params, in_ScheduledAt = now,
        in_Transition = [], in_SourceState = [], in_EventID = []\<rparr>,
      ai_RetryPolicy = ad_RetryPolicy actDef, ai_ResultSignals = None, ai_Timeout = ad_Timeout actDef,
      ai_Status = ActivityStatusScheduled, ai_Result = None, ai_Attempts = 0,
      ai_MaxAttempts = (case ad_RetryPolicy actDef of None \<Rightarrow> 1 | Some p \<Rightarrow> rp_MaxAttempts p),
      ai_NextRetryAt = None, ai_ScheduledAt = now, ai_StartedAt = None, ai_CompletedAt = None\<rparr>"

definition dispatchOne ::
  "'w Deps \<Rightarrow> 'w ActivityRunner \<Rightarrow> ActivityInvocation \<Rightarrow> ('w, PostCommitWarning list \<times> string list) state" where
  "dispatchOne D runner invocation = do {
     stored \<leftarrow> (case dp_ActivityStore D of
                 None \<Rightarrow> ret []
               | Some store \<Rightarrow> check (as_Create store GNil invocation) (warn D ''ActivityStore.Create'') (ret []));
     check (rn_Dispatch runner invocation)
       (\<lambda>err. do { w \<leftarrow> warn D ''ActivityRunner.Dispatch'' err; ret (stored @ w, []) })
       (do {
          NotifyActivityDispatched (dp_Observers D) (ActivityDispatchedEvent invocation);
          ret (stored, [ai_ActivityName invocation]) })
   }"

fun activityLoop ::
  "'w Deps \<Rightarrow> 'w ActivityRunner \<Rightarrow> CompiledMachine \<Rightarrow> WorkflowInstance \<Rightarrow> gparams \<Rightarrow> gtime \<Rightarrow> ActivityDef list \<Rightarrow>
     ('w, PostCommitWarning list \<times> string list) state" where
  "activityLoop D runner cm inst params now [] = ret ([], [])"
| "activityLoop D runner cm inst params now (actDef # actDefs) = do {
     invID \<leftarrow> generateID D;
     (ws, ds) \<leftarrow> dispatchOne D runner (newInvocation cm inst actDef params now invID);
     (ws', ds') \<leftarrow> activityLoop D runner cm inst params now actDefs;
     ret (ws @ ws', ds @ ds')
   }"

definition dispatchActivities ::
  "'w Deps \<Rightarrow> CompiledMachine \<Rightarrow> WorkflowInstance \<Rightarrow> CompiledTransition \<Rightarrow> gparams \<Rightarrow> gtime \<Rightarrow>
     ('w, PostCommitWarning list \<times> string list) state" where
  "dispatchActivities D cm inst ct params now =
     (case dp_ActivityRunner D of
        None \<Rightarrow> ret ([], [])
      | Some runner \<Rightarrow> activityLoop D runner cm inst params now (tr_Activities (ct_Def ct)))"

section \<open>Tasks\<close>

definition newTask :: "CompiledMachine \<Rightarrow> WorkflowInstance \<Rightarrow> TaskDef \<Rightarrow> gtime \<Rightarrow> string \<Rightarrow> PendingTask" where
  "newTask cm inst td now taskID =
     \<lparr>tk_ID = taskID, tk_WorkflowType = df_WorkflowType (cm_Definition cm),
      tk_AggregateType = wi_AggregateType inst, tk_AggregateID = wi_AggregateID inst,
      tk_CorrelationID = wi_CorrelationID inst, tk_TaskType = td_Type td,
      tk_Description = td_Description td, tk_Options = td_Options td,
      tk_State = wi_CurrentState inst, tk_AssignedTo = [], tk_Timeout = td_Timeout td,
      tk_ExpiresAt = (if td_Timeout td > 0 then now + td_Timeout td else 0), tk_CompletedAt = None,
      tk_Choice = [], tk_CompletedBy = [], tk_Status = TaskStatusPending, tk_CreatedAt = now\<rparr>"

definition createTask ::
  "'w Deps \<Rightarrow> CompiledMachine \<Rightarrow> WorkflowInstance \<Rightarrow> CompiledTransition \<Rightarrow> gtime \<Rightarrow>
     ('w, PostCommitWarning list \<times> PendingTask option) state" where
  "createTask D cm inst ct now =
     (case (tr_TaskDef (ct_Def ct), dp_TaskStore D) of
        (Some td, Some store) \<Rightarrow> do {
          taskID \<leftarrow> generateID D;
          let task = newTask cm inst td now taskID;
          check (ts_Create store GNil task)
            (\<lambda>err. do { w \<leftarrow> warn D ''TaskStore.Create'' err; ret (w, None) })
            (ret ([], Some task)) }
      | _ \<Rightarrow> ret ([], None))"

section \<open>Child workflows\<close>

definition newRelation ::
  "CompiledMachine \<Rightarrow> WorkflowInstance \<Rightarrow> string \<Rightarrow> string \<Rightarrow> string \<Rightarrow> gtime \<Rightarrow> string \<Rightarrow> string \<Rightarrow> ChildRelation" where
  "newRelation cm inst childType groupID joinMode now relID childAggID =
     \<lparr>cr_ID = relID, cr_GroupID = groupID, cr_ParentWorkflowType = df_WorkflowType (cm_Definition cm),
      cr_ParentAggregateType = wi_AggregateType inst, cr_ParentAggregateID = wi_AggregateID inst,
      cr_ChildWorkflowType = childType, cr_ChildAggregateType = childType,
      cr_ChildAggregateID = childAggID, cr_CorrelationID = wi_CorrelationID inst,
      cr_Status = ChildStatusActive, cr_ChildTerminalState = [], cr_JoinPolicy = joinMode,
      cr_CreatedAt = now, cr_CompletedAt = None\<rparr>"

definition spawnOne ::
  "'w Deps \<Rightarrow> 'w ChildStore \<Rightarrow> (string \<Rightarrow> string \<Rightarrow> ChildRelation) \<Rightarrow>
     ('w, PostCommitWarning list \<times> ChildRelation list) state" where
  "spawnOne D store relationOf = do {
     childAggID \<leftarrow> generateID D;
     relID \<leftarrow> generateID D;
     let relation = relationOf relID childAggID;
     check (ch_Create store GNil relation)
       (\<lambda>err. do { w \<leftarrow> warn D ''ChildStore.Create'' err; ret (w, []) })
       (ret ([], [relation]))
   }"

fun spawnLoopN ::
  "'w Deps \<Rightarrow> 'w ChildStore \<Rightarrow> (string \<Rightarrow> string \<Rightarrow> ChildRelation) \<Rightarrow> gparams list \<Rightarrow>
     ('w, PostCommitWarning list \<times> ChildRelation list) state" where
  "spawnLoopN D store relationOf [] = ret ([], [])"
| "spawnLoopN D store relationOf (_ # inputs) = do {
     (ws, rs) \<leftarrow> spawnOne D store relationOf;
     (ws', rs') \<leftarrow> spawnLoopN D store relationOf inputs;
     ret (ws @ ws', rs @ rs')
   }"

definition spawnChild ::
  "'w Deps \<Rightarrow> CompiledMachine \<Rightarrow> WorkflowInstance \<Rightarrow> CompiledTransition \<Rightarrow> gtime \<Rightarrow>
     ('w, PostCommitWarning list \<times> ChildRelation list) state" where
  "spawnChild D cm inst ct now =
     (case (tr_ChildDef (ct_Def ct), dp_ChildStore D) of
        (Some cd, Some store) \<Rightarrow> spawnOne D store (newRelation cm inst (cd_WorkflowType cd) [] [] now)
      | _ \<Rightarrow> ret ([], []))"

text \<open>Calling a nil \<open>InputsFn\<close> panics, after the transition has been committed.\<close>

definition spawnChildren ::
  "'w Deps \<Rightarrow> CompiledMachine \<Rightarrow> WorkflowInstance \<Rightarrow> CompiledTransition \<Rightarrow> gtime \<Rightarrow>
     ('w, PostCommitWarning list \<times> ChildRelation list) prog" where
  "spawnChildren D cm inst ct now =
     (case (tr_ChildrenDef (ct_Def ct), dp_ChildStore D) of
        (Some cs, Some store) \<Rightarrow> do {
          groupID \<leftarrow> generateID D;
          (case cs_InputsFn cs of
             None \<Rightarrow> fail (Panic ''invalid memory address or nil pointer dereference'')
           | Some inputsFn \<Rightarrow> do {
               r \<leftarrow> spawnLoopN D store
                      (newRelation cm inst (cs_WorkflowType cs) groupID (jp_Mode (cs_Join cs)) now)
                      (inputsFn GNil);
               ok r }) }
      | _ \<Rightarrow> ok ([], []))"

section \<open>The post-commit step\<close>

definition runPostCommit ::
  "'w Engine \<Rightarrow> CompiledMachine \<Rightarrow> WorkflowInstance \<Rightarrow> CompiledTransition \<Rightarrow> DomainEvent \<Rightarrow> string \<Rightarrow>
     gparams \<Rightarrow> gtime \<Rightarrow> ('w, TransitionResult) prog" where
  "runPostCommit e cm inst ct event previousState params start = do {
     let D = en_deps e;
     let now = ev_CreatedAt event;
     emitted \<leftarrow> emitToBus D event;
     (dispatchWarnings, dispatched) \<leftarrow> dispatchActivities D cm inst ct params now;
     (taskWarnings, taskCreated) \<leftarrow> createTask D cm inst ct now;
     (childWarnings, child) \<leftarrow> spawnChild D cm inst ct now;
     attempt (spawnChildren D cm inst ct now) fail (\<lambda>(groupWarnings, children). do {
       let result =
         \<lparr>rs_Instance = inst, rs_Event = event, rs_PreviousState = previousState,
          rs_NewState = wi_CurrentState inst, rs_TransitionName = ev_TransitionName event,
          rs_ActivitiesDispatched = dispatched, rs_TaskCreated = taskCreated,
          rs_ChildrenSpawned = child @ children,
          rs_IsTerminal = isTerminalState cm (wi_CurrentState inst),
          rs_Warnings = emitted @ dispatchWarnings @ taskWarnings @ childWarnings @ groupWarnings\<rparr>;
       finish \<leftarrow> dp_Clock D;
       NotifyTransition (dp_Observers D) (TransitionEvent result (finish - start));
       ok result
     })
   }"

end
