(* ===== verification/Flow_Parallel.thy ===== *)
theory Flow_Parallel
  imports Flow_Dispatcher
begin

text \<open>
  \<open>internal/runtime/parallel.go\<close>: transitions of an instance that is inside a parallel state. A
  transition either leaves the parallel state as a whole or moves the regions in which it matches.
\<close>

section \<open>Candidates\<close>

record parallelCandidate =
  pc_region :: string
  pc_leafState :: string
  pc_ct :: CompiledTransition
  pc_effectiveSrc :: string
  pc_targetState :: string

text \<open>The empty string stands for no source, as in the code; the walk stops below the parallel state.\<close>

definition parallelSource :: "CompiledMachine \<Rightarrow> TransitionDef \<Rightarrow> string \<Rightarrow> string \<Rightarrow> string" where
  "parallelSource cm tr parallelState leafState =
     (if leafState \<in> set (tr_Sources tr) then leafState
      else (case find (\<lambda>ancestor. ancestor \<in> set (tr_Sources tr))
                   (takeWhile (\<lambda>ancestor. ancestor \<noteq> parallelState) (anc_of (cm_Ancestry cm) leafState)) of
              None \<Rightarrow> [] | Some ancestor \<Rightarrow> ancestor))"

fun candidateLoop ::
  "'w Engine \<Rightarrow> CompiledMachine \<Rightarrow> WorkflowInstance \<Rightarrow> TransitionDef \<Rightarrow> string \<Rightarrow> string \<Rightarrow> gparams \<Rightarrow> string list \<Rightarrow>
     ('w, parallelCandidate list) prog" where
  "candidateLoop e cm inst tr parallelState transitionName params [] = ok []"
| "candidateLoop e cm inst tr parallelState transitionName params (region # regions) =
     (let leafState = aip_leaf inst region;
          src = parallelSource cm tr parallelState leafState in
      if src = [] then candidateLoop e cm inst tr parallelState transitionName params regions
      else (case find (\<lambda>c. tr_Name (ct_Def c) = transitionName) (cts_of (cm_TransitionsByState cm) src) of
              None \<Rightarrow> candidateLoop e cm inst tr parallelState transitionName params regions
            | Some ct \<Rightarrow>
                check (runGuards (en_deps e) (df_WorkflowType (cm_Definition cm)) ct inst params) fail
                  (case (if tr_Routes tr \<noteq> [] then resolveRoute tr inst params else Inr (tr_Target tr)) of
                     Inl err \<Rightarrow> fail err
                   | Inr targetState \<Rightarrow>
                       attempt (candidateLoop e cm inst tr parallelState transitionName params regions) fail
                         (\<lambda>candidates. ok
                            (\<lparr>pc_region = region, pc_leafState = leafState, pc_ct = ct,
                              pc_effectiveSrc = src, pc_targetState = targetState\<rparr> # candidates)))))"

definition collectParallelCandidates ::
  "'w Engine \<Rightarrow> CompiledMachine \<Rightarrow> WorkflowInstance \<Rightarrow> string \<Rightarrow> string \<Rightarrow> gparams \<Rightarrow>
     ('w, parallelCandidate list) prog" where
  "collectParallelCandidates e cm inst parallelState transitionName params =
     (case map_of (df_Transitions (cm_Definition cm)) transitionName of
        None \<Rightarrow> fail (Errorf ''flowstep: transition %q not found: %w'' (qs [transitionName])
                  (Some (Sentinel ErrInvalidTransition)))
      | Some tr \<Rightarrow>
          candidateLoop e cm inst tr parallelState transitionName params (sortedRegions inst))"

section \<open>Activities outside a transaction\<close>

text \<open>
  The activities run before the transaction is opened; \<open>activityOf\<close> picks the exit or the entry
  activity of a state and \<open>what\<close> names it in the error.
\<close>

fun syncLoop ::
  "'w Deps \<Rightarrow> (StateDef \<Rightarrow> string) \<Rightarrow> string \<Rightarrow> Definition \<Rightarrow> ActivityInput \<Rightarrow> string list \<Rightarrow> 'w proc" where
  "syncLoop D activityOf what def actInput [] = ret None"
| "syncLoop D activityOf what def actInput (stateName # seq) =
     (let activity = activityOf (state_of def stateName) in
      if activity = [] then syncLoop D activityOf what def actInput seq
      else check (runSyncActivity D activity actInput)
             (\<lambda>err. ret (Some (Errorf what (qs [activity]) (Some err))))
             (syncLoop D activityOf what def actInput seq))"

definition beginAppendUpdateCommit :: "'w Deps \<Rightarrow> DomainEvent \<Rightarrow> WorkflowInstance \<Rightarrow> 'w proc" where
  "beginAppendUpdateCommit D event inst =
     attempt (tx_Begin (dp_TxProvider D))
       (\<lambda>err. ret (Some (Errorf ''flowstep: begin tx: %w'' [] (Some err))))
       (\<lambda>tx. appendUpdateCommit D tx event inst)"

section \<open>Transitions inside the parallel state\<close>

definition candidateExit :: "CompiledMachine \<Rightarrow> parallelCandidate \<Rightarrow> string list" where
  "candidateExit cm c =
     computeExitSequence (pc_leafState c) (fst (LCA cm (pc_leafState c) (pc_targetState c))) (cm_Ancestry cm)"

definition candidateEntry :: "CompiledMachine \<Rightarrow> parallelCandidate \<Rightarrow> string list" where
  "candidateEntry cm c =
     computeEntrySequence (fst (LCA cm (pc_leafState c) (pc_targetState c))) (pc_targetState c) (cm_Ancestry cm)"

definition moveRegions :: "parallelCandidate list \<Rightarrow> (string, string) gomap \<Rightarrow> (string, string) gomap" where
  "moveRegions candidates aip = fold (\<lambda>c. mput (pc_region c) (pc_targetState c)) candidates aip"

definition parallelRegionsDelta :: "parallelCandidate list \<Rightarrow> (string, gval) gomap" where
  "parallelRegionsDelta candidates =
     fold (\<lambda>c. mput (pc_region c)
                 (GMap (Some [(''from'', GString (pc_leafState c)), (''to'', GString (pc_targetState c))])))
       candidates []"

definition regionSeqMap :: "WorkflowInstance \<Rightarrow> parallelCandidate list \<Rightarrow> int64 \<Rightarrow> (string, gval) gomap" where
  "regionSeqMap inst candidates newClock =
     fold (\<lambda>region. mput region
             (GInt64 (if map_of (parallelRegionsDelta candidates) region \<noteq> None then newClock
                      else wi_ParallelClock inst)))
       (mkeys (mitems (wi_ActiveInParallel inst))) []"

definition intraPayload :: "WorkflowInstance \<Rightarrow> parallelCandidate list \<Rightarrow> gparams \<Rightarrow> int64 \<Rightarrow> gparams" where
  "intraPayload inst candidates params newClock =
     Some (mput ''_region_sequence_map'' (GMap (Some (regionSeqMap inst candidates newClock)))
          (mput ''_parallel_regions'' (GMap (Some (parallelRegionsDelta candidates)))
             (mitems params)))"

definition intraInstance :: "WorkflowInstance \<Rightarrow> parallelCandidate list \<Rightarrow> gtime \<Rightarrow> WorkflowInstance" where
  "intraInstance inst candidates now =
     inst\<lparr>wi_LastReadUpdatedAt := wi_UpdatedAt inst,
          wi_ActiveInParallel := Some (moveRegions candidates (mitems (wi_ActiveInParallel inst))),
          wi_ParallelClock := wi_ParallelClock inst + 1, wi_UpdatedAt := now\<rparr>"

definition commitParallelIntra ::
  "'w Engine \<Rightarrow> CompiledMachine \<Rightarrow> WorkflowInstance \<Rightarrow> parallelCandidate list \<Rightarrow> string \<Rightarrow> string \<Rightarrow> string \<Rightarrow>
     gparams \<Rightarrow> ('w, DomainEvent \<times> WorkflowInstance) prog" where
  "commitParallelIntra e cm inst candidates parallelState transitionName actorID params = do {
     let D = en_deps e;
     now \<leftarrow> dp_Clock D;
     let actInput = activityInput cm inst transitionName parallelState [] params;
     check (syncLoop D st_ExitActivity ''flowstep: exit activity %q: %w'' (cm_Definition cm) actInput
              (concat (map (candidateExit cm) candidates))) fail
     (check (syncLoop D st_EntryActivity ''flowstep: entry activity %q: %w'' (cm_Definition cm) actInput
              (concat (map (candidateEntry cm) candidates))) fail
     (do {
       let moved = intraInstance inst candidates now;
       evID \<leftarrow> generateID D;
       let event = transitionEvent cm inst evID ''ParallelTransition'' actorID transitionName
                     (intraPayload inst candidates params (wi_ParallelClock moved)) now;
       check (beginAppendUpdateCommit D event moved) fail (ok (event, moved))
     }))
   }"

section \<open>Leaving the parallel state\<close>

definition recordRegions :: "CompiledMachine \<Rightarrow> WorkflowInstance \<Rightarrow> string \<Rightarrow> WorkflowInstance" where
  "recordRegions cm inst parallelState =
     fold (\<lambda>region i.
             recordHistory i (aip_leaf i region)
               (computeExitSequence (aip_leaf i region) parallelState (cm_Ancestry cm)) (cm_Definition cm))
       (sortedRegions inst) inst"

definition commitParallelExit ::
  "'w Engine \<Rightarrow> CompiledMachine \<Rightarrow> WorkflowInstance \<Rightarrow> CompiledTransition \<Rightarrow> string \<Rightarrow> string \<Rightarrow> string \<Rightarrow>
     gparams \<Rightarrow> ('w, DomainEvent \<times> WorkflowInstance) prog" where
  "commitParallelExit e cm inst ct targetState transitionName actorID params = do {
     let D = en_deps e;
     now \<leftarrow> dp_Clock D;
     let parallelState = wi_CurrentState inst;
     let exitSeq = computeParallelExitSequence inst parallelState;
     let inst = recordRegions cm inst parallelState;
     let actInput = activityInput cm inst transitionName parallelState [] params;
     let resolvedTarget = leaf_in cm targetState;
     let entrySeq = computeEntrySequence [] resolvedTarget (cm_Ancestry cm);
     check (syncLoop D st_ExitActivity ''flowstep: exit activity %q: %w'' (cm_Definition cm) actInput exitSeq) fail
     (check (syncLoop D st_EntryActivity ''flowstep: entry activity %q: %w'' (cm_Definition cm) actInput entrySeq) fail
     (do {
       evID \<leftarrow> generateID D;
       let event = transitionEvent cm inst evID (tr_Event (ct_Def ct)) actorID transitionName params now;
       let moved = inst\<lparr>wi_LastReadUpdatedAt := wi_UpdatedAt inst, wi_CurrentState := resolvedTarget,
                        wi_ActiveInParallel := None, wi_UpdatedAt := now\<rparr>;
       check (beginAppendUpdateCommit D event moved) fail (ok (event, moved))
     }))
   }"

section \<open>Dispatch\<close>

definition parallelTransition ::
  "'w Engine \<Rightarrow> CompiledMachine \<Rightarrow> WorkflowInstance \<Rightarrow> string \<Rightarrow> string \<Rightarrow> gparams \<Rightarrow> gtime \<Rightarrow>
     ('w, TransitionResult) prog" where
  "parallelTransition e cm inst transitionName actorID params start =
     (let parallelState = wi_CurrentState inst in
      case map_of (df_Transitions (cm_Definition cm)) transitionName of
        None \<Rightarrow> fail (Errorf ''flowstep: transition %q not found in workflow %q: %w''
                  (qs [transitionName, df_WorkflowType (cm_Definition cm)])
                  (Some (Sentinel ErrInvalidTransition)))
      | Some tr \<Rightarrow>
          if isTerminalState cm parallelState then fail (terminalError inst parallelState)
          else if parallelState \<in> set (tr_Sources tr) then
            attempt (validateTransition e cm inst transitionName params) fail (\<lambda>(ct, targetState).
              attempt (commitParallelExit e cm inst ct targetState transitionName actorID params) fail
                (\<lambda>(event, moved). runPostCommit e cm moved ct event parallelState params start))
          else
            attempt (collectParallelCandidates e cm inst parallelState transitionName params) fail
              (\<lambda>candidates. case candidates of
                 [] \<Rightarrow> fail (Errorf ''flowstep: transition %q not valid from parallel state %q (no active leaf matches): %w''
                          (qs [transitionName, parallelState]) (Some (Sentinel ErrInvalidTransition)))
               | first # _ \<Rightarrow>
                   attempt (commitParallelIntra e cm inst candidates parallelState transitionName actorID params) fail
                     (\<lambda>(event, moved). runPostCommit e cm moved (pc_ct first) event parallelState params start)))"

end
