(* ===== verification/Flow_Engine.thy ===== *)
theory Flow_Engine
  imports Flow_Parallel
begin

text \<open>
  The operations that move instances: \<open>Transition\<close> (\<open>executor.go\<close>), the triggers \<open>Signal\<close>,
  \<open>CompleteTask\<close> and \<open>ChildCompleted\<close> (\<open>scheduler.go\<close>), \<open>Snapshot\<close> and \<open>Restore\<close>
  (\<open>snapshot.go\<close>), and the construction of an engine from its options (\<open>engine.go\<close>,
  \<open>options.go\<close>). The methods of the public \<open>Engine\<close> only delegate to these.
\<close>

section \<open>Transition\<close>

definition Transition ::
  "'w Engine \<Rightarrow> string \<Rightarrow> string \<Rightarrow> string \<Rightarrow> string \<Rightarrow> gparams \<Rightarrow> ('w, TransitionResult) prog" where
  "Transition e aggregateType aggregateID transitionName actorID params =
     (case checkShutdown e of
        Some err \<Rightarrow> fail err
      | None \<Rightarrow> do {
          start \<leftarrow> dp_Clock (en_deps e);
          attempt (loadInstanceAndCompiled e aggregateType aggregateID) fail (\<lambda>(cm, inst).
            if mitems (wi_ActiveInParallel inst) \<noteq> []
            then parallelTransition e cm inst transitionName actorID params start
            else
              attempt (validateTransition e cm inst transitionName params) fail (\<lambda>(ct, targetState).
                attempt (commitTransition e cm inst ct targetState transitionName actorID params) fail
                  (\<lambda>(event, moved).
                     runPostCommit e cm moved ct event (wi_CurrentState inst) params start)))
        })"

section \<open>Triggers\<close>

definition triggered :: "TriggerType \<Rightarrow> string list \<Rightarrow> TransitionDef \<Rightarrow> bool" where
  "triggered trigger active tr =
     (tr_TriggerType tr = trigger \<and> (\<exists>s \<in> set active. s \<in> set (tr_Sources tr)))"

definition triggerMatches :: "CompiledMachine \<Rightarrow> TriggerType \<Rightarrow> string \<Rightarrow> WorkflowInstance \<Rightarrow> string list" where
  "triggerMatches cm trigger key inst =
     map fst (filter (\<lambda>(_, tr). tr_TriggerKey tr = key \<and> triggered trigger (activeStates inst) tr)
                (df_Transitions (cm_Definition cm)))"

definition Signal :: "'w Engine \<Rightarrow> SignalInput \<Rightarrow> ('w, TransitionResult) prog" where
  "Signal e input =
     (case checkShutdown e of
        Some err \<Rightarrow> fail err
      | None \<Rightarrow>
          attempt (loadInstanceAndCompiled e (si_TargetAggregateType input) (si_TargetAggregateID input)) fail
            (\<lambda>(cm, inst).
              case triggerMatches cm TriggerSignal (si_SignalName input) inst of
                [] \<Rightarrow> fail (Errorf ''flowstep: no transition matches signal %q from state %q: %w''
                        (qs [si_SignalName input, wi_CurrentState inst]) (Some (Sentinel ErrNoMatchingSignal)))
              | [name] \<Rightarrow>
                  Transition e (si_TargetAggregateType input) (si_TargetAggregateID input) name
                    (si_ActorID input) (si_Payload input)
              | _ \<Rightarrow> fail (Errorf ''flowstep: multiple transitions match signal %q from state %q: %w''
                        (qs [si_SignalName input, wi_CurrentState inst]) (Some (Sentinel ErrSignalAmbiguous)))))"

text \<open>A single match is taken whatever the choice; among several the choice must be one of them.\<close>

definition chooseTransition :: "string list \<Rightarrow> string \<Rightarrow> string option" where
  "chooseTransition matches choice =
     (case matches of
        [] \<Rightarrow> None
      | [name] \<Rightarrow> Some name
      | _ \<Rightarrow> if choice \<in> set matches then Some choice else None)"

definition CompleteTask :: "'w Engine \<Rightarrow> string \<Rightarrow> string \<Rightarrow> string \<Rightarrow> ('w, TransitionResult) prog" where
  "CompleteTask e taskID choice actorID =
     (case checkShutdown e of
        Some err \<Rightarrow> fail err
      | None \<Rightarrow>
        (case dp_TaskStore (en_deps e) of
           None \<Rightarrow> fail (Errorf ''flowstep: TaskStore not configured'' [] None)
         | Some store \<Rightarrow>
             attempt (ts_Get store taskID) (\<lambda>err. fail (Errorf ''flowstep: get task: %w'' [] (Some err)))
             (\<lambda>task.
             attempt (is_Get (dp_InstanceStore (en_deps e)) (tk_AggregateType task) (tk_AggregateID task))
               (\<lambda>err. fail (Errorf ''flowstep: get instance: %w'' [] (Some err)))
             (\<lambda>inst.
               case compiledFor e (tk_AggregateType task) (wi_WorkflowVersion inst) of
                 None \<Rightarrow> fail (versionError (tk_AggregateType task) (wi_WorkflowVersion inst))
               | Some cm \<Rightarrow>
                   let matches = triggerMatches cm TriggerTaskCompleted (tk_TaskType task) inst in
                   if matches = []
                   then fail (Errorf ''flowstep: no transition matches task completion for type %q: %w''
                                (qs [tk_TaskType task]) (Some (Sentinel ErrNoMatchingSignal)))
                   else (case chooseTransition matches choice of
                     None \<Rightarrow> fail (Errorf ''flowstep: choice %q does not match any transition: %w''
                               (qs [choice]) (Some (Sentinel ErrInvalidChoice)))
                   | Some transitionName \<Rightarrow>
                       check (ts_Complete store GNil taskID choice actorID)
                         (\<lambda>err. fail (Errorf ''flowstep: complete task in store: %w'' [] (Some err)))
                         (Transition e (tk_AggregateType task) (tk_AggregateID task) transitionName actorID
                            (Some [(''_task_id'', GString taskID), (''_task_choice'', GString choice)])))))))"

text \<open>
  For the mode \<open>N\<close> the count is read from the first transition of the parent, in map order, whose
  join mode is \<open>N\<close>. A mode outside the three is never satisfied.
\<close>

definition joinCount :: "Definition \<Rightarrow> int option" where
  "joinCount def =
     (case find (\<lambda>(_, tr). case tr_ChildrenDef tr of None \<Rightarrow> False | Some cs \<Rightarrow> jp_Mode (cs_Join cs) = ''N'')
             (df_Transitions def) of
        None \<Rightarrow> None
      | Some (_, tr) \<Rightarrow> map_option (\<lambda>cs. jp_Count (cs_Join cs)) (tr_ChildrenDef tr))"

definition joinSatisfied :: "Definition \<Rightarrow> string \<Rightarrow> nat \<Rightarrow> nat \<Rightarrow> bool" where
  "joinSatisfied def joinMode completedCount totalCount =
     (if joinMode = ''ALL'' \<or> joinMode = [] then completedCount = totalCount
      else if joinMode = ''ANY'' then completedCount \<ge> 1
      else if joinMode = ''N'' then
        (case joinCount def of None \<Rightarrow> False | Some n \<Rightarrow> int completedCount \<ge> n)
      else False)"

definition evaluateJoinPolicy ::
  "'w Engine \<Rightarrow> 'w ChildStore \<Rightarrow> ChildRelation \<Rightarrow> CompiledMachine \<Rightarrow> WorkflowInstance \<Rightarrow> ('w, TransitionResult) prog" where
  "evaluateJoinPolicy e store relation cm inst =
     attempt (ch_GetByGroup store (cr_GroupID relation))
       (\<lambda>err. fail (Errorf ''flowstep: get siblings by group: %w'' [] (Some err)))
     (\<lambda>siblings.
       let totalCount = length siblings;
           completedCount = length (filter (\<lambda>s. cr_Status s = ChildStatusCompleted) siblings) in
       if \<not> joinSatisfied (cm_Definition cm) (cr_JoinPolicy relation) completedCount totalCount
       then fail (Errorf ''flowstep: join policy %q not yet satisfied (%d/%d completed): %w''
                    [GString (cr_JoinPolicy relation), GInt (int completedCount), GInt (int totalCount)]
                    (Some (Sentinel ErrNoMatchingSignal)))
       else (case find (\<lambda>(_, tr). triggered TriggerChildrenJoined (activeStates inst) tr)
                    (df_Transitions (cm_Definition cm)) of
          None \<Rightarrow> fail (Errorf ''flowstep: no OnChildrenJoined transition from parent state %q: %w''
                    (qs [wi_CurrentState inst]) (Some (Sentinel ErrNoMatchingSignal)))
        | Some (name, _) \<Rightarrow>
            Transition e (cr_ParentAggregateType relation) (cr_ParentAggregateID relation) name ''system''
              (Some [(''_group_id'', GString (cr_GroupID relation)),
                     (''_completed_count'', GInt (int completedCount)),
                     (''_total_count'', GInt (int totalCount))])))"

definition ChildCompleted :: "'w Engine \<Rightarrow> string \<Rightarrow> string \<Rightarrow> string \<Rightarrow> ('w, TransitionResult) prog" where
  "ChildCompleted e childAggregateType childAggregateID terminalState =
     (case checkShutdown e of
        Some err \<Rightarrow> fail err
      | None \<Rightarrow>
        (case dp_ChildStore (en_deps e) of
           None \<Rightarrow> fail (Errorf ''flowstep: ChildStore not configured'' [] None)
         | Some store \<Rightarrow>
             attempt (ch_GetByChild store childAggregateType childAggregateID)
               (\<lambda>err. fail (Errorf ''flowstep: get child relation: %w'' [] (Some err)))
             (\<lambda>relation. do {
               check (ch_Complete store GNil childAggregateType childAggregateID terminalState)
                 (\<lambda>err. NotifyPostCommitError (dp_Observers (en_deps e))
                          (PostCommitErrorEvent ''ChildStore.Complete'' err))
                 (ret ());
               attempt (is_Get (dp_InstanceStore (en_deps e)) (cr_ParentAggregateType relation)
                          (cr_ParentAggregateID relation))
                 (\<lambda>err. fail (Errorf ''flowstep: get parent instance: %w'' [] (Some err)))
               (\<lambda>inst.
                 case compiledFor e (cr_ParentAggregateType relation) (wi_WorkflowVersion inst) of
                   None \<Rightarrow> fail (Errorf ''flowstep: no workflow version %d registered for parent aggregate type %q''
                             [GInt (wi_WorkflowVersion inst), GString (cr_ParentAggregateType relation)] None)
                 | Some cm \<Rightarrow>
                     if cr_GroupID relation \<noteq> [] then evaluateJoinPolicy e store relation cm inst
                     else (case triggerMatches cm TriggerChildCompleted childAggregateType inst of
                        name # _ \<Rightarrow>
                          Transition e (cr_ParentAggregateType relation) (cr_ParentAggregateID relation) name
                            ''system''
                            (Some [(''_child_aggregate_type'', GString childAggregateType),
                                   (''_child_aggregate_id'', GString childAggregateID),
                                   (''_child_terminal_state'', GString terminalState)])
                      | [] \<Rightarrow> fail (Errorf ''flowstep: no OnChildCompleted transition matches child type %q from parent state %q: %w''
                               (qs [childAggregateType, wi_CurrentState inst])
                               (Some (Sentinel ErrNoMatchingSignal)))))
             })))"

section \<open>Snapshots\<close>

definition copyStringMap :: "(string, string) gomap option \<Rightarrow> (string, string) gomap option" where
  "copyStringMap src = (case src of None \<Rightarrow> None | Some m \<Rightarrow> Some (map (\<lambda>(k, v). (k, v)) m))"

definition orEmpty :: "('k, 'v) gomap option \<Rightarrow> ('k, 'v) gomap option" where
  "orEmpty m = (case m of None \<Rightarrow> Some [] | Some al \<Rightarrow> Some al)"

definition snapshotOf :: "WorkflowInstance \<Rightarrow> string \<Rightarrow> gtime \<Rightarrow> Snapshot" where
  "snapshotOf inst hash now =
     \<lparr>sn_InstanceID = wi_ID inst, sn_WorkflowType = wi_WorkflowType inst,
      sn_WorkflowVersion = wi_WorkflowVersion inst, sn_AggregateType = wi_AggregateType inst,
      sn_AggregateID = wi_AggregateID inst, sn_CurrentState = wi_CurrentState inst,
      sn_StateData = copyMap (wi_StateData inst), sn_CorrelationID = wi_CorrelationID inst,
      sn_IsStuck = wi_IsStuck inst, sn_StuckReason = wi_StuckReason inst,
      sn_StuckAt = copyTimePtr (wi_StuckAt inst), sn_RetryCount = wi_RetryCount inst,
      sn_CreatedAt = wi_CreatedAt inst,
      sn_ShallowHistory = orEmpty (copyStringMap (wi_ShallowHistory inst)),
      sn_DeepHistory = orEmpty (copyStringMap (wi_DeepHistory inst)),
      sn_ActiveInParallel = copyStringMap (wi_ActiveInParallel inst),
      sn_ParallelClock = wi_ParallelClock inst, sn_DefinitionHash = hash, sn_CapturedAt = now\<rparr>"

definition takeSnapshot :: "'w Engine \<Rightarrow> string \<Rightarrow> string \<Rightarrow> ('w, Snapshot) prog" where
  "takeSnapshot e aggregateType aggregateID =
     (case checkShutdown e of
        Some err \<Rightarrow> fail err
      | None \<Rightarrow>
          attempt (is_Get (dp_InstanceStore (en_deps e)) aggregateType aggregateID)
            (\<lambda>err. fail (Errorf ''flowstep: snapshot get instance: %w'' [] (Some err)))
          (\<lambda>inst.
            case compiledFor e aggregateType (wi_WorkflowVersion inst) of
              None \<Rightarrow> fail (Errorf ''flowstep: snapshot: no compiled machine for aggregate type %q version %d''
                        [GString aggregateType, GInt (wi_WorkflowVersion inst)] None)
            | Some cm \<Rightarrow> do {
                now \<leftarrow> dp_Clock (en_deps e);
                ok (snapshotOf inst (cm_DefinitionHash cm) now) }))"

definition restoredInstance :: "Snapshot \<Rightarrow> gtime \<Rightarrow> WorkflowInstance" where
  "restoredInstance snap now =
     \<lparr>wi_ID = sn_InstanceID snap, wi_WorkflowType = sn_WorkflowType snap,
      wi_WorkflowVersion = sn_WorkflowVersion snap, wi_AggregateType = sn_AggregateType snap,
      wi_AggregateID = sn_AggregateID snap, wi_CurrentState = sn_CurrentState snap,
      wi_StateData = orEmpty (copyMap (sn_StateData snap)), wi_CorrelationID = sn_CorrelationID snap,
      wi_IsStuck = sn_IsStuck snap, wi_StuckReason = sn_StuckReason snap,
      wi_StuckAt = copyTimePtr (sn_StuckAt snap), wi_RetryCount = sn_RetryCount snap,
      wi_CreatedAt = sn_CreatedAt snap, wi_UpdatedAt = now,
      wi_ShallowHistory = orEmpty (copyStringMap (sn_ShallowHistory snap)),
      wi_DeepHistory = orEmpty (copyStringMap (sn_DeepHistory snap)),
      wi_ActiveInParallel = copyStringMap (sn_ActiveInParallel snap),
      wi_ParallelClock = sn_ParallelClock snap, wi_LastReadUpdatedAt = 0\<rparr>"

definition restoredEvent :: "CompiledMachine \<Rightarrow> Snapshot \<Rightarrow> string \<Rightarrow> gtime \<Rightarrow> DomainEvent" where
  "restoredEvent cm snap evID now =
     zero_DomainEvent
       \<lparr>ev_ID := evID, ev_AggregateType := sn_AggregateType snap, ev_AggregateID := sn_AggregateID snap,
        ev_WorkflowType := df_WorkflowType (cm_Definition cm),
        ev_WorkflowVersion := df_Version (cm_Definition cm), ev_EventType := ''SnapshotRestored'',
        ev_CorrelationID := sn_CorrelationID snap, ev_TransitionName := ''_snapshot_restore'',
        ev_StateBefore := copyMap (sn_StateData snap), ev_StateAfter := copyMap (sn_StateData snap),
        ev_Payload := Some [(''_snapshot_captured_at'', GTime (sn_CapturedAt snap)),
                            (''_snapshot_instance_id'', GString (sn_InstanceID snap))],
        ev_CreatedAt := now\<rparr>"

definition persistRestored :: "'w Deps \<Rightarrow> WorkflowInstance \<Rightarrow> DomainEvent \<Rightarrow> 'w proc" where
  "persistRestored D inst event =
     attempt (tx_Begin (dp_TxProvider D))
       (\<lambda>err. ret (Some (Errorf ''flowstep: restore: begin tx: %w'' [] (Some err))))
     (\<lambda>tx.
       check (is_Create (dp_InstanceStore D) tx inst)
         (\<lambda>err. do {
            _ \<leftarrow> tx_Rollback (dp_TxProvider D) tx;
            ret (Some (Errorf ''flowstep: restore: create instance: %w'' [] (Some err))) })
       (check (es_Append (dp_EventStore D) tx event)
         (\<lambda>err. do {
            _ \<leftarrow> tx_Rollback (dp_TxProvider D) tx;
            ret (Some (Errorf ''flowstep: restore: append event: %w'' [] (Some err))) })
       (check (tx_Commit (dp_TxProvider D) tx)
         (\<lambda>err. ret (Some (Errorf ''flowstep: restore: commit tx: %w'' [] (Some err))))
         (ret None))))"

definition Restore :: "'w Engine \<Rightarrow> Snapshot \<Rightarrow> 'w proc" where
  "Restore e snap = (
     let D = en_deps e in
     case checkShutdown e of
       Some err \<Rightarrow> ret (Some err)
     | None \<Rightarrow>
         (case compiledFor e (sn_AggregateType snap) (sn_WorkflowVersion snap) of
            None \<Rightarrow> ret (Some (Errorf ''flowstep: restore: no workflow version %d registered for aggregate type %q: %w''
                      [GInt (sn_WorkflowVersion snap), GString (sn_AggregateType snap)]
                      (Some (Sentinel ErrSnapshotDefinitionMismatch))))
          | Some cm \<Rightarrow>
              if sn_DefinitionHash snap \<noteq> cm_DefinitionHash cm
              then ret (Some (Errorf ''flowstep: restore: definition hash mismatch (snapshot=%q registered=%q): %w''
                     (qs [sn_DefinitionHash snap, cm_DefinitionHash cm])
                     (Some (Sentinel ErrSnapshotDefinitionMismatch))))
              else do {
                found \<leftarrow> is_Get (dp_InstanceStore D) (sn_AggregateType snap) (sn_AggregateID snap);
                (case found of
                   Inr _ \<Rightarrow> ret (Some (Errorf ''flowstep: restore: instance already exists for %s/%s: %w''
                              (qs [sn_AggregateType snap, sn_AggregateID snap])
                              (Some (Sentinel ErrSnapshotInstanceExists))))
                 | Inl err \<Rightarrow>
                     if \<not> err_is err ErrInstanceNotFound
                     then ret (Some (Errorf ''flowstep: restore: check existing instance: %w'' [] (Some err)))
                     else do {
                       now \<leftarrow> dp_Clock D;
                       evID \<leftarrow> generateID D;
                       let event = restoredEvent cm snap evID now;
                       check (persistRestored D (restoredInstance snap now) event) (\<lambda>err. ret (Some err))
                       (do {
                         (case dp_EventBus D of
                            None \<Rightarrow> ret ()
                          | Some bus \<Rightarrow>
                              check (bus_Emit bus event)
                                (\<lambda>err. NotifyPostCommitError (dp_Observers D)
                                         (PostCommitErrorEvent ''EventBus.Emit(SnapshotRestored)'' err))
                                (ret ()));
                         ret None })
                     })
              }))"

section \<open>Options and the public engine\<close>

text \<open>\<open>realClock\<close> is the wall clock that stands in when no clock is configured.\<close>

record 'w engineConfig =
  cf_eventStore :: "'w EventStore option"
  cf_instanceStore :: "'w InstanceStore option"
  cf_taskStore :: "'w TaskStore option"
  cf_childStore :: "'w ChildStore option"
  cf_activityStore :: "'w ActivityStore option"
  cf_txProvider :: "'w TxProvider option"
  cf_eventBus :: "'w EventBus option"
  cf_activityRunner :: "'w ActivityRunner option"
  cf_clock :: "('w, gtime) state option"
  cf_observers :: "'w Observer list"

definition zero_config :: "'w engineConfig" where
  "zero_config =
     \<lparr>cf_eventStore = None, cf_instanceStore = None, cf_taskStore = None, cf_childStore = None,
      cf_activityStore = None, cf_txProvider = None, cf_eventBus = None, cf_activityRunner = None,
      cf_clock = None, cf_observers = []\<rparr>"

type_synonym 'w Option = "'w engineConfig \<Rightarrow> 'w engineConfig"

definition WithEventStore :: "'w EventStore \<Rightarrow> 'w Option" where
  "WithEventStore s c = c\<lparr>cf_eventStore := Some s\<rparr>"
definition WithInstanceStore :: "'w InstanceStore \<Rightarrow> 'w Option" where
  "WithInstanceStore s c = c\<lparr>cf_instanceStore := Some s\<rparr>"
definition WithTaskStore :: "'w TaskStore \<Rightarrow> 'w Option" where
  "WithTaskStore s c = c\<lparr>cf_taskStore := Some s\<rparr>"
definition WithChildStore :: "'w ChildStore \<Rightarrow> 'w Option" where
  "WithChildStore s c = c\<lparr>cf_childStore := Some s\<rparr>"
definition WithActivityStore :: "'w ActivityStore \<Rightarrow> 'w Option" where
  "WithActivityStore s c = c\<lparr>cf_activityStore := Some s\<rparr>"
definition WithTxProvider :: "'w TxProvider \<Rightarrow> 'w Option" where
  "WithTxProvider p c = c\<lparr>cf_txProvider := Some p\<rparr>"
definition WithEventBus :: "'w EventBus \<Rightarrow> 'w Option" where
  "WithEventBus b c = c\<lparr>cf_eventBus := Some b\<rparr>"
definition WithActivityRunner :: "'w ActivityRunner \<Rightarrow> 'w Option" where
  "WithActivityRunner r c = c\<lparr>cf_activityRunner := Some r\<rparr>"
definition WithClock :: "('w, gtime) state \<Rightarrow> 'w Option" where
  "WithClock k c = c\<lparr>cf_clock := Some k\<rparr>"
definition WithObservers :: "'w Observer list \<Rightarrow> 'w Option" where
  "WithObservers obs c = c\<lparr>cf_observers := cf_observers c @ obs\<rparr>"

definition NewEngine ::
  "('w, gtime) state \<Rightarrow> ('w, 8 word list) state \<Rightarrow> 'w Option list \<Rightarrow> gerr + 'w Engine" where
  "NewEngine realClock randRead opts =
     (let cfg = fold (\<lambda>opt. opt) opts zero_config;
          clock = (case cf_clock cfg of None \<Rightarrow> realClock | Some k \<Rightarrow> k) in
      case cf_eventStore cfg of
        None \<Rightarrow> Inl (Errorf ''flowstep: EventStore is required'' [] None)
      | Some es \<Rightarrow>
          (case cf_instanceStore cfg of
             None \<Rightarrow> Inl (Errorf ''flowstep: InstanceStore is required'' [] None)
           | Some istore \<Rightarrow>
               (case cf_txProvider cfg of
                  None \<Rightarrow> Inl (Errorf ''flowstep: TxProvider is required'' [] None)
                | Some tx \<Rightarrow> Inr (New
                    \<lparr>dp_EventStore = es, dp_InstanceStore = istore, dp_TaskStore = cf_taskStore cfg,
                     dp_ChildStore = cf_childStore cfg, dp_ActivityStore = cf_activityStore cfg,
                     dp_TxProvider = tx, dp_EventBus = cf_eventBus cfg,
                     dp_ActivityRunner = cf_activityRunner cfg, dp_Clock = clock,
                     dp_Observers = Some (NewObserverRegistry (cf_observers cfg)),
                     dp_RandRead = randRead\<rparr>))))"

end
