(* ===== verification/Flow_Laws.thy ===== *)
theory Flow_Laws
  imports Flow_Engine
begin

text \<open>
  The contracts of the stores as locales, over an abstract view of the world: the stored instances
  by key, the event log and the time. The engine's operations are analysed once under these
  contracts; \<open>Flow_Memstore\<close> shows that the in-memory adapters fulfil them.
\<close>

section \<open>Triples over a view\<close>

text \<open>
  \<open>triple v P m Q\<close>: started in a world whose view satisfies \<open>P\<close>, the computation \<open>m\<close> ends with a
  result and a view that satisfy \<open>Q\<close>.
\<close>

definition triple :: "('w \<Rightarrow> 'v) \<Rightarrow> ('v \<Rightarrow> bool) \<Rightarrow> ('w, 'a) state \<Rightarrow> ('a \<Rightarrow> 'v \<Rightarrow> bool) \<Rightarrow> bool" where
  "triple v P m Q \<longleftrightarrow> (\<forall>w r w'. P (v w) \<longrightarrow> run_state m w = (r, w') \<longrightarrow> Q r (v w'))"

lemma tripleD: "triple v P m Q \<Longrightarrow> run_state m w = (r, w') \<Longrightarrow> P (v w) \<Longrightarrow> Q r (v w')"
  by (auto simp: triple_def)

lemma triple_pre: "triple v P' m Q \<Longrightarrow> (\<And>s. P s \<Longrightarrow> P' s) \<Longrightarrow> triple v P m Q"
  by (auto simp: triple_def)

lemma triple_post: "triple v P m Q' \<Longrightarrow> (\<And>r s. Q' r s \<Longrightarrow> Q r s) \<Longrightarrow> triple v P m Q"
  by (auto simp: triple_def)

lemma triple_ret: "(\<And>s. P s \<Longrightarrow> Q x s) \<Longrightarrow> triple v P (ret x) Q"
  by (auto simp: triple_def)

lemma triple_fail: "(\<And>s. P s \<Longrightarrow> Q (Inl e) s) \<Longrightarrow> triple v P (fail e) Q"
  by (auto simp: triple_def)

lemma triple_ok: "(\<And>s. P s \<Longrightarrow> Q (Inr x) s) \<Longrightarrow> triple v P (ok x) Q"
  by (auto simp: triple_def)

lemma triple_bind:
  "triple v P m R \<Longrightarrow> (\<And>x. triple v (R x) (f x) Q) \<Longrightarrow> triple v P (State_Monad.bind m f) Q"
  by (fastforce simp: triple_def split: prod.splits)

lemma triple_attempt:
  "triple v P m R \<Longrightarrow> (\<And>e. triple v (R (Inl e)) (onerr e) Q) \<Longrightarrow> (\<And>x. triple v (R (Inr x)) (k x) Q) \<Longrightarrow>
     triple v P (attempt m onerr k) Q"
  unfolding attempt_def by (rule triple_bind, assumption) (auto split: sum.splits)

lemma triple_check:
  "triple v P m R \<Longrightarrow> (\<And>e. triple v (R (Some e)) (onerr e) Q) \<Longrightarrow> triple v (R None) k Q \<Longrightarrow>
     triple v P (check m onerr k) Q"
  unfolding check_def by (rule triple_bind, assumption) (auto split: option.splits)

lemma triple_keeps: "keeps v m \<Longrightarrow> triple v P m (\<lambda>_. P)"
  by (auto simp: triple_def dest: keepsD)

lemma triple_if: "(c \<Longrightarrow> triple v P a Q) \<Longrightarrow> (\<not> c \<Longrightarrow> triple v P b Q) \<Longrightarrow> triple v P (if c then a else b) Q"
  by simp

text \<open>A quiet first step hands the precondition on.\<close>

lemma triple_bind_keeps:
  "keeps v m \<Longrightarrow> (\<And>x. triple v P (f x) Q) \<Longrightarrow> triple v P (State_Monad.bind m f) Q"
  by (rule triple_bind [OF triple_keeps])

lemma triple_attempt_keeps:
  "keeps v m \<Longrightarrow> (\<And>e. triple v P (onerr e) Q) \<Longrightarrow> (\<And>x. triple v P (k x) Q) \<Longrightarrow>
     triple v P (attempt m onerr k) Q"
  by (rule triple_attempt [OF triple_keeps])

lemma triple_check_keeps:
  "keeps v m \<Longrightarrow> (\<And>e. triple v P (onerr e) Q) \<Longrightarrow> triple v P k Q \<Longrightarrow> triple v P (check m onerr k) Q"
  by (rule triple_check [OF triple_keeps])

section \<open>The view and the contracts\<close>

record 'k storeview =
  v_insts :: "'k \<Rightarrow> WorkflowInstance option"
  v_events :: "DomainEvent list"
  v_now :: gtime

text \<open>The optimistic lock that \<open>InstanceStore.Update\<close> must implement.\<close>

definition update_error :: "WorkflowInstance option \<Rightarrow> WorkflowInstance \<Rightarrow> gerr option" where
  "update_error stored inst =
     (case stored of
        None \<Rightarrow> Some (Sentinel ErrInstanceNotFound)
      | Some old \<Rightarrow>
          if wi_LastReadUpdatedAt inst \<noteq> 0 \<and> wi_UpdatedAt old \<noteq> wi_LastReadUpdatedAt inst
          then Some (Sentinel ErrConcurrentModification) else None)"

definition inst_key :: "(string \<Rightarrow> string \<Rightarrow> 'k) \<Rightarrow> WorkflowInstance \<Rightarrow> 'k" where
  "inst_key ident inst = ident (wi_AggregateType inst) (wi_AggregateID inst)"

definition put_inst :: "(string \<Rightarrow> string \<Rightarrow> 'k) \<Rightarrow> WorkflowInstance \<Rightarrow> 'k storeview \<Rightarrow> 'k storeview" where
  "put_inst ident inst s = s\<lparr>v_insts := (v_insts s)(inst_key ident inst \<mapsto> inst)\<rparr>"

definition add_event :: "DomainEvent \<Rightarrow> 'k storeview \<Rightarrow> 'k storeview" where
  "add_event event s = s\<lparr>v_events := v_events s @ [event]\<rparr>"

text \<open>Every stored instance stands under its own key.\<close>

definition well_keyed :: "(string \<Rightarrow> string \<Rightarrow> 'k) \<Rightarrow> 'k storeview \<Rightarrow> bool" where
  "well_keyed ident s \<longleftrightarrow> (\<forall>k inst. v_insts s k = Some inst \<longrightarrow> inst_key ident inst = k)"

lemma view_simps [simp]:
  "v_insts (put_inst ident inst s) = (v_insts s)(inst_key ident inst \<mapsto> inst)"
  "v_events (put_inst ident inst s) = v_events s" "v_now (put_inst ident inst s) = v_now s"
  "v_insts (add_event event s) = v_insts s" "v_events (add_event event s) = v_events s @ [event]"
  "v_now (add_event event s) = v_now s"
  by (simp_all add: put_inst_def add_event_def)

lemma well_keyed_put [simp]: "well_keyed ident s \<Longrightarrow> well_keyed ident (put_inst ident inst s)"
  by (auto simp: well_keyed_def)

lemma well_keyed_add [simp]: "well_keyed ident (add_event event s) = well_keyed ident s"
  by (simp add: well_keyed_def)

locale instance_store =
  fixes view :: "'w \<Rightarrow> 'k storeview"
    and ident :: "string \<Rightarrow> string \<Rightarrow> 'k"
    and IS :: "'w InstanceStore"
  assumes get_result: "fst (run_state (is_Get IS at aid) w) =
      (case v_insts (view w) (ident at aid) of
         None \<Rightarrow> Inl (Sentinel ErrInstanceNotFound) | Some inst \<Rightarrow> Inr inst)"
    and get_keeps: "keeps view (is_Get IS at aid)"
    and create_result: "fst (run_state (is_Create IS tx inst) w) = None"
    and create_view: "view (snd (run_state (is_Create IS tx inst) w)) = put_inst ident inst (view w)"
    and update_result: "fst (run_state (is_Update IS tx inst) w) =
      update_error (v_insts (view w) (inst_key ident inst)) inst"
    and update_view: "view (snd (run_state (is_Update IS tx inst) w)) =
      (if update_error (v_insts (view w) (inst_key ident inst)) inst = None
       then put_inst ident inst (view w) else view w)"
begin

lemma triple_get:
  "triple view P (is_Get IS at aid)
     (\<lambda>r s. P s \<and> r = (case v_insts s (ident at aid) of
                None \<Rightarrow> Inl (Sentinel ErrInstanceNotFound) | Some inst \<Rightarrow> Inr inst))"
  unfolding triple_def using get_result get_keeps by (metis fst_conv keepsD)

lemma triple_create:
  "triple view P (is_Create IS tx inst)
     (\<lambda>r s'. r = None \<and> (\<exists>s. P s \<and> s' = put_inst ident inst s))"
  unfolding triple_def using create_result create_view by (metis fst_conv snd_conv)

lemma triple_update:
  "triple view P (is_Update IS tx inst)
     (\<lambda>r s'. \<exists>s. P s \<and> r = update_error (v_insts s (inst_key ident inst)) inst \<and>
        s' = (if r = None then put_inst ident inst s else s))"
  unfolding triple_def using update_result update_view by (metis fst_conv snd_conv)

lemma get_after_create:
  assumes "run_state (is_Create IS tx inst) w = (r, w')"
  shows "r = None \<and> fst (run_state (is_Get IS (wi_AggregateType inst) (wi_AggregateID inst)) w') = Inr inst"
  using create_result [of tx inst w] create_view [of tx inst w] assms by (simp add: get_result inst_key_def)

text \<open>
  Two writers that read the same instance: once the first has stored a new time stamp, the second
  is refused and the store keeps the first one's instance.
\<close>

lemma second_writer_refused:
  assumes read: "fst (run_state (is_Get IS at aid) w) = Inr inst"
    and keys: "inst_key ident inst1 = ident at aid" "inst_key ident inst2 = ident at aid"
    and locks: "wi_LastReadUpdatedAt inst1 = wi_UpdatedAt inst" "wi_LastReadUpdatedAt inst2 = wi_UpdatedAt inst"
    and stamp: "wi_UpdatedAt inst \<noteq> 0" "wi_UpdatedAt inst1 \<noteq> wi_UpdatedAt inst"
    and w1: "run_state (is_Update IS tx1 inst1) w = (r1, w1)"
    and w2: "run_state (is_Update IS tx2 inst2) w1 = (r2, w2)"
  shows "r1 = None \<and> r2 = Some (Sentinel ErrConcurrentModification) \<and>
    fst (run_state (is_Get IS at aid) w2) = Inr inst1"
proof -
  from read have i: "v_insts (view w) (ident at aid) = Some inst"
    by (simp add: get_result split: option.splits)
  with locks keys have "update_error (v_insts (view w) (ident at aid)) inst1 = None"
    by (simp add: update_error_def)
  with update_result [of tx1 inst1 w] update_view [of tx1 inst1 w] w1 keys
  have 1: "r1 = None" "v_insts (view w1) (ident at aid) = Some inst1" by auto
  with locks stamp have "update_error (v_insts (view w1) (ident at aid)) inst2 = Some (Sentinel ErrConcurrentModification)"
    by (simp add: update_error_def)
  with update_result [of tx2 inst2 w1] update_view [of tx2 inst2 w1] w2 keys 1
  have "r2 = Some (Sentinel ErrConcurrentModification)" "v_insts (view w2) (ident at aid) = Some inst1" by auto
  with 1 show ?thesis by (simp add: get_result)
qed

end

locale event_store =
  fixes view :: "'w \<Rightarrow> 'k storeview" and ES :: "'w EventStore"
  assumes append_result: "fst (run_state (es_Append ES tx event) w) = None"
    and append_view: "view (snd (run_state (es_Append ES tx event) w)) = add_event event (view w)"
    and list_aggregate: "run_state (es_ListByAggregate ES at aid) w =
      (Inr (filter (\<lambda>ev. ev_AggregateType ev = at \<and> ev_AggregateID ev = aid) (v_events (view w))), w)"
    and list_correlation: "run_state (es_ListByCorrelation ES cid) w =
      (Inr (filter (\<lambda>ev. ev_CorrelationID ev = cid) (v_events (view w))), w)"
begin

lemma triple_append:
  "triple view P (es_Append ES tx event)
     (\<lambda>r s'. r = None \<and> (\<exists>s. P s \<and> s' = add_event event s))"
  unfolding triple_def using append_result append_view by (metis fst_conv snd_conv)

lemma listed_after_append:
  assumes "run_state (es_Append ES tx event) w = (r, w')"
  shows "run_state (es_ListByAggregate ES (ev_AggregateType event) (ev_AggregateID event)) w' =
    (Inr (filter (\<lambda>ev. ev_AggregateType ev = ev_AggregateType event \<and> ev_AggregateID ev = ev_AggregateID event)
            (v_events (view w)) @ [event]), w')"
  using append_view [of tx event w] assms by (simp add: list_aggregate)

end

text \<open>
  A transaction provider that writes through: a transaction can always be opened and committed, and
  opening, committing or rolling back changes nothing that is stored. This is what the no-op
  provider of the in-memory stores documents.
\<close>

locale direct_tx =
  fixes view :: "'w \<Rightarrow> 'k storeview" and TX :: "'w TxProvider"
  assumes begin_result: "\<exists>tx. fst (run_state (tx_Begin TX) w) = Inr tx"
    and commit_result: "fst (run_state (tx_Commit TX tx) w) = None"
    and begin_keeps: "keeps view (tx_Begin TX)"
    and commit_keeps: "keeps view (tx_Commit TX tx)"
    and rollback_keeps: "keeps view (tx_Rollback TX tx)"
    and no_savepoints: "tx_Savepoints TX = None"
begin

lemma triple_begin: "triple view P (tx_Begin TX) (\<lambda>r s. P s \<and> (\<exists>tx. r = Inr tx))"
  unfolding triple_def using begin_result begin_keeps by (metis fst_conv keepsD)

lemma triple_commit: "triple view P (tx_Commit TX tx) (\<lambda>r s. P s \<and> r = None)"
  unfolding triple_def using commit_result commit_keeps by (metis fst_conv keepsD)

end

section \<open>The environment of the engine\<close>

text \<open>
  What the engine calls beside the instance store, the event store and the transactions leaves the view of
  these alone. This is what the documentation asks of them: activities run outside the workflow
  transaction and observers must not call back.
\<close>

locale engine_frame =
  fixes view :: "'w \<Rightarrow> 'v" and e :: "'w Engine"
  assumes clock_keeps: "keeps view (dp_Clock (en_deps e))"
    and rand_keeps: "keeps view (dp_RandRead (en_deps e))"
    and activity_keeps: "dp_ActivityRunner (en_deps e) = Some rn \<Longrightarrow> rn_Resolve rn = Some rs \<Longrightarrow>
      rs name = Some act \<Longrightarrow> keeps view (ac_Execute act input)"
    and dispatch_keeps: "dp_ActivityRunner (en_deps e) = Some rn \<Longrightarrow> keeps view (rn_Dispatch rn ivc)"
    and bus_keeps: "dp_EventBus (en_deps e) = Some bus \<Longrightarrow> keeps view (bus_Emit bus event)"
    and observer_keeps: "dp_Observers (en_deps e) = Some reg \<Longrightarrow>
      (h \<in> set (or_transition reg) \<longrightarrow> keeps view (h oe)) \<and>
      (g \<in> set (or_guard reg) \<longrightarrow> keeps view (g oe)) \<and>
      (a \<in> set (or_activity reg) \<longrightarrow> keeps view (ao_OnActivityDispatched a oe)) \<and>
      (i \<in> set (or_infrastructure reg) \<longrightarrow> keeps view (io_OnPostCommitError i oe))"
    and task_keeps: "dp_TaskStore (en_deps e) = Some ts \<Longrightarrow>
      keeps view (ts_Create ts tx task) \<and> keeps view (ts_Get ts tid) \<and>
      keeps view (ts_Complete ts tx tid choice actor) \<and>
      (ts_InvalidateByStates ts = Some invalidate \<longrightarrow> keeps view (invalidate tx at aid states))"
    and child_keeps: "dp_ChildStore (en_deps e) = Some ch \<Longrightarrow>
      keeps view (ch_Create ch tx rel) \<and> keeps view (ch_GetByChild ch at aid) \<and>
      keeps view (ch_GetByGroup ch gid) \<and> keeps view (ch_Complete ch tx at aid final)"
    and actstore_keeps: "dp_ActivityStore (en_deps e) = Some ast \<Longrightarrow> keeps view (as_Create ast tx ivc)"
begin

lemmas [frame] = clock_keeps rand_keeps

lemma keeps_each_in: "(\<And>x. x \<in> set xs \<Longrightarrow> keeps view (f x)) \<Longrightarrow> keeps view (each f xs)"
  by (induction xs) (auto intro!: frame)

lemma keeps_notify [frame]:
  "keeps view (NotifyTransition (dp_Observers (en_deps e)) oe)"
  "keeps view (NotifyGuardFailed (dp_Observers (en_deps e)) oe)"
  "keeps view (NotifyActivityDispatched (dp_Observers (en_deps e)) oe)"
  "keeps view (NotifyPostCommitError (dp_Observers (en_deps e)) oe)"
  using observer_keeps
  by (auto simp: NotifyTransition_def NotifyGuardFailed_def NotifyActivityDispatched_def
      NotifyPostCommitError_def split: option.splits intro!: frame keeps_each_in)

lemma keeps_generateID [frame]: "keeps view (generateID (en_deps e))"
  unfolding generateID_def by (intro frame)

lemma keeps_runSyncActivity [frame]: "keeps view (runSyncActivity (en_deps e) name input)"
  unfolding runSyncActivity_def
  by (auto split: option.splits intro!: keeps_ret keeps_attempt dest: activity_keeps)

lemma keeps_guardLoop: "keeps view (guardLoop (en_deps e) wt ct i guards a p)"
  by (induction guards arbitrary: i) (auto split: option.splits intro!: frame)

lemma keeps_runGuards [frame]: "keeps view (runGuards (en_deps e) wt ct a p)"
  unfolding runGuards_def by (rule keeps_guardLoop)

lemma keeps_validateTransition [frame]: "keeps view (validateTransition e cm inst name params)"
  unfolding validateTransition_def
  by (auto split: option.splits sum.splits intro!: frame)

lemma keeps_syncLoop [frame]: "keeps view (syncLoop (en_deps e) f what def input seq)"
  by (induction seq) (auto simp: Let_def intro!: frame)

lemma keeps_invalidateTasks [frame]: "keeps view (invalidateTasks (en_deps e) def tx inst seq)"
  unfolding invalidateTasks_def using task_keeps
  by (auto simp: Let_def split: option.splits intro!: frame)

lemma keeps_candidateLoop: "keeps view (candidateLoop e cm inst tr ps name params regions)"
  by (induction regions) (auto simp: Let_def split: option.splits sum.splits intro!: frame)

lemma keeps_collect [frame]: "keeps view (collectParallelCandidates e cm inst ps name params)"
  unfolding collectParallelCandidates_def by (auto split: option.splits intro!: frame keeps_candidateLoop)

lemma keeps_warn [frame]: "keeps view (warn (en_deps e) op err)"
  unfolding warn_def by (intro frame)

lemma keeps_emitToBus [frame]: "keeps view (emitToBus (en_deps e) event)"
  unfolding emitToBus_def using bus_keeps by (auto split: option.splits intro!: frame)

lemma keeps_dispatchOne: "dp_ActivityRunner (en_deps e) = Some rn \<Longrightarrow> keeps view (dispatchOne (en_deps e) rn ivc)"
  unfolding dispatchOne_def using actstore_keeps dispatch_keeps
  by (auto split: option.splits intro!: frame)

lemma keeps_activityLoop:
  "dp_ActivityRunner (en_deps e) = Some rn \<Longrightarrow> keeps view (activityLoop (en_deps e) rn cm inst p now acts)"
  by (induction acts) (auto intro!: frame keeps_dispatchOne)

lemma keeps_dispatchActivities [frame]: "keeps view (dispatchActivities (en_deps e) cm inst ct p now)"
  unfolding dispatchActivities_def by (auto split: option.splits intro!: frame keeps_activityLoop)

lemma keeps_createTask [frame]: "keeps view (createTask (en_deps e) cm inst ct now)"
  unfolding createTask_def using task_keeps by (auto simp: Let_def split: option.splits intro!: frame)

lemma keeps_spawnOne: "dp_ChildStore (en_deps e) = Some ch \<Longrightarrow> keeps view (spawnOne (en_deps e) ch f)"
  unfolding spawnOne_def using child_keeps by (auto simp: Let_def intro!: frame)

lemma keeps_spawnLoopN: "dp_ChildStore (en_deps e) = Some ch \<Longrightarrow> keeps view (spawnLoopN (en_deps e) ch f inputs)"
  by (induction inputs) (auto intro!: frame keeps_spawnOne)

lemma keeps_spawnChild [frame]: "keeps view (spawnChild (en_deps e) cm inst ct now)"
  unfolding spawnChild_def by (auto split: option.splits intro!: frame keeps_spawnOne)

lemma keeps_spawnChildren [frame]: "keeps view (spawnChildren (en_deps e) cm inst ct now)"
  unfolding spawnChildren_def by (auto split: option.splits intro!: frame keeps_spawnLoopN)

lemma keeps_runPostCommit [frame]: "keeps view (runPostCommit e cm inst ct event prev p start)"
  unfolding runPostCommit_def Let_def by (intro frame)

end

text \<open>
  The engine over stores that keep these contracts, with a clock that stands still during an operation.
\<close>

locale engine_env =
  instance_store view ident "dp_InstanceStore (en_deps e)" +
  event_store view "dp_EventStore (en_deps e)" +
  direct_tx view "dp_TxProvider (en_deps e)" +
  engine_frame view e
  for view :: "'w \<Rightarrow> 'k storeview" and ident :: "string \<Rightarrow> string \<Rightarrow> 'k" and e :: "'w Engine" +
  assumes clock_result: "run_state (dp_Clock (en_deps e)) w = (v_now (view w), w)"
begin

lemma triple_clock: "triple view P (dp_Clock (en_deps e)) (\<lambda>r s. P s \<and> r = v_now s)"
  by (simp add: triple_def clock_result)

lemmas [frame] = begin_keeps commit_keeps rollback_keeps get_keeps

lemma keeps_exitLoop [frame]: "keeps view (exitLoop (en_deps e) def input tx seq)"
  by (induction seq) (auto simp: Let_def intro!: frame)

end

section \<open>Results of the post-commit step\<close>

lemma triple_True: "triple v P m (\<lambda>_ _. True)"
  by (simp add: triple_def)

lemma triple_False [simp]: "triple v (\<lambda>s. False) m Q"
  by (simp add: triple_def)

lemma triple_pure: "(c \<Longrightarrow> triple v P m Q) \<Longrightarrow> triple v (\<lambda>s. c \<and> P s) m Q"
  by (auto simp: triple_def)

lemma triple_conj: "triple v P m Q \<Longrightarrow> triple v P m R \<Longrightarrow> triple v P m (\<lambda>r s. Q r s \<and> R r s)"
  by (simp add: triple_def)

text \<open>What the result of an operation says of the instance and the event it carries.\<close>

definition reports :: "CompiledMachine \<Rightarrow> WorkflowInstance \<Rightarrow> DomainEvent \<Rightarrow> string \<Rightarrow> TransitionResult \<Rightarrow> bool" where
  "reports cm inst event prev res \<longleftrightarrow>
     rs_Instance res = inst \<and> rs_Event res = event \<and> rs_PreviousState res = prev \<and>
     rs_NewState res = wi_CurrentState inst \<and> rs_TransitionName res = ev_TransitionName event \<and>
     rs_IsTerminal res = isTerminalState cm (wi_CurrentState inst)"

definition nilInputs :: "CompiledTransition \<Rightarrow> bool" where
  "nilInputs ct = (case tr_ChildrenDef (ct_Def ct) of None \<Rightarrow> False | Some cs \<Rightarrow> cs_InputsFn cs = None)"

lemma spawnChildren_fails:
  "triple v P (spawnChildren D cm inst ct now) (\<lambda>r _. \<forall>err. r = Inl err \<longrightarrow> nilInputs ct)"
  unfolding spawnChildren_def
  by (auto split: option.splits simp: nilInputs_def
      intro!: triple_bind [OF triple_True] triple_ok triple_fail)

lemma runPostCommit_reports:
  "triple v P (runPostCommit e cm inst ct event prev params start)
     (\<lambda>r _. case r of Inr res \<Rightarrow> reports cm inst event prev res | Inl err \<Rightarrow> nilInputs ct)"
  unfolding runPostCommit_def Let_def
  by (auto split: prod.splits simp: reports_def
      intro!: triple_bind [OF triple_True] triple_attempt [OF spawnChildren_fails] triple_ok triple_fail)

text \<open>The instance a committed transition leaves, and the one a failed entry activity leaves.\<close>

definition withHistory :: "CompiledMachine \<Rightarrow> WorkflowInstance \<Rightarrow> CompiledTransition \<Rightarrow> string \<Rightarrow> WorkflowInstance" where
  "withHistory cm inst ct targetState =
     recordHistory inst (wi_CurrentState inst)
       (exitSeqOf cm (wi_CurrentState inst) (resolveTarget cm inst ct targetState)) (cm_Definition cm)"

definition movedInstance ::
  "CompiledMachine \<Rightarrow> WorkflowInstance \<Rightarrow> CompiledTransition \<Rightarrow> string \<Rightarrow> gtime \<Rightarrow> WorkflowInstance" where
  "movedInstance cm inst ct targetState now =
     moveInstance cm (withHistory cm inst ct targetState) (wi_CurrentState inst) None
       (resolveTarget cm inst ct targetState) now"

lemma withHistory_other [simp]:
  "wi_AggregateType (withHistory cm inst ct t) = wi_AggregateType inst"
  "wi_AggregateID (withHistory cm inst ct t) = wi_AggregateID inst"
  "wi_UpdatedAt (withHistory cm inst ct t) = wi_UpdatedAt inst"
  "wi_CorrelationID (withHistory cm inst ct t) = wi_CorrelationID inst"
  "wi_WorkflowVersion (withHistory cm inst ct t) = wi_WorkflowVersion inst"
  "wi_CurrentState (withHistory cm inst ct t) = wi_CurrentState inst"
  "wi_ActiveInParallel (withHistory cm inst ct t) = wi_ActiveInParallel inst"
  by (simp_all add: withHistory_def)

lemma enterParallelRegions_other [simp]:
  "wi_AggregateType (enterParallelRegions i cm p) = wi_AggregateType i"
  "wi_AggregateID (enterParallelRegions i cm p) = wi_AggregateID i"
  "wi_UpdatedAt (enterParallelRegions i cm p) = wi_UpdatedAt i"
  "wi_LastReadUpdatedAt (enterParallelRegions i cm p) = wi_LastReadUpdatedAt i"
  "wi_CurrentState (enterParallelRegions i cm p) = wi_CurrentState i"
  "wi_WorkflowVersion (enterParallelRegions i cm p) = wi_WorkflowVersion i"
  "wi_ShallowHistory (enterParallelRegions i cm p) = wi_ShallowHistory i"
  "wi_DeepHistory (enterParallelRegions i cm p) = wi_DeepHistory i"
  "wi_IsStuck (enterParallelRegions i cm p) = wi_IsStuck i"
  by (simp_all add: enterParallelRegions_def)

lemma movedInstance_sel [simp]:
  "wi_AggregateType (movedInstance cm inst ct t now) = wi_AggregateType inst"
  "wi_AggregateID (movedInstance cm inst ct t now) = wi_AggregateID inst"
  "wi_UpdatedAt (movedInstance cm inst ct t now) = now"
  "wi_LastReadUpdatedAt (movedInstance cm inst ct t now) = wi_UpdatedAt inst"
  "wi_CurrentState (movedInstance cm inst ct t now) = resolveTarget cm inst ct t"
  "wi_WorkflowVersion (movedInstance cm inst ct t now) = wi_WorkflowVersion inst"
  by (simp_all add: movedInstance_def moveInstance_def Let_def)

lemma inst_key_moved [simp]:
  "inst_key ident (movedInstance cm inst ct t now) = inst_key ident inst"
  "inst_key ident (markStuck (withHistory cm inst ct t) src reason now) = inst_key ident inst"
  "inst_key ident (withHistory cm inst ct t) = inst_key ident inst"
  by (simp_all add: inst_key_def markStuck_def)

text \<open>What loading gives: the stored instance with its machine, or a new one on the latest machine.\<close>

definition loads ::
  "(string \<Rightarrow> string \<Rightarrow> 'k) \<Rightarrow> 'w Engine \<Rightarrow> 'k storeview \<Rightarrow> string \<Rightarrow> string \<Rightarrow> CompiledMachine \<Rightarrow>
     WorkflowInstance \<Rightarrow> 'k storeview \<Rightarrow> bool" where
  "loads ident e s0 at aid cm inst s \<longleftrightarrow>
     (case v_insts s0 (ident at aid) of
        Some stored \<Rightarrow> inst = stored \<and> s = s0 \<and> compiledFor e at (wi_WorkflowVersion inst) = Some cm
      | None \<Rightarrow> (\<exists>i c. inst = newInstance cm at aid i c (v_now s0)) \<and> s = put_inst ident inst s0 \<and>
                compiledFor e at 0 = Some cm)"

context engine_env begin

lemma triple_runPostCommit:
  "triple view P (runPostCommit e cm inst ct event prev params start)
     (\<lambda>r s. P s \<and> (case r of Inr res \<Rightarrow> reports cm inst event prev res | Inl err \<Rightarrow> nilInputs ct))"
  by (rule triple_conj [OF triple_keeps [OF keeps_runPostCommit] runPostCommit_reports])

lemma triple_bind_clock:
  "triple view (\<lambda>s. s = s0) (f (v_now s0)) Q \<Longrightarrow>
     triple view (\<lambda>s. s = s0) (State_Monad.bind (dp_Clock (en_deps e)) f) Q"
  by (auto simp: triple_def clock_result)

section \<open>Committing\<close>

lemma savepoints_None [simp]: "savepoints e = None"
  by (simp add: savepoints_def no_savepoints)

lemma triple_appendUpdateCommit:
  assumes "update_error (v_insts s0 (inst_key ident inst)) inst = None"
  shows "triple view (\<lambda>s. s = s0) (appendUpdateCommit (en_deps e) tx event inst)
     (\<lambda>r s. r = None \<and> s = put_inst ident inst (add_event event s0))"
  unfolding appendUpdateCommit_def
proof (rule triple_check [OF triple_append])
  show "triple view (\<lambda>s. None = None \<and> (\<exists>s1. s1 = s0 \<and> s = add_event event s1))
    (check (is_Update (dp_InstanceStore (en_deps e)) tx inst)
       (\<lambda>err. do { _ \<leftarrow> tx_Rollback (dp_TxProvider (en_deps e)) tx;
          ret (Some (Errorf ''flowstep: update instance: %w'' [] (Some err))) })
     (check (tx_Commit (dp_TxProvider (en_deps e)) tx)
       (\<lambda>err. ret (Some (Errorf ''flowstep: commit tx: %w'' [] (Some err)))) (ret None)))
     (\<lambda>r s. r = None \<and> s = put_inst ident inst (add_event event s0))"
    by (rule triple_check [OF triple_update])
      (use assms in \<open>auto intro!: triple_check [OF triple_commit] triple_ret
         triple_bind [OF triple_keeps [OF rollback_keeps]]\<close>)
qed (auto intro!: triple_bind [OF triple_keeps [OF rollback_keeps]] triple_ret)

lemma triple_persistStuck:
  assumes "update_error (v_insts s0 (inst_key ident inst)) inst = None"
  shows "triple view (\<lambda>s. s = s0) (persistStuck (en_deps e) inst) (\<lambda>_ s. s = put_inst ident inst s0)"
  unfolding persistStuck_def
  by (rule triple_attempt [OF triple_begin])
    (use assms in \<open>auto intro!: triple_ret triple_bind [OF triple_update]
       triple_bind [OF triple_keeps [OF commit_keeps]]\<close>)

text \<open>An instance that was loaded from the store, and not changed since, passes the optimistic lock.\<close>

lemma update_error_loaded [simp]:
  assumes "v_insts s0 k = Some old" "wi_UpdatedAt old = wi_UpdatedAt inst" "wi_LastReadUpdatedAt inst' = wi_UpdatedAt inst"
  shows "update_error (v_insts s0 k) inst' = None"
  using assms by (simp add: update_error_def)

lemma triple_entryLoop:
  assumes "v_insts s0 (inst_key ident inst) = Some old" "wi_UpdatedAt old = wi_UpdatedAt inst"
  shows "triple view (\<lambda>s. s = s0) (entryLoop e def input tx inst src now seq)
     (\<lambda>r s. case r of
        Inr stuck \<Rightarrow> stuck = None \<and> s = s0
      | Inl err \<Rightarrow> \<exists>reason. err = stuckError reason \<and> s = put_inst ident (markStuck inst src reason now) s0)"
proof (induction seq)
  case Nil
  show ?case by (auto intro!: triple_ok)
next
  case (Cons name seq)
  let ?act = "st_EntryActivity (state_of def name)"
  have key: "inst_key ident (markStuck inst src reason now) = inst_key ident inst" for reason
    by (simp add: inst_key_def markStuck_def)
  have lock: "update_error (v_insts s0 (inst_key ident (markStuck inst src reason now))) (markStuck inst src reason now) = None"
    for reason
    unfolding key by (rule update_error_loaded [OF assms]) (simp add: markStuck_def)
  show ?case
  proof (cases "?act = []")
    case True
    with Cons show ?thesis by simp
  next
    case False
    then show ?thesis
      by (auto simp: Let_def intro!: triple_bind_keeps frame triple_check_keeps Cons triple_fail
          triple_bind [OF triple_persistStuck [OF lock]])
  qed
qed

lemma triple_commitTransition:
  assumes "v_insts s0 (inst_key ident inst) = Some inst"
  shows "triple view (\<lambda>s. s = s0) (commitTransition e cm inst ct target name actor params)
     (\<lambda>r s. case r of
        Inr (event, moved) \<Rightarrow>
          moved = movedInstance cm inst ct target (v_now s0) \<and>
          (\<exists>evID. event = transitionEvent cm inst evID (tr_Event (ct_Def ct)) actor name params (v_now s0)) \<and>
          s = put_inst ident moved (add_event event s0)
      | Inl err \<Rightarrow> s = s0 \<or> (\<exists>reason. err = stuckError reason \<and>
          s = put_inst ident (markStuck (withHistory cm inst ct target) (wi_CurrentState inst) reason (v_now s0)) s0))"
proof -
  have lock: "update_error (v_insts s0 (inst_key ident (movedInstance cm inst ct target now)))
     (movedInstance cm inst ct target now) = None" for now
    by (simp add: assms update_error_def)
  have app: "triple view (\<lambda>s. s = s0) (appendUpdateCommit (en_deps e) tx event (movedInstance cm inst ct target now))
     (\<lambda>r s. r = None \<and> s = put_inst ident (movedInstance cm inst ct target now) (add_event event s0))" for tx event now
    by (rule triple_appendUpdateCommit [OF lock])
  have ent: "triple view (\<lambda>s. s = s0) (entryLoop e def input tx (withHistory cm inst ct target) src now seq)
     (\<lambda>r s. case r of
        Inr stuck \<Rightarrow> stuck = None \<and> s = s0
      | Inl err \<Rightarrow> \<exists>reason. err = stuckError reason \<and>
          s = put_inst ident (markStuck (withHistory cm inst ct target) src reason now) s0)" for def input tx src now seq
    by (rule triple_entryLoop [of _ _ inst]) (simp_all add: assms)
  show ?thesis
    unfolding commitTransition_def Let_def withHistory_def [symmetric]
    by (intro triple_bind_clock triple_bind_keeps [OF keeps_generateID]
        triple_attempt_keeps [OF begin_keeps] triple_check_keeps [OF keeps_exitLoop]
        triple_attempt [OF ent] triple_bind_keeps [OF keeps_invalidateTasks] triple_fail)
      (auto simp: movedInstance_def [symmetric] intro!: triple_pure triple_check [OF app] triple_fail triple_ok exI)
qed

section \<open>Loading\<close>

lemma triple_createInstance:
  assumes "v_insts s0 (ident at aid) = None"
  shows "triple view (\<lambda>s. s = s0) (createInstance (en_deps e) cm at aid)
     (\<lambda>r s. case r of
        Inr inst \<Rightarrow> (\<exists>i c. inst = newInstance cm at aid i c (v_now s0)) \<and> s = put_inst ident inst s0
      | Inl err \<Rightarrow> s = s0)"
  unfolding createInstance_def Let_def
  by (intro triple_bind_clock triple_bind_keeps [OF keeps_generateID]
      triple_attempt_keeps [OF begin_keeps] triple_check [OF triple_create] triple_check [OF triple_commit])
    (auto intro!: triple_fail triple_ok triple_bind_keeps frame exI)

lemma triple_get_stored:
  "v_insts s0 (ident at aid) = Some inst \<Longrightarrow>
     triple view (\<lambda>s. s = s0) (is_Get (dp_InstanceStore (en_deps e)) at aid) (\<lambda>r s. r = Inr inst \<and> s = s0)"
  by (rule triple_post [OF triple_get]) auto

lemma triple_get_missing:
  "v_insts s0 (ident at aid) = None \<Longrightarrow>
     triple view (\<lambda>s. s = s0) (is_Get (dp_InstanceStore (en_deps e)) at aid)
       (\<lambda>r s. r = Inl (Sentinel ErrInstanceNotFound) \<and> s = s0)"
  by (rule triple_post [OF triple_get]) auto

lemma triple_load:
  "triple view (\<lambda>s. s = s0) (loadInstanceAndCompiled e at aid)
     (\<lambda>r s. case r of Inr (cm, inst) \<Rightarrow> loads ident e s0 at aid cm inst s | Inl err \<Rightarrow> s = s0)"
proof (cases "v_insts s0 (ident at aid)")
  case None
  note cr = triple_createInstance [OF None]
  show ?thesis
    unfolding loadInstanceAndCompiled_def
    by (rule triple_attempt [OF triple_get_missing [OF None]])
      (auto simp: None loads_def split: option.splits
        intro!: triple_pure triple_fail triple_ok triple_attempt [OF cr])
next
  case (Some stored)
  then show ?thesis
    unfolding loadInstanceAndCompiled_def
    by (intro triple_attempt [OF triple_get_stored [OF Some]])
      (auto simp: loads_def split: option.splits intro!: triple_pure triple_fail triple_ok)
qed

end

end
