(* ===== verification/Flow_Steps.thy ===== *)
theory Flow_Steps
  imports Flow_Laws
begin

text \<open>
  What a transition does to an instance, as a step relation, and the proof that \<open>Transition\<close> takes
  exactly one such step, with exactly one event, under the contracts of \<open>Flow_Laws\<close>.
\<close>

section \<open>What validation accepts\<close>

text \<open>
  The move a transition makes from an instance: the transition exists, the instance is not in a
  terminal state, the current state or an ancestor is a source, every guard passes, and the target
  is the resolved route or the direct target.
\<close>

definition targetOf :: "TransitionDef \<Rightarrow> WorkflowInstance \<Rightarrow> gparams \<Rightarrow> gerr + string" where
  "targetOf tr inst params =
     (if tr_Routes tr \<noteq> [] then resolveRoute tr inst params else Inr (tr_Target tr))"

definition guardsPass :: "CompiledTransition \<Rightarrow> WorkflowInstance \<Rightarrow> gparams \<Rightarrow> bool" where
  "guardsPass ct inst params \<longleftrightarrow> (\<forall>g \<in> set (tr_Guards (ct_Def ct)). gd_Check g inst params = None)"

definition validMove ::
  "CompiledMachine \<Rightarrow> WorkflowInstance \<Rightarrow> string \<Rightarrow> gparams \<Rightarrow> CompiledTransition \<Rightarrow> string \<Rightarrow> bool" where
  "validMove cm inst name params ct target \<longleftrightarrow>
     (\<exists>tr src. map_of (df_Transitions (cm_Definition cm)) name = Some tr \<and>
        \<not> isTerminalState cm (wi_CurrentState inst) \<and>
        effectiveSource cm tr (wi_CurrentState inst) = Some src \<and>
        find (\<lambda>c. tr_Name (ct_Def c) = name) (cts_of (cm_TransitionsByState cm) src) = Some ct \<and>
        guardsPass ct inst params \<and> targetOf tr inst params = Inr target)"

lemma triple_keep_const: "triple v (\<lambda>_. c) m (\<lambda>_ _. c)"
  by (auto simp: triple_def)

lemma guardLoop_result:
  "triple v P (guardLoop D wt ct i guards a p) (\<lambda>r _. (r = None) = (\<forall>g \<in> set guards. gd_Check g a p = None))"
proof (induction guards arbitrary: i)
  case Nil
  show ?case by (auto intro!: triple_ret)
next
  case (Cons g guards)
  show ?case
  proof (cases "gd_Check g a p")
    case None
    with Cons show ?thesis by simp
  next
    case (Some err)
    then show ?thesis by (auto intro!: triple_ret triple_bind [OF triple_True])
  qed
qed

lemma runGuards_result: "triple v P (runGuards D wt ct a p) (\<lambda>r _. (r = None) = guardsPass ct a p)"
  unfolding runGuards_def guardsPass_def by (rule guardLoop_result)

lemma validateTransition_result:
  "triple v P (validateTransition e cm inst name params)
     (\<lambda>r _. case r of Inr (ct, target) \<Rightarrow> validMove cm inst name params ct target | Inl err \<Rightarrow> True)"
  unfolding validateTransition_def validMove_def
  by (auto split: option.splits sum.splits simp: targetOf_def
      intro!: triple_fail triple_ok triple_check [OF runGuards_result])

lemma validateTransition_accepts:
  assumes "validMove cm inst name params ct target"
  shows "validateTransition e cm inst name params = ok (ct, target)"
proof -
  from assms have g: "runGuards D wt ct inst params = ret None" for D :: "'a Deps" and wt
    by (auto simp: validMove_def guardsPass_def intro: runGuards_pass)
  have "check (ret None) onerr k = k" for onerr and k :: "('a, gerr + CompiledTransition \<times> string) state"
    by (rule state_ext) (simp add: run_check)
  with assms g show ?thesis
    by (auto simp: validMove_def validateTransition_def targetOf_def)
qed

section \<open>Candidates of a parallel transition\<close>

definition candidateIn ::
  "CompiledMachine \<Rightarrow> WorkflowInstance \<Rightarrow> TransitionDef \<Rightarrow> string \<Rightarrow> gparams \<Rightarrow> string \<Rightarrow> parallelCandidate option" where
  "candidateIn cm inst tr name params region =
     (let leafState = aip_leaf inst region;
          src = parallelSource cm tr (wi_CurrentState inst) leafState in
      if src = [] then None
      else (case (find (\<lambda>c. tr_Name (ct_Def c) = name) (cts_of (cm_TransitionsByState cm) src),
                  targetOf tr inst params) of
              (Some ct, Inr target) \<Rightarrow>
                Some \<lparr>pc_region = region, pc_leafState = leafState, pc_ct = ct, pc_effectiveSrc = src,
                      pc_targetState = target\<rparr>
            | _ \<Rightarrow> None))"

lemma candidateLoop_result:
  "triple v P (candidateLoop e cm inst tr (wi_CurrentState inst) name params regions)
     (\<lambda>r _. case r of
        Inr cs \<Rightarrow> cs = List.map_filter (candidateIn cm inst tr name params) regions \<and>
                  (\<forall>c \<in> set cs. guardsPass (pc_ct c) inst params)
      | Inl err \<Rightarrow> True)"
proof (induction regions arbitrary: P)
  case Nil
  show ?case by (auto simp: map_filter_simps intro!: triple_ok)
next
  case (Cons region regions)
  let ?src = "parallelSource cm tr (wi_CurrentState inst) (aip_leaf inst region)"
  let ?ct = "find (\<lambda>c. tr_Name (ct_Def c) = name) (cts_of (cm_TransitionsByState cm) ?src)"
  show ?case
  proof (cases "?src = [] \<or> ?ct = None")
    case True
    then have "candidateIn cm inst tr name params region = None"
      by (auto simp: candidateIn_def Let_def)
    then have skip: "List.map_filter (candidateIn cm inst tr name params) (region # regions) =
        List.map_filter (candidateIn cm inst tr name params) regions"
      by (simp add: map_filter_simps)
    from True have "candidateLoop e cm inst tr (wi_CurrentState inst) name params (region # regions) =
        candidateLoop e cm inst tr (wi_CurrentState inst) name params regions"
      by (auto simp: Let_def)
    with Cons [of P] show ?thesis unfolding skip by simp
  next
    case False
    then obtain ct where ct: "?src \<noteq> []" "?ct = Some ct" by auto
    show ?thesis
    proof (cases "targetOf tr inst params")
      case (Inl err)
      with ct show ?thesis
        by (simp add: Let_def targetOf_def [symmetric])
          (auto intro!: triple_fail triple_check [OF runGuards_result])
    next
      case (Inr target)
      let ?c = "\<lparr>pc_region = region, pc_leafState = aip_leaf inst region, pc_ct = ct,
                  pc_effectiveSrc = ?src, pc_targetState = target\<rparr>"
      from ct Inr have take: "List.map_filter (candidateIn cm inst tr name params) (region # regions) =
          ?c # List.map_filter (candidateIn cm inst tr name params) regions"
        by (simp add: candidateIn_def Let_def map_filter_simps)
      from ct Inr have "candidateLoop e cm inst tr (wi_CurrentState inst) name params (region # regions) =
          check (runGuards (en_deps e) (df_WorkflowType (cm_Definition cm)) ct inst params) fail
            (attempt (candidateLoop e cm inst tr (wi_CurrentState inst) name params regions) fail
              (\<lambda>candidates. ok (?c # candidates)))"
        by (simp add: Let_def targetOf_def split: if_splits)
      then show ?thesis
        unfolding take
        by (simp only:)
          (rule triple_check [OF runGuards_result] triple_fail triple_ok
            triple_attempt [OF triple_conj [OF Cons triple_keep_const]] | simp)+
    qed
  qed
qed

section \<open>The step relation of an instance\<close>

definition leftInstance :: "CompiledMachine \<Rightarrow> WorkflowInstance \<Rightarrow> string \<Rightarrow> gtime \<Rightarrow> WorkflowInstance" where
  "leftInstance cm inst target now =
     (recordRegions cm inst (wi_CurrentState inst))
       \<lparr>wi_LastReadUpdatedAt := wi_UpdatedAt inst, wi_CurrentState := leaf_in cm target,
        wi_ActiveInParallel := None, wi_UpdatedAt := now\<rparr>"

text \<open>
  How a named transition can change an instance: a plain move, leaving a parallel state, or moving
  the matching regions inside it. \<open>ct\<close> is the compiled transition the post-commit step runs with.
\<close>

inductive inst_step ::
  "CompiledMachine \<Rightarrow> WorkflowInstance \<Rightarrow> string \<Rightarrow> gparams \<Rightarrow> gtime \<Rightarrow> CompiledTransition \<Rightarrow> WorkflowInstance \<Rightarrow> bool"
  for cm inst name params now where
  step_move: "mitems (wi_ActiveInParallel inst) = [] \<Longrightarrow> validMove cm inst name params ct target \<Longrightarrow>
     inst_step cm inst name params now ct (movedInstance cm inst ct target now)"
| step_leave: "mitems (wi_ActiveInParallel inst) \<noteq> [] \<Longrightarrow>
     map_of (df_Transitions (cm_Definition cm)) name = Some tr \<Longrightarrow> wi_CurrentState inst \<in> set (tr_Sources tr) \<Longrightarrow>
     validMove cm inst name params ct target \<Longrightarrow>
     inst_step cm inst name params now ct (leftInstance cm inst target now)"
| step_intra: "mitems (wi_ActiveInParallel inst) \<noteq> [] \<Longrightarrow>
     map_of (df_Transitions (cm_Definition cm)) name = Some tr \<Longrightarrow> wi_CurrentState inst \<notin> set (tr_Sources tr) \<Longrightarrow>
     \<not> isTerminalState cm (wi_CurrentState inst) \<Longrightarrow>
     c # cs = List.map_filter (candidateIn cm inst tr name params) (sortedRegions inst) \<Longrightarrow>
     \<forall>c' \<in> set (c # cs). guardsPass (pc_ct c') inst params \<Longrightarrow>
     inst_step cm inst name params now (pc_ct c) (intraInstance inst (c # cs) now)"

inductive_cases inst_stepE: "inst_step cm inst name params now ct inst'"

lemma recordRegions_other [simp]:
  "wi_AggregateType (recordRegions cm i p) = wi_AggregateType i"
  "wi_AggregateID (recordRegions cm i p) = wi_AggregateID i"
  "wi_UpdatedAt (recordRegions cm i p) = wi_UpdatedAt i"
  "wi_CorrelationID (recordRegions cm i p) = wi_CorrelationID i"
  "wi_WorkflowVersion (recordRegions cm i p) = wi_WorkflowVersion i"
  "wi_StateData (recordRegions cm i p) = wi_StateData i"
proof -
  have inv: "g (fold (\<lambda>region i. recordHistory i (aip_leaf i region)
               (computeExitSequence (aip_leaf i region) p (cm_Ancestry cm)) (cm_Definition cm)) rs i) = g i"
    if "\<And>i l seq def. g (recordHistory i l seq def) = g i" for g :: "WorkflowInstance \<Rightarrow> 'x" and rs i
    using that by (induction rs arbitrary: i) auto
  show "wi_AggregateType (recordRegions cm i p) = wi_AggregateType i"
    "wi_AggregateID (recordRegions cm i p) = wi_AggregateID i"
    "wi_UpdatedAt (recordRegions cm i p) = wi_UpdatedAt i"
    "wi_CorrelationID (recordRegions cm i p) = wi_CorrelationID i"
    "wi_WorkflowVersion (recordRegions cm i p) = wi_WorkflowVersion i"
    "wi_StateData (recordRegions cm i p) = wi_StateData i"
    unfolding recordRegions_def by (rule inv; simp)+
qed

lemma leftInstance_sel [simp]:
  "wi_AggregateType (leftInstance cm inst t now) = wi_AggregateType inst"
  "wi_AggregateID (leftInstance cm inst t now) = wi_AggregateID inst"
  "wi_UpdatedAt (leftInstance cm inst t now) = now"
  "wi_LastReadUpdatedAt (leftInstance cm inst t now) = wi_UpdatedAt inst"
  "wi_CurrentState (leftInstance cm inst t now) = leaf_in cm t"
  "wi_WorkflowVersion (leftInstance cm inst t now) = wi_WorkflowVersion inst"
  by (simp_all add: leftInstance_def)

lemma intraInstance_sel [simp]:
  "wi_AggregateType (intraInstance inst cs now) = wi_AggregateType inst"
  "wi_AggregateID (intraInstance inst cs now) = wi_AggregateID inst"
  "wi_UpdatedAt (intraInstance inst cs now) = now"
  "wi_LastReadUpdatedAt (intraInstance inst cs now) = wi_UpdatedAt inst"
  "wi_CurrentState (intraInstance inst cs now) = wi_CurrentState inst"
  "wi_WorkflowVersion (intraInstance inst cs now) = wi_WorkflowVersion inst"
  by (simp_all add: intraInstance_def)

lemma inst_step_key: "inst_step cm inst name params now ct inst' \<Longrightarrow> inst_key ident inst' = inst_key ident inst"
  by (erule inst_stepE) (simp_all add: inst_key_def)

text \<open>What every event of a transition records.\<close>

definition event_of :: "CompiledMachine \<Rightarrow> WorkflowInstance \<Rightarrow> string \<Rightarrow> gtime \<Rightarrow> DomainEvent \<Rightarrow> bool" where
  "event_of cm inst name now event \<longleftrightarrow>
     ev_AggregateType event = wi_AggregateType inst \<and> ev_AggregateID event = wi_AggregateID inst \<and>
     ev_WorkflowType event = df_WorkflowType (cm_Definition cm) \<and>
     ev_WorkflowVersion event = df_Version (cm_Definition cm) \<and>
     ev_CorrelationID event = wi_CorrelationID inst \<and> ev_TransitionName event = name \<and>
     ev_StateBefore event = wi_StateData inst \<and> ev_StateAfter event = wi_StateData inst \<and>
     ev_CreatedAt event = now"

lemma event_of_transitionEvent:
  "wi_AggregateType inst' = wi_AggregateType inst \<Longrightarrow> wi_AggregateID inst' = wi_AggregateID inst \<Longrightarrow>
   wi_CorrelationID inst' = wi_CorrelationID inst \<Longrightarrow> wi_StateData inst' = wi_StateData inst \<Longrightarrow>
   event_of cm inst name now (transitionEvent cm inst' evID et actor name payload now)"
  by (simp add: event_of_def transitionEvent_def)

context engine_env begin

lemma triple_beginCommit:
  assumes "update_error (v_insts s0 (inst_key ident inst)) inst = None"
  shows "triple view (\<lambda>s. s = s0) (beginAppendUpdateCommit (en_deps e) event inst)
     (\<lambda>r s. r = None \<and> s = put_inst ident inst (add_event event s0))"
  unfolding beginAppendUpdateCommit_def
  by (rule triple_attempt [OF triple_begin])
    (auto intro!: triple_ret triple_pre [OF triple_appendUpdateCommit [OF assms]])

lemma triple_commitParallelExit:
  assumes "v_insts s0 (inst_key ident inst) = Some inst"
  shows "triple view (\<lambda>s. s = s0) (commitParallelExit e cm inst ct target name actor params)
     (\<lambda>r s. case r of
        Inr (event, moved) \<Rightarrow> moved = leftInstance cm inst target (v_now s0) \<and>
          event_of cm inst name (v_now s0) event \<and> s = put_inst ident moved (add_event event s0)
      | Inl err \<Rightarrow> s = s0)"
proof -
  have lock: "update_error (v_insts s0 (inst_key ident (leftInstance cm inst target now)))
      (leftInstance cm inst target now) = None" for now
    using assms by (simp add: inst_key_def update_error_def)
  note app = triple_beginCommit [OF lock]
  show ?thesis
    unfolding commitParallelExit_def Let_def
    by (intro triple_bind_clock triple_check_keeps [OF keeps_syncLoop] triple_bind_keeps [OF keeps_generateID]
        triple_fail)
      (auto simp: leftInstance_def [symmetric] event_of_transitionEvent
        intro!: triple_pure triple_check [OF app] triple_fail triple_ok)
qed

lemma triple_commitParallelIntra:
  assumes "v_insts s0 (inst_key ident inst) = Some inst"
  shows "triple view (\<lambda>s. s = s0) (commitParallelIntra e cm inst cs ps name actor params)
     (\<lambda>r s. case r of
        Inr (event, moved) \<Rightarrow> moved = intraInstance inst cs (v_now s0) \<and>
          event_of cm inst name (v_now s0) event \<and> s = put_inst ident moved (add_event event s0)
      | Inl err \<Rightarrow> s = s0)"
proof -
  have lock: "update_error (v_insts s0 (inst_key ident (intraInstance inst cs now)))
      (intraInstance inst cs now) = None" for now
    using assms by (simp add: inst_key_def update_error_def)
  note app = triple_beginCommit [OF lock]
  show ?thesis
    unfolding commitParallelIntra_def Let_def
    by (intro triple_bind_clock triple_check_keeps [OF keeps_syncLoop] triple_bind_keeps [OF keeps_generateID]
        triple_fail)
      (auto simp: event_of_transitionEvent intro!: triple_pure triple_check [OF app] triple_fail triple_ok)
qed

end

section \<open>Transition under the contracts\<close>

text \<open>
  The outcome of running a transition on a loaded instance in the view \<open>s1\<close>. Success is one step of
  the instance with exactly one event. A failure leaves the view as it is, or marks the instance
  stuck; the last disjunct is the panic of a nil \<open>InputsFn\<close>, which strikes after the commit.
\<close>

definition stepped ::
  "(string \<Rightarrow> string \<Rightarrow> 'k) \<Rightarrow> CompiledMachine \<Rightarrow> WorkflowInstance \<Rightarrow> string \<Rightarrow> gparams \<Rightarrow> 'k storeview \<Rightarrow>
     gerr + TransitionResult \<Rightarrow> 'k storeview \<Rightarrow> bool" where
  "stepped ident cm inst name params s1 r s \<longleftrightarrow>
     (case r of
        Inr res \<Rightarrow>
          (\<exists>ct. inst_step cm inst name params (v_now s1) ct (rs_Instance res)) \<and>
          event_of cm inst name (v_now s1) (rs_Event res) \<and>
          reports cm (rs_Instance res) (rs_Event res) (wi_CurrentState inst) res \<and>
          s = put_inst ident (rs_Instance res) (add_event (rs_Event res) s1)
      | Inl err \<Rightarrow>
          s = s1 \<or>
          (\<exists>reason ct target. err = stuckError reason \<and> validMove cm inst name params ct target \<and>
             s = put_inst ident (markStuck (withHistory cm inst ct target) (wi_CurrentState inst) reason (v_now s1)) s1) \<or>
          (\<exists>ct event moved. nilInputs ct \<and> inst_step cm inst name params (v_now s1) ct moved \<and>
             event_of cm inst name (v_now s1) event \<and> s = put_inst ident moved (add_event event s1)))"

lemma stepped_same: "stepped ident cm inst name params s1 (Inl err) s1"
  by (simp add: stepped_def)

lemma stepped_done:
  "inst_step cm inst name params (v_now s1) ct moved \<Longrightarrow> event_of cm inst name (v_now s1) event \<Longrightarrow>
     reports cm moved event (wi_CurrentState inst) res \<Longrightarrow>
     stepped ident cm inst name params s1 (Inr res) (put_inst ident moved (add_event event s1))"
  by (auto simp: stepped_def reports_def)

lemma stepped_stuck:
  "validMove cm inst name params ct target \<Longrightarrow>
     stepped ident cm inst name params s1 (Inl (stuckError reason))
       (put_inst ident (markStuck (withHistory cm inst ct target) (wi_CurrentState inst) reason (v_now s1)) s1)"
  unfolding stepped_def sum.case by blast

lemma stepped_panic:
  "nilInputs ct \<Longrightarrow> inst_step cm inst name params (v_now s1) ct moved \<Longrightarrow>
     event_of cm inst name (v_now s1) event \<Longrightarrow>
     stepped ident cm inst name params s1 (Inl err) (put_inst ident moved (add_event event s1))"
  unfolding stepped_def sum.case by blast

context engine_env begin

lemma triple_finish:
  assumes "inst_step cm inst name params (v_now s1) ct moved" "event_of cm inst name (v_now s1) event"
  shows "triple view (\<lambda>s. s = put_inst ident moved (add_event event s1))
     (runPostCommit e cm moved ct event (wi_CurrentState inst) p start) (stepped ident cm inst name params s1)"
  by (rule triple_post [OF triple_runPostCommit])
    (use assms in \<open>auto split: sum.splits intro: stepped_done stepped_panic\<close>)

lemma triple_validate:
  "triple view P (validateTransition e cm inst name params)
     (\<lambda>r s. (case r of Inr (ct, target) \<Rightarrow> validMove cm inst name params ct target | Inl err \<Rightarrow> True) \<and> P s)"
  by (rule triple_conj [OF validateTransition_result triple_keeps [OF keeps_validateTransition]])

lemma triple_collect:
  assumes "map_of (df_Transitions (cm_Definition cm)) name = Some tr"
  shows "triple view P (collectParallelCandidates e cm inst (wi_CurrentState inst) name params)
     (\<lambda>r s. (case r of
        Inr cs \<Rightarrow> cs = List.map_filter (candidateIn cm inst tr name params) (sortedRegions inst) \<and>
                  (\<forall>c \<in> set cs. guardsPass (pc_ct c) inst params)
      | Inl err \<Rightarrow> True) \<and> P s)"
  by (rule triple_conj [OF _ triple_keeps [OF keeps_collect]])
    (use assms in \<open>simp add: collectParallelCandidates_def candidateLoop_result\<close>)

lemma triple_plainTransition:
  assumes st: "v_insts s1 (inst_key ident inst) = Some inst" and aip: "mitems (wi_ActiveInParallel inst) = []"
  shows "triple view (\<lambda>s. s = s1)
     (attempt (validateTransition e cm inst name params) fail (\<lambda>(ct, target).
        attempt (commitTransition e cm inst ct target name actor params) fail
          (\<lambda>(event, moved). runPostCommit e cm moved ct event (wi_CurrentState inst) params start)))
     (stepped ident cm inst name params s1)"
proof (rule triple_attempt [OF triple_validate])
  fix x :: "CompiledTransition \<times> string"
  obtain ct target where x: "x = (ct, target)" by fastforce
  show "triple view (\<lambda>s. (case Inr x of Inr (ct, target) \<Rightarrow> validMove cm inst name params ct target | Inl err \<Rightarrow> True) \<and> s = s1)
     (case x of (ct, target) \<Rightarrow> attempt (commitTransition e cm inst ct target name actor params) fail
          (\<lambda>(event, moved). runPostCommit e cm moved ct event (wi_CurrentState inst) params start))
     (stepped ident cm inst name params s1)"
    unfolding x
  proof (simp, intro triple_pure triple_attempt [OF triple_commitTransition [OF st]], goal_cases)
    case (1 err)
    then show ?case by (auto simp: stepped_same intro!: triple_fail stepped_stuck)
  next
    case (2 y)
    obtain event moved where y: "y = (event, moved)" by fastforce
    note step = step_move [OF aip 2(1)]
    show ?case
      unfolding y
      by (auto intro!: triple_pure triple_finish step event_of_transitionEvent)
  qed
qed (auto simp: stepped_same intro!: triple_fail)

lemma triple_parallelTransition:
  assumes st: "v_insts s1 (inst_key ident inst) = Some inst" and aip: "mitems (wi_ActiveInParallel inst) \<noteq> []"
  shows "triple view (\<lambda>s. s = s1) (parallelTransition e cm inst name actor params start)
     (stepped ident cm inst name params s1)"
proof (cases "map_of (df_Transitions (cm_Definition cm)) name")
  case None
  then show ?thesis by (auto simp: parallelTransition_def stepped_same intro!: triple_fail)
next
  case (Some tr)
  note tr = this
  consider "isTerminalState cm (wi_CurrentState inst)"
    | "\<not> isTerminalState cm (wi_CurrentState inst)" "wi_CurrentState inst \<in> set (tr_Sources tr)"
    | "\<not> isTerminalState cm (wi_CurrentState inst)" "wi_CurrentState inst \<notin> set (tr_Sources tr)" by blast
  then show ?thesis
  proof cases
    case 1
    with tr show ?thesis by (auto simp: parallelTransition_def Let_def stepped_same intro!: triple_fail)
  next
    case leave: 2
    have step: "inst_step cm inst name params now ct (leftInstance cm inst target now)"
      if "validMove cm inst name params ct target" for ct target now
      by (rule step_leave [OF aip tr leave(2) that])
    show ?thesis
      using tr leave
      by (auto simp: parallelTransition_def Let_def stepped_same
          intro!: triple_attempt [OF triple_validate] triple_attempt [OF triple_commitParallelExit [OF st]]
            triple_fail triple_pure triple_finish step)
  next
    case intra: 3
    have step: "inst_step cm inst name params now (pc_ct c) (intraInstance inst (c # cs) now)"
      if "c # cs = List.map_filter (candidateIn cm inst tr name params) (sortedRegions inst)"
        "\<forall>c' \<in> set (c # cs). guardsPass (pc_ct c') inst params" for c cs now
      by (rule step_intra [OF aip tr intra(2,1) that])
    show ?thesis
      using tr intra
      by (auto simp: parallelTransition_def Let_def stepped_same split: list.splits
          intro!: triple_attempt [OF triple_collect [OF tr]] triple_attempt [OF triple_commitParallelIntra [OF st]]
            triple_fail triple_pure triple_finish step)
  qed
qed

text \<open>\<open>Transition\<close>: load or create, then one step.\<close>

lemma triple_Transition:
  assumes wk: "well_keyed ident s0"
  shows "triple view (\<lambda>s. s = s0) (Transition e at aid name actor params)
     (\<lambda>r s. (s = s0 \<and> (\<exists>err. r = Inl err)) \<or>
        (\<exists>cm inst s1. loads ident e s0 at aid cm inst s1 \<and> stepped ident cm inst name params s1 r s))"
proof (cases "checkShutdown e")
  case (Some err)
  then show ?thesis by (auto simp: Transition_def intro!: triple_fail)
next
  case None
  have stored: "v_insts s1 (inst_key ident inst) = Some inst" if "loads ident e s0 at aid cm inst s1" for cm inst s1
    using that wk by (auto simp: loads_def well_keyed_def split: option.splits)
  have run: "triple view (\<lambda>s. loads ident e s0 at aid cm inst s)
      (if mitems (wi_ActiveInParallel inst) \<noteq> []
       then parallelTransition e cm inst name actor params start
       else attempt (validateTransition e cm inst name params) fail (\<lambda>(ct, targetState).
                attempt (commitTransition e cm inst ct targetState name actor params) fail
                  (\<lambda>(event, moved). runPostCommit e cm moved ct event (wi_CurrentState inst) params start)))
      (\<lambda>r s. \<exists>cm inst s1. loads ident e s0 at aid cm inst s1 \<and> stepped ident cm inst name params s1 r s)"
    for cm inst start
    unfolding triple_def
  proof (intro allI impI)
    fix w r w'
    assume l: "loads ident e s0 at aid cm inst (view w)"
      and r: "run_state (if mitems (wi_ActiveInParallel inst) \<noteq> []
         then parallelTransition e cm inst name actor params start
         else attempt (validateTransition e cm inst name params) fail (\<lambda>(ct, targetState).
                  attempt (commitTransition e cm inst ct targetState name actor params) fail
                    (\<lambda>(event, moved). runPostCommit e cm moved ct event (wi_CurrentState inst) params start))) w = (r, w')"
    have "stepped ident cm inst name params (view w) r (view w')"
    proof (cases "mitems (wi_ActiveInParallel inst) = []")
      case True
      with r show ?thesis by (auto intro: tripleD [OF triple_plainTransition [OF stored [OF l] True] _ refl])
    next
      case False
      with r show ?thesis by (auto intro: tripleD [OF triple_parallelTransition [OF stored [OF l] False] _ refl])
    qed
    with l show "\<exists>cm inst s1. loads ident e s0 at aid cm inst s1 \<and> stepped ident cm inst name params s1 r (view w')"
      by blast
  qed
  show ?thesis
    unfolding Transition_def None option.case
    by (intro triple_bind_clock triple_attempt [OF triple_load])
      (auto intro!: triple_fail triple_post [OF run] split del: if_split)
qed

end

lemma loads_view:
  assumes "loads ident e s0 at aid cm inst s1" "well_keyed ident s0"
  shows "inst_key ident inst = ident at aid" "v_now s1 = v_now s0" "v_events s1 = v_events s0"
    "v_insts s1 = (v_insts s0)(ident at aid \<mapsto> inst)"
  using assms by (auto simp: loads_def well_keyed_def inst_key_def newInstance_def split: option.splits)

section \<open>Progress\<close>

lemma attempt_ok: "attempt (ok x) f k = k x"
  by (rule state_ext) (simp add: run_attempt)

text \<open>No entry or exit activity fails, whatever it is given.\<close>

definition activitiesSucceed :: "'w Deps \<Rightarrow> bool" where
  "activitiesSucceed D \<longleftrightarrow> (\<forall>name input w. fst (run_state (runSyncActivity D name input) w) = None)"

lemma triple_sync_ok:
  "activitiesSucceed D \<Longrightarrow> triple v P (runSyncActivity D name input) (\<lambda>r _. r = None)"
  unfolding activitiesSucceed_def triple_def by (metis fst_conv)

lemma triple_check_ok:
  "triple v P m (\<lambda>r _. r = None) \<Longrightarrow> triple v (\<lambda>_. True) k Q \<Longrightarrow> triple v P (check m onerr k) Q"
  by (rule triple_check, assumption) auto

lemma exitLoop_ok: "activitiesSucceed D \<Longrightarrow> triple v P (exitLoop D def input tx seq) (\<lambda>r _. r = None)"
proof (induction seq arbitrary: P)
  case Nil
  then show ?case by (auto intro!: triple_ret)
next
  case (Cons a seq)
  then show ?case
    by (auto simp: Let_def intro!: triple_check_ok triple_sync_ok)
qed

context engine_env begin

lemma entryLoop_ok:
  assumes "activitiesSucceed (en_deps e)"
  shows "triple v P (entryLoop e def input tx inst src now seq) (\<lambda>r _. r = Inr None)"
proof (induction seq arbitrary: P)
  case Nil
  then show ?case by (auto intro!: triple_ok)
next
  case (Cons a seq)
  with assms show ?case
    by (auto simp: Let_def intro!: triple_bind [OF triple_True] triple_check_ok triple_sync_ok)
qed

lemma commitTransition_ok:
  assumes a: "activitiesSucceed (en_deps e)" and st: "v_insts s0 (inst_key ident inst) = Some inst"
  shows "triple view (\<lambda>s. s = s0) (commitTransition e cm inst ct target name actor params) (\<lambda>r _. \<exists>x. r = Inr x)"
proof -
  have lock: "update_error (v_insts s0 (inst_key ident (movedInstance cm inst ct target now)))
     (movedInstance cm inst ct target now) = None" for now
    by (simp add: st update_error_def)
  note app = triple_appendUpdateCommit [OF lock]
  have beg: "triple view (\<lambda>s. s = s0) (tx_Begin (dp_TxProvider (en_deps e))) (\<lambda>r s. (\<exists>tx. r = Inr tx) \<and> s = s0)"
    by (rule triple_post [OF triple_begin]) auto
  have ext: "triple view (\<lambda>s. s = s0) (exitLoop (en_deps e) def input tx seq) (\<lambda>r s. r = None \<and> s = s0)"
    for def input tx seq
    by (rule triple_conj [OF exitLoop_ok [OF a] triple_keeps [OF keeps_exitLoop]])
  have ent: "triple view (\<lambda>s. s = s0) (entryLoop e def input tx (withHistory cm inst ct target) src now seq)
     (\<lambda>r s. r = Inr None \<and> s = s0)" for def input tx src now seq
    by (rule triple_post [OF triple_conj [OF entryLoop_ok [OF a] triple_entryLoop [of _ _ inst]]])
      (auto simp: st)
  show ?thesis
    unfolding commitTransition_def Let_def withHistory_def [symmetric]
    by (intro triple_bind_clock triple_bind_keeps [OF keeps_generateID] triple_attempt [OF beg] triple_pure
        triple_check [OF ext] triple_attempt [OF ent] triple_bind_keeps [OF keeps_invalidateTasks])
      (auto simp: movedInstance_def [symmetric] intro!: triple_check [OF app] triple_fail triple_ok triple_pure)
qed

lemma progress_Transition:
  assumes a: "activitiesSucceed (en_deps e)" and sd: "\<not> en_shutdown e"
    and st: "v_insts (view w) (ident at aid) = Some inst" and ky: "inst_key ident inst = ident at aid"
    and cm: "compiledFor e at (wi_WorkflowVersion inst) = Some cm"
    and aip: "mitems (wi_ActiveInParallel inst) = []"
    and mv: "validMove cm inst name params ct target" and ni: "\<not> nilInputs ct"
  shows "\<exists>res w'. run_state (Transition e at aid name actor params) w = (Inr res, w') \<and>
    rs_Instance res = movedInstance cm inst ct target (v_now (view w)) \<and>
    event_of cm inst name (v_now (view w)) (rs_Event res) \<and>
    reports cm (rs_Instance res) (rs_Event res) (wi_CurrentState inst) res \<and>
    view w' = put_inst ident (rs_Instance res) (add_event (rs_Event res) (view w))"
proof -
  let ?s = "view w"
  from st ky have st': "v_insts ?s (inst_key ident inst) = Some inst" by simp
  have com: "triple view (\<lambda>s. s = ?s) (commitTransition e cm inst ct target name actor params)
     (\<lambda>r s. \<exists>event. r = Inr (event, movedInstance cm inst ct target (v_now ?s)) \<and>
        event_of cm inst name (v_now ?s) event \<and>
        s = put_inst ident (movedInstance cm inst ct target (v_now ?s)) (add_event event ?s))"
    by (rule triple_post [OF triple_conj [OF commitTransition_ok [OF a st'] triple_commitTransition [OF st']]])
      (auto intro: event_of_transitionEvent)
  let ?Q = "\<lambda>r s. \<exists>res. r = Inr res \<and> rs_Instance res = movedInstance cm inst ct target (v_now ?s) \<and>
        event_of cm inst name (v_now ?s) (rs_Event res) \<and>
        reports cm (rs_Instance res) (rs_Event res) (wi_CurrentState inst) res \<and>
        s = put_inst ident (rs_Instance res) (add_event (rs_Event res) ?s)"
  have post: "triple view (\<lambda>s. \<exists>event. Inr (ev, moved) = Inr (event, movedInstance cm inst ct target (v_now ?s)) \<and>
        event_of cm inst name (v_now ?s) event \<and>
        s = put_inst ident (movedInstance cm inst ct target (v_now ?s)) (add_event event ?s))
     (runPostCommit e cm moved ct ev (wi_CurrentState inst) params start) ?Q" for ev moved start
    by (rule triple_post [OF triple_runPostCommit]) (use ni in \<open>auto simp: reports_def split: sum.splits\<close>)
  have load: "triple view (\<lambda>s. s = ?s) (loadInstanceAndCompiled e at aid) (\<lambda>r s. r = Inr (cm, inst) \<and> s = ?s)"
    unfolding loadInstanceAndCompiled_def
    by (rule triple_attempt [OF triple_get_stored [OF st]]) (auto simp: cm intro!: triple_ok triple_pure)
  have "triple view (\<lambda>s. s = ?s) (attempt (commitTransition e cm inst ct target name actor params) fail
       (\<lambda>(event, moved). runPostCommit e cm moved ct event (wi_CurrentState inst) params start)) ?Q" for start
    by (rule triple_attempt [OF com]) (use post in auto)
  then have run: "triple view (\<lambda>s. s = ?s) (attempt (validateTransition e cm inst name params) fail (\<lambda>(ct, target).
       attempt (commitTransition e cm inst ct target name actor params) fail
       (\<lambda>(event, moved). runPostCommit e cm moved ct event (wi_CurrentState inst) params start))) ?Q" for start
    by (simp add: validateTransition_accepts [OF mv] attempt_ok)
  have "triple view (\<lambda>s. s = ?s) (Transition e at aid name actor params) ?Q"
    unfolding Transition_def using sd
    by (auto simp: checkShutdown_def aip intro!: triple_bind_clock triple_attempt [OF load] triple_pure run)
  moreover obtain r w' where r: "run_state (Transition e at aid name actor params) w = (r, w')" by fastforce
  ultimately have "?Q r (view w')" by (auto dest: tripleD)
  with r show ?thesis by blast
qed

end

end
