(* ===== verification/Flow_Memstore.thy ===== *)
theory Flow_Memstore
  imports Flow_Steps
begin

text \<open>
  The in-memory adapters: \<open>adapters/memstore\<close>, \<open>adapters/memrunner\<close>, \<open>adapters/chanbus\<close> and the
  \<open>FakeClock\<close> of \<open>testutil\<close>, over one world that holds the state of all of them. User code (activities,
  bus handlers, observers) works on a part \<open>'u\<close> of its own. The world also holds the wall clock that
  \<open>time.Now\<close> reads and the bytes \<open>crypto/rand\<close> is going to return.
\<close>

section \<open>The world\<close>

record 'u memworld =
  mw_instances :: "(string, WorkflowInstance) gomap"
  mw_events :: "DomainEvent list"
  mw_tasks :: "(string, PendingTask) gomap"
  mw_children :: "ChildRelation list"
  mw_invocations :: "(string, ActivityInvocation) gomap"
  mw_now :: gtime
  mw_wall :: gtime
  mw_entropy :: "8 word list list"
  mw_user :: 'u

text \<open>Reading and changing the world.\<close>

definition asks :: "('w \<Rightarrow> 'a) \<Rightarrow> ('w, 'a) state" where
  "asks f = State (\<lambda>w. (f w, w))"

definition modifies :: "('w \<Rightarrow> 'a \<times> 'w) \<Rightarrow> ('w, 'a) state" where
  "modifies f = State f"

lemma run_asks [simp]: "run_state (asks f) w = (f w, w)"
  by (simp add: asks_def)

lemma run_modifies [simp]: "run_state (modifies f) w = f w"
  by (simp add: modifies_def)

section \<open>Instance store\<close>

definition key :: "string \<Rightarrow> string \<Rightarrow> string" where
  "key aggregateType aggregateID = aggregateType @ '':'' @ aggregateID"

definition InstanceStore_Get :: "string \<Rightarrow> string \<Rightarrow> ('u memworld, WorkflowInstance) prog" where
  "InstanceStore_Get aggregateType aggregateID = asks (\<lambda>w.
     case map_of (mw_instances w) (key aggregateType aggregateID) of
       None \<Rightarrow> Inl (Sentinel ErrInstanceNotFound)
     | Some inst \<Rightarrow> Inr inst)"

definition InstanceStore_Create :: "gval \<Rightarrow> WorkflowInstance \<Rightarrow> 'u memworld proc" where
  "InstanceStore_Create tx inst = modifies (\<lambda>w.
     (None, w\<lparr>mw_instances := mput (key (wi_AggregateType inst) (wi_AggregateID inst)) inst (mw_instances w)\<rparr>))"

definition InstanceStore_Update :: "gval \<Rightarrow> WorkflowInstance \<Rightarrow> 'u memworld proc" where
  "InstanceStore_Update tx inst = modifies (\<lambda>w.
     let k = key (wi_AggregateType inst) (wi_AggregateID inst) in
     case map_of (mw_instances w) k of
       None \<Rightarrow> (Some (Sentinel ErrInstanceNotFound), w)
     | Some existing \<Rightarrow>
         if wi_LastReadUpdatedAt inst \<noteq> 0 \<and> wi_UpdatedAt existing \<noteq> wi_LastReadUpdatedAt inst
         then (Some (Sentinel ErrConcurrentModification), w)
         else (None, w\<lparr>mw_instances := mput k inst (mw_instances w)\<rparr>))"

definition InstanceStore_ListStuck :: "('u memworld, WorkflowInstance list) prog" where
  "InstanceStore_ListStuck = asks (\<lambda>w. Inr (filter wi_IsStuck (map snd (mw_instances w))))"

definition NewInstanceStore :: "'u memworld InstanceStore" where
  "NewInstanceStore =
     \<lparr>is_Get = InstanceStore_Get, is_Create = InstanceStore_Create, is_Update = InstanceStore_Update,
      is_ListStuck = InstanceStore_ListStuck\<rparr>"

section \<open>Event store\<close>

definition EventStore_Append :: "gval \<Rightarrow> DomainEvent \<Rightarrow> 'u memworld proc" where
  "EventStore_Append tx event = modifies (\<lambda>w. (None, w\<lparr>mw_events := mw_events w @ [event]\<rparr>))"

definition EventStore_ListByCorrelation :: "string \<Rightarrow> ('u memworld, DomainEvent list) prog" where
  "EventStore_ListByCorrelation correlationID =
     asks (\<lambda>w. Inr (filter (\<lambda>ev. ev_CorrelationID ev = correlationID) (mw_events w)))"

definition EventStore_ListByAggregate :: "string \<Rightarrow> string \<Rightarrow> ('u memworld, DomainEvent list) prog" where
  "EventStore_ListByAggregate aggregateType aggregateID =
     asks (\<lambda>w. Inr (filter (\<lambda>ev. ev_AggregateType ev = aggregateType \<and> ev_AggregateID ev = aggregateID)
                      (mw_events w)))"

definition NewEventStore :: "'u memworld EventStore" where
  "NewEventStore =
     \<lparr>es_Append = EventStore_Append, es_ListByCorrelation = EventStore_ListByCorrelation,
      es_ListByAggregate = EventStore_ListByAggregate\<rparr>"

section \<open>Transactions\<close>

text \<open>The empty struct \<open>Begin\<close> returns is an opaque value; none of the three has an effect.\<close>

definition NewTxProvider :: "'u memworld TxProvider" where
  "NewTxProvider =
     \<lparr>tx_Begin = ok (GOpaque 0), tx_Commit = (\<lambda>tx. ret None), tx_Rollback = (\<lambda>tx. ret None),
      tx_Savepoints = None\<rparr>"

section \<open>Task store\<close>

definition TaskStore_Create :: "gval \<Rightarrow> PendingTask \<Rightarrow> 'u memworld proc" where
  "TaskStore_Create tx task = modifies (\<lambda>w. (None, w\<lparr>mw_tasks := mput (tk_ID task) task (mw_tasks w)\<rparr>))"

definition TaskStore_Get :: "string \<Rightarrow> ('u memworld, PendingTask) prog" where
  "TaskStore_Get taskID = asks (\<lambda>w.
     case map_of (mw_tasks w) taskID of None \<Rightarrow> Inl (Sentinel ErrTaskNotFound) | Some task \<Rightarrow> Inr task)"

definition TaskStore_GetByAggregate :: "string \<Rightarrow> string \<Rightarrow> ('u memworld, PendingTask list) prog" where
  "TaskStore_GetByAggregate aggregateType aggregateID =
     asks (\<lambda>w. Inr (filter (\<lambda>t. tk_AggregateType t = aggregateType \<and> tk_AggregateID t = aggregateID)
                      (map snd (mw_tasks w))))"

definition TaskStore_Complete :: "gval \<Rightarrow> string \<Rightarrow> string \<Rightarrow> string \<Rightarrow> 'u memworld proc" where
  "TaskStore_Complete tx taskID choice actorID = modifies (\<lambda>w.
     case map_of (mw_tasks w) taskID of
       None \<Rightarrow> (Some (Sentinel ErrTaskNotFound), w)
     | Some task \<Rightarrow>
         if tk_Status task = TaskStatusCompleted then (Some (Sentinel ErrTaskAlreadyCompleted), w)
         else (None, w\<lparr>mw_tasks := mput taskID
                (task\<lparr>tk_Status := TaskStatusCompleted, tk_Choice := choice, tk_CompletedBy := actorID,
                      tk_CompletedAt := Some (mw_wall w)\<rparr>) (mw_tasks w)\<rparr>))"

definition TaskStore_ListPending :: "('u memworld, PendingTask list) prog" where
  "TaskStore_ListPending =
     asks (\<lambda>w. Inr (filter (\<lambda>t. tk_Status t = TaskStatusPending) (map snd (mw_tasks w))))"

definition cancelIn :: "string \<Rightarrow> string \<Rightarrow> string list \<Rightarrow> PendingTask \<Rightarrow> PendingTask" where
  "cancelIn aggregateType aggregateID states t =
     (if tk_AggregateType t = aggregateType \<and> tk_AggregateID t = aggregateID \<and>
         tk_Status t = TaskStatusPending \<and> tk_State t \<in> set states
      then t\<lparr>tk_Status := TaskStatusCancelled\<rparr> else t)"

definition TaskStore_InvalidateByStates ::
  "gval \<Rightarrow> string \<Rightarrow> string \<Rightarrow> string list \<Rightarrow> 'u memworld proc" where
  "TaskStore_InvalidateByStates tx aggregateType aggregateID states = modifies (\<lambda>w.
     if states = [] then (None, w)
     else (None, w\<lparr>mw_tasks := map (\<lambda>(i, t). (i, cancelIn aggregateType aggregateID states t)) (mw_tasks w)\<rparr>))"

definition TaskStore_ListExpired :: "('u memworld, PendingTask list) prog" where
  "TaskStore_ListExpired =
     asks (\<lambda>w. Inr (filter (\<lambda>t. tk_Status t = TaskStatusPending \<and> tk_ExpiresAt t \<noteq> 0 \<and>
                                mw_wall w > tk_ExpiresAt t) (map snd (mw_tasks w))))"

definition NewTaskStore :: "'u memworld TaskStore" where
  "NewTaskStore =
     \<lparr>ts_Create = TaskStore_Create, ts_Get = TaskStore_Get, ts_GetByAggregate = TaskStore_GetByAggregate,
      ts_Complete = TaskStore_Complete, ts_ListPending = TaskStore_ListPending,
      ts_ListExpired = TaskStore_ListExpired,
      ts_InvalidateByStates = Some TaskStore_InvalidateByStates\<rparr>"

section \<open>Child store\<close>

definition ChildStore_Create :: "gval \<Rightarrow> ChildRelation \<Rightarrow> 'u memworld proc" where
  "ChildStore_Create tx relation = modifies (\<lambda>w. (None, w\<lparr>mw_children := mw_children w @ [relation]\<rparr>))"

definition isChild :: "string \<Rightarrow> string \<Rightarrow> ChildRelation \<Rightarrow> bool" where
  "isChild childAggregateType childAggregateID c =
     (cr_ChildAggregateType c = childAggregateType \<and> cr_ChildAggregateID c = childAggregateID)"

definition notFoundChild :: gerr where
  "notFoundChild = Errorf ''flowstep: child relation not found'' [] None"

definition ChildStore_GetByChild :: "string \<Rightarrow> string \<Rightarrow> ('u memworld, ChildRelation) prog" where
  "ChildStore_GetByChild childAggregateType childAggregateID = asks (\<lambda>w.
     case find (isChild childAggregateType childAggregateID) (mw_children w) of
       None \<Rightarrow> Inl notFoundChild | Some c \<Rightarrow> Inr c)"

definition ChildStore_GetByParent :: "string \<Rightarrow> string \<Rightarrow> ('u memworld, ChildRelation list) prog" where
  "ChildStore_GetByParent parentAggregateType parentAggregateID =
     asks (\<lambda>w. Inr (filter (\<lambda>c. cr_ParentAggregateType c = parentAggregateType \<and>
                                cr_ParentAggregateID c = parentAggregateID) (mw_children w)))"

definition ChildStore_GetByGroup :: "string \<Rightarrow> ('u memworld, ChildRelation list) prog" where
  "ChildStore_GetByGroup groupID = asks (\<lambda>w. Inr (filter (\<lambda>c. cr_GroupID c = groupID) (mw_children w)))"

fun completeChild :: "string \<Rightarrow> string \<Rightarrow> string \<Rightarrow> gtime \<Rightarrow> ChildRelation list \<Rightarrow> ChildRelation list option" where
  "completeChild at aid terminalState now [] = None"
| "completeChild at aid terminalState now (c # cs) =
     (if isChild at aid c
      then Some (c\<lparr>cr_Status := ChildStatusCompleted, cr_ChildTerminalState := terminalState,
                   cr_CompletedAt := Some now\<rparr> # cs)
      else map_option (\<lambda>rest. c # rest) (completeChild at aid terminalState now cs))"

definition ChildStore_Complete :: "gval \<Rightarrow> string \<Rightarrow> string \<Rightarrow> string \<Rightarrow> 'u memworld proc" where
  "ChildStore_Complete tx childAggregateType childAggregateID terminalState = modifies (\<lambda>w.
     case completeChild childAggregateType childAggregateID terminalState (mw_wall w) (mw_children w) of
       None \<Rightarrow> (Some notFoundChild, w)
     | Some cs \<Rightarrow> (None, w\<lparr>mw_children := cs\<rparr>))"

definition NewChildStore :: "'u memworld ChildStore" where
  "NewChildStore =
     \<lparr>ch_Create = ChildStore_Create, ch_GetByChild = ChildStore_GetByChild,
      ch_GetByParent = ChildStore_GetByParent, ch_GetByGroup = ChildStore_GetByGroup,
      ch_Complete = ChildStore_Complete\<rparr>"

section \<open>Activity store\<close>

definition notFoundInvocation :: gerr where
  "notFoundInvocation = Errorf ''flowstep: activity invocation not found'' [] None"

definition ActivityStore_Create :: "gval \<Rightarrow> ActivityInvocation \<Rightarrow> 'u memworld proc" where
  "ActivityStore_Create tx invocation =
     modifies (\<lambda>w. (None, w\<lparr>mw_invocations := mput (ai_ID invocation) invocation (mw_invocations w)\<rparr>))"

definition ActivityStore_Get :: "string \<Rightarrow> ('u memworld, ActivityInvocation) prog" where
  "ActivityStore_Get invocationID = asks (\<lambda>w.
     case map_of (mw_invocations w) invocationID of None \<Rightarrow> Inl notFoundInvocation | Some i \<Rightarrow> Inr i)"

definition ActivityStore_UpdateStatus :: "string \<Rightarrow> string \<Rightarrow> ActivityResult option \<Rightarrow> 'u memworld proc" where
  "ActivityStore_UpdateStatus invocationID status result = modifies (\<lambda>w.
     case map_of (mw_invocations w) invocationID of
       None \<Rightarrow> (Some notFoundInvocation, w)
     | Some i \<Rightarrow> (None, w\<lparr>mw_invocations := mput invocationID (i\<lparr>ai_Status := status, ai_Result := result\<rparr>)
                               (mw_invocations w)\<rparr>))"

definition selectInvocations :: "(ActivityInvocation \<Rightarrow> bool) \<Rightarrow> ('u memworld, ActivityInvocation list) prog" where
  "selectInvocations p = asks (\<lambda>w. Inr (filter p (map snd (mw_invocations w))))"

definition ActivityStore_ListByAggregate :: "string \<Rightarrow> string \<Rightarrow> ('u memworld, ActivityInvocation list) prog" where
  "ActivityStore_ListByAggregate aggregateType aggregateID =
     selectInvocations (\<lambda>i. ai_AggregateType i = aggregateType \<and> ai_AggregateID i = aggregateID)"

definition ActivityStore_ListPending :: "('u memworld, ActivityInvocation list) prog" where
  "ActivityStore_ListPending = selectInvocations (\<lambda>i. ai_Status i = ActivityStatusScheduled)"

definition ActivityStore_ListFailed :: "('u memworld, ActivityInvocation list) prog" where
  "ActivityStore_ListFailed = selectInvocations (\<lambda>i. ai_Status i = ActivityStatusFailed)"

definition ActivityStore_ListRetryable :: "('u memworld, ActivityInvocation list) prog" where
  "ActivityStore_ListRetryable =
     selectInvocations (\<lambda>i. ai_Status i = ActivityStatusFailed \<and> ai_RetryPolicy i \<noteq> None \<and>
                            ai_Attempts i < ai_MaxAttempts i)"

definition NewActivityStore :: "'u memworld ActivityStore" where
  "NewActivityStore =
     \<lparr>as_Create = ActivityStore_Create, as_Get = ActivityStore_Get,
      as_UpdateStatus = ActivityStore_UpdateStatus, as_ListByAggregate = ActivityStore_ListByAggregate,
      as_ListPending = ActivityStore_ListPending, as_ListFailed = ActivityStore_ListFailed,
      as_ListRetryable = ActivityStore_ListRetryable\<rparr>"

section \<open>Runner, bus and clock\<close>

text \<open>User code runs on the user part of the world.\<close>

definition onUser :: "('u, 'a) state \<Rightarrow> ('u memworld, 'a) state" where
  "onUser m = modifies (\<lambda>w. case run_state m (mw_user w) of (r, u) \<Rightarrow> (r, w\<lparr>mw_user := u\<rparr>))"

type_synonym 'u userActivity = "string \<times> (ActivityInput \<Rightarrow> ('u, ActivityResult option) prog)"

definition liftActivity :: "'u userActivity \<Rightarrow> 'u memworld Activity" where
  "liftActivity act = \<lparr>ac_Name = fst act, ac_Execute = (\<lambda>input. onUser (snd act input))\<rparr>"

definition Runner_Register ::
  "'w Activity \<Rightarrow> (string, 'w Activity) gomap \<Rightarrow> (string, 'w Activity) gomap" where
  "Runner_Register activity activities = mput (ac_Name activity) activity activities"

definition Runner_Dispatch :: "(string, 'w Activity) gomap \<Rightarrow> ActivityInvocation \<Rightarrow> 'w proc" where
  "Runner_Dispatch activities invocation =
     (case map_of activities (ai_ActivityName invocation) of
        None \<Rightarrow> ret (Some (Sentinel ErrActivityNotRegistered))
      | Some activity \<Rightarrow>
          attempt (ac_Execute activity (ai_Input invocation)) (\<lambda>err. ret (Some err)) (\<lambda>_. ret None))"

definition NewRunner :: "(string, 'w Activity) gomap \<Rightarrow> 'w ActivityRunner" where
  "NewRunner activities =
     \<lparr>rn_Dispatch = Runner_Dispatch activities, rn_Resolve = Some (map_of activities)\<rparr>"

definition Bus_Emit :: "(DomainEvent \<Rightarrow> ('w, unit) state) list \<Rightarrow> DomainEvent \<Rightarrow> 'w proc" where
  "Bus_Emit handlers event = do { each (\<lambda>h. h event) handlers; ret None }"

definition NewBus :: "(DomainEvent \<Rightarrow> ('w, unit) state) list \<Rightarrow> 'w EventBus" where
  "NewBus handlers = \<lparr>bus_Emit = Bus_Emit handlers\<rparr>"

definition FakeClock_Now :: "('u memworld, gtime) state" where
  "FakeClock_Now = asks mw_now"

definition FakeClock_Advance :: "int \<Rightarrow> ('u memworld, unit) state" where
  "FakeClock_Advance d = modifies (\<lambda>w. ((), w\<lparr>mw_now := mw_now w + d\<rparr>))"

definition FakeClock_Set :: "gtime \<Rightarrow> ('u memworld, unit) state" where
  "FakeClock_Set t = modifies (\<lambda>w. ((), w\<lparr>mw_now := t\<rparr>))"

text \<open>The random source hands out the next prepared block, then blocks of zeros.\<close>

definition readEntropy :: "('u memworld, 8 word list) state" where
  "readEntropy = modifies (\<lambda>w.
     case mw_entropy w of
       [] \<Rightarrow> (replicate 16 0, w)
     | b # bs \<Rightarrow> (b, w\<lparr>mw_entropy := bs\<rparr>))"

section \<open>The test engine\<close>

text \<open>\<open>NewTestEngine\<close> of \<open>testutil/engine.go\<close>, with the activities and handlers registered on it.\<close>

definition testDeps :: "'u userActivity list \<Rightarrow> (DomainEvent \<Rightarrow> ('u, unit) state) list \<Rightarrow> 'u memworld Deps" where
  "testDeps acts handlers =
     \<lparr>dp_EventStore = NewEventStore, dp_InstanceStore = NewInstanceStore, dp_TaskStore = Some NewTaskStore,
      dp_ChildStore = Some NewChildStore, dp_ActivityStore = Some NewActivityStore,
      dp_TxProvider = NewTxProvider,
      dp_EventBus = Some (NewBus (map (\<lambda>h event. onUser (h event)) handlers)),
      dp_ActivityRunner = Some (NewRunner (fold Runner_Register (map liftActivity acts) [])),
      dp_Clock = FakeClock_Now, dp_Observers = Some (NewObserverRegistry []), dp_RandRead = readEntropy\<rparr>"

definition NewTestEngine ::
  "'u userActivity list \<Rightarrow> (DomainEvent \<Rightarrow> ('u, unit) state) list \<Rightarrow> gerr + 'u memworld Engine" where
  "NewTestEngine acts handlers =
     NewEngine (asks mw_wall) readEntropy
       [WithEventStore NewEventStore, WithInstanceStore NewInstanceStore, WithTaskStore NewTaskStore,
        WithChildStore NewChildStore, WithActivityStore NewActivityStore, WithTxProvider NewTxProvider,
        WithEventBus (NewBus (map (\<lambda>h event. onUser (h event)) handlers)),
        WithActivityRunner (NewRunner (fold Runner_Register (map liftActivity acts) [])),
        WithClock FakeClock_Now]"

lemma NewTestEngine_deps: "NewTestEngine acts handlers = Inr (New (testDeps acts handlers))"
  by (simp add: NewTestEngine_def NewEngine_def testDeps_def zero_config_def
      WithEventStore_def WithInstanceStore_def WithTaskStore_def WithChildStore_def WithActivityStore_def
      WithTxProvider_def WithEventBus_def WithActivityRunner_def WithClock_def)

section \<open>The adapters keep the contracts\<close>

definition mem_view :: "'u memworld \<Rightarrow> string storeview" where
  "mem_view w = \<lparr>v_insts = map_of (mw_instances w), v_events = mw_events w, v_now = mw_now w\<rparr>"

lemma mem_view_sel [simp]:
  "v_insts (mem_view w) = map_of (mw_instances w)" "v_events (mem_view w) = mw_events w"
  "v_now (mem_view w) = mw_now w"
  by (simp_all add: mem_view_def)

lemma map_of_mput_fun: "map_of (mput k v m) = (map_of m)(k \<mapsto> v)"
  by (simp add: update_conv')

interpretation mem_instances: instance_store mem_view key NewInstanceStore
  by unfold_locales
    (auto simp: NewInstanceStore_def InstanceStore_Get_def InstanceStore_Create_def
      InstanceStore_Update_def keeps_def update_error_def put_inst_def inst_key_def Let_def mem_view_def
      map_of_mput_fun split: option.splits)

interpretation mem_events: event_store mem_view NewEventStore
  by unfold_locales
    (simp_all add: NewEventStore_def EventStore_Append_def EventStore_ListByAggregate_def
      EventStore_ListByCorrelation_def add_event_def mem_view_def)

interpretation mem_tx: direct_tx mem_view NewTxProvider
  by unfold_locales (simp_all add: NewTxProvider_def keeps_def)

lemma keeps_onUser: "keeps mem_view (onUser m)"
  by (simp add: keeps_def onUser_def mem_view_def split: prod.splits)

lemma keeps_mem_view_same:
  assumes "\<And>w. mw_instances (snd (f w)) = mw_instances w" "\<And>w. mw_events (snd (f w)) = mw_events w"
    "\<And>w. mw_now (snd (f w)) = mw_now w"
  shows "keeps mem_view (modifies f)"
  using assms by (simp add: keeps_def mem_view_def)

lemma keeps_asks: "keeps v (asks f)"
  by (simp add: keeps_def)

lemma map_of_Register:
  "map_of (fold Runner_Register (map liftActivity acts) m) name = Some act \<Longrightarrow>
     (\<forall>n a. map_of m n = Some a \<longrightarrow> (\<exists>ua. a = liftActivity ua)) \<Longrightarrow> \<exists>ua. act = liftActivity ua"
proof (induction acts arbitrary: m)
  case (Cons a acts)
  from Cons.prems(2) have "\<forall>n x. map_of (Runner_Register (liftActivity a) m) n = Some x \<longrightarrow> (\<exists>ua. x = liftActivity ua)"
    by (auto simp: Runner_Register_def simp del: split_paired_Ex)
  with Cons.IH [of "Runner_Register (liftActivity a) m"] Cons.prems(1) show ?case by simp
qed auto

lemma keeps_registered:
  assumes "map_of (fold Runner_Register (map liftActivity acts) []) name = Some act"
  shows "keeps mem_view (ac_Execute act input)"
proof -
  from map_of_Register [OF assms] obtain ua where "act = liftActivity ua" by auto
  then show ?thesis by (simp add: liftActivity_def keeps_onUser)
qed

lemma wired_env:
  assumes "en_deps e = testDeps acts handlers"
  shows "engine_env mem_view key e"
proof unfold_locales
  fix rn rs name act input
  assume "dp_ActivityRunner (en_deps e) = Some rn" "rn_Resolve rn = Some rs" "rs name = Some act"
  then show "keeps mem_view (ac_Execute act input)"
    by (auto simp: assms testDeps_def NewRunner_def intro: keeps_registered)
next
  fix rn ivc
  assume "dp_ActivityRunner (en_deps e) = Some rn"
  then show "keeps mem_view (rn_Dispatch rn ivc)"
    by (auto simp: assms testDeps_def NewRunner_def Runner_Dispatch_def split: option.splits
        intro!: keeps_ret keeps_attempt intro: keeps_registered)
next
  fix bus event
  assume "dp_EventBus (en_deps e) = Some bus"
  moreover have "keeps mem_view (each (\<lambda>h. h event) (map (\<lambda>h event. onUser (h event)) handlers))"
    by (induction handlers) (auto intro!: keeps_ret keeps_bind keeps_onUser)
  ultimately show "keeps mem_view (bus_Emit bus event)"
    by (auto simp: assms testDeps_def NewBus_def Bus_Emit_def intro!: keeps_bind keeps_ret)
next
  fix ts tx task tid choice actor invalidate at aid states
  assume "dp_TaskStore (en_deps e) = Some ts"
  then show "keeps mem_view (ts_Create ts tx task) \<and> keeps mem_view (ts_Get ts tid) \<and>
      keeps mem_view (ts_Complete ts tx tid choice actor) \<and>
      (ts_InvalidateByStates ts = Some invalidate \<longrightarrow> keeps mem_view (invalidate tx at aid states))"
    by (auto simp: assms testDeps_def NewTaskStore_def TaskStore_Create_def TaskStore_Get_def
        TaskStore_Complete_def TaskStore_InvalidateByStates_def split: option.splits
        intro!: keeps_asks keeps_mem_view_same)
next
  fix ch tx rel at aid gid final
  assume "dp_ChildStore (en_deps e) = Some ch"
  then show "keeps mem_view (ch_Create ch tx rel) \<and> keeps mem_view (ch_GetByChild ch at aid) \<and>
      keeps mem_view (ch_GetByGroup ch gid) \<and> keeps mem_view (ch_Complete ch tx at aid final)"
    by (auto simp: assms testDeps_def NewChildStore_def ChildStore_Create_def ChildStore_GetByChild_def
        ChildStore_GetByGroup_def ChildStore_Complete_def split: option.splits
        intro!: keeps_asks keeps_mem_view_same)
next
  fix ast tx ivc
  assume "dp_ActivityStore (en_deps e) = Some ast"
  then show "keeps mem_view (as_Create ast tx ivc)"
    by (auto simp: assms testDeps_def NewActivityStore_def ActivityStore_Create_def
        intro!: keeps_mem_view_same)
qed (auto simp: assms testDeps_def FakeClock_Now_def readEntropy_def NewObserverRegistry_sel map_filter_simps
      mem_instances.get_result mem_instances.get_keeps mem_instances.create_result mem_instances.create_view
      mem_instances.update_result mem_instances.update_view mem_events.append_result mem_events.append_view
      mem_events.list_aggregate mem_events.list_correlation mem_tx.begin_result mem_tx.commit_result
      mem_tx.begin_keeps mem_tx.commit_keeps mem_tx.rollback_keeps mem_tx.no_savepoints
      intro!: keeps_mem_view_same keeps_asks split: list.splits)

interpretation wired: engine_env mem_view key "e\<lparr>en_deps := testDeps acts handlers\<rparr>" for e acts handlers
  by (rule wired_env) simp

end
