(* ===== verification/Flow_Transitions.thy ===== *)
theory Flow_Transitions
  imports Flow_Memstore
begin

text \<open>
  What \<open>Transition\<close> does on the engine wired to the in-memory adapters, as \<open>testutil.NewTestEngine\<close>
  builds it: the effect of a success, the effect of a failure, and that an allowed transition
  succeeds. The order workflow is the concrete case of the witnesses.
\<close>

section \<open>The order workflow on the test engine\<close>

definition order_engine :: "unit memworld Engine" where
  "order_engine = commitDefinition order_def order_cm (New (testDeps [] []))"

definition order_inst :: "string \<Rightarrow> WorkflowInstance" where
  "order_inst s = zero_instance\<lparr>wi_ID := ''i1'', wi_WorkflowType := ''order_workflow'', wi_WorkflowVersion := 1,
     wi_AggregateType := ''order'', wi_AggregateID := ''o1'', wi_CurrentState := s,
     wi_CorrelationID := ''c1'', wi_CreatedAt := 500, wi_UpdatedAt := 500\<rparr>"

definition order_world :: "WorkflowInstance \<Rightarrow> unit memworld" where
  "order_world inst =
     \<lparr>mw_instances = [(key ''order'' ''o1'', inst)], mw_events = [], mw_tasks = [], mw_children = [],
      mw_invocations = [], mw_now = 1000, mw_wall = 2000, mw_entropy = [], mw_user = ()\<rparr>"

lemma order_engine_deps [simp]: "en_deps order_engine = testDeps [] []" "\<not> en_shutdown order_engine"
  by (simp_all add: order_engine_def commitDefinition_def New_def)

lemma order_engine_compiled [simp]:
  "compiledFor order_engine ''order'' 0 = Some order_cm" "compiledFor order_engine ''order'' 1 = Some order_cm"
  by (simp_all add: compiledFor_def order_engine_def commitDefinition_def New_def order_sel put2_def)

lemma order_inst_sel [simp]:
  "wi_WorkflowVersion (order_inst s) = 1" "wi_AggregateType (order_inst s) = ''order''"
  "wi_AggregateID (order_inst s) = ''o1''" "wi_CurrentState (order_inst s) = s"
  "wi_ActiveInParallel (order_inst s) = None" "wi_UpdatedAt (order_inst s) = 500"
  by (simp_all add: order_inst_def zero_instance_def)

lemma order_world_view [simp]:
  "mw_instances (order_world inst) = [(key ''order'' ''o1'', inst)]" "mw_events (order_world inst) = []"
  "mw_now (order_world inst) = 1000"
  by (simp_all add: order_world_def)

lemma order_world_keyed: "well_keyed key (mem_view (order_world (order_inst s)))"
  by (simp add: well_keyed_def inst_key_def)

lemma no_activities_succeed: "activitiesSucceed (testDeps [] handlers)"
  by (simp add: activitiesSucceed_def runSyncActivity_def testDeps_def NewRunner_def)

lemma order_begin: "\<exists>ct. validMove order_cm (order_inst ''NEW'') ''begin'' None ct ''PROC'' \<and> \<not> nilInputs ct \<and> resolveTarget order_cm (order_inst ''NEW'') ct ''PROC'' = ''REVIEW''"
proof -
  let ?tr = "s_edge ''begin'' [''NEW''] ''PROC''"
  let ?ct = "compileTransition ?tr"
  have "map_of (df_Transitions (cm_Definition order_cm)) ''begin'' = Some ?tr" 
    unfolding Compile_Definition [OF order_compiles] by (simp add: order_def_def order_transitions_def)
  moreover have "\<not> isTerminalState order_cm ''NEW''" by code_simp
  moreover have "effectiveSource order_cm ?tr ''NEW'' = Some ''NEW''" by code_simp
  moreover have "find (\<lambda>c. tr_Name (ct_Def c) = ''begin'') (cts_of (cm_TransitionsByState order_cm) ''NEW'') = Some ?ct"
    using Compile_find_transition [OF order_compiles order_links(4), of "''begin''" ?tr "''NEW''"]
    by (simp add: order_def_def order_transitions_def s_edge_def)
  moreover have "leaf_in order_cm ''PROC'' = ''REVIEW''" by code_simp
  ultimately show ?thesis
    by (intro exI [of _ ?ct]) (auto simp: validMove_def guardsPass_def targetOf_def nilInputs_def resolveTarget_def compileTransition_def s_edge_def)
qed

text \<open>
  C1. A successful \<open>Transition\<close> takes exactly one step of the state machine, from the stored instance
  or from a new one if there was none: the instance it returns is the one it stored and the only
  instance that changed, exactly one event was appended, which is the one it returns, and the event
  and the result describe that step (transition name, previous and new state, time of the clock).
\<close>

theorem Transition_success:
  assumes "en_deps e = testDeps acts handlers" "well_keyed key (mem_view w)"
    "run_state (Transition e at aid name actor params) w = (Inr res, w')"
  shows "map_of (mw_instances w') = (map_of (mw_instances w))(key at aid \<mapsto> rs_Instance res) \<and>
    mw_events w' = mw_events w @ [rs_Event res] \<and>
    (\<exists>cm inst ct. (case map_of (mw_instances w) (key at aid) of
          Some stored \<Rightarrow> inst = stored \<and> compiledFor e at (wi_WorkflowVersion inst) = Some cm
        | None \<Rightarrow> (\<exists>i c. inst = newInstance cm at aid i c (mw_now w)) \<and> compiledFor e at 0 = Some cm) \<and>
      inst_step cm inst name params (mw_now w) ct (rs_Instance res) \<and>
      event_of cm inst name (mw_now w) (rs_Event res) \<and>
      reports cm (rs_Instance res) (rs_Event res) (wi_CurrentState inst) res)"
proof -
  from tripleD [OF engine_env.triple_Transition [OF wired_env [OF assms(1)] assms(2)] assms(3) refl]
  obtain cm inst s1 where l: "loads key e (mem_view w) at aid cm inst s1"
    and st: "stepped key cm inst name params s1 (Inr res) (mem_view w')" by auto
  note lv = loads_view [OF l assms(2)]
  from st obtain ct where step: "inst_step cm inst name params (mw_now w) ct (rs_Instance res)"
    and ev: "event_of cm inst name (mw_now w) (rs_Event res)"
    and rep: "reports cm (rs_Instance res) (rs_Event res) (wi_CurrentState inst) res"
    and v: "mem_view w' = put_inst key (rs_Instance res) (add_event (rs_Event res) s1)"
    using lv(2) by (auto simp: stepped_def)
  from inst_step_key [OF step, of key] lv(1) have "inst_key key (rs_Instance res) = key at aid" by simp
  with v have "v_insts (mem_view w') = (v_insts s1)(key at aid \<mapsto> rs_Instance res)"
    "v_events (mem_view w') = v_events s1 @ [rs_Event res]"
    by simp_all
  with lv(3,4) have "map_of (mw_instances w') = (map_of (mw_instances w))(key at aid \<mapsto> rs_Instance res)"
    "mw_events w' = mw_events w @ [rs_Event res]" by simp_all
  moreover have "case map_of (mw_instances w) (key at aid) of
          Some stored \<Rightarrow> inst = stored \<and> compiledFor e at (wi_WorkflowVersion inst) = Some cm
        | None \<Rightarrow> (\<exists>i c. inst = newInstance cm at aid i c (mw_now w)) \<and> compiledFor e at 0 = Some cm"
    using l by (auto simp: loads_def split: option.splits)
  ultimately show ?thesis using step ev rep by blast
qed

lemma order_begin_runs:
  obtains res w' ct where
    "run_state (Transition order_engine ''order'' ''o1'' ''begin'' ''u1'' None) (order_world (order_inst ''NEW'')) = (Inr res, w')"
    "rs_Instance res = movedInstance order_cm (order_inst ''NEW'') ct ''PROC'' 1000"
    "wi_CurrentState (rs_Instance res) = ''REVIEW''"
proof -
  from order_begin obtain ct where ct: "validMove order_cm (order_inst ''NEW'') ''begin'' None ct ''PROC''"
    "\<not> nilInputs ct" "resolveTarget order_cm (order_inst ''NEW'') ct ''PROC'' = ''REVIEW''" by blast
  from engine_env.progress_Transition [OF wired_env, of order_engine "[]" "[]" "order_world (order_inst ''NEW'')"
      "''order''" "''o1''" "order_inst ''NEW''" order_cm "''begin''" None ct "''PROC''" "''u1''"]
  obtain res w' where "run_state (Transition order_engine ''order'' ''o1'' ''begin'' ''u1'' None) (order_world (order_inst ''NEW'')) = (Inr res, w')"
    "rs_Instance res = movedInstance order_cm (order_inst ''NEW'') ct ''PROC'' 1000"
    using ct by (force simp: no_activities_succeed inst_key_def)
  with ct(3) that show thesis by simp
qed

theorem Transition_success_witness:
  "\<exists>res w'. run_state (Transition order_engine ''order'' ''o1'' ''begin'' ''u1'' None) (order_world (order_inst ''NEW'')) = (Inr res, w') \<and>
     wi_CurrentState (rs_Instance res) = ''REVIEW'' \<and> mw_events w' = [rs_Event res]"
proof -
  from order_begin_runs obtain res w' ct where r:
    "run_state (Transition order_engine ''order'' ''o1'' ''begin'' ''u1'' None) (order_world (order_inst ''NEW'')) = (Inr res, w')"
    "wi_CurrentState (rs_Instance res) = ''REVIEW''" by metis
  from Transition_success [OF order_engine_deps(1) order_world_keyed r(1)] r show ?thesis by auto
qed

text \<open>
  Every compiled transition of a step is one the machine offers at some state, so a machine whose
  child groups all have an \<open>InputsFn\<close> never takes the panic after the commit.
\<close>

lemma find_mem: "find P xs = Some x \<Longrightarrow> x \<in> set xs"
  by (induction xs) (auto split: if_splits)

lemma inst_step_offered:
  assumes "inst_step cm inst name params now ct inst'"
  shows "\<exists>s. ct \<in> set (cts_of (cm_TransitionsByState cm) s)"
  using assms
proof (cases rule: inst_step.cases)
  case intra: (step_intra tr c cs)
  then have "c \<in> set (List.map_filter (candidateIn cm inst tr name params) (sortedRegions inst))"
    by (metis list.set_intros(1))
  then obtain r where "candidateIn cm inst tr name params r = Some c"
    by (auto simp: map_filter_def)
  then have "pc_ct c \<in> set (cts_of (cm_TransitionsByState cm) (pc_effectiveSrc c))"
    by (auto simp: candidateIn_def Let_def split: if_splits option.splits sum.splits dest: find_mem)
  with intra show ?thesis by blast
qed (auto simp: validMove_def dest: find_mem)

text \<open>
  C2. On the engine over the in-memory adapters (no savepoints), where no registered transition of
  the aggregate type has a child group with a nil \<open>InputsFn\<close>: a failed \<open>Transition\<close> appends no event
  and changes no other instance. The instance itself is unchanged, or was just created in its initial
  state, or an entry activity failed: then it is still in the state it was in, marked stuck with the
  reason the error carries.
\<close>

theorem Transition_failure:
  assumes "en_deps e = testDeps acts handlers" "well_keyed key (mem_view w)"
    "\<forall>v cm s. compiledFor e at v = Some cm \<longrightarrow> (\<forall>ct \<in> set (cts_of (cm_TransitionsByState cm) s). \<not> nilInputs ct)"
    "run_state (Transition e at aid name actor params) w = (Inl err, w')"
  shows "mw_events w' = mw_events w \<and>
    (\<forall>k. k \<noteq> key at aid \<longrightarrow> map_of (mw_instances w') k = map_of (mw_instances w) k) \<and>
    (map_of (mw_instances w') (key at aid) = map_of (mw_instances w) (key at aid) \<or>
     (\<exists>cm i c. compiledFor e at 0 = Some cm \<and> map_of (mw_instances w) (key at aid) = None \<and>
        map_of (mw_instances w') (key at aid) = Some (newInstance cm at aid i c (mw_now w))) \<or>
     (\<exists>inst' reason. map_of (mw_instances w') (key at aid) = Some inst' \<and> wi_IsStuck inst' \<and>
        wi_StuckReason inst' = reason \<and> err = stuckError reason \<and>
        (\<forall>inst. map_of (mw_instances w) (key at aid) = Some inst \<longrightarrow> wi_CurrentState inst' = wi_CurrentState inst)))"
proof -
  from tripleD [OF engine_env.triple_Transition [OF wired_env [OF assms(1)] assms(2)] assms(4) refl]
  consider (same) "mem_view w' = mem_view w"
    | (run) cm inst s1 where "loads key e (mem_view w) at aid cm inst s1"
      "stepped key cm inst name params s1 (Inl err) (mem_view w')" by auto
  then show ?thesis
  proof cases
    case same
    from arg_cong [OF same, of v_insts] arg_cong [OF same, of v_events] show ?thesis by simp
  next
    case run
    note lv = loads_view [OF run(1) assms(2)]
    from run(1) obtain v where "compiledFor e at v = Some cm"
      by (auto simp: loads_def split: option.splits)
    with assms(3) inst_step_offered have "\<not> nilInputs ct"
      if "inst_step cm inst name params (v_now s1) ct moved" for ct moved using that by metis
    with run(2) consider (kept) "mem_view w' = s1"
      | (stuck) reason ct target where "err = stuckError reason" "mem_view w' = put_inst key
          (markStuck (withHistory cm inst ct target) (wi_CurrentState inst) reason (v_now s1)) s1"
      unfolding stepped_def sum.case by blast
    then show ?thesis
    proof cases
      case kept
      from arg_cong [OF kept, of v_insts] arg_cong [OF kept, of v_events] lv run(1) show ?thesis
        by (auto simp: loads_def split: option.splits)
    next
      case stuck
      let ?i = "markStuck (withHistory cm inst ct target) (wi_CurrentState inst) reason (v_now s1)"
      have k: "inst_key key ?i = key at aid" using lv(1) by simp
      from arg_cong [OF stuck(2), of v_insts] arg_cong [OF stuck(2), of v_events] lv
      have v: "map_of (mw_instances w') = (map_of (mw_instances w))(key at aid \<mapsto> ?i)" "mw_events w' = mw_events w"
        by (simp_all add: k)
      have i: "wi_IsStuck ?i" "wi_StuckReason ?i = reason" "wi_CurrentState ?i = wi_CurrentState inst"
        by (simp_all add: markStuck_def)
      have "wi_CurrentState ?i = wi_CurrentState j" if "map_of (mw_instances w) (key at aid) = Some j" for j
        using run(1) i(3) that by (simp add: loads_def)
      with v i stuck(1) show ?thesis by auto
    qed
  qed
qed

lemma order_inputs:
  assumes "compiledFor order_engine ''order'' v = Some cm"
  shows "\<forall>ct \<in> set (cts_of (cm_TransitionsByState cm) s). \<not> nilInputs ct"
proof -
  from assms have "cm = order_cm"
    by (auto simp: compiledFor_def order_engine_def commitDefinition_def New_def order_sel put2_def inner_def split: if_splits)
  moreover have "list_all (\<lambda>(s, cts). list_all (\<lambda>ct. \<not> nilInputs ct) cts) (cm_TransitionsByState order_cm)"
    by code_simp
  ultimately show ?thesis
    by (auto simp: cts_of_def list_all_iff split: option.splits dest!: map_of_SomeD [OF sym])
qed

lemma order_unknown_fails:
  obtains err w' where
    "run_state (Transition order_engine ''order'' ''o1'' ''nothing'' ''u1'' None) (order_world (order_inst ''NEW'')) = (Inl err, w')"
proof -
  obtain r w' where r: "run_state (Transition order_engine ''order'' ''o1'' ''nothing'' ''u1'' None) (order_world (order_inst ''NEW'')) = (r, w')"
    by fastforce
  have "\<nexists>ct t. validMove order_cm i ''nothing'' None ct t" for i
    using Compile_Definition [OF order_compiles]
    by (auto simp: validMove_def order_def_def order_transitions_def)
  moreover have "\<not> inst_step order_cm (order_inst ''NEW'') ''nothing'' None now ct i'" for now ct i'
    using calculation by (auto elim!: inst_stepE)
  ultimately have "\<nexists>res. r = Inr res"
    using tripleD [OF engine_env.triple_Transition [OF wired_env [OF order_engine_deps(1)] order_world_keyed] r refl]
    by (auto simp: loads_def stepped_def)
  with r that show thesis by (cases r) auto
qed

theorem Transition_failure_witness:
  "\<exists>err w'. run_state (Transition order_engine ''order'' ''o1'' ''nothing'' ''u1'' None) (order_world (order_inst ''NEW'')) = (Inl err, w') \<and>
     mw_events w' = [] \<and> (\<forall>k. k \<noteq> key ''order'' ''o1'' \<longrightarrow> map_of (mw_instances w') k = None)"
proof -
  from order_unknown_fails obtain err w' where r:
    "run_state (Transition order_engine ''order'' ''o1'' ''nothing'' ''u1'' None) (order_world (order_inst ''NEW'')) = (Inl err, w')"
    by metis
  have "\<forall>v cm s. compiledFor order_engine ''order'' v = Some cm \<longrightarrow>
     (\<forall>ct \<in> set (cts_of (cm_TransitionsByState cm) s). \<not> nilInputs ct)"
    using order_inputs by blast
  from Transition_failure [OF order_engine_deps(1) order_world_keyed this r] r show ?thesis by auto
qed

text \<open>
  Where a transition to \<open>target\<close> comes to rest: the state recorded for it by a history transition, and
  otherwise the leaf reached from it along the \<open>InitialChild\<close> links. A parallel state is entered as
  it is, and so is the leaf a deep history has recorded.
\<close>

definition lands :: "Definition \<Rightarrow> WorkflowInstance \<Rightarrow> TransitionDef \<Rightarrow> string \<Rightarrow> string \<Rightarrow> bool" where
  "lands def inst tr target leaf \<longleftrightarrow>
     (let down = (\<lambda>s. if st_IsParallel (state_of def s) then leaf = s else initial_leaf def s leaf) in
      case (tr_HistoryMode tr, mlook (wi_ShallowHistory inst) target, mlook (wi_DeepHistory inst) target) of
        (HistoryShallow, Some recorded, _) \<Rightarrow> down recorded
      | (HistoryDeep, _, Some recorded) \<Rightarrow> leaf = recorded
      | _ \<Rightarrow> down target)"

lemma leaf_in_lands:
  assumes "Compile digest def = Some (Inr cm)" "init_links def" "named_compounds def" "wf_map (df_States def)"
  shows "if st_IsParallel (state_of def s) then leaf_in cm s = s else initial_leaf def s (leaf_in cm s)"
proof (cases "map_of (cm_InitialLeafMap cm) s")
  case None
  with Compile_leaf(1) [OF assms, of s] have "\<not> hasInitialLeaf (state_of def s)" by (auto split: if_splits)
  with None show ?thesis by (auto simp: leaf_in_def hasInitialLeaf_def intro: leaf_stop)
next
  case (Some l)
  with Compile_leaf(1) [OF assms, of s] have "hasInitialLeaf (state_of def s)" by (auto split: if_splits)
  with Some Compile_leaf(2) [OF assms Some] show ?thesis by (simp add: leaf_in_def hasInitialLeaf_def)
qed

lemma resolveTarget_lands:
  assumes "Compile digest def = Some (Inr cm)" "init_links def" "named_compounds def" "wf_map (df_States def)"
  shows "lands def inst (ct_Def ct) target (resolveTarget cm inst ct target)"
  using leaf_in_lands [OF assms]
  by (auto simp: lands_def resolveTarget_def Let_def split: HistoryMode.splits option.splits)

lemma validMove_compiled:
  assumes "Compile digest def = Some (Inr cm)" "names_ok def" "map_of (df_Transitions def) name = Some tr"
    "\<not> st_IsTerminal (state_of def (wi_CurrentState inst))"
    "\<exists>src \<in> set (tr_Sources tr). (wi_CurrentState inst, src) \<in> (parent_rel def)\<^sup>*"
    "\<forall>g \<in> set (tr_Guards tr). gd_Check g inst params = None" "targetOf tr inst params = Inr target"
  shows "validMove cm inst name params (compileTransition tr) target"
proof -
  let ?cur = "wi_CurrentState inst"
  have d: "cm_Definition cm = def" by (rule Compile_Definition [OF assms(1)])
  from assms(5) chain_set [OF Compile_chain [OF assms(1), of ?cur]]
  have "?cur \<in> set (tr_Sources tr) \<or> (\<exists>a \<in> set (anc_of (cm_Ancestry cm) ?cur). a \<in> set (tr_Sources tr))"
    by (auto simp: rtrancl_eq_or_trancl)
  then have "effectiveSource cm tr ?cur \<noteq> None"
    using find_None_iff [of "\<lambda>a. a \<in> set (tr_Sources tr)" "anc_of (cm_Ancestry cm) ?cur"]
    by (auto simp: effectiveSource_def)
  then obtain src where src: "effectiveSource cm tr ?cur = Some src" by blast
  then have "src \<in> set (tr_Sources tr)" by (auto simp: effectiveSource_def find_Some_iff split: if_splits)
  from Compile_find_transition [OF assms(1-3) this] src d assms(3,4,6,7) show ?thesis
    by (auto simp: validMove_def isTerminalState_def guardsPass_def compileTransition_def split: option.splits)
qed

text \<open>
  C3. An allowed transition succeeds, on the engine over the in-memory adapters, when no entry or exit
  activity fails and the engine is not shut down. If the instance is stored, not stuck and not in a
  parallel state, its version is registered as the compiled machine of a definition whose links are
  those of the builder, the transition lists its state or an ancestor as a source, the state is not
  terminal, every guard passes, a target is chosen and the child group, if any, has an \<open>InputsFn\<close>,
  then \<open>Transition\<close> returns a result, stores the instance in the state where the target comes to rest
  (the recorded state for a history transition, else the leaf along the \<open>InitialChild\<close> links) and
  appends one event.
\<close>

theorem Transition_progress:
  assumes "en_deps e = testDeps acts handlers" "activitiesSucceed (en_deps e)" "\<not> en_shutdown e"
    and "map_of (mw_instances w) (key at aid) = Some inst" "wi_AggregateType inst = at" "wi_AggregateID inst = aid"
      "\<not> wi_IsStuck inst" "mitems (wi_ActiveInParallel inst) = []"
    and "compiledFor e at (wi_WorkflowVersion inst) = Some cm" "Compile digest def = Some (Inr cm)"
      "init_links def" "named_compounds def" "wf_map (df_States def)" "names_ok def"
    and "map_of (df_Transitions def) name = Some tr" "\<not> st_IsTerminal (state_of def (wi_CurrentState inst))"
      "\<exists>src \<in> set (tr_Sources tr). (wi_CurrentState inst, src) \<in> (parent_rel def)\<^sup>*"
      "\<forall>g \<in> set (tr_Guards tr). gd_Check g inst params = None" "targetOf tr inst params = Inr target"
      "\<forall>group. tr_ChildrenDef tr = Some group \<longrightarrow> cs_InputsFn group \<noteq> None"
  shows "\<exists>res w' leaf. run_state (Transition e at aid name actor params) w = (Inr res, w') \<and>
    lands def inst tr target leaf \<and> rs_PreviousState res = wi_CurrentState inst \<and> rs_NewState res = leaf \<and>
    wi_CurrentState (rs_Instance res) = leaf \<and> wi_UpdatedAt (rs_Instance res) = mw_now w \<and>
    map_of (mw_instances w') = (map_of (mw_instances w))(key at aid \<mapsto> rs_Instance res) \<and>
    mw_events w' = mw_events w @ [rs_Event res] \<and> ev_TransitionName (rs_Event res) = name"
proof -
  let ?ct = "compileTransition tr"
  have ky: "inst_key key inst = key at aid" using assms(5,6) by (simp add: inst_key_def)
  have mv: "validMove cm inst name params ?ct target" by (rule validMove_compiled [OF assms(10,14-19)])
  have ni: "\<not> nilInputs ?ct" using assms(20) by (auto simp: nilInputs_def compileTransition_def split: option.splits)
  from engine_env.progress_Transition [OF wired_env [OF assms(1)] assms(2,3) _ ky assms(9,8) mv ni, of w actor] assms(4)
  obtain res w' where r: "run_state (Transition e at aid name actor params) w = (Inr res, w')"
    "rs_Instance res = movedInstance cm inst ?ct target (mw_now w)"
    "event_of cm inst name (mw_now w) (rs_Event res)"
    "reports cm (rs_Instance res) (rs_Event res) (wi_CurrentState inst) res"
    "mem_view w' = put_inst key (rs_Instance res) (add_event (rs_Event res) (mem_view w))" by auto
  have "lands def inst tr target (resolveTarget cm inst ?ct target)"
    using resolveTarget_lands [OF assms(10-13), of inst ?ct] by (simp add: compileTransition_def)
  moreover from arg_cong [OF r(5), of v_insts] arg_cong [OF r(5), of v_events] ky r(2)
  have "map_of (mw_instances w') = (map_of (mw_instances w))(key at aid \<mapsto> rs_Instance res)"
    "mw_events w' = mw_events w @ [rs_Event res]" by simp_all
  ultimately show ?thesis using r(1-4)
    by (intro exI [of _ res] exI [of _ w'] exI [of _ "resolveTarget cm inst ?ct target"])
      (simp add: reports_def event_of_def)
qed

theorem Transition_progress_witness:
  "\<exists>res w'. run_state (Transition order_engine ''order'' ''o1'' ''begin'' ''u1'' None) (order_world (order_inst ''NEW'')) = (Inr res, w') \<and>
     rs_NewState res = ''REVIEW''"
proof -
  let ?i = "order_inst ''NEW''" and ?tr = "s_edge ''begin'' [''NEW''] ''PROC''"
  have "activitiesSucceed (en_deps order_engine)" by (simp add: no_activities_succeed)
  moreover have "map_of (df_Transitions order_def) ''begin'' = Some ?tr"
    by (simp add: order_def_def order_transitions_def)
  moreover have "\<not> st_IsTerminal (state_of order_def (wi_CurrentState ?i))" by code_simp
  moreover have "\<not> wi_IsStuck ?i" by (simp add: order_inst_def zero_instance_def)
  moreover have "compiledFor order_engine ''order'' (wi_WorkflowVersion ?i) = Some order_cm" by simp
  ultimately obtain res w' leaf where
    r: "run_state (Transition order_engine ''order'' ''o1'' ''begin'' ''u1'' None) (order_world ?i) = (Inr res, w')"
      "lands order_def ?i ?tr ''PROC'' leaf" "rs_NewState res = leaf"
    using Transition_progress [OF order_engine_deps(1) _ order_engine_deps(2), of "order_world ?i" "''order''" "''o1''" ?i
        order_cm "\<lambda>bytes. bytes" order_def "''begin''" ?tr None "''PROC''" "''u1''"] order_compiles order_links
    by (auto simp: s_edge_def targetOf_def)
  have "lands order_def ?i ?tr ''PROC'' (resolveTarget order_cm ?i (compileTransition ?tr) ''PROC'')"
    using resolveTarget_lands [OF order_compiles order_links(1-3), of ?i "compileTransition ?tr"]
    by (simp add: compileTransition_def)
  moreover have "\<not> st_IsParallel (state_of order_def ''PROC'')" by code_simp
  moreover have "resolveTarget order_cm ?i (compileTransition ?tr) ''PROC'' = ''REVIEW''" by code_simp
  ultimately have "leaf = ''REVIEW''"
    using r(2) initial_leaf_unique by (auto simp: lands_def Let_def s_edge_def)
  with r show ?thesis by auto
qed

end
