(* ===== verification/Flow_Triggers.thy ===== *)
theory Flow_Triggers
  imports Flow_Transitions
begin

text \<open>
  The triggers of \<open>scheduler.go\<close> on the in-memory engine: which transition \<open>Signal\<close>, \<open>CompleteTask\<close> and
  \<open>ChildCompleted\<close> fire, and what happens when none or several match.
\<close>

section \<open>Running on the in-memory adapters\<close>

lemma testDeps_sel [simp]:
  "dp_InstanceStore (testDeps acts handlers) = NewInstanceStore"
  "dp_EventStore (testDeps acts handlers) = NewEventStore"
  "dp_TaskStore (testDeps acts handlers) = Some NewTaskStore"
  "dp_ChildStore (testDeps acts handlers) = Some NewChildStore"
  "dp_TxProvider (testDeps acts handlers) = NewTxProvider"
  "dp_Clock (testDeps acts handlers) = FakeClock_Now"
  by (simp_all add: testDeps_def)

lemma run_mem_Get [simp]:
  "run_state (is_Get NewInstanceStore at aid) w =
     (case map_of (mw_instances w) (key at aid) of
        None \<Rightarrow> Inl (Sentinel ErrInstanceNotFound) | Some inst \<Rightarrow> Inr inst, w)"
  by (simp add: NewInstanceStore_def InstanceStore_Get_def)

lemma run_mem_Now [simp]: "run_state FakeClock_Now w = (mw_now w, w)"
  by (simp add: FakeClock_Now_def)

lemma run_mem_tx [simp]:
  "run_state (tx_Begin NewTxProvider) w = (Inr (GOpaque 0), w)"
  "run_state (tx_Commit NewTxProvider tx) w = (None, w)"
  "run_state (tx_Rollback NewTxProvider tx) w = (None, w)"
  by (simp_all add: NewTxProvider_def)

lemma run_mem_Append [simp]:
  "run_state (es_Append NewEventStore tx event) w = (None, w\<lparr>mw_events := mw_events w @ [event]\<rparr>)"
  by (simp add: NewEventStore_def EventStore_Append_def)

lemma run_load_stored:
  assumes "en_deps e = testDeps acts handlers" "map_of (mw_instances w) (key at aid) = Some inst"
    "compiledFor e at (wi_WorkflowVersion inst) = Some cm"
  shows "run_state (loadInstanceAndCompiled e at aid) w = (Inr (cm, inst), w)"
  using assms by (simp add: loadInstanceAndCompiled_def run_attempt)

section \<open>Signals\<close>

lemma set_triggerMatches:
  "set (triggerMatches cm trigger k inst) =
     {n. \<exists>tr. (n, tr) \<in> set (df_Transitions (cm_Definition cm)) \<and> tr_TriggerKey tr = k \<and>
            triggered trigger (activeStates inst) tr}"
  by (auto simp: triggerMatches_def image_iff)

lemma distinct_triggerMatches:
  "wf_map (df_Transitions (cm_Definition cm)) \<Longrightarrow> distinct (triggerMatches cm trigger k inst)"
  by (simp add: triggerMatches_def wf_map_def distinct_map_filter)

text \<open>The transitions a trigger can fire from an instance.\<close>

definition firing :: "CompiledMachine \<Rightarrow> TriggerType \<Rightarrow> string \<Rightarrow> WorkflowInstance \<Rightarrow> string set" where
  "firing cm trigger k inst =
     {n. \<exists>tr. map_of (df_Transitions (cm_Definition cm)) n = Some tr \<and> tr_TriggerType tr = trigger \<and>
            tr_TriggerKey tr = k \<and>
            (wi_CurrentState inst \<in> set (tr_Sources tr) \<or>
             (\<exists>r l. (r, l) \<in> set (mitems (wi_ActiveInParallel inst)) \<and> l \<in> set (tr_Sources tr)))}"

lemma firing_matches:
  assumes "wf_map (df_Transitions (cm_Definition cm))"
  shows "set (triggerMatches cm trigger k inst) = firing cm trigger k inst"
  unfolding set_triggerMatches firing_def map_of_in_set_wf [OF assms] triggered_def activeStates_def
  by force

lemma distinct_list_cases:
  assumes "distinct xs"
  shows "(case xs of [] \<Rightarrow> a | [x] \<Rightarrow> f x | _ \<Rightarrow> c) =
    (if set xs = {} then a else if card (set xs) = 1 then f (the_elem (set xs)) else c)"
proof (cases xs)
  case (Cons x ys)
  then show ?thesis
  proof (cases ys)
    case (Cons y zs)
    with assms \<open>xs = x # ys\<close> have "card (set xs) = length xs" by (simp add: distinct_card)
    with Cons \<open>xs = x # ys\<close> show ?thesis by simp
  qed (simp add: Cons)
qed simp

text \<open>
  The transitions of a trigger that list the state of the instance, or one of the states around it,
  as a source: none of them is left to find higher up in the hierarchy when this set is empty.
\<close>

definition reachable_trigger :: "Definition \<Rightarrow> (TransitionDef \<Rightarrow> bool) \<Rightarrow> WorkflowInstance \<Rightarrow> string set" where
  "reachable_trigger def P inst =
     {n. \<exists>tr. map_of (df_Transitions def) n = Some tr \<and> P tr \<and>
            (\<exists>s \<in> set (tr_Sources tr). (wi_CurrentState inst, s) \<in> (parent_rel def)\<^sup>*)}"

lemma firing_plain:
  assumes "mitems (wi_ActiveInParallel inst) = []"
  shows "firing cm trigger k inst =
    {n. \<exists>tr. map_of (df_Transitions (cm_Definition cm)) n = Some tr \<and> tr_TriggerType tr = trigger \<and>
          tr_TriggerKey tr = k \<and> wi_CurrentState inst \<in> set (tr_Sources tr)}"
  using assms by (simp add: firing_def)

lemma firing_reachable:
  assumes "mitems (wi_ActiveInParallel inst) = []"
    "reachable_trigger (cm_Definition cm) (\<lambda>tr. tr_TriggerType tr = trigger \<and> tr_TriggerKey tr = k) inst = {}"
  shows "firing cm trigger k inst = {}"
  using assms unfolding firing_plain [OF assms(1)] reachable_trigger_def by blast

text \<open>
  C18. \<open>Signal\<close> on a stored instance that is not in a parallel state. If no transition with that
  signal lists the current state or one of its ancestors as a source it fails with
  \<open>ErrNoMatchingSignal\<close>, if more than one lists the current state it fails with
  \<open>ErrSignalAmbiguous\<close>, both without any effect; if exactly one lists the current state it is that
  transition. So the outcome does not depend on the order in which the transitions are visited.
\<close>

theorem Signal_correct:
  assumes "en_deps e = testDeps acts handlers" "\<not> en_shutdown e"
    "map_of (mw_instances w) (key (si_TargetAggregateType input) (si_TargetAggregateID input)) = Some inst"
    "mitems (wi_ActiveInParallel inst) = []"
    "compiledFor e (si_TargetAggregateType input) (wi_WorkflowVersion inst) = Some cm"
    "wf_map (df_Transitions (cm_Definition cm))"
  shows "let sig = (\<lambda>tr. tr_TriggerType tr = TriggerSignal \<and> tr_TriggerKey tr = si_SignalName input);
             M = {n. \<exists>tr. map_of (df_Transitions (cm_Definition cm)) n = Some tr \<and> sig tr \<and>
                       wi_CurrentState inst \<in> set (tr_Sources tr)} in
    (reachable_trigger (cm_Definition cm) sig inst = {} \<longrightarrow>
       (\<exists>err. run_state (Signal e input) w = (Inl err, w) \<and> err_is err ErrNoMatchingSignal)) \<and>
    (card M > 1 \<longrightarrow> (\<exists>err. run_state (Signal e input) w = (Inl err, w) \<and> err_is err ErrSignalAmbiguous)) \<and>
    (\<forall>name. M = {name} \<longrightarrow> run_state (Signal e input) w =
       run_state (Transition e (si_TargetAggregateType input) (si_TargetAggregateID input) name
                    (si_ActorID input) (si_Payload input)) w)"
proof -
  let ?ms = "triggerMatches cm TriggerSignal (si_SignalName input) inst"
  note set = firing_matches [OF assms(6), of TriggerSignal "si_SignalName input" inst]
  note d = distinct_triggerMatches [OF assms(6), of TriggerSignal "si_SignalName input" inst]
  have "run_state (Signal e input) w = run_state
     (case ?ms of
        [] \<Rightarrow> fail (Errorf ''flowstep: no transition matches signal %q from state %q: %w''
                 (qs [si_SignalName input, wi_CurrentState inst]) (Some (Sentinel ErrNoMatchingSignal)))
      | [name] \<Rightarrow> Transition e (si_TargetAggregateType input) (si_TargetAggregateID input) name
                    (si_ActorID input) (si_Payload input)
      | _ \<Rightarrow> fail (Errorf ''flowstep: multiple transitions match signal %q from state %q: %w''
                 (qs [si_SignalName input, wi_CurrentState inst]) (Some (Sentinel ErrSignalAmbiguous)))) w"
    using assms(2) run_load_stored [OF assms(1,3,5)]
    by (simp add: Signal_def checkShutdown_def run_attempt)
  note run = this [unfolded distinct_list_cases [OF d] set]
  note none = firing_reachable [OF assms(4), of cm TriggerSignal "si_SignalName input"]
  show ?thesis
    unfolding Let_def conj_assoc firing_plain [OF assms(4), symmetric]
    using none by (auto simp: run)
qed

text \<open>A definition whose transition \<open>approve\<close> fires on a signal or on a completed task.\<close>

definition trigger_def :: "TriggerType \<Rightarrow> Definition" where
  "trigger_def trigger = order_def\<lparr>df_Transitions :=
     [(''approve'', (s_edge ''approve'' [''NEW''] ''DONE'')\<lparr>tr_TriggerType := trigger, tr_TriggerKey := ''ok''\<rparr>)]\<rparr>"

definition trigger_cm :: "TriggerType \<Rightarrow> CompiledMachine" where
  "trigger_cm trigger = order_cm\<lparr>cm_Definition := trigger_def trigger\<rparr>"

definition trigger_engine :: "TriggerType \<Rightarrow> unit memworld Engine" where
  "trigger_engine trigger = commitDefinition (trigger_def trigger) (trigger_cm trigger) (New (testDeps [] []))"

lemma trigger_engine_sel [simp]:
  "en_deps (trigger_engine t) = testDeps [] []" "\<not> en_shutdown (trigger_engine t)"
  "compiledFor (trigger_engine t) ''order'' 1 = Some (trigger_cm t)"
  by (simp_all add: trigger_engine_def trigger_def_def commitDefinition_def New_def compiledFor_def put2_def order_sel)

lemma trigger_plain:
  "{n. \<exists>tr. map_of (df_Transitions (cm_Definition (trigger_cm t))) n = Some tr \<and>
        tr_TriggerType tr = t \<and> tr_TriggerKey tr = ''ok'' \<and> ''NEW'' \<in> set (tr_Sources tr)} = {''approve''}"
  "wf_map (df_Transitions (cm_Definition (trigger_cm t)))"
  by (auto simp: trigger_cm_def trigger_def_def s_edge_def)

theorem Signal_correct_witness:
  "run_state (Signal (trigger_engine TriggerSignal)
     \<lparr>si_TargetAggregateType = ''order'', si_TargetAggregateID = ''o1'', si_SignalName = ''ok'',
      si_Payload = None, si_ActorID = ''u1''\<rparr>) (order_world (order_inst ''NEW'')) =
   run_state (Transition (trigger_engine TriggerSignal) ''order'' ''o1'' ''approve'' ''u1'' None)
     (order_world (order_inst ''NEW''))"
  using Signal_correct [of "trigger_engine TriggerSignal" "[]" "[]" "order_world (order_inst ''NEW'')"
     "\<lparr>si_TargetAggregateType = ''order'', si_TargetAggregateID = ''o1'', si_SignalName = ''ok'',
      si_Payload = None, si_ActorID = ''u1''\<rparr>" "order_inst ''NEW''" "trigger_cm TriggerSignal"]
  by (simp add: trigger_plain Let_def)

section \<open>Tasks\<close>

definition completed :: "PendingTask \<Rightarrow> string \<Rightarrow> string \<Rightarrow> gtime \<Rightarrow> PendingTask" where
  "completed task choice actor now =
     task\<lparr>tk_Status := TaskStatusCompleted, tk_Choice := choice, tk_CompletedBy := actor, tk_CompletedAt := Some now\<rparr>"

lemma chooseTransition_eq:
  assumes "distinct ms" "ms \<noteq> []"
  shows "chooseTransition ms choice =
    (if card (set ms) = 1 then Some (the_elem (set ms)) else if choice \<in> set ms then Some choice else None)"
proof (cases ms)
  case (Cons x ys)
  then show ?thesis
  proof (cases ys)
    case (Cons y zs)
    with assms \<open>ms = x # ys\<close> have "card (set ms) = length ms" by (simp add: distinct_card)
    with Cons \<open>ms = x # ys\<close> show ?thesis by (simp add: chooseTransition_def)
  qed (simp add: Cons chooseTransition_def)
qed (use assms in simp)

lemma run_CompleteTask:
  assumes "en_deps e = testDeps acts handlers" "\<not> en_shutdown e"
    "map_of (mw_tasks w) taskID = Some task"
    "map_of (mw_instances w) (key (tk_AggregateType task) (tk_AggregateID task)) = Some inst"
    "compiledFor e (tk_AggregateType task) (wi_WorkflowVersion inst) = Some cm"
    "wf_map (df_Transitions (cm_Definition cm))"
  defines "M \<equiv> firing cm TriggerTaskCompleted (tk_TaskType task) inst"
  shows "run_state (CompleteTask e taskID choice actor) w =
     (if M = {} then (Inl (Errorf ''flowstep: no transition matches task completion for type %q: %w''
                                (qs [tk_TaskType task]) (Some (Sentinel ErrNoMatchingSignal))), w)
      else (case (if card M = 1 then Some (the_elem M) else if choice \<in> M then Some choice else None) of
          None \<Rightarrow> (Inl (Errorf ''flowstep: choice %q does not match any transition: %w''
                               (qs [choice]) (Some (Sentinel ErrInvalidChoice))), w)
        | Some name \<Rightarrow>
            if tk_Status task = TaskStatusCompleted
            then (Inl (Errorf ''flowstep: complete task in store: %w'' [] (Some (Sentinel ErrTaskAlreadyCompleted))), w)
            else run_state (Transition e (tk_AggregateType task) (tk_AggregateID task) name actor
                        (Some [(''_task_id'', GString taskID), (''_task_choice'', GString choice)]))
                      (w\<lparr>mw_tasks := mput taskID (completed task choice actor (mw_wall w)) (mw_tasks w)\<rparr>)))"
proof -
  let ?ms = "triggerMatches cm TriggerTaskCompleted (tk_TaskType task) inst"
  have set: "set ?ms = M" unfolding M_def by (rule firing_matches [OF assms(6)])
  have emp: "?ms = [] \<longleftrightarrow> M = {}" using set by auto
  note d = distinct_triggerMatches [OF assms(6), of TriggerTaskCompleted "tk_TaskType task" inst]
  have ch: "chooseTransition ?ms choice =
      (if card M = 1 then Some (the_elem M) else if choice \<in> M then Some choice else None)" if "M \<noteq> {}"
    using chooseTransition_eq [OF d, of choice] that emp unfolding set by blast
  have get: "run_state (ts_Get NewTaskStore taskID) w = (Inr task, w)"
    using assms(3) by (simp add: NewTaskStore_def TaskStore_Get_def)
  have cmp: "run_state (ts_Complete NewTaskStore GNil taskID choice actor) w =
     (if tk_Status task = TaskStatusCompleted then (Some (Sentinel ErrTaskAlreadyCompleted), w)
      else (None, w\<lparr>mw_tasks := mput taskID (completed task choice actor (mw_wall w)) (mw_tasks w)\<rparr>))"
    using assms(3) by (simp add: NewTaskStore_def TaskStore_Complete_def completed_def)
  show ?thesis
    using assms(2) ch
    by (auto simp: CompleteTask_def checkShutdown_def assms(1) run_attempt run_check get cmp assms(4,5) emp Let_def
        split: option.splits)
qed

text \<open>
  C19. \<open>CompleteTask\<close> on a stored task that is pending or completed and has not expired, whose instance
  is stored and not in a parallel state. A choice among the task's options completes a pending task
  and then runs the only transition that waits for this task type in the current state, or, among
  several, the one the choice names; the task is marked completed before the transition, whatever
  becomes of it. For a completed task the same call is refused with \<open>ErrTaskAlreadyCompleted\<close>. If no
  transition waits for the task type in the current state or around it the call fails with
  \<open>ErrNoMatchingSignal\<close>, and if several wait and the choice is neither an option nor one of them,
  with \<open>ErrInvalidChoice\<close>. All refusals are without effect.
\<close>

theorem CompleteTask_correct:
  assumes "en_deps e = testDeps acts handlers" "\<not> en_shutdown e"
    "map_of (mw_tasks w) taskID = Some task" "tk_Status task \<in> {TaskStatusPending, TaskStatusCompleted}"
    "tk_ExpiresAt task = 0 \<or> mw_now w \<le> tk_ExpiresAt task \<and> mw_wall w \<le> tk_ExpiresAt task"
    "map_of (mw_instances w) (key (tk_AggregateType task) (tk_AggregateID task)) = Some inst"
    "mitems (wi_ActiveInParallel inst) = []"
    "compiledFor e (tk_AggregateType task) (wi_WorkflowVersion inst) = Some cm"
    "wf_map (df_Transitions (cm_Definition cm))"
  shows "let waits = (\<lambda>tr. tr_TriggerType tr = TriggerTaskCompleted \<and> tr_TriggerKey tr = tk_TaskType task);
             M = {n. \<exists>tr. map_of (df_Transitions (cm_Definition cm)) n = Some tr \<and> waits tr \<and>
                       wi_CurrentState inst \<in> set (tr_Sources tr)};
             run = run_state (CompleteTask e taskID choice actor) w in
    (choice \<in> set (tk_Options task) \<longrightarrow>
      (\<forall>name. M = {name} \<or> card M > 1 \<and> choice \<in> M \<and> name = choice \<longrightarrow>
        (if tk_Status task = TaskStatusCompleted
         then (\<exists>err. run = (Inl err, w) \<and> err_is err ErrTaskAlreadyCompleted)
         else run = run_state (Transition e (tk_AggregateType task) (tk_AggregateID task) name actor
                        (Some [(''_task_id'', GString taskID), (''_task_choice'', GString choice)]))
                      (w\<lparr>mw_tasks := mput taskID
                        (task\<lparr>tk_Status := TaskStatusCompleted, tk_Choice := choice, tk_CompletedBy := actor,
                              tk_CompletedAt := Some (mw_wall w)\<rparr>) (mw_tasks w)\<rparr>)))) \<and>
    (reachable_trigger (cm_Definition cm) waits inst = {} \<longrightarrow>
      (\<exists>err. run = (Inl err, w) \<and> err_is err ErrNoMatchingSignal)) \<and>
    (card M > 1 \<and> choice \<notin> M \<and> choice \<notin> set (tk_Options task) \<longrightarrow>
      (\<exists>err. run = (Inl err, w) \<and> err_is err ErrInvalidChoice))"
proof -
  note run = run_CompleteTask [OF assms(1-3,6,8,9), of choice actor]
  note none = firing_reachable [OF assms(7), of cm TriggerTaskCompleted "tk_TaskType task"]
  show ?thesis
    unfolding Let_def conj_assoc firing_plain [OF assms(7), symmetric]
    using none by (auto simp: run completed_def)
qed

definition order_task :: PendingTask where
  "order_task =
     \<lparr>tk_ID = ''t1'', tk_WorkflowType = ''order_workflow'', tk_AggregateType = ''order'', tk_AggregateID = ''o1'',
      tk_CorrelationID = ''c1'', tk_TaskType = ''ok'', tk_Description = [], tk_Options = [''yes'', ''no''], tk_State = ''NEW'',
      tk_AssignedTo = [], tk_Timeout = 4500, tk_ExpiresAt = 5000, tk_CompletedAt = None, tk_Choice = [],
      tk_CompletedBy = [], tk_Status = TaskStatusPending, tk_CreatedAt = 500\<rparr>"

theorem CompleteTask_correct_witness:
  "let w = (order_world (order_inst ''NEW''))\<lparr>mw_tasks := [(''t1'', order_task)]\<rparr> in
   run_state (CompleteTask (trigger_engine TriggerTaskCompleted) ''t1'' ''yes'' ''u1'') w =
   run_state (Transition (trigger_engine TriggerTaskCompleted) ''order'' ''o1'' ''approve'' ''u1''
       (Some [(''_task_id'', GString ''t1''), (''_task_choice'', GString ''yes'')]))
     (w\<lparr>mw_tasks := [(''t1'', order_task\<lparr>tk_Status := TaskStatusCompleted, tk_Choice := ''yes'', tk_CompletedBy := ''u1'',
                              tk_CompletedAt := Some 2000\<rparr>)]\<rparr>)"
  using CompleteTask_correct [of "trigger_engine TriggerTaskCompleted" "[]" "[]"
     "(order_world (order_inst ''NEW''))\<lparr>mw_tasks := [(''t1'', order_task)]\<rparr>" "''t1''" order_task
     "order_inst ''NEW''" "trigger_cm TriggerTaskCompleted" "''yes''" "''u1''"]
  by (simp add: trigger_plain Let_def order_task_def status_defs order_world_def)

section \<open>Child workflows and join policies\<close>

text \<open>The two counts of a group that a join policy compares.\<close>

definition siblings :: "string \<Rightarrow> ChildRelation list \<Rightarrow> ChildRelation list" where
  "siblings groupID cs = filter (\<lambda>c. cr_GroupID c = groupID) cs"

definition doneCount :: "string \<Rightarrow> ChildRelation list \<Rightarrow> nat" where
  "doneCount groupID cs = length (filter (\<lambda>c. cr_Status c = ChildStatusCompleted) (siblings groupID cs))"

lemma completeChild_counts:
  "completeChild at aid t now cs = Some cs' \<Longrightarrow>
     length (siblings g cs') = length (siblings g cs) \<and> doneCount g cs \<le> doneCount g cs' \<and>
     doneCount g cs' \<le> Suc (doneCount g cs)"
  by (induction cs arbitrary: cs') (auto simp: siblings_def doneCount_def split: if_splits)

lemma doneCount_le: "doneCount g cs \<le> length (siblings g cs)"
  by (simp add: doneCount_def)

text \<open>
  Completing a child keeps a satisfied join policy satisfied: it never changes the size of a
  group, never lowers the number of completed children in it and raises it by at most one, so a
  group whose policy was satisfied stays satisfied, for every join mode.
\<close>

lemma join_stays_satisfied:
  assumes "completeChild at aid t now cs = Some cs'"
    "joinSatisfied def mode (doneCount g cs) (length (siblings g cs))"
  shows "joinSatisfied def mode (doneCount g cs') (length (siblings g cs')) \<and>
    doneCount g cs' \<le> Suc (doneCount g cs)"
  using completeChild_counts [OF assms(1), of g] doneCount_le [of g cs'] assms(2)
  by (auto simp: joinSatisfied_def split: if_splits option.splits)

definition sample_child :: "string \<Rightarrow> string \<Rightarrow> ChildRelation" where
  "sample_child aid status =
     \<lparr>cr_ID = aid, cr_GroupID = ''g'', cr_ParentWorkflowType = ''order_workflow'', cr_ParentAggregateType = ''order'',
      cr_ParentAggregateID = ''o1'', cr_ChildWorkflowType = ''ship'', cr_ChildAggregateType = ''ship'',
      cr_ChildAggregateID = aid, cr_CorrelationID = ''c1'', cr_Status = status, cr_ChildTerminalState = [],
      cr_JoinPolicy = ''ANY'', cr_CreatedAt = 500, cr_CompletedAt = None\<rparr>"

lemma join_stays_satisfied_example:
  "let cs = [sample_child ''a'' ChildStatusCompleted, sample_child ''b'' ChildStatusActive];
       cs' = the (completeChild ''ship'' ''b'' ''DONE'' 2000 cs) in
   joinSatisfied order_def ''ANY'' (doneCount ''g'' cs) (length (siblings ''g'' cs)) \<and>
   joinSatisfied order_def ''ANY'' (doneCount ''g'' cs') (length (siblings ''g'' cs'))"
proof -
  let ?cs = "[sample_child ''a'' ChildStatusCompleted, sample_child ''b'' ChildStatusActive]"
  have c: "completeChild ''ship'' ''b'' ''DONE'' 2000 ?cs = Some (the (completeChild ''ship'' ''b'' ''DONE'' 2000 ?cs))"
    by (simp add: isChild_def sample_child_def)
  have "joinSatisfied order_def ''ANY'' (doneCount ''g'' ?cs) (length (siblings ''g'' ?cs))"
    by (simp add: joinSatisfied_def doneCount_def siblings_def sample_child_def)
  with join_stays_satisfied [OF c this] show ?thesis unfolding Let_def by blast
qed

text \<open>The documented meaning of a join policy on the children of a group.\<close>

definition join_met :: "JoinPolicy \<Rightarrow> ChildRelation list \<Rightarrow> bool" where
  "join_met join members \<longleftrightarrow>
     (if jp_Mode join = ''ANY''
      then \<exists>c \<in> set members. cr_Status c = ChildStatusCompleted \<and> cr_ChildTerminalState c = jp_TerminalState join
      else if jp_Mode join = ''N''
      then jp_Count join \<le> int (length (filter (\<lambda>c. cr_Status c = ChildStatusCompleted) members))
      else \<forall>c \<in> set members. cr_Status c = ChildStatusCompleted)"

text \<open>
  When the code's test agrees with it: an \<open>ANY\<close> group has no child that completed in another state
  than the declared one, and all \<open>N\<close> groups of the definition declare the same count.
\<close>

definition join_declared :: "Definition \<Rightarrow> JoinPolicy \<Rightarrow> ChildRelation list \<Rightarrow> bool" where
  "join_declared def join members \<longleftrightarrow>
     jp_Mode join \<in> {''ALL'', ''ANY'', ''N''} \<and>
     (jp_Mode join = ''ANY'' \<longrightarrow>
        (\<forall>c \<in> set members. cr_Status c = ChildStatusCompleted \<longrightarrow> cr_ChildTerminalState c = jp_TerminalState join)) \<and>
     (jp_Mode join = ''N'' \<longrightarrow>
        (\<exists>n tr. (n, tr) \<in> set (df_Transitions def) \<and> map_option cs_Join (tr_ChildrenDef tr) = Some join) \<and>
        (\<forall>n tr j. (n, tr) \<in> set (df_Transitions def) \<and> map_option cs_Join (tr_ChildrenDef tr) = Some j \<and>
           jp_Mode j = ''N'' \<longrightarrow> jp_Count j = jp_Count join))"

lemma joinCount_declared:
  assumes "join_declared def join members" "jp_Mode join = ''N''"
  shows "joinCount def = Some (jp_Count join)"
proof -
  let ?p = "\<lambda>(_, tr). case tr_ChildrenDef tr of None \<Rightarrow> False | Some cs \<Rightarrow> jp_Mode (cs_Join cs) = ''N''"
  from assms obtain n tr cs where m: "(n, tr) \<in> set (df_Transitions def)" "tr_ChildrenDef tr = Some cs" "cs_Join cs = join"
    by (auto simp: join_declared_def)
  with assms(2) have "\<exists>x. x \<in> set (df_Transitions def) \<and> ?p x"
    by (intro exI [of _ "(n, tr)"]) simp
  then have "find ?p (df_Transitions def) \<noteq> None" unfolding find_None_iff by simp
  then obtain n' tr' where f: "find ?p (df_Transitions def) = Some (n', tr')" by auto
  then have "(n', tr') \<in> set (df_Transitions def)" "?p (n', tr')" by (auto simp: find_Some_iff) (metis nth_mem)
  with assms f show ?thesis by (force simp: joinCount_def join_declared_def split: option.splits)
qed

lemma filter_length_all: "length (filter P xs) = length xs \<longleftrightarrow> (\<forall>x \<in> set xs. P x)"
  by (metis filter_True length_filter_less less_irrefl)

lemma joinSatisfied_met:
  assumes "join_declared def join members"
  shows "joinSatisfied def (jp_Mode join) (length (filter (\<lambda>c. cr_Status c = ChildStatusCompleted) members)) (length members) =
    join_met join members"
proof -
  have "1 \<le> length (filter P members) \<longleftrightarrow> (\<exists>c \<in> set members. P c)" for P
    by (induction members) auto
  with assms joinCount_declared [OF assms] show ?thesis
    by (auto simp: joinSatisfied_def join_met_def join_declared_def filter_length_all)
qed

text \<open>
  C20. \<open>evaluateJoinPolicy\<close> decides by the children stored at that moment, for a parent that is not in
  a parallel state and the policy \<open>ALL\<close>, \<open>ANY\<close> or \<open>N\<close> declared for the group, if no child of an \<open>ANY\<close> group
  completed in another than the declared terminal state and all \<open>N\<close> groups of the definition declare the
  same count. It fires a transition of the parent that waits for joined children exactly when the
  policy is met: all children of the group are completed for \<open>ALL\<close>, some child reached the declared
  terminal state for \<open>ANY\<close>, and at least the declared number completed for \<open>N\<close>. If the policy is not
  met, or no transition of the parent waits for joined children in its state or around it, it fails
  with \<open>ErrNoMatchingSignal\<close> and without effect.
\<close>

theorem evaluateJoinPolicy_correct:
  assumes "join_declared (cm_Definition cm) join (filter (\<lambda>c. cr_GroupID c = cr_GroupID relation) (mw_children w))"
    "cr_JoinPolicy relation = jp_Mode join" "mitems (wi_ActiveInParallel inst) = []"
    "wf_map (df_Transitions (cm_Definition cm))"
  shows "let run = run_state (evaluateJoinPolicy e NewChildStore relation cm inst) w;
       members = filter (\<lambda>c. cr_GroupID c = cr_GroupID relation) (mw_children w);
       waits = (\<lambda>tr. tr_TriggerType tr = TriggerChildrenJoined);
       fires = {n. \<exists>tr. map_of (df_Transitions (cm_Definition cm)) n = Some tr \<and> waits tr \<and>
                     wi_CurrentState inst \<in> set (tr_Sources tr)} in
   (join_met join members \<and> fires \<noteq> {} \<longrightarrow>
      (\<exists>name \<in> fires. run = run_state (Transition e (cr_ParentAggregateType relation)
           (cr_ParentAggregateID relation) name ''system''
           (Some [(''_group_id'', GString (cr_GroupID relation)),
                  (''_completed_count'', GInt (int (length (filter (\<lambda>c. cr_Status c = ChildStatusCompleted) members)))),
                  (''_total_count'', GInt (int (length members)))])) w)) \<and>
   (\<not> join_met join members \<or> reachable_trigger (cm_Definition cm) waits inst = {} \<longrightarrow>
      (\<exists>err. run = (Inl err, w) \<and> err_is err ErrNoMatchingSignal))"
proof -
  let ?group = "filter (\<lambda>c. cr_GroupID c = cr_GroupID relation) (mw_children w)"
  let ?find = "find (\<lambda>(_, tr). triggered TriggerChildrenJoined (activeStates inst) tr) (df_Transitions (cm_Definition cm))"
  let ?fires = "{n. \<exists>tr. map_of (df_Transitions (cm_Definition cm)) n = Some tr \<and> tr_TriggerType tr = TriggerChildrenJoined \<and>
                     wi_CurrentState inst \<in> set (tr_Sources tr)}"
  have get: "run_state (ch_GetByGroup NewChildStore (cr_GroupID relation)) w = (Inr ?group, w)"
    by (simp add: NewChildStore_def ChildStore_GetByGroup_def)
  have tg: "triggered TriggerChildrenJoined (activeStates inst) tr \<longleftrightarrow>
      tr_TriggerType tr = TriggerChildrenJoined \<and> wi_CurrentState inst \<in> set (tr_Sources tr)" for tr
    using assms(3) by (auto simp: triggered_def activeStates_def)
  have some: "n \<in> ?fires" if "?find = Some (n, tr)" for n tr
    using that find_mem [OF that] unfolding map_of_in_set_wf [OF assms(4)] by (auto simp: find_Some_iff tg)
  have none: "?fires = {}" if "?find = None"
    using that by (auto simp: find_None_iff tg dest!: map_of_SomeD)
  note met = joinSatisfied_met [OF assms(1), folded assms(2)]
  show ?thesis
  proof (cases ?find)
    case None
    from none [OF None] None met show ?thesis
      by (auto simp: evaluateJoinPolicy_def run_attempt get Let_def)
  next
    case (Some p)
    obtain n tr where p: "p = (n, tr)" by fastforce
    with Some some have n: "n \<in> ?fires" by blast
    then have "reachable_trigger (cm_Definition cm) (\<lambda>tr. tr_TriggerType tr = TriggerChildrenJoined) inst \<noteq> {}"
      by (auto simp: reachable_trigger_def)
    with n Some p met show ?thesis
      unfolding Let_def by (auto simp: evaluateJoinPolicy_def run_attempt get Let_def)
  qed
qed

definition joined_def :: Definition where
  "joined_def = order_def\<lparr>df_Transitions :=
     [(''split'', (s_edge ''split'' [''NEW''] ''PROC'')\<lparr>tr_ChildrenDef :=
         Some \<lparr>cs_WorkflowType = ''ship'', cs_InputsFn = Some (\<lambda>_. []), cs_Join = JoinN 1\<rparr>\<rparr>),
      (''joined'', (s_edge ''joined'' [''NEW''] ''DONE'')\<lparr>tr_TriggerType := TriggerChildrenJoined\<rparr>)]\<rparr>"

theorem evaluateJoinPolicy_correct_witness:
  "let w = (order_world (order_inst ''NEW''))\<lparr>mw_children :=
         [sample_child ''a'' ChildStatusCompleted, sample_child ''b'' ChildStatusActive]\<rparr> in
   run_state (evaluateJoinPolicy order_engine NewChildStore ((sample_child ''a'' ChildStatusCompleted)\<lparr>cr_JoinPolicy := ''N''\<rparr>)
       (order_cm\<lparr>cm_Definition := joined_def\<rparr>) (order_inst ''NEW'')) w =
   run_state (Transition order_engine ''order'' ''o1'' ''joined'' ''system''
       (Some [(''_group_id'', GString ''g''), (''_completed_count'', GInt 1), (''_total_count'', GInt 2)])) w"
proof -
  let ?w = "(order_world (order_inst ''NEW''))\<lparr>mw_children :=
         [sample_child ''a'' ChildStatusCompleted, sample_child ''b'' ChildStatusActive]\<rparr>"
  let ?r = "(sample_child ''a'' ChildStatusCompleted)\<lparr>cr_JoinPolicy := ''N''\<rparr>" and ?cm = "order_cm\<lparr>cm_Definition := joined_def\<rparr>"
  have d: "join_declared (cm_Definition ?cm) (JoinN 1) (filter (\<lambda>c. cr_GroupID c = cr_GroupID ?r) (mw_children ?w))"
    unfolding join_declared_def
  proof (intro conjI impI exI)
    show "(''split'', snd (hd (df_Transitions joined_def))) \<in> set (df_Transitions (cm_Definition ?cm))"
      by (simp add: joined_def_def)
  qed (auto simp: joined_def_def JoinN_def s_edge_def)
  have f: "(\<exists>tr. map_of (df_Transitions joined_def) n = Some tr \<and> tr_TriggerType tr = TriggerChildrenJoined \<and>
        ''NEW'' \<in> set (tr_Sources tr)) \<longleftrightarrow> n = ''joined''" for n
    by (auto simp: joined_def_def s_edge_def)
  then have ex: "\<exists>n tr. tr_TriggerType tr = TriggerChildrenJoined \<and> map_of (df_Transitions joined_def) n = Some tr \<and>
        ''NEW'' \<in> set (tr_Sources tr)" by metis
  have "wf_map (df_Transitions (cm_Definition ?cm))" by (simp add: joined_def_def)
  from evaluateJoinPolicy_correct [OF d _ _ this, of "order_inst ''NEW''" order_engine] show ?thesis
    by (simp add: f ex Let_def join_met_def JoinN_def sample_child_def ChildStatusActive_def ChildStatusCompleted_def)
qed

end
