(* ===== verification/Flow_Recovery.thy ===== *)
theory Flow_Recovery
  imports Flow_Triggers
begin

text \<open>
  \<open>ForceState\<close>, \<open>SideEffect\<close>, \<open>Snapshot\<close> and \<open>Restore\<close> on the in-memory engine, and the optimistic
  lock of the instance store.
\<close>

section \<open>Optimistic locking\<close>

text \<open>
  Two writers that read the same version of an instance cannot both store their change: once
  the first \<open>Update\<close> has stored a new time stamp, the second is refused with
  \<open>ErrConcurrentModification\<close> and the store keeps the first one's instance.
\<close>

lemma InstanceStore_second_writer_refused:
  assumes "fst (run_state (is_Get NewInstanceStore at aid) w) = Inr inst"
    "inst_key key inst1 = key at aid" "inst_key key inst2 = key at aid"
    "wi_LastReadUpdatedAt inst1 = wi_UpdatedAt inst" "wi_LastReadUpdatedAt inst2 = wi_UpdatedAt inst"
    "wi_UpdatedAt inst \<noteq> 0" "wi_UpdatedAt inst1 \<noteq> wi_UpdatedAt inst"
    "run_state (is_Update NewInstanceStore tx1 inst1) w = (r1, w1)"
    "run_state (is_Update NewInstanceStore tx2 inst2) w1 = (r2, w2)"
  shows "r1 = None \<and> r2 = Some (Sentinel ErrConcurrentModification) \<and>
    fst (run_state (is_Get NewInstanceStore at aid) w2) = Inr inst1"
  by (rule mem_instances.second_writer_refused [OF assms])

lemma run_mem_Update:
  "run_state (is_Update NewInstanceStore tx inst) w =
     (case map_of (mw_instances w) (inst_key key inst) of
        None \<Rightarrow> (Some (Sentinel ErrInstanceNotFound), w)
      | Some existing \<Rightarrow>
          if wi_LastReadUpdatedAt inst \<noteq> 0 \<and> wi_UpdatedAt existing \<noteq> wi_LastReadUpdatedAt inst
          then (Some (Sentinel ErrConcurrentModification), w)
          else (None, w\<lparr>mw_instances := mput (inst_key key inst) inst (mw_instances w)\<rparr>))"
  by (simp add: NewInstanceStore_def InstanceStore_Update_def Let_def inst_key_def split: option.splits)

lemma run_mem_Create [simp]:
  "run_state (is_Create NewInstanceStore tx inst) w =
     (None, w\<lparr>mw_instances := mput (inst_key key inst) inst (mw_instances w)\<rparr>)"
  by (simp add: NewInstanceStore_def InstanceStore_Create_def inst_key_def)

lemma InstanceStore_second_writer_refused_witness:
  "let a = (order_inst ''HOLD'')\<lparr>wi_LastReadUpdatedAt := 500, wi_UpdatedAt := 600\<rparr>;
       b = (order_inst ''DONE'')\<lparr>wi_LastReadUpdatedAt := 500, wi_UpdatedAt := 700\<rparr>;
       w1 = snd (run_state (is_Update NewInstanceStore GNil a) (order_world (order_inst ''NEW''))) in
   fst (run_state (is_Update NewInstanceStore GNil b) w1) = Some (Sentinel ErrConcurrentModification)"
proof -
  let ?a = "(order_inst ''HOLD'')\<lparr>wi_LastReadUpdatedAt := 500, wi_UpdatedAt := 600\<rparr>"
  let ?b = "(order_inst ''DONE'')\<lparr>wi_LastReadUpdatedAt := 500, wi_UpdatedAt := 700\<rparr>"
  let ?w = "order_world (order_inst ''NEW'')"
  let ?w1 = "snd (run_state (is_Update NewInstanceStore GNil ?a) ?w)"
  from InstanceStore_second_writer_refused [of "''order''" "''o1''" ?w "order_inst ''NEW''" ?a ?b GNil
      "fst (run_state (is_Update NewInstanceStore GNil ?a) ?w)" ?w1 GNil
      "fst (run_state (is_Update NewInstanceStore GNil ?b) ?w1)"
      "snd (run_state (is_Update NewInstanceStore GNil ?b) ?w1)"]
  show ?thesis by (simp add: inst_key_def)
qed

text \<open>
  The lock compares time stamps only: when the clock has not moved between two writes, a writer
  that read before the first write overwrites it without an error.
\<close>

lemma InstanceStore_lost_update:
  "let a = (order_inst ''HOLD'')\<lparr>wi_LastReadUpdatedAt := 500\<rparr>;
       b = (order_inst ''DONE'')\<lparr>wi_LastReadUpdatedAt := 500\<rparr>;
       w = order_world (order_inst ''NEW'');
       (r1, w1) = run_state (is_Update NewInstanceStore GNil a) w;
       (r2, w2) = run_state (is_Update NewInstanceStore GNil b) w1 in
   r1 = None \<and> r2 = None \<and> fst (run_state (is_Get NewInstanceStore ''order'' ''o1'') w2) = Inr b"
  by (simp add: run_mem_Update inst_key_def)

text \<open>The keys of two different aggregates can be the same string.\<close>

lemma key_not_injective: "key ''a'' ''b:c'' = key ''a:b'' ''c''"
  by (simp add: key_def)

section \<open>Snapshots\<close>

lemma copyStringMap_eq [simp]: "copyStringMap m = m"
  by (simp add: copyStringMap_def split: option.splits)

lemma orEmpty_simps [simp]: "orEmpty (Some al) = Some al" "orEmpty None = Some []"
  "mlook (orEmpty m) k = mlook m k" "mitems (orEmpty m) = mitems m" "orEmpty (orEmpty m) = orEmpty m"
  by (simp_all add: orEmpty_def split: option.splits)

text \<open>What a restored instance agrees on with the instance its snapshot was taken from.\<close>

definition restored_from :: "WorkflowInstance \<Rightarrow> gtime \<Rightarrow> WorkflowInstance" where
  "restored_from inst now =
     inst\<lparr>wi_StateData := orEmpty (wi_StateData inst), wi_ShallowHistory := orEmpty (wi_ShallowHistory inst),
          wi_DeepHistory := orEmpty (wi_DeepHistory inst), wi_UpdatedAt := now, wi_LastReadUpdatedAt := 0\<rparr>"

lemma restored_snapshot: "restoredInstance (snapshotOf inst hash t) now = restored_from inst now"
  by (simp add: restoredInstance_def snapshotOf_def restored_from_def)

context engine_env begin

lemma triple_persistRestored:
  "triple view (\<lambda>s. s = s0) (persistRestored (en_deps e) inst event)
     (\<lambda>r s. r = None \<and> s = add_event event (put_inst ident inst s0))"
  unfolding persistRestored_def
  by (rule triple_attempt [OF triple_begin])
    (auto intro!: triple_ret triple_pure triple_check [OF triple_create] triple_check [OF triple_append]
      triple_check [OF triple_commit] triple_bind_keeps frame)

lemma triple_Restore:
  assumes "\<not> en_shutdown e" "compiledFor e (sn_AggregateType snap) (sn_WorkflowVersion snap) = Some cm"
    "sn_DefinitionHash snap = cm_DefinitionHash cm"
    "v_insts s0 (ident (sn_AggregateType snap) (sn_AggregateID snap)) = None"
  shows "triple view (\<lambda>s. s = s0) (Restore e snap)
     (\<lambda>r s. r = None \<and> (\<exists>evID. s = add_event (restoredEvent cm snap evID (v_now s0))
                                (put_inst ident (restoredInstance snap (v_now s0)) s0)))"
proof -
  have emit: "keeps view (case dp_EventBus (en_deps e) of None \<Rightarrow> ret ()
      | Some bus \<Rightarrow> check (bus_Emit bus event)
          (\<lambda>err. NotifyPostCommitError (dp_Observers (en_deps e))
             (PostCommitErrorEvent ''EventBus.Emit(SnapshotRestored)'' err)) (ret ()))" for event
    using bus_keeps by (auto split: option.splits intro!: frame)
  show ?thesis
    unfolding Restore_def using assms
    by (auto simp: checkShutdown_def Let_def
        intro!: triple_bind [OF triple_get_missing] triple_pure triple_bind_clock
          triple_bind_keeps [OF keeps_generateID] triple_check [OF triple_persistRestored]
          triple_bind_keeps [OF emit] triple_ret split: sum.splits)
qed

end

text \<open>
  C16. Snapshot and restore form a round trip. The snapshot of a stored instance, restored on an
  engine with the same registered machine into a store that has no instance under that key, stores
  that instance again: every field is the same except that the time of the update is the time of
  the restore, the optimistic lock is open, and nil data and history maps come back empty. One
  \<open>SnapshotRestored\<close> event is appended.
\<close>

theorem Restore_takeSnapshot:
  assumes "en_deps e = testDeps acts handlers" "\<not> en_shutdown e"
    "map_of (mw_instances w) (key at aid) = Some inst" "wi_AggregateType inst = at" "wi_AggregateID inst = aid"
    "compiledFor e at (wi_WorkflowVersion inst) = Some cm"
    "map_of (mw_instances w2) (key at aid) = None"
  shows "\<exists>snap w'. run_state (takeSnapshot e at aid) w = (Inr snap, w) \<and>
    run_state (Restore e snap) w2 = (None, w') \<and>
    map_of (mw_instances w') = (map_of (mw_instances w2))(key at aid \<mapsto> restored_from inst (mw_now w2)) \<and>
    (\<exists>event. mw_events w' = mw_events w2 @ [event] \<and> ev_EventType event = ''SnapshotRestored'')"
proof -
  let ?snap = "snapshotOf inst (cm_DefinitionHash cm) (mw_now w)"
  have 1: "run_state (takeSnapshot e at aid) w = (Inr ?snap, w)"
    using assms(2) by (simp add: takeSnapshot_def checkShutdown_def run_attempt assms)
  obtain r w' where 2: "run_state (Restore e ?snap) w2 = (r, w')" by fastforce
  have sn: "sn_AggregateType ?snap = at" "sn_AggregateID ?snap = aid"
    "sn_WorkflowVersion ?snap = wi_WorkflowVersion inst" "sn_DefinitionHash ?snap = cm_DefinitionHash cm"
    using assms(4,5) by (simp_all add: snapshotOf_def)
  from tripleD [OF engine_env.triple_Restore [OF wired_env [OF assms(1)] assms(2)], of ?snap cm "mem_view w2" w2 r w'] 2 sn assms(6,7)
  obtain evID where r: "r = None" and v: "mem_view w' = add_event (restoredEvent cm ?snap evID (mw_now w2))
      (put_inst key (restoredInstance ?snap (mw_now w2)) (mem_view w2))" by auto
  have k: "inst_key key (restored_from inst (mw_now w2)) = key at aid"
    using assms(4,5) by (simp add: inst_key_def restored_from_def)
  from arg_cong [OF v, of v_insts] arg_cong [OF v, of v_events]
  have "map_of (mw_instances w') = (map_of (mw_instances w2))(key at aid \<mapsto> restored_from inst (mw_now w2))"
    "mw_events w' = mw_events w2 @ [restoredEvent cm ?snap evID (mw_now w2)]"
    by (simp_all add: restored_snapshot k)
  moreover have "ev_EventType (restoredEvent cm ?snap evID (mw_now w2)) = ''SnapshotRestored''"
    by (simp add: restoredEvent_def)
  ultimately show ?thesis using 1 2 r by blast
qed

theorem Restore_takeSnapshot_witness:
  "\<exists>snap w'. run_state (takeSnapshot order_engine ''order'' ''o1'') (order_world (order_inst ''HOLD'')) =
      (Inr snap, order_world (order_inst ''HOLD'')) \<and>
    run_state (Restore order_engine snap) ((order_world (order_inst ''HOLD''))\<lparr>mw_instances := []\<rparr>) = (None, w') \<and>
    map_of (mw_instances w') (key ''order'' ''o1'') = Some (restored_from (order_inst ''HOLD'') 1000)"
proof -
  let ?w = "order_world (order_inst ''HOLD'')" and ?w2 = "(order_world (order_inst ''HOLD''))\<lparr>mw_instances := []\<rparr>"
  have "mw_now ?w2 = 1000" by simp
  with Restore_takeSnapshot [OF order_engine_deps, of ?w "''order''" "''o1''" "order_inst ''HOLD''" order_cm ?w2]
  show ?thesis by fastforce
qed

text \<open>
  C33. \<open>Restore\<close> refuses, without touching the world, a snapshot whose version is not registered or
  whose definition hash is not that of the registered machine (\<open>ErrSnapshotDefinitionMismatch\<close>),
  and one whose aggregate already has an instance (\<open>ErrSnapshotInstanceExists\<close>).
\<close>

theorem Restore_refuses:
  assumes "en_deps e = testDeps acts handlers" "\<not> en_shutdown e"
  shows "(case compiledFor e (sn_AggregateType snap) (sn_WorkflowVersion snap) of
      None \<Rightarrow> \<exists>err. run_state (Restore e snap) w = (Some err, w) \<and> err_is err ErrSnapshotDefinitionMismatch
    | Some cm \<Rightarrow>
        if sn_DefinitionHash snap \<noteq> cm_DefinitionHash cm
        then \<exists>err. run_state (Restore e snap) w = (Some err, w) \<and> err_is err ErrSnapshotDefinitionMismatch
        else \<forall>inst. map_of (mw_instances w) (key (sn_AggregateType snap) (sn_AggregateID snap)) = Some inst \<longrightarrow>
          (\<exists>err. run_state (Restore e snap) w = (Some err, w) \<and> err_is err ErrSnapshotInstanceExists))"
  using assms by (auto simp: Restore_def checkShutdown_def Let_def split: option.splits)

theorem Restore_refuses_witness:
  "\<exists>err. run_state (Restore order_engine (snapshotOf (order_inst ''HOLD'') ''stale'' 1)) (order_world (order_inst ''HOLD'')) =
      (Some err, order_world (order_inst ''HOLD'')) \<and> err_is err ErrSnapshotDefinitionMismatch"
proof -
  have "cm_DefinitionHash order_cm \<noteq> ''stale''"
    unfolding Compile_hash [OF order_compiles] by (simp add: computeHash_def canonical_def canonHeader_def)
  with Restore_refuses [OF order_engine_deps, of "snapshotOf (order_inst ''HOLD'') ''stale'' 1" "order_world (order_inst ''HOLD'')"]
  show ?thesis by (auto simp: snapshotOf_def)
qed

section \<open>ForceState\<close>

lemma forcedInstance_sel [simp]:
  "wi_AggregateType (forcedInstance cm i t now) = wi_AggregateType i"
  "wi_AggregateID (forcedInstance cm i t now) = wi_AggregateID i"
  "wi_CurrentState (forcedInstance cm i t now) = t" "wi_IsStuck (forcedInstance cm i t now) = False"
  "wi_ShallowHistory (forcedInstance cm i t now) = Some []" "wi_DeepHistory (forcedInstance cm i t now) = Some []"
  "wi_UpdatedAt (forcedInstance cm i t now) = now" "wi_LastReadUpdatedAt (forcedInstance cm i t now) = wi_UpdatedAt i"
  by (simp_all add: forcedInstance_def Let_def)

context engine_env begin

lemma triple_ForceState:
  assumes sd: "\<not> en_shutdown e" and st: "v_insts s0 (ident at aid) = Some inst"
    and ky: "inst_key ident inst = ident at aid"
    and cm: "compiledFor e at (wi_WorkflowVersion inst) = Some cm"
    and tg: "map_of (df_States (cm_Definition cm)) target \<noteq> None"
  shows "triple view (\<lambda>s. s = s0) (ForceState e at aid target actor reason)
     (\<lambda>r s. \<exists>res. r = Inr res \<and> rs_Instance res = forcedInstance cm inst (leaf_in cm target) (v_now s0) \<and>
        rs_PreviousState res = wi_CurrentState inst \<and> rs_NewState res = leaf_in cm target \<and>
        rs_IsTerminal res = isTerminalState cm (leaf_in cm target) \<and>
        ev_EventType (rs_Event res) = ''StateForced'' \<and> ev_ActorID (rs_Event res) = actor \<and>
        ev_AggregateType (rs_Event res) = at \<and> ev_AggregateID (rs_Event res) = aid \<and>
        ev_Payload (rs_Event res) = Some [(''_reason'', GString reason),
          (''_from'', GString (wi_CurrentState inst)), (''_to'', GString (leaf_in cm target))] \<and>
        s = put_inst ident (rs_Instance res) (add_event (rs_Event res) s0))"
proof -
  have lock: "update_error (v_insts s0 (inst_key ident (forcedInstance cm inst t now))) (forcedInstance cm inst t now) = None" for t now
    using st ky by (simp add: inst_key_def update_error_def)
  have beg: "triple view (\<lambda>s. s = s0) (tx_Begin (dp_TxProvider (en_deps e))) (\<lambda>r s. (\<exists>tx. r = Inr tx) \<and> s = s0)"
    by (rule triple_post [OF triple_begin]) auto
  show ?thesis
    unfolding ForceState_def Let_def using sd cm tg
    by (auto simp: checkShutdown_def transitionEvent_def
        intro!: triple_attempt [OF triple_get_stored [OF st]] triple_pure triple_bind_clock
          triple_bind_keeps [OF keeps_generateID] triple_attempt [OF beg]
          triple_check [OF triple_appendUpdateCommit [OF lock]] triple_bind_keeps [OF keeps_emitToBus] triple_ok
        split del: if_split)
qed

lemma triple_SideEffect:
  assumes sd: "\<not> en_shutdown e" and st: "v_insts s0 (ident at aid) = Some inst" and kp: "keeps view fn"
  shows "triple view (\<lambda>s. s = s0) (SideEffect e at aid name fn)
     (\<lambda>r s. case r of
        Inl err \<Rightarrow> s = s0
      | Inr result \<Rightarrow> \<exists>evID. s = add_event (NewSideEffectEvent evID at aid (wi_WorkflowType inst)
          (wi_WorkflowVersion inst) (wi_CorrelationID inst) name result (v_now s0)) s0)"
  unfolding SideEffect_def Let_def using sd
  by (auto simp: checkShutdown_def
      intro!: triple_attempt [OF triple_get_stored [OF st]] triple_pure triple_attempt_keeps [OF kp]
        triple_bind_keeps [OF keeps_generateID] triple_bind_clock triple_attempt [OF triple_begin]
        triple_check [OF triple_append] triple_check [OF triple_commit] triple_bind_keeps frame triple_ok triple_fail exI)

end

text \<open>
  C21. \<open>ForceState\<close> moves a stored instance to any state of its definition, from any state, also a
  terminal one: it succeeds, the instance is in the target (its initial leaf, for a compound state),
  is no longer stuck, has empty histories and the parallel regions of the target if that is a
  parallel state, and exactly one \<open>StateForced\<close> event with the reason and both states is appended.
\<close>

theorem ForceState_correct:
  assumes "en_deps e = testDeps acts handlers" "\<not> en_shutdown e"
    "map_of (mw_instances w) (key at aid) = Some inst" "wi_AggregateType inst = at" "wi_AggregateID inst = aid"
    "compiledFor e at (wi_WorkflowVersion inst) = Some cm"
    "map_of (df_States (cm_Definition cm)) target \<noteq> None"
  shows "\<exists>res w'. run_state (ForceState e at aid target actor reason) w = (Inr res, w') \<and>
    rs_NewState res = leaf_in cm target \<and> rs_PreviousState res = wi_CurrentState inst \<and>
    map_of (mw_instances w') = (map_of (mw_instances w))(key at aid \<mapsto> rs_Instance res) \<and>
    wi_CurrentState (rs_Instance res) = leaf_in cm target \<and> \<not> wi_IsStuck (rs_Instance res) \<and>
    mitems (wi_ShallowHistory (rs_Instance res)) = [] \<and> mitems (wi_DeepHistory (rs_Instance res)) = [] \<and>
    (wi_ActiveInParallel (rs_Instance res) \<noteq> None \<longleftrightarrow> isParallelState cm (leaf_in cm target)) \<and>
    mw_events w' = mw_events w @ [rs_Event res] \<and> ev_EventType (rs_Event res) = ''StateForced'' \<and>
    ev_Payload (rs_Event res) = Some [(''_reason'', GString reason),
      (''_from'', GString (wi_CurrentState inst)), (''_to'', GString (leaf_in cm target))]"
proof -
  have ky: "inst_key key inst = key at aid" using assms(4,5) by (simp add: inst_key_def)
  obtain r w' where r: "run_state (ForceState e at aid target actor reason) w = (r, w')" by fastforce
  have "v_insts (mem_view w) (key at aid) = Some inst" using assms(3) by simp
  from tripleD [OF engine_env.triple_ForceState [OF wired_env [OF assms(1)] assms(2) this ky assms(6,7)] r refl]
  obtain res where f: "r = Inr res" "rs_Instance res = forcedInstance cm inst (leaf_in cm target) (mw_now w)"
    "rs_PreviousState res = wi_CurrentState inst" "rs_NewState res = leaf_in cm target"
    "ev_EventType (rs_Event res) = ''StateForced''"
    "ev_Payload (rs_Event res) = Some [(''_reason'', GString reason),
      (''_from'', GString (wi_CurrentState inst)), (''_to'', GString (leaf_in cm target))]"
    "mem_view w' = put_inst key (rs_Instance res) (add_event (rs_Event res) (mem_view w))" by auto
  have k: "inst_key key (rs_Instance res) = key at aid" using f(2) assms(4,5) by (simp add: inst_key_def)
  from arg_cong [OF f(7), of v_insts] arg_cong [OF f(7), of v_events] k
  have v: "map_of (mw_instances w') = (map_of (mw_instances w))(key at aid \<mapsto> rs_Instance res)"
    "mw_events w' = mw_events w @ [rs_Event res]" by simp_all
  have "wi_ActiveInParallel (rs_Instance res) \<noteq> None \<longleftrightarrow> isParallelState cm (leaf_in cm target)"
    unfolding f(2) by (simp add: forcedInstance_def enterParallelRegions_def Let_def)
  with r f v show ?thesis by (intro exI conjI) auto
qed

theorem ForceState_correct_witness:
  "\<exists>res w'. run_state (ForceState order_engine ''order'' ''o1'' ''PROC'' ''admin'' ''retry'') (order_world (order_inst ''DONE'')) = (Inr res, w') \<and>
     rs_NewState res = leaf_in order_cm ''PROC'' \<and> rs_PreviousState res = ''DONE''"
proof -
  have "map_of (df_States (cm_Definition order_cm)) ''PROC'' \<noteq> None"
    unfolding Compile_Definition [OF order_compiles] by (simp add: order_def_def order_states_def)
  with ForceState_correct [OF order_engine_deps, of "order_world (order_inst ''DONE'')" "''order''" "''o1''"
      "order_inst ''DONE''" order_cm "''PROC''" "''admin''" "''retry''"]
  show ?thesis by auto
qed

text \<open>
  C30. \<open>SideEffect\<close> on a stored instance, with a function that leaves the stores alone: the function
  is the only thing that can fail besides the store. If it returns a value, \<open>SideEffect\<close> returns the
  same value and appends exactly one event, from which \<open>ParseSideEffect\<close> reads the name and the
  value back; if it fails, its error is returned and no event is appended. Without an instance the
  function is not run.
\<close>

theorem SideEffect_correct:
  assumes "en_deps e = testDeps acts handlers" "\<not> en_shutdown e" "keeps mem_view fn"
    "run_state (SideEffect e at aid name fn) w = (r, w')"
  shows "(case map_of (mw_instances w) (key at aid) of
      None \<Rightarrow> w' = w \<and> (\<exists>err. r = Inl err \<and> err_is err ErrInstanceNotFound)
    | Some inst \<Rightarrow> r = fst (run_state fn w) \<and> map_of (mw_instances w') = map_of (mw_instances w) \<and>
        (case r of
           Inl err \<Rightarrow> mw_events w' = mw_events w
         | Inr result \<Rightarrow> \<exists>event. mw_events w' = mw_events w @ [event] \<and>
             ParseSideEffect event = (name, result, True)))"
proof (cases "map_of (mw_instances w) (key at aid)")
  case None
  with assms show ?thesis
    by (auto simp: SideEffect_def Let_def checkShutdown_def run_attempt)
next
  case (Some inst)
  then have st: "v_insts (mem_view w) (key at aid) = Some inst" by simp
  from tripleD [OF engine_env.triple_SideEffect [OF wired_env [OF assms(1)] assms(2) st assms(3)] assms(4) refl]
  have v: "case r of
        Inl err \<Rightarrow> mem_view w' = mem_view w
      | Inr result \<Rightarrow> \<exists>evID. mem_view w' = add_event (NewSideEffectEvent evID at aid (wi_WorkflowType inst)
          (wi_WorkflowVersion inst) (wi_CorrelationID inst) name result (v_now (mem_view w))) (mem_view w)"
    by simp
  have "r = fst (run_state fn w)"
    using assms(1,2,4) Some
    by (auto simp: SideEffect_def Let_def checkShutdown_def run_attempt run_check split: prod.splits sum.splits)
  moreover have "map_of (mw_instances w') = map_of (mw_instances w)"
    using v by (auto split: sum.splits dest!: arg_cong [of _ _ v_insts])
  moreover have "case r of Inl err \<Rightarrow> mw_events w' = mw_events w
         | Inr result \<Rightarrow> \<exists>event. mw_events w' = mw_events w @ [event] \<and> ParseSideEffect event = (name, result, True)"
  proof (cases r)
    case (Inl err)
    with v show ?thesis by (auto dest!: arg_cong [of _ _ v_events])
  next
    case (Inr result)
    with v obtain evID where "mem_view w' = add_event (NewSideEffectEvent evID at aid (wi_WorkflowType inst)
          (wi_WorkflowVersion inst) (wi_CorrelationID inst) name result (v_now (mem_view w))) (mem_view w)" by auto
    from arg_cong [OF this, of v_events] Inr ParseSideEffect_New show ?thesis by auto
  qed
  ultimately show ?thesis using Some by simp
qed

theorem SideEffect_correct_witness:
  "\<exists>event w'. run_state (SideEffect order_engine ''order'' ''o1'' ''rate'' (ok (GInt 7))) (order_world (order_inst ''NEW'')) =
      (Inr (GInt 7), w') \<and> mw_events w' = [event] \<and> ParseSideEffect event = (''rate'', GInt 7, True)"
proof -
  obtain r w' where r: "run_state (SideEffect order_engine ''order'' ''o1'' ''rate'' (ok (GInt 7))) (order_world (order_inst ''NEW'')) = (r, w')"
    by fastforce
  from SideEffect_correct [OF order_engine_deps keeps_ok r] r show ?thesis by auto
qed

end
