(* ===== verification/Flow_Builder.thy ===== *)
theory Flow_Builder
  imports Flow_Runtime
begin

text \<open>
  \<open>internal/builder/builder.go\<close> and \<open>Define\<close> of \<open>flowstep.go\<close>: the fluent construction of a
  definition. Go's functional options are functions on the builder they configure. \<open>Build\<close> ranges
  over the map of states to wire the children of each state; Go leaves that order open, so \<open>Build\<close>
  takes it as a parameter, which the theorems only require to be a permutation of the keys.
\<close>

section \<open>Transition options\<close>

record transitionBuilder =
  tb_name :: string
  tb_sources :: "string list"
  tb_target :: string
  tb_event :: string
  tb_guards :: "Guard list"
  tb_condition :: "Condition option"
  tb_isDefault :: bool
  tb_routes :: "Route list"
  tb_activities :: "ActivityDef list"
  tb_taskDef :: "TaskDef option"
  tb_childDef :: "ChildDef option"
  tb_childrenDef :: "ChildrenDef option"
  tb_triggerType :: TriggerType
  tb_triggerKey :: string
  tb_allowSelf :: bool
  tb_historyMode :: HistoryMode
  tb_priority :: int

type_synonym TransitionOption = "transitionBuilder \<Rightarrow> transitionBuilder"

text \<open>
  The builder a transition starts from. \<open>Route\<close> starts from the zero struct, whose trigger type is
  not direct, but it only reads the target, the condition and the default mark.
\<close>

definition newTransition :: "string \<Rightarrow> transitionBuilder" where
  "newTransition name =
     \<lparr>tb_name = name, tb_sources = [], tb_target = [], tb_event = [], tb_guards = [],
      tb_condition = None, tb_isDefault = False, tb_routes = [], tb_activities = [],
      tb_taskDef = None, tb_childDef = None, tb_childrenDef = None,
      tb_triggerType = TriggerDirect, tb_triggerKey = [], tb_allowSelf = False,
      tb_historyMode = HistoryNone, tb_priority = 0\<rparr>"

definition applyOptions :: "('a \<Rightarrow> 'a) list \<Rightarrow> 'a \<Rightarrow> 'a" where
  "applyOptions opts x = fold (\<lambda>opt. opt) opts x"

definition From :: "string list \<Rightarrow> TransitionOption" where
  "From states tb = tb\<lparr>tb_sources := tb_sources tb @ states\<rparr>"

definition To :: "string \<Rightarrow> TransitionOption" where
  "To state tb = tb\<lparr>tb_target := state\<rparr>"

definition Event :: "string \<Rightarrow> TransitionOption" where
  "Event eventType tb = tb\<lparr>tb_event := eventType\<rparr>"

definition Guards :: "Guard list \<Rightarrow> TransitionOption" where
  "Guards guards tb = tb\<lparr>tb_guards := tb_guards tb @ guards\<rparr>"

definition OnSignal :: "string \<Rightarrow> TransitionOption" where
  "OnSignal signalName tb = tb\<lparr>tb_triggerType := TriggerSignal, tb_triggerKey := signalName\<rparr>"

definition OnTaskCompleted :: "string \<Rightarrow> TransitionOption" where
  "OnTaskCompleted taskType tb = tb\<lparr>tb_triggerType := TriggerTaskCompleted, tb_triggerKey := taskType\<rparr>"

definition OnChildCompleted :: "string \<Rightarrow> TransitionOption" where
  "OnChildCompleted childWorkflowType tb =
     tb\<lparr>tb_triggerType := TriggerChildCompleted, tb_triggerKey := childWorkflowType\<rparr>"

definition OnChildrenJoined :: TransitionOption where
  "OnChildrenJoined tb = tb\<lparr>tb_triggerType := TriggerChildrenJoined\<rparr>"

definition OnTimeout :: TransitionOption where
  "OnTimeout tb = tb\<lparr>tb_triggerType := TriggerTimeout\<rparr>"

definition EmitTask :: "TaskDef \<Rightarrow> TransitionOption" where
  "EmitTask taskDef tb = tb\<lparr>tb_taskDef := Some taskDef\<rparr>"

definition SpawnChild :: "ChildDef \<Rightarrow> TransitionOption" where
  "SpawnChild childDef tb = tb\<lparr>tb_childDef := Some childDef\<rparr>"

definition SpawnChildren :: "ChildrenDef \<Rightarrow> TransitionOption" where
  "SpawnChildren childrenDef tb = tb\<lparr>tb_childrenDef := Some childrenDef\<rparr>"

definition AllowSelfTransition :: TransitionOption where
  "AllowSelfTransition tb = tb\<lparr>tb_allowSelf := True\<rparr>"

definition WithHistory :: "HistoryMode \<Rightarrow> TransitionOption" where
  "WithHistory mode tb = tb\<lparr>tb_historyMode := mode\<rparr>"

definition Priority :: "int \<Rightarrow> TransitionOption" where
  "Priority p tb = tb\<lparr>tb_priority := p\<rparr>"

definition RouteTo :: "TransitionOption list \<Rightarrow> TransitionOption" where
  "RouteTo opts tb =
     (let sub = applyOptions opts (newTransition []) in
      tb\<lparr>tb_routes := tb_routes tb @
           [\<lparr>rt_Condition = tb_condition sub, rt_Target = tb_target sub, rt_IsDefault = tb_isDefault sub\<rparr>]\<rparr>)"

definition When :: "Condition \<Rightarrow> TransitionOption" where
  "When cond tb = tb\<lparr>tb_condition := Some cond\<rparr>"

definition Default :: TransitionOption where
  "Default tb = tb\<lparr>tb_isDefault := True\<rparr>"

definition dispatchDef :: "string \<Rightarrow> DispatchMode \<Rightarrow> ActivityDef" where
  "dispatchDef name mode =
     \<lparr>ad_Name = name, ad_Mode = mode, ad_RetryPolicy = None, ad_ResultSignals = None, ad_Timeout = 0\<rparr>"

definition Dispatch :: "string \<Rightarrow> TransitionOption" where
  "Dispatch name tb = tb\<lparr>tb_activities := tb_activities tb @ [dispatchDef name FireAndForget]\<rparr>"

definition DispatchAndWait :: "string \<Rightarrow> TransitionOption" where
  "DispatchAndWait name tb = tb\<lparr>tb_activities := tb_activities tb @ [dispatchDef name AwaitResult]\<rparr>"

section \<open>States\<close>

type_synonym StateModifier = "StateDef \<Rightarrow> StateDef"

definition Parent :: "string \<Rightarrow> StateModifier" where
  "Parent parentName sd = sd\<lparr>st_Parent := parentName\<rparr>"

definition InitialChild :: "string \<Rightarrow> StateModifier" where
  "InitialChild childName sd = sd\<lparr>st_InitialChild := childName\<rparr>"

definition EntryActivityOpt :: "string \<Rightarrow> StateModifier" where
  "EntryActivityOpt name sd = sd\<lparr>st_EntryActivity := name\<rparr>"

definition ExitActivityOpt :: "string \<Rightarrow> StateModifier" where
  "ExitActivityOpt name sd = sd\<lparr>st_ExitActivity := name\<rparr>"

datatype StateOption = StateOption (so_def: StateDef) (so_nested: "StateOption list")

definition Def :: "StateOption \<Rightarrow> StateDef" where
  "Def so = so_def so"

definition Initial :: "string \<Rightarrow> StateOption" where
  "Initial name = StateOption (zero_StateDef\<lparr>st_Name := name, st_IsInitial := True\<rparr>) []"

definition Terminal :: "string \<Rightarrow> StateModifier list \<Rightarrow> StateOption" where
  "Terminal name mods =
     StateOption (applyOptions mods (zero_StateDef\<lparr>st_Name := name, st_IsTerminal := True\<rparr>)) []"

definition StateOpt :: "string \<Rightarrow> StateModifier list \<Rightarrow> StateOption" where
  "StateOpt name mods = StateOption (applyOptions mods (zero_StateDef\<lparr>st_Name := name\<rparr>)) []"

definition WaitState :: "string \<Rightarrow> StateModifier list \<Rightarrow> StateOption" where
  "WaitState name mods =
     StateOption (applyOptions mods (zero_StateDef\<lparr>st_Name := name, st_IsWait := True\<rparr>)) []"

definition CompoundState :: "string \<Rightarrow> StateModifier list \<Rightarrow> StateOption" where
  "CompoundState name mods =
     StateOption (applyOptions mods (zero_StateDef\<lparr>st_Name := name, st_IsCompound := True\<rparr>)) []"

record ParallelStateBuilder =
  ps_name :: string
  ps_nested :: "StateOption list"

definition ParallelState :: "string \<Rightarrow> ParallelStateBuilder" where
  "ParallelState name = \<lparr>ps_name = name, ps_nested = []\<rparr>"

definition inRegion :: "string \<Rightarrow> StateOption \<Rightarrow> StateOption" where
  "inRegion regionName st =
     (if st_Parent (so_def st) = []
      then StateOption ((so_def st)\<lparr>st_Parent := regionName\<rparr>) (so_nested st) else st)"

definition Region :: "string \<Rightarrow> StateOption list \<Rightarrow> ParallelStateBuilder \<Rightarrow> ParallelStateBuilder" where
  "Region regionName states p =
     (let initialChild = (case states of [] \<Rightarrow> [] | st # _ \<Rightarrow> st_Name (so_def st));
          regionDef = zero_StateDef\<lparr>st_Name := regionName, st_IsCompound := True,
                        st_Parent := ps_name p, st_InitialChild := initialChild\<rparr> in
      p\<lparr>ps_nested := ps_nested p @ [StateOption regionDef []] @ map (inRegion regionName) states\<rparr>)"

definition Done :: "ParallelStateBuilder \<Rightarrow> StateOption" where
  "Done p =
     StateOption (zero_StateDef\<lparr>st_Name := ps_name p, st_IsParallel := True, st_IsCompound := True\<rparr>)
       (ps_nested p)"

fun flattenState :: "StateOption \<Rightarrow> StateOption list" where
  "flattenState (StateOption sd nested) = StateOption sd [] # concat (map flattenState nested)"

definition flattenStates :: "StateOption list \<Rightarrow> StateOption list" where
  "flattenStates states = concat (map flattenState states)"

section \<open>The definition builder\<close>

text \<open>A validation function may not return: its result is under one more \<open>option\<close>.\<close>

record DefBuilder =
  db_aggregateType :: string
  db_workflowType :: string
  db_version :: int
  db_states :: "StateOption list"
  db_transitions :: "(string \<times> TransitionOption list) list"
  db_validateFn :: "(Definition \<Rightarrow> gerr option option) option"
  db_errDupTransition :: gerr

definition NewDefBuilder ::
  "string \<Rightarrow> string \<Rightarrow> (Definition \<Rightarrow> gerr option option) option \<Rightarrow> gerr \<Rightarrow> DefBuilder" where
  "NewDefBuilder aggregateType workflowType validateFn errDupTransition =
     \<lparr>db_aggregateType = aggregateType, db_workflowType = workflowType, db_version = 1,
      db_states = [], db_transitions = [], db_validateFn = validateFn,
      db_errDupTransition = errDupTransition\<rparr>"

definition DefBuilder_Version :: "int \<Rightarrow> DefBuilder \<Rightarrow> DefBuilder" where
  "DefBuilder_Version v b = b\<lparr>db_version := v\<rparr>"

definition DefBuilder_States :: "StateOption list \<Rightarrow> DefBuilder \<Rightarrow> DefBuilder" where
  "DefBuilder_States states b = b\<lparr>db_states := db_states b @ states\<rparr>"

definition DefBuilder_Transition :: "string \<Rightarrow> TransitionOption list \<Rightarrow> DefBuilder \<Rightarrow> DefBuilder" where
  "DefBuilder_Transition name opts b = b\<lparr>db_transitions := db_transitions b @ [(name, opts)]\<rparr>"

definition collectState :: "StateOption \<Rightarrow> Definition \<Rightarrow> Definition" where
  "collectState so def =
     (let sd = so_def so in
      def\<lparr>df_States := mput (st_Name sd) sd (df_States def),
          df_InitialState := (if st_IsInitial sd then st_Name sd else df_InitialState def),
          df_TerminalStates := df_TerminalStates def @ (if st_IsTerminal sd then [st_Name sd] else [])\<rparr>)"

text \<open>One iteration of the wiring loop; the entry of the ranged-over key is read when it is reached.\<close>

definition wireChild :: "string \<Rightarrow> (string, StateDef) gomap \<Rightarrow> (string, StateDef) gomap" where
  "wireChild name states =
     (case map_of states name of
        None \<Rightarrow> states
      | Some st \<Rightarrow>
          if st_Parent st = [] then states
          else (case map_of states (st_Parent st) of
                  None \<Rightarrow> states
                | Some parent \<Rightarrow>
                    mput (st_Parent st)
                      (parent\<lparr>st_Children := st_Children parent @ [name], st_IsCompound := True\<rparr>) states))"

definition wireChildren :: "(string list \<Rightarrow> string list) \<Rightarrow> (string, StateDef) gomap \<Rightarrow> (string, StateDef) gomap" where
  "wireChildren order states = fold wireChild (order (mkeys states)) states"

definition transitionDef :: "transitionBuilder \<Rightarrow> TransitionDef" where
  "transitionDef tb =
     \<lparr>tr_Name = tb_name tb, tr_Sources = tb_sources tb, tr_Target = tb_target tb,
      tr_Routes = tb_routes tb, tr_Event = tb_event tb, tr_Guards = tb_guards tb,
      tr_Activities = tb_activities tb, tr_TaskDef = tb_taskDef tb, tr_ChildDef = tb_childDef tb,
      tr_ChildrenDef = tb_childrenDef tb, tr_TriggerType = tb_triggerType tb,
      tr_TriggerKey = tb_triggerKey tb, tr_AllowSelfTransition = tb_allowSelf tb,
      tr_HistoryMode = tb_historyMode tb, tr_Priority = tb_priority tb\<rparr>"

fun collectTransitions ::
  "gerr \<Rightarrow> (string \<times> TransitionOption list) list \<Rightarrow> (string, TransitionDef) gomap \<Rightarrow>
     gerr + (string, TransitionDef) gomap" where
  "collectTransitions dup [] trs = Inr trs"
| "collectTransitions dup ((name, opts) # rest) trs =
     (if map_of trs name \<noteq> None
      then Inl (Errorf ''flowstep: duplicate transition %q: %w'' (qs [name]) (Some dup))
      else (let tb = applyOptions opts (newTransition name) in
            collectTransitions dup rest (mput (tb_name tb) (transitionDef tb) trs)))"

definition collected :: "DefBuilder \<Rightarrow> Definition" where
  "collected b =
     fold collectState (flattenStates (db_states b))
       \<lparr>df_AggregateType = db_aggregateType b, df_WorkflowType = db_workflowType b,
        df_Version = db_version b, df_States = [], df_Transitions = [], df_InitialState = [],
        df_TerminalStates = [], df_Warnings = []\<rparr>"

definition Build :: "(string list \<Rightarrow> string list) \<Rightarrow> DefBuilder \<Rightarrow> (gerr + Definition) option" where
  "Build order b =
     (let def = collected b;
          wired = def\<lparr>df_States := wireChildren order (df_States def)\<rparr> in
      case collectTransitions (db_errDupTransition b) (db_transitions b) [] of
        Inl err \<Rightarrow> Some (Inl err)
      | Inr trs \<Rightarrow>
          (let built = wired\<lparr>df_Transitions := trs\<rparr> in
           case db_validateFn b of
             None \<Rightarrow> Some (Inr built)
           | Some validateFn \<Rightarrow>
               map_option (\<lambda>err. case err of Some e \<Rightarrow> Inl e | None \<Rightarrow> Inr built) (validateFn built)))"

definition Define :: "string \<Rightarrow> string \<Rightarrow> DefBuilder" where
  "Define aggregateType workflowType =
     NewDefBuilder aggregateType workflowType (Some Validate) (Sentinel ErrDuplicateTransition)"

section \<open>Wiring\<close>

definition wired_state :: "(string, StateDef) gomap \<Rightarrow> string list \<Rightarrow> string \<Rightarrow> StateDef \<Rightarrow> StateDef" where
  "wired_state states visited p st =
     (let children = filter (\<lambda>n. p \<noteq> [] \<and> map_option st_Parent (map_of states n) = Some p) visited in
      st\<lparr>st_Children := st_Children st @ children, st_IsCompound := (st_IsCompound st \<or> children \<noteq> [])\<rparr>)"

lemma mkeys_wireChild [simp]: "mkeys (wireChild n states) = mkeys states"
  by (auto simp: wireChild_def update_keys image_iff dest!: map_of_SomeD split: option.splits)

lemma mkeys_fold_wireChild [simp]: "mkeys (fold wireChild ns states) = mkeys states"
  by (induction ns arbitrary: states) auto

lemma wireChild_parent [simp]:
  "map_option st_Parent (map_of (wireChild n states) k) = map_option st_Parent (map_of states k)"
  by (auto simp: wireChild_def split: option.splits)

lemma wireChild_lookup:
  "map_of (wireChild n states) p = map_option (wired_state states [n] p) (map_of states p)"
proof (cases "map_of states p")
  case None
  then show ?thesis by (auto simp: wireChild_def split: option.splits)
next
  case (Some st)
  then show ?thesis
    by (cases "map_of states n")
      (auto simp: wireChild_def wired_state_def Let_def split: option.splits)
qed

lemma wired_state_parents:
  "(\<And>n. map_option st_Parent (map_of states n) = map_option st_Parent (map_of states' n)) \<Longrightarrow>
   wired_state states = wired_state states'"
  by (intro ext) (simp add: wired_state_def)

lemma fold_wireChild_lookup:
  "map_of (fold wireChild ns states) p = map_option (wired_state states ns p) (map_of states p)"
proof (induction ns arbitrary: states)
  case Nil
  show ?case by (simp add: wired_state_def Let_def option.map_ident)
next
  case (Cons n ns)
  have "wired_state (wireChild n states) = wired_state states"
    by (rule wired_state_parents) simp
  with Cons [of "wireChild n states"] show ?case
    by (cases "map_of states p") (auto simp: wireChild_lookup wired_state_def Let_def)
qed

lemma wireChildren_lookup:
  "map_of (wireChildren order states) p =
     map_option (wired_state states (order (mkeys states)) p) (map_of states p)"
  by (simp add: wireChildren_def fold_wireChild_lookup)


section \<open>What Build collects\<close>

text \<open>The last declaration of a state or a key wins.\<close>

definition declared :: "DefBuilder \<Rightarrow> string \<Rightarrow> StateDef option" where
  "declared b = map_of (rev (map (\<lambda>so. (st_Name (so_def so), so_def so)) (flattenStates (db_states b))))"

lemma fold_mput_lookup:
  "map_of (fold (\<lambda>x. mput (k x) (v x)) xs m) = map_of m ++ map_of (rev (map (\<lambda>x. (k x, v x)) xs))"
proof (induction xs arbitrary: m)
  case Nil
  show ?case by simp
next
  case (Cons x xs)
  have "map_of (mput (k x) (v x) m) = (map_of m)(k x \<mapsto> v x)" by (simp add: update_conv')
  with Cons [of "mput (k x) (v x) m"] show ?case by (simp add: map_add_upd_left map_add_def fun_eq_iff split: option.splits)
qed

lemma fold_collectState_states:
  "df_States (fold collectState sos def) = fold (\<lambda>so. mput (st_Name (so_def so)) (so_def so)) sos (df_States def)"
  by (induction sos arbitrary: def) (simp_all add: collectState_def Let_def)

lemma fold_collectState_rest [simp]:
  "df_AggregateType (fold collectState sos def) = df_AggregateType def"
  "df_WorkflowType (fold collectState sos def) = df_WorkflowType def"
  "df_Version (fold collectState sos def) = df_Version def"
  "df_TerminalStates (fold collectState sos def) =
     df_TerminalStates def @ map (st_Name \<circ> so_def) (filter (st_IsTerminal \<circ> so_def) sos)"
  by (induction sos arbitrary: def) (simp_all add: collectState_def Let_def)

lemma collected_lookup: "map_of (df_States (collected b)) n = declared b n"
  by (simp add: collected_def fold_collectState_states fold_mput_lookup declared_def)

lemma wf_fold_mput: "wf_map m \<Longrightarrow> wf_map (fold (\<lambda>x. mput (k x) (v x)) xs m)"
  by (induction xs arbitrary: m) auto

lemma wf_collected: "wf_map (df_States (collected b))"
  by (simp add: collected_def fold_collectState_states wf_fold_mput)

lemma declared_name: "declared b n = Some sd \<Longrightarrow> st_Name sd = n \<and> sd \<in> so_def ` set (flattenStates (db_states b))"
  by (auto simp: declared_def dest!: map_of_SomeD)

text \<open>
  An option keeps the name of its transition, as all options of the package do (their type cannot be
  named outside of it). A plain state has no children of its own yet and, if it is parallel, no
  initial child.
\<close>

definition option_ok :: "TransitionOption \<Rightarrow> bool" where
  "option_ok opt \<longleftrightarrow> (\<forall>tb. tb_name (opt tb) = tb_name tb)"

lemma option_ok_package [simp]:
  "option_ok (From ss)" "option_ok (To s)" "option_ok (Event s)" "option_ok (Guards gs)"
  "option_ok (OnSignal s)" "option_ok (OnTaskCompleted s)" "option_ok (OnChildCompleted s)"
  "option_ok OnChildrenJoined" "option_ok OnTimeout" "option_ok (EmitTask td)"
  "option_ok (SpawnChild cd)" "option_ok (SpawnChildren cs)" "option_ok AllowSelfTransition"
  "option_ok (WithHistory h)" "option_ok (Priority p)" "option_ok (RouteTo opts)"
  "option_ok (When c)" "option_ok Default" "option_ok (Dispatch s)" "option_ok (DispatchAndWait s)"
  by (simp_all add: option_ok_def From_def To_def Event_def Guards_def OnSignal_def OnTaskCompleted_def
      OnChildCompleted_def OnChildrenJoined_def OnTimeout_def EmitTask_def SpawnChild_def
      SpawnChildren_def AllowSelfTransition_def WithHistory_def Priority_def RouteTo_def Let_def
      When_def Default_def Dispatch_def DispatchAndWait_def)

lemma applyOptions_name:
  "\<forall>opt \<in> set opts. option_ok opt \<Longrightarrow> tb_name (applyOptions opts tb) = tb_name tb"
  unfolding applyOptions_def by (induction opts arbitrary: tb) (auto simp: option_ok_def)

lemma collectTransitions_result:
  assumes "\<forall>(n, opts) \<in> set ts. \<forall>opt \<in> set opts. option_ok opt"
  shows "case collectTransitions dup ts trs of
      Inl err \<Rightarrow> (\<not> distinct (map fst ts) \<or> fst ` set ts \<inter> fst ` set trs \<noteq> {}) \<and>
        (\<exists>name. err = Errorf ''flowstep: duplicate transition %q: %w'' (qs [name]) (Some dup))
    | Inr out \<Rightarrow> distinct (map fst ts) \<and> fst ` set ts \<inter> fst ` set trs = {} \<and>
        (wf_map trs \<longrightarrow> wf_map out) \<and>
        (\<forall>n. map_of out n = (case map_of ts n of
            Some opts \<Rightarrow> Some (transitionDef (applyOptions opts (newTransition n)))
          | None \<Rightarrow> map_of trs n))"
  using assms
proof (induction ts arbitrary: trs)
  case Nil
  show ?case by simp
next
  case (Cons t ts)
  obtain name opts where t: "t = (name, opts)" by fastforce
  let ?tb = "applyOptions opts (newTransition name)"
  from Cons.prems t have nm: "tb_name ?tb = name" by (simp add: applyOptions_name newTransition_def)
  show ?case
  proof (cases "map_of trs name")
    case (Some tr)
    then have "name \<in> fst ` set trs" by (metis map_of_None_iff option.distinct(1))
    with Some t show ?thesis by auto
  next
    case None
    then have fresh: "name \<notin> fst ` set trs" by (simp add: map_of_None_iff)
    let ?trs = "mput name (transitionDef ?tb) trs"
    have step: "collectTransitions dup (t # ts) trs = collectTransitions dup ts ?trs"
      using None t nm by (simp add: Let_def)
    have keys: "fst ` set ts \<inter> fst ` set ?trs = {} \<longleftrightarrow> name \<notin> fst ` set ts \<and> fst ` set ts \<inter> fst ` set trs = {}"
      by auto
    have top: "distinct (map fst (t # ts)) \<and> fst ` set (t # ts) \<inter> fst ` set trs = {} \<longleftrightarrow>
        distinct (map fst ts) \<and> fst ` set ts \<inter> fst ` set ?trs = {}"
      unfolding keys using fresh t by auto
    note IH = Cons.IH [of ?trs]
    from Cons.prems t have ok: "\<forall>(n, opts) \<in> set ts. \<forall>opt \<in> set opts. option_ok opt" by simp
    show ?thesis
    proof (cases "collectTransitions dup ts ?trs")
      case (Inl err)
      with IH [OF ok] top show ?thesis unfolding step by auto
    next
      case (Inr out)
      with IH [OF ok] have out: "distinct (map fst ts)" "fst ` set ts \<inter> fst ` set ?trs = {}"
        "wf_map ?trs \<longrightarrow> wf_map out"
        "\<And>n. map_of out n = (case map_of ts n of
            Some opts \<Rightarrow> Some (transitionDef (applyOptions opts (newTransition n)))
          | None \<Rightarrow> map_of ?trs n)" by auto
      from out(2) keys have "map_of ts name = None" by (simp add: map_of_None_iff)
      then have "map_of out n = (case map_of (t # ts) n of
            Some opts \<Rightarrow> Some (transitionDef (applyOptions opts (newTransition n)))
          | None \<Rightarrow> map_of trs n)" for n
        using out(4) [of n] t by (simp split: option.splits)
      with Inr out(1-3) top show ?thesis unfolding step by simp
    qed
  qed
qed

section \<open>What Build returns\<close>

definition plain_state :: "StateDef \<Rightarrow> bool" where
  "plain_state sd \<longleftrightarrow> st_Children sd = [] \<and> (st_IsParallel sd \<longrightarrow> st_InitialChild sd = [])"

definition builder_ok :: "DefBuilder \<Rightarrow> bool" where
  "builder_ok b \<longleftrightarrow> (\<forall>so \<in> set (flattenStates (db_states b)). plain_state (so_def so)) \<and>
     (\<forall>(n, opts) \<in> set (db_transitions b). \<forall>opt \<in> set opts. option_ok opt)"

definition some_order :: "(string list \<Rightarrow> string list) \<Rightarrow> bool" where
  "some_order order \<longleftrightarrow> (\<forall>keys. mset (order keys) = mset keys)"

lemma set_some_order: "some_order order \<Longrightarrow> set (order keys) = set keys"
  unfolding some_order_def by (metis set_mset_mset)

lemma Build_Inr:
  assumes "Build order b = Some (Inr def)"
  shows "df_States def = wireChildren order (df_States (collected b))"
    "collectTransitions (db_errDupTransition b) (db_transitions b) [] = Inr (df_Transitions def)"
    "df_AggregateType def = db_aggregateType b" "df_WorkflowType def = db_workflowType b"
    "df_Version def = db_version b" "df_InitialState def = df_InitialState (collected b)"
    "df_TerminalStates def = df_TerminalStates (collected b)"
    "\<And>f. db_validateFn b = Some f \<Longrightarrow> f def = Some None"
  using assms by (auto simp: Build_def Let_def collected_def split: sum.splits option.splits)

lemma Build_state:
  assumes "Build order b = Some (Inr def)"
  shows "map_of (df_States def) p =
    map_option (wired_state (df_States (collected b)) (order (mkeys (df_States (collected b)))) p) (declared b p)"
  using Build_Inr(1) [OF assms] by (simp add: wireChildren_lookup collected_lookup)

lemma Build_keys: "Build order b = Some (Inr def) \<Longrightarrow> mkeys (df_States def) = mkeys (df_States (collected b))"
  by (simp add: Build_Inr(1) wireChildren_def)

lemma Build_parent:
  assumes "Build order b = Some (Inr def)"
  shows "map_option st_Parent (map_of (df_States (collected b)) n) = map_option st_Parent (map_of (df_States def) n)"
  by (cases "declared b n") (simp_all add: Build_state [OF assms] collected_lookup wired_state_def Let_def)

lemma Build_children:
  assumes b: "Build order b = Some (Inr def)" and ok: "builder_ok b" and p: "map_of (df_States def) p = Some st"
  shows "st_Children st = filter (\<lambda>n. p \<noteq> [] \<and> map_option st_Parent (map_of (df_States def) n) = Some p)
      (order (mkeys (df_States def)))"
    "\<exists>sd. declared b p = Some sd \<and>
      st = sd\<lparr>st_Children := st_Children st, st_IsCompound := (st_IsCompound sd \<or> st_Children st \<noteq> [])\<rparr>"
proof -
  from p obtain sd where sd: "declared b p = Some sd"
    "st = wired_state (df_States (collected b)) (order (mkeys (df_States (collected b)))) p sd"
    unfolding Build_state [OF b] by auto
  from declared_name [OF sd(1)] ok have "st_Children sd = []"
    by (auto simp: builder_ok_def plain_state_def)
  with sd show "st_Children st = filter (\<lambda>n. p \<noteq> [] \<and> map_option st_Parent (map_of (df_States def) n) = Some p)
      (order (mkeys (df_States def)))"
    unfolding wired_state_def Let_def Build_parent [OF b] Build_keys [OF b] by simp
  from \<open>st_Children sd = []\<close> sd show "\<exists>sd. declared b p = Some sd \<and>
      st = sd\<lparr>st_Children := st_Children st, st_IsCompound := (st_IsCompound sd \<or> st_Children st \<noteq> [])\<rparr>"
    by (auto simp: wired_state_def Let_def)
qed

lemma parent_of_lookup: "p \<noteq> [] \<Longrightarrow> map_option st_Parent (map_of (df_States def) n) = Some p \<longleftrightarrow> parent_of def n = p"
  by (auto simp: parent_of_def state_of_def split: option.splits)

lemma Build_children_mset:
  assumes "Build order b = Some (Inr def)" "builder_ok b" "some_order order" "map_of (df_States def) p = Some st"
  shows "mset (st_Children st) = (if p = [] then {#} else mset (filter (\<lambda>n. parent_of def n = p) (mkeys (df_States def))))"
  using assms(3) unfolding Build_children(1) [OF assms(1,2,4)]
  by (cases "p = []") (simp_all add: parent_of_lookup some_order_def del: map_option_eq_Some)

lemma Build_transitions:
  assumes "Build order b = Some (Inr def)" "builder_ok b"
  shows "distinct (map fst (db_transitions b))" "wf_map (df_Transitions def)"
    "map_of (df_Transitions def) n =
       map_option (\<lambda>opts. transitionDef (applyOptions opts (newTransition n))) (map_of (db_transitions b) n)"
  using collectTransitions_result [of "db_transitions b" "[]" "db_errDupTransition b"] assms(2)
    Build_Inr(2) [OF assms(1)]
  by (auto simp: builder_ok_def split: option.splits)

lemma Build_wf: "Build order b = Some (Inr def) \<Longrightarrow> wf_map (df_States def)"
  using wf_collected [of b] by (simp add: wf_map_def Build_keys)

lemma Build_names_ok:
  assumes b: "Build order b = Some (Inr def)" and ok: "builder_ok b"
  shows "names_ok def"
proof -
  note wf = Build_wf [OF b] Build_transitions(2) [OF b ok]
  have "st_Name st = n" if "(n, st) \<in> set (df_States def)" for n st
  proof -
    from that wf(1) have "map_of (df_States def) n = Some st" by (simp add: map_of_in_set_wf)
    from Build_children(2) [OF b ok this] obtain sd where "declared b n = Some sd" "st_Name st = st_Name sd"
      by (metis StateDef.select_convs(1) StateDef.surjective StateDef.update_convs(6,8))
    with declared_name show ?thesis by blast
  qed
  moreover have "tr_Name tr = n" if "(n, tr) \<in> set (df_Transitions def)" for n tr
  proof -
    from that wf(2) have "map_of (df_Transitions def) n = Some tr" by (simp add: map_of_in_set_wf)
    then obtain opts where o: "map_of (db_transitions b) n = Some opts" "tr = transitionDef (applyOptions opts (newTransition n))"
      unfolding Build_transitions(3) [OF b ok] by auto
    with ok have "\<forall>opt \<in> set opts. option_ok opt" by (auto simp: builder_ok_def dest!: map_of_SomeD)
    with o(2) show ?thesis by (simp add: transitionDef_def applyOptions_name newTransition_def)
  qed
  ultimately show ?thesis using wf by (auto simp: names_ok_def)
qed

lemma Build_links:
  assumes b: "Build order b = Some (Inr def)" and ok: "builder_ok b" and o: "some_order order"
    and v: "Validate def = Some None"
  shows "init_links def" "named_compounds def"
proof -
  have cc: "st_InitialChild st \<in> set (st_Children st)"
    if "map_of (df_States def) n = Some st" "st_IsCompound st" "\<not> st_IsParallel st" for n st
    using v map_of_SomeD [OF that(1)] that(2,3)
    unfolding Validate_accept checkCompoundStates_def first_err_None by (auto split: if_splits)
  have cp: "st_Children st \<noteq> []" if "map_of (df_States def) n = Some st" "st_IsParallel st" for n st
    using v map_of_SomeD [OF that(1)] that(2) unfolding Validate_accept checkParallelStates_None by auto
  show "named_compounds def"
    using cc [of "[]"] cp [of "[]"] Build_children(1) [OF b ok, of "[]"]
    by (cases "map_of (df_States def) []") (auto simp: named_compounds_def)
  show "init_links def"
    unfolding init_links_def
  proof (intro allI impI)
    fix n assume h: "st_IsCompound (state_of def n) \<and> st_InitialChild (state_of def n) \<noteq> []"
    then obtain st where st: "map_of (df_States def) n = Some st" by (cases "map_of (df_States def) n") auto
    from Build_children(2) [OF b ok st] obtain sd where sd: "declared b n = Some sd"
      "st_IsParallel st = st_IsParallel sd" "st_InitialChild st = st_InitialChild sd"
      by (metis StateDef.select_convs(7,9) StateDef.surjective StateDef.update_convs(6,8))
    from declared_name [OF sd(1)] ok have "plain_state sd" by (auto simp: builder_ok_def)
    with h st sd have "\<not> st_IsParallel st" by (auto simp: plain_state_def)
    with cc [OF st] h st have "st_InitialChild st \<in> set (st_Children st)" by simp
    with st show "parent_of def (st_InitialChild (state_of def n)) = n"
      unfolding Build_children(1) [OF b ok st] by (auto simp: parent_of_def)
  qed
qed

lemma DetectSpawnCycles_sentinel: "DetectSpawnCycles defs = Some err \<Longrightarrow> err_is err ErrSpawnCycle"
  using DetectSpawnCycles_spec [of defs] by (auto simp: cycle_report_def)

end
