(* ===== verification/Flow_Instances.thy ===== *)
theory Flow_Instances
  imports Flow_Recovery Flow_Builder
begin

text \<open>
  The type invariant of stored instances, over every public operation of the engine: an instance is
  in a state of its definition, its histories name states of the definition, and inside a parallel
  state it has exactly one active state per region.
\<close>

section \<open>Well-formed machines and instances\<close>

text \<open>
  A transition with neither a target nor routes, or with a route without a target, leads to the empty
  name, which is no state; the check in \<open>Validate\<close> lets it pass.
\<close>

definition targeted :: "Definition \<Rightarrow> bool" where
  "targeted def \<longleftrightarrow> (\<forall>(n, tr) \<in> set (df_Transitions def).
     if tr_Routes tr = [] then tr_Target tr \<noteq> [] else \<forall>r \<in> set (tr_Routes tr). rt_Target r \<noteq> [])"

definition children_known :: "Definition \<Rightarrow> bool" where
  "children_known def \<longleftrightarrow> (\<forall>n. \<forall>c \<in> set (st_Children (state_of def n)). knownState def c)"

text \<open>
  A transition out of a parallel state that ends in a parallel state would enter it without its
  regions: \<open>commitParallelExit\<close> only resolves the initial leaf of the target.
\<close>

definition targets :: "TransitionDef \<Rightarrow> string set" where
  "targets tr = (if tr_Routes tr = [] then {tr_Target tr} else rt_Target ` set (tr_Routes tr))"

definition plain_exits :: "CompiledMachine \<Rightarrow> bool" where
  "plain_exits cm \<longleftrightarrow> (\<forall>(n, tr) \<in> set (df_Transitions (cm_Definition cm)).
     (\<exists>s \<in> set (tr_Sources tr). isParallelState cm s) \<longrightarrow> (\<forall>t \<in> targets tr. \<not> isParallelState cm (leaf_in cm t)))"

definition machine_ok :: "CompiledMachine \<Rightarrow> bool" where
  "machine_ok cm \<longleftrightarrow>
     (let def = cm_Definition cm in
      Validate def = Some None \<and> init_links def \<and> named_compounds def \<and> wf_map (df_States def) \<and>
      targeted def \<and> children_known def \<and> knownState def (df_InitialState def) \<and>
      (\<exists>digest. Compile digest def = Some (Inr cm)) \<and>
      \<not> isParallelState cm (leaf_in cm (df_InitialState def)) \<and> plain_exits cm)"

abbreviation known :: "CompiledMachine \<Rightarrow> string \<Rightarrow> bool" where
  "known cm \<equiv> knownState (cm_Definition cm)"

definition fields_ok :: "CompiledMachine \<Rightarrow> WorkflowInstance \<Rightarrow> bool" where
  "fields_ok cm inst \<longleftrightarrow>
     known cm (wi_CurrentState inst) \<and>
     (\<forall>k v. mlook (wi_ShallowHistory inst) k = Some v \<longrightarrow> known cm v) \<and>
     (\<forall>k v. mlook (wi_DeepHistory inst) k = Some v \<longrightarrow> known cm v) \<and>
     wf_map (mitems (wi_ActiveInParallel inst)) \<and>
     (\<forall>r l. mlook (wi_ActiveInParallel inst) r = Some l \<longrightarrow> known cm l)"

text \<open>Outside a parallel state there are no regions, and inside one every region has its entry.\<close>

definition inst_ok :: "CompiledMachine \<Rightarrow> WorkflowInstance \<Rightarrow> bool" where
  "inst_ok cm inst \<longleftrightarrow> fields_ok cm inst \<and>
     fst ` set (mitems (wi_ActiveInParallel inst)) = set (regions_of cm (wi_CurrentState inst))"

lemma machine_okD:
  assumes "machine_ok cm"
  shows "Validate (cm_Definition cm) = Some None" "init_links (cm_Definition cm)"
    "named_compounds (cm_Definition cm)" "wf_map (df_States (cm_Definition cm))"
    "targeted (cm_Definition cm)" "children_known (cm_Definition cm)"
    "known cm (df_InitialState (cm_Definition cm))" "\<exists>digest. Compile digest (cm_Definition cm) = Some (Inr cm)"
    "\<not> isParallelState cm (leaf_in cm (df_InitialState (cm_Definition cm)))" "plain_exits cm"
  using assms by (auto simp: machine_ok_def Let_def)

lemma regions_of_none: "\<not> isParallelState cm s \<Longrightarrow> regions_of cm s = []"
  by (simp add: isParallelState_def regions_of_def)

section \<open>States the engine moves to\<close>

lemma leaf_in_known:
  assumes "machine_ok cm" "known cm s"
  shows "known cm (leaf_in cm s)"
proof (cases "map_of (cm_InitialLeafMap cm) s")
  case None
  with assms show ?thesis by (simp add: leaf_in_def)
next
  case (Some l)
  from machine_okD(8) [OF assms(1)] obtain digest where
    c: "Compile digest (cm_Definition cm) = Some (Inr cm)" by blast
  note il = Compile_leaf [OF c machine_okD(2-4) [OF assms(1)]]
  from il(2) Some have l: "initial_leaf (cm_Definition cm) s l" by simp
  from il(1) [of s] Some have "hasInitialLeaf (state_of (cm_Definition cm) s)" by (auto split: if_splits)
  with initial_leaf_rests [OF l] have "l \<noteq> s" by (auto simp: hasInitialLeaf_def)
  with initial_leaf_resting [OF l _ machine_okD(1-3) [OF assms(1)]] Some show ?thesis
    by (simp add: rests_def leaf_in_def)
qed

lemma resolveRoute_target:
  assumes "resolveRoute tr a p = Inr t"
  shows "t \<in> rt_Target ` set (tr_Routes tr)"
proof (cases "dropWhile (falls_through a p) (tr_Routes tr)")
  case Nil
  let ?ts = "map rt_Target (filter rt_IsDefault (tr_Routes tr))"
  from assms Nil have t: "t = last ([] # ?ts)" "t \<noteq> []"
    by (auto simp: resolveRoute_def routeLoop_eq Let_def split: if_splits)
  then have "?ts \<noteq> []" "t = last ?ts" by (auto split: if_splits)
  with last_in_set [of ?ts] show ?thesis by auto
next
  case (Cons r rs)
  then have "r \<in> set (tr_Routes tr)" by (metis list.set_intros(1) set_dropWhileD)
  with Cons assms show ?thesis by (auto simp: resolveRoute_def routeLoop_eq split: sum.splits)
qed

lemma targetOf_known:
  assumes ok: "machine_ok cm" and tr: "map_of (df_Transitions (cm_Definition cm)) name = Some tr"
    and t: "targetOf tr inst params = Inr t"
  shows "known cm t"
proof -
  let ?def = "cm_Definition cm"
  from machine_okD(1) [OF ok] map_of_SomeD [OF tr]
  have u: "tr_Target tr = [] \<or> known cm (tr_Target tr)"
    "\<forall>r \<in> set (tr_Routes tr). rt_Target r = [] \<or> known cm (rt_Target r)"
    by (auto simp: Validate_accept checkUnknownStates_None knownState_iff)
  from machine_okD(5) [OF ok] map_of_SomeD [OF tr]
  have g: "if tr_Routes tr = [] then tr_Target tr \<noteq> [] else \<forall>r \<in> set (tr_Routes tr). rt_Target r \<noteq> []"
    by (auto simp: targeted_def)
  from t u g show ?thesis
    by (auto simp: targetOf_def dest!: resolveRoute_target split: if_splits)
qed

lemma validMove_known: "machine_ok cm \<Longrightarrow> validMove cm inst name params ct target \<Longrightarrow> known cm target"
  by (auto simp: validMove_def intro: targetOf_known)

lemma resolveTarget_known:
  assumes "machine_ok cm" "inst_ok cm inst" "known cm target"
  shows "known cm (resolveTarget cm inst ct target)"
  using assms leaf_in_known [OF assms(1)]
  by (auto simp: resolveTarget_def inst_ok_def fields_ok_def split: HistoryMode.splits option.splits)

lemma regions_known:
  assumes "machine_ok cm" "r \<in> set (regions_of cm p)"
  shows "known cm r"
proof -
  from machine_okD(8) [OF assms(1)] obtain digest where
    "Compile digest (cm_Definition cm) = Some (Inr cm)" by blast
  from Compile_regions [OF this] assms(2) machine_okD(4,6) [OF assms(1)]
  show ?thesis by (auto simp: regions_of_def children_known_def split: option.splits if_splits)
qed

section \<open>Every step keeps instances well-formed\<close>

lemma keys_fold_mput: "fst ` set (fold (\<lambda>x. mput (k x) (v x)) xs m) = fst ` set m \<union> k ` set xs"
  by (induction xs arbitrary: m) auto

lemma mlook_eq_map_of [simp]: "mlook (Some al) = map_of al"
  by (rule ext) simp

lemma inst_ok_enter:
  assumes ok: "machine_ok cm" "fields_ok cm inst" and cur: "known cm p" "wi_CurrentState inst = p"
  shows "inst_ok cm (enterParallelRegions inst cm p)"
proof -
  let ?al = "fold (\<lambda>region. mput region (leaf_in cm region)) (regions_of cm p) []"
  have "known cm l" if "map_of ?al r = Some l" for r l
    using that leaf_in_known [OF ok(1)] regions_known [OF ok(1)]
    by (auto simp: fold_mput_lookup dest!: map_of_SomeD)
  with assms show ?thesis
    by (auto simp: inst_ok_def fields_ok_def enterParallelRegions_def keys_fold_mput wf_fold_mput)
qed

lemma inst_ok_cong:
  "wi_CurrentState i = wi_CurrentState j \<Longrightarrow> wi_ShallowHistory i = wi_ShallowHistory j \<Longrightarrow>
   wi_DeepHistory i = wi_DeepHistory j \<Longrightarrow> wi_ActiveInParallel i = wi_ActiveInParallel j \<Longrightarrow>
   inst_ok cm i = inst_ok cm j"
  by (simp add: inst_ok_def fields_ok_def)

lemma recordHistory_ok:
  assumes ok: "machine_ok cm" "inst_ok cm inst" and leaf: "known cm l"
  shows "inst_ok cm (recordHistory inst l seq (cm_Definition cm))"
proof -
  let ?def = "cm_Definition cm"
  have rec: "known cm c" if "recorded_child seq ?def k = Some c" for k c
  proof -
    from that have k: "st_IsCompound (state_of ?def k)" and f: "find (\<lambda>c. st_Parent (state_of ?def c) = k) seq = Some c"
      by (auto simp: recorded_child_def split: if_splits option.splits)
    from k machine_okD(3) [OF ok(1)] have "k \<noteq> []" by (auto simp: named_compounds_def)
    with f have "parent_of ?def c \<noteq> []" by (auto simp: parent_of_def find_Some_iff)
    then show ?thesis by (simp add: knownState_iff parent_of_key)
  qed
  with ok(2) leaf show ?thesis
    by (auto simp: inst_ok_def fields_ok_def recordHistory_lookup split: option.splits)
qed

lemma recordRegions_ok:
  assumes ok: "machine_ok cm" "inst_ok cm inst"
  shows "inst_ok cm (recordRegions cm inst p) \<and> wi_ActiveInParallel (recordRegions cm inst p) = wi_ActiveInParallel inst"
proof -
  let ?step = "\<lambda>region i. recordHistory i (aip_leaf i region)
      (computeExitSequence (aip_leaf i region) p (cm_Ancestry cm)) (cm_Definition cm)"
  have "inst_ok cm (fold ?step rs i) \<and> wi_ActiveInParallel (fold ?step rs i) = wi_ActiveInParallel i"
    if "inst_ok cm i" "\<forall>r \<in> set rs. mlook (wi_ActiveInParallel i) r \<noteq> None" for rs i
    using that
  proof (induction rs arbitrary: i)
    case (Cons r rs)
    then obtain l where l: "mlook (wi_ActiveInParallel i) r = Some l" by auto
    with Cons.prems(1) have "known cm (aip_leaf i r)" by (auto simp: inst_ok_def fields_ok_def aip_leaf_def)
    from recordHistory_ok [OF ok(1) Cons.prems(1) this] Cons.IH [of "?step r i"] Cons.prems(2)
    show ?case by simp
  qed simp
  moreover have "\<forall>r \<in> set (sortedRegions inst). mlook (wi_ActiveInParallel inst) r \<noteq> None"
    by (auto simp: sortedRegions_def mlook_def map_of_None_iff simp del: not_None_eq)
  ultimately show ?thesis using ok(2) unfolding recordRegions_def by blast
qed

lemma inst_ok_new:
  assumes "machine_ok cm"
  shows "inst_ok cm (newInstance cm at aid i c now)"
  using leaf_in_known [OF assms machine_okD(7) [OF assms]] regions_of_none [OF machine_okD(9) [OF assms]]
  by (simp add: inst_ok_def fields_ok_def newInstance_def zero_instance_def)

lemma inst_ok_stuck:
  assumes "machine_ok cm" "inst_ok cm inst"
  shows "inst_ok cm (markStuck (withHistory cm inst ct target) (wi_CurrentState inst) reason now)"
proof -
  from assms(2) have "known cm (wi_CurrentState inst)" by (simp add: inst_ok_def fields_ok_def)
  from recordHistory_ok [OF assms this] have "inst_ok cm (withHistory cm inst ct target)"
    unfolding withHistory_def .
  then show ?thesis by (simp add: inst_ok_def fields_ok_def markStuck_def)
qed

lemma inst_ok_moved:
  assumes "machine_ok cm" "inst_ok cm inst" "known cm target"
  shows "inst_ok cm (movedInstance cm inst ct target now)"
proof -
  let ?t = "resolveTarget cm inst ct target"
  from assms(2) have "known cm (wi_CurrentState inst)" by (simp add: inst_ok_def fields_ok_def)
  note h = recordHistory_ok [OF assms(1,2) this]
  note t = resolveTarget_known [OF assms]
  let ?i = "(withHistory cm inst ct target)\<lparr>wi_LastReadUpdatedAt := wi_UpdatedAt (withHistory cm inst ct target),
      wi_CurrentState := ?t, wi_UpdatedAt := now, wi_ActiveInParallel := None\<rparr>"
  from h have i: "fields_ok cm ?i" unfolding withHistory_def using t by (simp add: inst_ok_def fields_ok_def)
  show ?thesis
  proof (cases "isParallelState cm ?t")
    case True
    have "inst_ok cm (enterParallelRegions ?i cm ?t)" by (rule inst_ok_enter [OF assms(1) i t]) simp
    with True show ?thesis
      by (subst inst_ok_cong [of _ "enterParallelRegions ?i cm ?t"])
        (simp_all add: movedInstance_def moveInstance_def Let_def enterParallelRegions_def)
  next
    case False
    with i regions_of_none [OF False] show ?thesis
      by (simp add: movedInstance_def moveInstance_def Let_def inst_ok_def fields_ok_def)
  qed
qed

lemma inst_ok_left:
  assumes "machine_ok cm" "inst_ok cm inst" "mitems (wi_ActiveInParallel inst) \<noteq> []"
    "map_of (df_Transitions (cm_Definition cm)) name = Some tr" "wi_CurrentState inst \<in> set (tr_Sources tr)"
    "validMove cm inst name params ct target"
  shows "inst_ok cm (leftInstance cm inst target now)"
proof -
  have "set (regions_of cm (wi_CurrentState inst)) \<noteq> {}" using assms(2,3) by (auto simp: inst_ok_def)
  then have "isParallelState cm (wi_CurrentState inst)" using regions_of_none [of cm "wi_CurrentState inst"] by auto
  moreover have "target \<in> targets tr"
    using assms(4,6) by (auto simp: validMove_def targetOf_def targets_def dest!: resolveRoute_target split: if_splits)
  ultimately have "\<not> isParallelState cm (leaf_in cm target)"
    using machine_okD(10) [OF assms(1)] map_of_SomeD [OF assms(4)] assms(5) by (force simp: plain_exits_def)
  with recordRegions_ok [OF assms(1,2), of "wi_CurrentState inst"] leaf_in_known [OF assms(1) validMove_known [OF assms(1,6)]]
  show ?thesis by (simp add: leftInstance_def inst_ok_def fields_ok_def regions_of_none)
qed

lemma candidateIn_region: "candidateIn cm inst tr name params r = Some c \<Longrightarrow>
    pc_region c = r \<and> targetOf tr inst params = Inr (pc_targetState c)"
  by (auto simp: candidateIn_def Let_def split: if_splits option.splits sum.splits)

lemma inst_ok_intra:
  assumes "machine_ok cm" "inst_ok cm inst" "map_of (df_Transitions (cm_Definition cm)) name = Some tr"
    "cs = List.map_filter (candidateIn cm inst tr name params) (sortedRegions inst)"
  shows "inst_ok cm (intraInstance inst cs now)"
proof -
  let ?al = "mitems (wi_ActiveInParallel inst)"
  have cs: "pc_region c \<in> fst ` set ?al \<and> known cm (pc_targetState c)" if "c \<in> set cs" for c
  proof -
    from that obtain r where r: "r \<in> set (sortedRegions inst)" "candidateIn cm inst tr name params r = Some c"
      by (auto simp: assms(4) List.map_filter_def)
    with candidateIn_region [OF r(2)] targetOf_known [OF assms(1,3)] show ?thesis
      by (auto simp: sortedRegions_def)
  qed
  then have keys: "fst ` set (moveRegions cs ?al) = fst ` set ?al"
    by (auto simp: moveRegions_def keys_fold_mput)
  have "known cm l" if "map_of (moveRegions cs ?al) r = Some l" for r l
    using that cs assms(2)
    by (auto simp: moveRegions_def fold_mput_lookup map_add_def inst_ok_def fields_ok_def mlook_def dest!: map_of_SomeD split: option.splits)
  with keys assms(2) show ?thesis
    by (auto simp: inst_ok_def fields_ok_def intraInstance_def wf_fold_mput moveRegions_def)
qed

lemma inst_ok_step:
  assumes "machine_ok cm" "inst_ok cm inst" "inst_step cm inst name params now ct inst'"
  shows "inst_ok cm inst'"
  using assms(3)
proof (cases rule: inst_step.cases)
  case (step_move target)
  with inst_ok_moved [OF assms(1,2) validMove_known [OF assms(1)]] show ?thesis by blast
next
  case (step_leave tr target)
  with inst_ok_left [OF assms(1,2)] show ?thesis by blast
next
  case (step_intra tr c cs)
  with inst_ok_intra [OF assms(1,2)] show ?thesis by blast
qed

lemma inst_ok_forced:
  assumes "machine_ok cm" "known cm target"
  shows "inst_ok cm (forcedInstance cm inst (leaf_in cm target) now)"
proof -
  note t = leaf_in_known [OF assms]
  let ?i = "inst\<lparr>wi_LastReadUpdatedAt := wi_UpdatedAt inst, wi_CurrentState := leaf_in cm target,
      wi_IsStuck := False, wi_StuckReason := Text [], wi_ShallowHistory := Some [],
      wi_DeepHistory := Some [], wi_ActiveInParallel := None, wi_UpdatedAt := now\<rparr>"
  have i: "fields_ok cm ?i" using t by (simp add: fields_ok_def)
  have "inst_ok cm (enterParallelRegions ?i cm (leaf_in cm target))"
    by (rule inst_ok_enter [OF assms(1) i t]) simp
  moreover have "inst_ok cm ?i" if "\<not> isParallelState cm (leaf_in cm target)"
    using i regions_of_none [OF that] by (simp add: inst_ok_def)
  ultimately show ?thesis by (simp add: forcedInstance_def Let_def)
qed

section \<open>The stored instances\<close>

definition registered :: "'w Engine \<Rightarrow> string \<Rightarrow> bool" where
  "registered e at \<longleftrightarrow> (\<exists>v cm. compiledFor e at v = Some cm)"

text \<open>
  What the invariant needs of the registry: well-formed machines, the latest machine of an aggregate
  type is the one registered under its version, and no two registered types share a key.
\<close>

definition engine_ok :: "(string \<Rightarrow> string \<Rightarrow> 'k) \<Rightarrow> 'w Engine \<Rightarrow> bool" where
  "engine_ok ident e \<longleftrightarrow>
     (\<forall>at v cm. compiledFor e at v = Some cm \<longrightarrow> machine_ok cm) \<and>
     (\<forall>at cm. compiledFor e at 0 = Some cm \<longrightarrow> compiledFor e at (df_Version (cm_Definition cm)) = Some cm) \<and>
     (\<forall>at aid at' aid'. registered e at \<longrightarrow> registered e at' \<longrightarrow> ident at aid = ident at' aid' \<longrightarrow> at = at')"

definition stored_ok :: "'w Engine \<Rightarrow> WorkflowInstance \<Rightarrow> bool" where
  "stored_ok e inst \<longleftrightarrow> registered e (wi_AggregateType inst) \<and>
     (\<forall>cm. compiledFor e (wi_AggregateType inst) (wi_WorkflowVersion inst) = Some cm \<longrightarrow> inst_ok cm inst)"

definition view_ok :: "(string \<Rightarrow> string \<Rightarrow> 'k) \<Rightarrow> 'w Engine \<Rightarrow> 'k storeview \<Rightarrow> bool" where
  "view_ok ident e s \<longleftrightarrow> well_keyed ident s \<and> (\<forall>k inst. v_insts s k = Some inst \<longrightarrow> stored_ok e inst)"

lemma view_ok_put: "view_ok ident e s \<Longrightarrow> stored_ok e inst \<Longrightarrow> view_ok ident e (put_inst ident inst s)"
  by (simp add: view_ok_def)

lemma view_ok_add [simp]: "view_ok ident e (add_event event s) = view_ok ident e s"
  by (simp add: view_ok_def)

lemma registeredI: "compiledFor e at v = Some cm \<Longrightarrow> registered e at"
  by (auto simp: registered_def)

lemma stored_ok_step:
  assumes "stored_ok e inst" "wi_AggregateType inst' = wi_AggregateType inst"
    "wi_WorkflowVersion inst' = wi_WorkflowVersion inst"
    "\<And>cm. inst_ok cm inst \<Longrightarrow> compiledFor e (wi_AggregateType inst) (wi_WorkflowVersion inst) = Some cm \<Longrightarrow> inst_ok cm inst'"
  shows "stored_ok e inst'"
  using assms by (simp add: stored_ok_def)

lemma inst_step_sel: "inst_step cm inst name params now ct inst' \<Longrightarrow>
    wi_AggregateType inst' = wi_AggregateType inst \<and> wi_WorkflowVersion inst' = wi_WorkflowVersion inst"
  by (erule inst_stepE) simp_all

lemma view_ok_type:
  assumes "engine_ok ident e" "view_ok ident e s" "v_insts s (ident at aid) = Some inst" "registered e at"
  shows "wi_AggregateType inst = at" "inst_key ident inst = ident at aid"
    "compiledFor e at (wi_WorkflowVersion inst) = Some cm \<Longrightarrow> inst_ok cm inst"
proof -
  from assms(2,3) have k: "inst_key ident inst = ident at aid" and s: "stored_ok e inst"
    by (auto simp: view_ok_def well_keyed_def)
  then show t: "wi_AggregateType inst = at" "inst_key ident inst = ident at aid"
    using assms(1,4) unfolding engine_ok_def stored_ok_def inst_key_def by blast+
  from s show "compiledFor e at (wi_WorkflowVersion inst) = Some cm \<Longrightarrow> inst_ok cm inst"
    by (simp add: stored_ok_def t(1))
qed

lemma loads_ok:
  assumes e: "engine_ok ident e" and v: "view_ok ident e s0" and l: "loads ident e s0 at aid cm inst s1"
  shows "view_ok ident e s1" "stored_ok e inst" "inst_ok cm inst" "machine_ok cm"
    "wi_AggregateType inst = at" "compiledFor e at (wi_WorkflowVersion inst) = Some cm"
proof -
  have "view_ok ident e s1 \<and> stored_ok e inst \<and> inst_ok cm inst \<and> machine_ok cm \<and> wi_AggregateType inst = at \<and>
      compiledFor e at (wi_WorkflowVersion inst) = Some cm"
  proof (cases "v_insts s0 (ident at aid)")
    case (Some stored)
    with l have c: "inst = stored" "s1 = s0" "compiledFor e at (wi_WorkflowVersion inst) = Some cm"
      by (auto simp: loads_def)
    from c(3) e have "machine_ok cm" by (auto simp: engine_ok_def)
    with c view_ok_type [OF e v Some registeredI [OF c(3)]] v Some show ?thesis by (auto simp: view_ok_def)
  next
    case None
    with l obtain i c where n: "inst = newInstance cm at aid i c (v_now s0)" "s1 = put_inst ident inst s0"
      "compiledFor e at 0 = Some cm" by (auto simp: loads_def)
    then have "wi_AggregateType inst = at" "wi_WorkflowVersion inst = df_Version (cm_Definition cm)"
      by (simp_all add: newInstance_def)
    moreover from e n(3) have "machine_ok cm" "compiledFor e at (df_Version (cm_Definition cm)) = Some cm"
      by (auto simp: engine_ok_def)
    moreover from this(1) have "inst_ok cm inst" unfolding n(1) by (rule inst_ok_new)
    ultimately have "stored_ok e inst" using registeredI [OF n(3)] by (auto simp: stored_ok_def)
    with view_ok_put [OF v this] n(2) \<open>inst_ok cm inst\<close> \<open>machine_ok cm\<close> \<open>wi_AggregateType inst = at\<close>
      \<open>wi_WorkflowVersion inst = _\<close> \<open>compiledFor e at (df_Version (cm_Definition cm)) = Some cm\<close>
    show ?thesis by simp
  qed
  then show "view_ok ident e s1" "stored_ok e inst" "inst_ok cm inst" "machine_ok cm"
    "wi_AggregateType inst = at" "compiledFor e at (wi_WorkflowVersion inst) = Some cm" by blast+
qed

lemma stepped_ok:
  assumes m: "machine_ok cm" and c: "compiledFor e (wi_AggregateType inst) (wi_WorkflowVersion inst) = Some cm"
    and i: "stored_ok e inst" and v: "view_ok ident e s1" and st: "stepped ident cm inst name params s1 r s"
  shows "view_ok ident e s"
proof -
  have step: "stored_ok e inst'" if "inst_step cm inst name params now ct inst'" for now ct inst'
    using that inst_step_sel [OF that] c
    by (intro stored_ok_step [OF i]) (auto intro: inst_ok_step [OF m])
  have stuck: "stored_ok e (markStuck (withHistory cm inst ct target) (wi_CurrentState inst) reason now)" for ct target reason now
    using c by (intro stored_ok_step [OF i]) (auto simp: markStuck_def intro: inst_ok_stuck [OF m, unfolded markStuck_def withHistory_other])
  from st consider (same) "s = s1"
    | (moved) now ct moved event where "inst_step cm inst name params now ct moved" "s = put_inst ident moved (add_event event s1)"
    | (mark) ct target reason where "s = put_inst ident (markStuck (withHistory cm inst ct target) (wi_CurrentState inst) reason (v_now s1)) s1"
    unfolding stepped_def by (cases r) auto
  then show ?thesis
    by cases (use v step stuck in \<open>auto intro!: view_ok_put\<close>)
qed

section \<open>The public operations\<close>

context engine_env begin

lemma triple_pointwise: "(\<And>s0. P s0 \<Longrightarrow> triple view (\<lambda>s. s = s0) m Q) \<Longrightarrow> triple view P m Q"
  by (auto simp: triple_def)

lemma typed_Transition:
  assumes "engine_ok ident e"
  shows "triple view (view_ok ident e) (Transition e at aid name actor params) (\<lambda>_. view_ok ident e)"
proof (rule triple_pointwise)
  fix s0 assume v: "view_ok ident e s0"
  then have "well_keyed ident s0" by (simp add: view_ok_def)
  then show "triple view (\<lambda>s. s = s0) (Transition e at aid name actor params) (\<lambda>_. view_ok ident e)"
  proof (rule triple_post [OF triple_Transition])
    fix r s
    assume "(s = s0 \<and> (\<exists>err. r = Inl err)) \<or>
        (\<exists>cm inst s1. loads ident e s0 at aid cm inst s1 \<and> stepped ident cm inst name params s1 r s)"
    then consider "s = s0" | cm inst s1 where "loads ident e s0 at aid cm inst s1"
        "stepped ident cm inst name params s1 r s" by blast
    then show "view_ok ident e s"
    proof cases
      case 2
      note l = loads_ok [OF assms v 2(1)]
      from stepped_ok [OF l(4) _ l(2) l(1) 2(2)] l(5,6) show ?thesis by simp
    qed (use v in simp)
  qed
qed

lemma typed_load:
  assumes "engine_ok ident e"
  shows "triple view (view_ok ident e) (loadInstanceAndCompiled e at aid) (\<lambda>_. view_ok ident e)"
proof (rule triple_pointwise)
  fix s0 assume v: "view_ok ident e s0"
  show "triple view (\<lambda>s. s = s0) (loadInstanceAndCompiled e at aid) (\<lambda>_. view_ok ident e)"
    by (rule triple_post [OF triple_load]) (use v loads_ok(1) [OF assms v] in \<open>auto split: sum.splits\<close>)
qed

lemma typed_Signal:
  assumes "engine_ok ident e"
  shows "triple view (view_ok ident e) (Signal e input) (\<lambda>_. view_ok ident e)"
  unfolding Signal_def
  by (auto split: option.splits list.splits
      intro!: triple_attempt [OF typed_load [OF assms]] triple_fail typed_Transition [OF assms])

lemma typed_CompleteTask:
  assumes "engine_ok ident e"
  shows "triple view (view_ok ident e) (CompleteTask e tid choice actor) (\<lambda>_. view_ok ident e)"
  unfolding CompleteTask_def using task_keeps
  by (auto split: option.splits simp: Let_def
      intro!: triple_attempt_keeps triple_check_keeps frame triple_fail typed_Transition [OF assms])

lemma typed_join:
  assumes "engine_ok ident e" "dp_ChildStore (en_deps e) = Some ch"
  shows "triple view (view_ok ident e) (evaluateJoinPolicy e ch relation cm inst) (\<lambda>_. view_ok ident e)"
  unfolding evaluateJoinPolicy_def using child_keeps [OF assms(2)]
  by (auto split: option.splits simp: Let_def
      intro!: triple_attempt_keeps triple_fail typed_Transition [OF assms(1)])

lemma typed_ChildCompleted:
  assumes "engine_ok ident e"
  shows "triple view (view_ok ident e) (ChildCompleted e at aid final) (\<lambda>_. view_ok ident e)"
  unfolding ChildCompleted_def using child_keeps
  by (auto split: option.splits list.splits simp: Let_def
      intro!: triple_attempt_keeps triple_bind_keeps frame triple_fail typed_Transition [OF assms] typed_join [OF assms])

lemma ForceState_refused:
  assumes "en_shutdown e \<or> v_insts s0 (ident at aid) = None \<or>
     (\<exists>inst. v_insts s0 (ident at aid) = Some inst \<and>
        (case compiledFor e at (wi_WorkflowVersion inst) of None \<Rightarrow> True
         | Some cm \<Rightarrow> map_of (df_States (cm_Definition cm)) target = None))"
  shows "triple view (\<lambda>s. s = s0) (ForceState e at aid target actor reason) (\<lambda>r s. s = s0)"
proof (cases "checkShutdown e")
  case (Some err)
  then show ?thesis unfolding ForceState_def by (simp add: triple_fail)
next
  case run: None
  then have sd: "\<not> en_shutdown e" by (auto simp: checkShutdown_def split: if_splits)
  show ?thesis
  proof (cases "v_insts s0 (ident at aid)")
    case None
    show ?thesis
      unfolding ForceState_def run option.case Let_def
      by (rule triple_attempt [OF triple_get_missing [OF None]]) (rule triple_fail, simp_all)
  next
    case (Some inst)
    have refuse: "triple view (\<lambda>s. s = s0)
       (case compiledFor e at (wi_WorkflowVersion inst) of None \<Rightarrow> fail (err :: gerr)
        | Some cm \<Rightarrow> if map_of (df_States (cm_Definition cm)) target = None then fail (err' cm) else m cm)
       (\<lambda>r s. s = s0)" for err err' m
      using assms sd Some by (auto intro!: triple_fail split: option.splits)
    show ?thesis
      unfolding ForceState_def run option.case Let_def
      by (rule triple_attempt [OF triple_get_stored [OF Some]])
        (simp add: triple_fail, rule triple_pure, clarify, rule refuse)
  qed
qed

lemma typed_ForceState:
  assumes e: "engine_ok ident e"
  shows "triple view (view_ok ident e) (ForceState e at aid target actor reason) (\<lambda>_. view_ok ident e)"
proof (rule triple_pointwise)
  fix s0 assume v: "view_ok ident e s0"
  show "triple view (\<lambda>s. s = s0) (ForceState e at aid target actor reason) (\<lambda>_. view_ok ident e)"
  proof (cases "en_shutdown e \<or> v_insts s0 (ident at aid) = None \<or>
     (\<exists>inst. v_insts s0 (ident at aid) = Some inst \<and>
        (case compiledFor e at (wi_WorkflowVersion inst) of None \<Rightarrow> True
         | Some cm \<Rightarrow> map_of (df_States (cm_Definition cm)) target = None))")
    case True
    show ?thesis by (rule triple_post [OF ForceState_refused [OF True]]) (use v in simp)
  next
    case False
    then obtain inst cm where f: "\<not> en_shutdown e" "v_insts s0 (ident at aid) = Some inst"
      "compiledFor e at (wi_WorkflowVersion inst) = Some cm" "map_of (df_States (cm_Definition cm)) target \<noteq> None"
      by (auto split: option.splits)
    note t = view_ok_type [OF e v f(2) registeredI [OF f(3)]]
    from f(3) e have m: "machine_ok cm" by (auto simp: engine_ok_def)
    from f(4) have "known cm target" by (simp add: knownState_def)
    note i = inst_ok_forced [OF m this]
    have ok: "stored_ok e (forcedInstance cm inst (leaf_in cm target) now)" for now
    proof -
      have "wi_WorkflowVersion (forcedInstance cm inst (leaf_in cm target) now) = wi_WorkflowVersion inst"
        by (simp add: forcedInstance_def Let_def)
      with t(1) f(3) i [of inst now] show ?thesis by (auto simp: stored_ok_def intro: registeredI)
    qed
    show ?thesis
      by (rule triple_post [OF triple_ForceState [OF f(1,2) t(2) f(3,4)]])
        (clarsimp, rule view_ok_put, simp add: v, rule ok)
  qed
qed

lemma typed_SideEffect:
  assumes "keeps view fn"
  shows "triple view (view_ok ident e) (SideEffect e at aid name fn) (\<lambda>_. view_ok ident e)"
  unfolding SideEffect_def Let_def
  by (auto split: option.splits
      intro!: triple_attempt_keeps [OF get_keeps] triple_attempt_keeps [OF assms] triple_attempt_keeps [OF begin_keeps]
        triple_bind_keeps frame triple_fail triple_ok triple_check [OF triple_append] triple_check_keeps)

lemma keeps_takeSnapshot: "keeps view (takeSnapshot e at aid)"
  unfolding takeSnapshot_def by (auto split: option.splits intro!: frame)

lemma typed_create:
  assumes "stored_ok e inst"
  shows "triple view (view_ok ident e) (is_Create (dp_InstanceStore (en_deps e)) tx inst) (\<lambda>_. view_ok ident e)"
  by (rule triple_post [OF triple_create]) (use assms in \<open>auto intro: view_ok_put\<close>)

lemma typed_append:
  "triple view (view_ok ident e) (es_Append (dp_EventStore (en_deps e)) tx event) (\<lambda>_. view_ok ident e)"
  by (rule triple_post [OF triple_append]) auto

lemma typed_persistRestored:
  assumes "stored_ok e inst"
  shows "triple view (view_ok ident e) (persistRestored (en_deps e) inst event) (\<lambda>_. view_ok ident e)"
  unfolding persistRestored_def
  by (intro triple_attempt_keeps [OF begin_keeps] triple_check [OF typed_create [OF assms]] triple_check [OF typed_append])
    (auto intro!: triple_ret triple_check_keeps triple_bind_keeps frame)

lemma typed_Restore:
  assumes "\<And>now. stored_ok e (restoredInstance snap now)"
  shows "triple view (view_ok ident e) (Restore e snap) (\<lambda>_. view_ok ident e)"
  unfolding Restore_def Let_def using bus_keeps
  by (cases "dp_EventBus (en_deps e)") (auto split: option.splits sum.splits
      intro!: triple_ret triple_bind_keeps triple_check [OF typed_persistRestored [OF assms]] frame)

end

section \<open>Runs of the engine\<close>

text \<open>
  One step of a process that uses the engine: a call of a public operation, whatever its result, or
  anything else that leaves the stored instances alone (the clock, the user's own code).
  Snapshots that are restored were taken from well-formed instances.
\<close>

inductive api_step :: "'u memworld Engine \<Rightarrow> 'u memworld \<Rightarrow> 'u memworld \<Rightarrow> bool" for e where
  api_Transition: "run_state (Transition e at aid name actor params) w = (r, w') \<Longrightarrow> api_step e w w'"
| api_Signal: "run_state (Signal e input) w = (r, w') \<Longrightarrow> api_step e w w'"
| api_CompleteTask: "run_state (CompleteTask e tid choice actor) w = (r, w') \<Longrightarrow> api_step e w w'"
| api_ChildCompleted: "run_state (ChildCompleted e at aid final) w = (r, w') \<Longrightarrow> api_step e w w'"
| api_ForceState: "run_state (ForceState e at aid target actor reason) w = (r, w') \<Longrightarrow> api_step e w w'"
| api_SideEffect: "keeps mem_view fn \<Longrightarrow> run_state (SideEffect e at aid name fn) w = (r, w') \<Longrightarrow> api_step e w w'"
| api_Snapshot: "run_state (takeSnapshot e at aid) w = (r, w') \<Longrightarrow> api_step e w w'"
| api_Restore: "stored_ok e inst \<Longrightarrow> run_state (Restore e (snapshotOf inst hash t)) w = (r, w') \<Longrightarrow> api_step e w w'"
| api_other: "map_of (mw_instances w') = map_of (mw_instances w) \<Longrightarrow> api_step e w w'"

lemma stored_ok_restored: "stored_ok e inst \<Longrightarrow> stored_ok e (restoredInstance (snapshotOf inst hash t) now)"
  unfolding restored_snapshot
  by (rule stored_ok_step) (auto simp: restored_from_def inst_ok_def fields_ok_def)

lemma api_step_ok:
  assumes d: "en_deps e = testDeps acts handlers" and ok: "engine_ok key e" "view_ok key e (mem_view w)"
    and st: "api_step e w w'"
  shows "view_ok key e (mem_view w')"
proof -
  note env = wired_env [OF d] and v = ok(2)
  from st show ?thesis
  proof cases
    case api_Transition
    from tripleD [OF engine_env.typed_Transition [OF env ok(1)] api_Transition(1) v] show ?thesis .
  next
    case api_Signal
    from tripleD [OF engine_env.typed_Signal [OF env ok(1)] api_Signal(1) v] show ?thesis .
  next
    case api_CompleteTask
    from tripleD [OF engine_env.typed_CompleteTask [OF env ok(1)] api_CompleteTask(1) v] show ?thesis .
  next
    case api_ChildCompleted
    from tripleD [OF engine_env.typed_ChildCompleted [OF env ok(1)] api_ChildCompleted(1) v] show ?thesis .
  next
    case api_ForceState
    from tripleD [OF engine_env.typed_ForceState [OF env ok(1)] api_ForceState(1) v] show ?thesis .
  next
    case api_SideEffect
    from tripleD [OF engine_env.typed_SideEffect [OF env api_SideEffect(1)] api_SideEffect(2) v] show ?thesis .
  next
    case api_Snapshot
    from keepsD [OF engine_env.keeps_takeSnapshot [OF env] api_Snapshot(1)] v show ?thesis by simp
  next
    case (api_Restore inst hash t r)
    from tripleD [OF engine_env.typed_Restore [OF env stored_ok_restored [OF api_Restore(1)]] api_Restore(2) v]
    show ?thesis .
  next
    case api_other
    with v show ?thesis by (simp add: view_ok_def well_keyed_def)
  qed
qed

lemma mput_subset: "set (mput k v m) \<subseteq> insert (k, v) (set m)"
  by (induction m) auto

lemma fold_collect_initial:
  assumes "\<forall>(n, st) \<in> set (df_States def). st_IsInitial st \<longrightarrow> knownState def (df_InitialState def)"
  shows "\<forall>(n, st) \<in> set (df_States (fold collectState sos def)).
    st_IsInitial st \<longrightarrow> knownState (fold collectState sos def) (df_InitialState (fold collectState sos def))"
  using assms
proof (induction sos arbitrary: def)
  case (Cons so sos)
  let ?def = "collectState so def"
  have "knownState ?def (df_InitialState ?def)" if "(n, st) \<in> set (df_States ?def)" "st_IsInitial st" for n st
  proof (cases "st_IsInitial (so_def so)")
    case False
    with that have "(n, st) \<in> set (df_States def)"
      using mput_subset [of "st_Name (so_def so)" "so_def so" "df_States def"] by (auto simp: collectState_def Let_def)
    with Cons.prems that(2) have "knownState def (df_InitialState def)" by auto
    with False show ?thesis by (auto simp: collectState_def Let_def knownState_iff)
  qed (simp add: collectState_def Let_def knownState_iff)
  then show ?case using Cons.IH [of ?def] by auto
qed simp

lemma Build_initial:
  assumes b: "Build order b = Some (Inr def)" and v: "Validate def = Some None"
  shows "knownState def (df_InitialState def)"
proof -
  from v Build_wf [OF b] have "card {n. \<exists>st. (n, st) \<in> set (df_States def) \<and> st_IsInitial st} = 1"
    by (simp add: Validate_accept checkInitialState_None)
  then have "{n. \<exists>st. (n, st) \<in> set (df_States def) \<and> st_IsInitial st} \<noteq> {}" by force
  then obtain n st where "(n, st) \<in> set (df_States def)" and i: "st_IsInitial st" by blast
  with Build_wf [OF b] have st: "map_of (df_States def) n = Some st" by (simp add: map_of_in_set_wf)
  with i obtain sd where "map_of (df_States (collected b)) n = Some sd" "st_IsInitial sd"
    by (auto simp: Build_state [OF b] collected_lookup wired_state_def Let_def)
  then have "knownState (collected b) (df_InitialState (collected b))"
    using fold_collect_initial [of "\<lparr>df_AggregateType = db_aggregateType b, df_WorkflowType = db_workflowType b,
        df_Version = db_version b, df_States = [], df_Transitions = [], df_InitialState = [],
        df_TerminalStates = [], df_Warnings = []\<rparr>" "flattenStates (db_states b)"]
    unfolding collected_def by (auto dest: map_of_SomeD)
  then show ?thesis
    using Build_keys [OF b] by (simp add: knownState_iff Build_Inr(6) [OF b] flip: set_map)
qed

lemma machine_ok_built:
  assumes b: "Build order b = Some (Inr def)" "builder_ok b" "some_order order"
    and v: "Validate def = Some None" "targeted def" and c: "Compile digest def = Some (Inr cm)"
    and p: "\<not> isParallelState cm (leaf_in cm (df_InitialState def))" "plain_exits cm"
  shows "machine_ok cm"
proof -
  have d: "cm_Definition cm = def" by (rule Compile_Definition [OF c])
  have "knownState def c" if "c \<in> set (st_Children (state_of def n))" for c n
  proof (cases "map_of (df_States def) n")
    case (Some st)
    with that show ?thesis
      by (auto simp: state_of_def Build_children(1) [OF b(1,2) Some] knownState_iff
          set_some_order [OF b(3)] simp del: map_option_eq_Some)
  qed (use that in \<open>simp add: state_of_def\<close>)
  then have "children_known def" by (simp add: children_known_def)
  moreover have "knownState def (df_InitialState def)" by (rule Build_initial [OF b(1) v(1)])
  ultimately show ?thesis
    using Build_links [OF b v(1)] Build_wf [OF b(1)] v c p by (auto simp: machine_ok_def d)
qed

lemma order_machine_ok: "machine_ok order_cm"
proof -
  have d: "cm_Definition order_cm = order_def" by (rule Compile_Definition [OF order_compiles])
  have "Validate order_def = Some None" by code_simp
  moreover have "targeted order_def" by code_simp
  moreover have "knownState order_def (df_InitialState order_def)" by code_simp
  moreover have "children_known order_def"
    by (auto simp: children_known_def state_of_def order_def_def order_states_def knownState_def sample_defs)
  moreover have "\<not> isParallelState order_cm (leaf_in order_cm (df_InitialState order_def))" by code_simp
  moreover have "plain_exits order_cm" by code_simp
  ultimately show ?thesis using order_links order_compiles by (auto simp: machine_ok_def d)
qed

lemma order_engine_ok: "engine_ok key order_engine"
proof -
  have c: "at = ''order'' \<and> cm = order_cm" if "compiledFor order_engine at v = Some cm" for at v cm
    using that by (auto simp: compiledFor_def order_engine_def commitDefinition_def New_def order_sel put2_def inner_def split: if_splits)
  have v: "df_Version (cm_Definition order_cm) = 1"
    unfolding Compile_Definition [OF order_compiles] by (simp add: order_def_def)
  show ?thesis
    using order_machine_ok by (auto simp: engine_ok_def registered_def v dest!: c)
qed

section \<open>The property\<close>

text \<open>
  C4. Stored instances stay well-formed, on the engine over the in-memory adapters. The registered
  machines are compilations of valid definitions whose links are those of the builder, in which every
  transition has a target, the initial state is not parallel and no transition leads out of a
  parallel state straight into one; the latest machine of an aggregate type is the one registered
  under its version, and the keys of registered types do not collide. Start from a store in which
  every instance is well-formed and call the public operations in any order and any number of times,
  with any arguments and whatever they return, restoring only snapshots of well-formed instances:
  every stored instance is under its own key, in a state of its definition, its histories and
  active states name states of its definition, in a parallel state it has exactly one active state
  for each region, and in any other state none.
\<close>

theorem instances_well_formed:
  assumes "en_deps e = testDeps acts handlers" "engine_ok key e" "view_ok key e (mem_view w)"
    "(api_step e)\<^sup>*\<^sup>* w w'"
  shows "view_ok key e (mem_view w')"
  using assms(4,3)
proof induction
  case (step w' w'')
  from api_step_ok [OF assms(1,2) step.IH [OF step.prems] step.hyps(2)] show ?case .
qed

theorem instances_well_formed_witness:
  "\<exists>res w'. run_state (Transition order_engine ''order'' ''o1'' ''begin'' ''u1'' None) (order_world (order_inst ''NEW'')) = (Inr res, w') \<and>
     wi_CurrentState (rs_Instance res) = ''REVIEW'' \<and> view_ok key order_engine (mem_view w')"
proof -
  obtain res w' ct where r:
    "run_state (Transition order_engine ''order'' ''o1'' ''begin'' ''u1'' None) (order_world (order_inst ''NEW'')) = (Inr res, w')"
    "wi_CurrentState (rs_Instance res) = ''REVIEW''" by (rule order_begin_runs)
  from api_Transition [OF r(1)] have st: "(api_step order_engine)\<^sup>*\<^sup>* (order_world (order_inst ''NEW'')) w'" by blast
  have "knownState order_def ''NEW''" "\<not> isParallelState order_cm ''NEW''" by code_simp+
  then have "inst_ok order_cm (order_inst ''NEW'')"
    using regions_of_none [of order_cm "''NEW''"]
    by (simp add: inst_ok_def fields_ok_def Compile_Definition [OF order_compiles] order_inst_def zero_instance_def)
  then have v: "view_ok key order_engine (mem_view (order_world (order_inst ''NEW'')))"
    using order_world_keyed registeredI [OF order_engine_compiled(1)] by (auto simp: view_ok_def stored_ok_def)
  from r instances_well_formed [OF order_engine_deps(1) order_engine_ok v st] show ?thesis by blast
qed

end
