(* ===== verification/Flow_Regions.thy ===== *)
theory Flow_Regions
  imports Flow_Recovery
begin

text \<open>
  Transitions inside a parallel state, the clock that orders them, and the tasks a transition
  cancels in the states it leaves.
\<close>

section \<open>Moving regions\<close>

lemma moveRegions_lookup:
  assumes "\<And>r c. f r = Some c \<Longrightarrow> pc_region c = r"
  shows "map_of (moveRegions (List.map_filter f rs) al) r =
    (case if r \<in> set rs then f r else None of Some c \<Rightarrow> Some (pc_targetState c) | None \<Rightarrow> map_of al r)"
proof (induction rs arbitrary: al)
  case (Cons a rs)
  show ?case
  proof (cases "f a")
    case None
    with Cons show ?thesis by (auto simp: List.map_filter_simps moveRegions_def split: option.splits)
  next
    case (Some c)
    then have "pc_region c = a" by (rule assms)
    with Some Cons [of "mput a (pc_targetState c) al"] show ?thesis
      by (auto simp: List.map_filter_simps moveRegions_def split: option.splits)
  qed
qed (simp add: List.map_filter_simps moveRegions_def)

lemma candidateIn_self: "candidateIn cm inst tr name params r = Some c \<Longrightarrow> pc_region c = r"
  by (auto simp: candidateIn_def Let_def split: if_splits option.splits sum.splits)

lemma sortedRegions_lookup: "r \<in> set (sortedRegions inst) \<longleftrightarrow> (\<exists>leaf. mlook (wi_ActiveInParallel inst) r = Some leaf)"
  using map_of_eq_None_iff [of "mitems (wi_ActiveInParallel inst)" r]
  by (cases "map_of (mitems (wi_ActiveInParallel inst)) r") (auto simp: sortedRegions_def mlook_def)

lemma intraInstance_lookup:
  assumes "cs = List.map_filter (candidateIn cm inst tr name params) (sortedRegions inst)"
  shows "mlook (wi_ActiveInParallel (intraInstance inst cs now)) r =
    (case mlook (wi_ActiveInParallel inst) r of
       None \<Rightarrow> None
     | Some leaf \<Rightarrow> (case candidateIn cm inst tr name params r of Some c \<Rightarrow> Some (pc_targetState c) | None \<Rightarrow> Some leaf))"
  using sortedRegions_lookup [of r inst] unfolding assms
  by (auto simp: intraInstance_def moveRegions_lookup [of "candidateIn cm inst tr name params", OF candidateIn_self]
      mlook_def split: option.splits)

lemma intraInstance_fields [simp]:
  "wi_CurrentState (intraInstance inst cs now) = wi_CurrentState inst"
  "wi_ParallelClock (intraInstance inst cs now) = wi_ParallelClock inst + 1"
  "wi_ShallowHistory (intraInstance inst cs now) = wi_ShallowHistory inst"
  "wi_DeepHistory (intraInstance inst cs now) = wi_DeepHistory inst"
  by (simp_all add: intraInstance_def)

section \<open>Progress inside a parallel state\<close>

lemma check_ret_None: "check (ret None) onerr k = k"
  by (rule state_ext) (simp add: run_check)

lemma candidateLoop_accepts:
  assumes t: "targetOf tr inst params = Inr t"
    and g: "\<forall>c \<in> set (List.map_filter (candidateIn cm inst tr name params) regions). guardsPass (pc_ct c) inst params"
  shows "candidateLoop e cm inst tr (wi_CurrentState inst) name params regions =
    ok (List.map_filter (candidateIn cm inst tr name params) regions)"
  using g
proof (induction regions)
  case (Cons region regions)
  let ?src = "parallelSource cm tr (wi_CurrentState inst) (aip_leaf inst region)"
  let ?ct = "find (\<lambda>c. tr_Name (ct_Def c) = name) (cts_of (cm_TransitionsByState cm) ?src)"
  show ?case
  proof (cases "?src = [] \<or> ?ct = None")
    case True
    then have "candidateIn cm inst tr name params region = None" by (auto simp: candidateIn_def Let_def)
    with True Cons show ?thesis by (auto simp: map_filter_simps Let_def)
  next
    case False
    then obtain ct where ct: "?src \<noteq> []" "?ct = Some ct" by auto
    let ?c = "\<lparr>pc_region = region, pc_leafState = aip_leaf inst region, pc_ct = ct, pc_effectiveSrc = ?src,
        pc_targetState = t\<rparr>"
    from ct t have c: "candidateIn cm inst tr name params region = Some ?c" by (simp add: candidateIn_def Let_def)
    with Cons.prems have "guardsPass ct inst params" by (simp add: map_filter_simps)
    then have "runGuards D wt ct inst params = ret None" for D :: "'a Deps" and wt
      by (auto simp: guardsPass_def intro: runGuards_pass)
    with ct c t Cons show ?thesis
      by (simp add: map_filter_simps Let_def check_ret_None attempt_ok targetOf_def [symmetric])
  qed
qed (simp add: map_filter_simps)

lemma syncLoop_ok: "activitiesSucceed D \<Longrightarrow> triple v P (syncLoop D f what def input seq) (\<lambda>r _. r = None)"
proof (induction seq arbitrary: P)
  case Nil
  then show ?case by (auto intro!: triple_ret)
next
  case (Cons a seq)
  then show ?case by (auto simp: Let_def intro!: triple_check_ok triple_sync_ok)
qed

context engine_env begin

lemma commitParallelIntra_ok:
  assumes a: "activitiesSucceed (en_deps e)" and st: "v_insts s0 (inst_key ident inst) = Some inst"
  shows "triple view (\<lambda>s. s = s0) (commitParallelIntra e cm inst cs ps name actor params) (\<lambda>r _. \<exists>x. r = Inr x)"
proof -
  have lock: "update_error (v_insts s0 (inst_key ident (intraInstance inst cs now)))
      (intraInstance inst cs now) = None" for now
    using st by (simp add: inst_key_def update_error_def)
  note app = triple_beginCommit [OF lock]
  have sync: "triple view (\<lambda>s. s = s0) (syncLoop (en_deps e) f what def input seq) (\<lambda>r s. r = None \<and> s = s0)"
    for f what def input seq
    by (rule triple_conj [OF syncLoop_ok [OF a] triple_keeps [OF keeps_syncLoop]])
  show ?thesis
    unfolding commitParallelIntra_def Let_def
    by (rule triple_bind_clock)
      (auto intro!: triple_check [OF sync] triple_bind_keeps [OF keeps_generateID] triple_pure triple_check [OF app] triple_fail triple_ok)
qed

lemma progress_intra:
  assumes a: "activitiesSucceed (en_deps e)" and sd: "\<not> en_shutdown e"
    and st: "v_insts (view w) (ident at aid) = Some inst" and ky: "inst_key ident inst = ident at aid"
    and cm: "compiledFor e at (wi_WorkflowVersion inst) = Some cm"
    and aip: "mitems (wi_ActiveInParallel inst) \<noteq> []"
    and tr: "map_of (df_Transitions (cm_Definition cm)) name = Some tr" "wi_CurrentState inst \<notin> set (tr_Sources tr)"
    and nt: "\<not> isTerminalState cm (wi_CurrentState inst)" and t: "targetOf tr inst params = Inr target"
    and cs: "List.map_filter (candidateIn cm inst tr name params) (sortedRegions inst) = c # cs"
    and g: "\<forall>c' \<in> set (c # cs). guardsPass (pc_ct c') inst params" and ni: "\<not> nilInputs (pc_ct c)"
  shows "\<exists>res w'. run_state (Transition e at aid name actor params) w = (Inr res, w')"
proof -
  let ?s = "view w" and ?Q = "\<lambda>r (s :: 'b storeview). \<exists>res. r = Inr res"
  from st ky have st': "v_insts ?s (inst_key ident inst) = Some inst" by simp
  have post: "triple view P (runPostCommit e cm moved (pc_ct c) ev ps params start) ?Q" for P moved ev ps start
    by (rule triple_post [OF triple_runPostCommit]) (use ni in \<open>auto split: sum.splits\<close>)
  have load: "triple view (\<lambda>s. s = ?s) (loadInstanceAndCompiled e at aid) (\<lambda>r s. r = Inr (cm, inst) \<and> s = ?s)"
    unfolding loadInstanceAndCompiled_def
    by (rule triple_attempt [OF triple_get_stored [OF st]]) (auto simp: cm intro!: triple_ok triple_pure)
  have col: "collectParallelCandidates e cm inst (wi_CurrentState inst) name params = ok (c # cs)"
    using candidateLoop_accepts [OF t, of cm name "sortedRegions inst" e] g
    by (simp add: collectParallelCandidates_def tr cs)
  have run: "triple view (\<lambda>s. s = ?s) (parallelTransition e cm inst name actor params start) ?Q" for start
    using tr nt
    by (auto simp: parallelTransition_def Let_def col attempt_ok
        intro!: triple_attempt [OF commitParallelIntra_ok [OF a st']] post)
  have "triple view (\<lambda>s. s = ?s) (Transition e at aid name actor params) ?Q"
    unfolding Transition_def using sd
    by (auto simp: checkShutdown_def aip intro!: triple_bind_clock triple_attempt [OF load] triple_pure run)
  moreover obtain r w' where r: "run_state (Transition e at aid name actor params) w = (r, w')" by fastforce
  ultimately have "?Q r (view w')" by (auto dest: tripleD)
  with r show ?thesis by blast
qed

end

section \<open>The label and the pickup of an order\<close>

definition shipping_inst :: WorkflowInstance where
  "shipping_inst = (order_inst ''SHIP'')\<lparr>wi_ActiveInParallel := Some [(''LABEL'', ''PRINT''), (''PICKUP'', ''AWAIT'')]\<rparr>"

lemma shipping_sel [simp]:
  "wi_WorkflowVersion shipping_inst = 1" "wi_AggregateType shipping_inst = ''order''"
  "wi_AggregateID shipping_inst = ''o1''" "wi_CurrentState shipping_inst = ''SHIP''"
  "wi_ActiveInParallel shipping_inst = Some [(''LABEL'', ''PRINT''), (''PICKUP'', ''AWAIT'')]"
  "wi_ParallelClock shipping_inst = 0"
  by (simp_all add: shipping_inst_def order_inst_def zero_instance_def)

definition print_tr :: TransitionDef where "print_tr = s_edge ''print'' [''PRINT''] ''PRINTED''"

lemma print_tr: "map_of (df_Transitions (cm_Definition order_cm)) ''print'' = Some print_tr"
  unfolding Compile_Definition [OF order_compiles] by (simp add: order_def_def order_transitions_def print_tr_def)

lemma print_candidates:
  "candidateIn order_cm shipping_inst print_tr ''print'' None ''LABEL'' =
     Some \<lparr>pc_region = ''LABEL'', pc_leafState = ''PRINT'', pc_ct = compileTransition print_tr,
           pc_effectiveSrc = ''PRINT'', pc_targetState = ''PRINTED''\<rparr>"
  "candidateIn order_cm shipping_inst print_tr ''print'' None ''PICKUP'' = None"
proof -
  have "find (\<lambda>c. tr_Name (ct_Def c) = ''print'') (cts_of (cm_TransitionsByState order_cm) ''PRINT'') = Some (compileTransition print_tr)"
    using Compile_find_transition [OF order_compiles order_links(4), of "''print''" print_tr "''PRINT''"]
    by (simp add: order_def_def order_transitions_def s_edge_def print_tr_def)
  then show "candidateIn order_cm shipping_inst print_tr ''print'' None ''LABEL'' =
     Some \<lparr>pc_region = ''LABEL'', pc_leafState = ''PRINT'', pc_ct = compileTransition print_tr,
           pc_effectiveSrc = ''PRINT'', pc_targetState = ''PRINTED''\<rparr>"
    by (simp add: candidateIn_def aip_leaf_def parallelSource_def targetOf_def print_tr_def s_edge_def Let_def)
  have "parallelSource order_cm print_tr ''SHIP'' ''AWAIT'' = []" by code_simp
  then show "candidateIn order_cm shipping_inst print_tr ''print'' None ''PICKUP'' = None"
    by (simp add: candidateIn_def aip_leaf_def)
qed

text \<open>
  A region whose active state is \<open>leaf\<close> takes part in a transition when the leaf, or a state around
  it that lies inside the parallel state, is a source.
\<close>

definition takes_part :: "Definition \<Rightarrow> TransitionDef \<Rightarrow> string \<Rightarrow> string \<Rightarrow> bool" where
  "takes_part def tr parallelState leaf \<longleftrightarrow>
     (\<exists>s \<in> set (tr_Sources tr). (leaf, s) \<in> (parent_rel def)\<^sup>* \<and> (s, parallelState) \<in> (parent_rel def)\<^sup>+)"

lemma inside_ancestors:
  assumes "Compile digest def = Some (Inr cm)" "(leaf, p) \<in> (parent_rel def)\<^sup>+"
  shows "set (takeWhile (\<lambda>a. a \<noteq> p) (anc_of (cm_Ancestry cm) leaf)) =
    {a. (leaf, a) \<in> (parent_rel def)\<^sup>+ \<and> (a, p) \<in> (parent_rel def)\<^sup>+}"
proof -
  note ch = Compile_chain [OF assms(1), of leaf]
  from assms(2) chain_set [OF ch] have "p \<in> set (anc_of (cm_Ancestry cm) leaf)" by simp
  then obtain xs zs where a: "anc_of (cm_Ancestry cm) leaf = xs @ p # zs" by (meson split_list)
  with chain_distinct [OF ch] have d: "p \<notin> set xs" "set xs \<inter> set zs = {}" by auto
  have up: "set zs = {m. (p, m) \<in> (parent_rel def)\<^sup>+}"
    using chain_set [OF chain_suffix [of def leaf xs p zs]] ch a by simp
  have "(x, p) \<in> (parent_rel def)\<^sup>+" if "x \<in> set xs" for x
  proof -
    from that obtain us vs where "xs = us @ x # vs" by (meson split_list)
    with ch a have "chain def x (vs @ p # zs)" by (metis append.assoc append_Cons chain_suffix)
    from chain_set [OF this] show ?thesis by auto
  qed
  moreover have "x \<in> set xs" if "(leaf, x) \<in> (parent_rel def)\<^sup>+" "(x, p) \<in> (parent_rel def)\<^sup>+" for x
  proof (rule ccontr)
    assume "x \<notin> set xs"
    with that(1) chain_set [OF ch] a have "x = p \<or> x \<in> set zs" by auto
    with up that(2) have "(p, p) \<in> (parent_rel def)\<^sup>+" by (auto intro: trancl_trans)
    with Compile_acyclic [OF assms(1)] show False by (simp add: acyclic_def)
  qed
  moreover have "takeWhile (\<lambda>a. a \<noteq> p) (xs @ p # zs) = xs" using d(1) by (induction xs) auto
  ultimately show ?thesis using chain_set [OF ch] a by auto
qed

lemma parallelSource_takes_part:
  assumes "Compile digest def = Some (Inr cm)" "(leaf, p) \<in> (parent_rel def)\<^sup>+" "[] \<notin> set (tr_Sources tr)"
  shows "parallelSource cm tr p leaf \<in> set (tr_Sources tr) \<longleftrightarrow> takes_part def tr p leaf"
    and "parallelSource cm tr p leaf = [] \<longleftrightarrow> \<not> takes_part def tr p leaf"
proof -
  let ?as = "takeWhile (\<lambda>a. a \<noteq> p) (anc_of (cm_Ancestry cm) leaf)" and ?P = "\<lambda>a. a \<in> set (tr_Sources tr)"
  note inside = inside_ancestors [OF assms(1,2)]
  have tp: "takes_part def tr p leaf \<longleftrightarrow> leaf \<in> set (tr_Sources tr) \<or> (\<exists>a \<in> set ?as. a \<in> set (tr_Sources tr))"
    unfolding takes_part_def inside using assms(2) by (auto simp: rtrancl_eq_or_trancl)
  have none: "find ?P ?as = None \<longleftrightarrow> \<not> (\<exists>a \<in> set ?as. a \<in> set (tr_Sources tr))"
    using find_None_iff [of ?P ?as] by blast
  have some: "a \<in> set (tr_Sources tr)" if "find ?P ?as = Some a" for a
    using that by (auto simp: find_Some_iff)
  show "parallelSource cm tr p leaf \<in> set (tr_Sources tr) \<longleftrightarrow> takes_part def tr p leaf"
    using tp none some assms(3) by (auto simp: parallelSource_def split: option.splits)
  show "parallelSource cm tr p leaf = [] \<longleftrightarrow> \<not> takes_part def tr p leaf"
    using tp none some assms(3) by (auto simp: parallelSource_def split: option.splits)
qed

lemma candidateIn_takes_part:
  assumes "Compile digest def = Some (Inr cm)" "names_ok def" "map_of (df_Transitions def) name = Some tr"
    "[] \<notin> set (tr_Sources tr)" "targetOf tr inst params = Inr target"
    "mlook (wi_ActiveInParallel inst) r = Some leaf" "(leaf, wi_CurrentState inst) \<in> (parent_rel def)\<^sup>+"
  shows "map_option pc_targetState (candidateIn cm inst tr name params r) =
    (if takes_part def tr (wi_CurrentState inst) leaf then Some target else None)"
proof -
  let ?src = "parallelSource cm tr (wi_CurrentState inst) leaf"
  note ps = parallelSource_takes_part [OF assms(1,7,4)]
  have leaf: "aip_leaf inst r = leaf" using assms(6) by (simp add: aip_leaf_def mlook_def)
  from Compile_find_transition [OF assms(1-3), of ?src] ps assms(5) show ?thesis
    by (auto simp: candidateIn_def leaf Let_def)
qed

text \<open>
  C14. A transition inside a parallel state. The active state of every region lies inside the parallel
  state, the sources of the transition do not name the parallel state, its target is a leaf and, for
  every region that takes part, a sibling of the region's active state, so that no compound state is
  left. If \<open>Transition\<close> succeeds, the instance stays in the parallel state and at least one region
  takes part: its active state or a state around it, inside the parallel state, is a source. Exactly
  these regions move to the target, every other region keeps its active state, no region appears or
  disappears, the histories are unchanged and the parallel clock is advanced by one.
\<close>

theorem Transition_intra_parallel:
  assumes "en_deps e = testDeps acts handlers" "well_keyed key (mem_view w)"
    "map_of (mw_instances w) (key at aid) = Some inst" "compiledFor e at (wi_WorkflowVersion inst) = Some cm"
    "Compile digest def = Some (Inr cm)" "names_ok def"
    and "mitems (wi_ActiveInParallel inst) \<noteq> []"
    "\<forall>r leaf. mlook (wi_ActiveInParallel inst) r = Some leaf \<longrightarrow> (leaf, wi_CurrentState inst) \<in> (parent_rel def)\<^sup>+"
    and "map_of (df_Transitions def) name = Some tr" "wi_CurrentState inst \<notin> set (tr_Sources tr)"
    "[] \<notin> set (tr_Sources tr)" "targetOf tr inst params = Inr target" "\<not> st_IsCompound (state_of def target)"
    "\<forall>r leaf. mlook (wi_ActiveInParallel inst) r = Some leaf \<and> takes_part def tr (wi_CurrentState inst) leaf \<longrightarrow>
       parent_of def leaf = parent_of def target"
    and "run_state (Transition e at aid name actor params) w = (Inr res, w')"
  shows "wi_CurrentState (rs_Instance res) = wi_CurrentState inst \<and>
    wi_ParallelClock (rs_Instance res) = wi_ParallelClock inst + 1 \<and>
    wi_ShallowHistory (rs_Instance res) = wi_ShallowHistory inst \<and>
    wi_DeepHistory (rs_Instance res) = wi_DeepHistory inst \<and>
    (\<exists>r leaf. mlook (wi_ActiveInParallel inst) r = Some leaf \<and> takes_part def tr (wi_CurrentState inst) leaf) \<and>
    (\<forall>r. mlook (wi_ActiveInParallel (rs_Instance res)) r =
       map_option (\<lambda>leaf. if takes_part def tr (wi_CurrentState inst) leaf then target else leaf)
         (mlook (wi_ActiveInParallel inst) r))"
proof -
  let ?tp = "takes_part def tr (wi_CurrentState inst)"
  have def: "cm_Definition cm = def" by (rule Compile_Definition [OF assms(5)])
  have ci: "map_option pc_targetState (candidateIn cm inst tr name params r) = (if ?tp leaf then Some target else None)"
    if "mlook (wi_ActiveInParallel inst) r = Some leaf" for r leaf
    using candidateIn_takes_part [OF assms(5,6,9,11,12) that] assms(8) that by blast
  from tripleD [OF engine_env.triple_Transition [OF wired_env [OF assms(1)] assms(2)] assms(15) refl] assms(3,4)
  obtain ct where "inst_step cm inst name params (mw_now w) ct (rs_Instance res)"
    by (auto simp: loads_def stepped_def)
  then obtain c cs where i: "rs_Instance res = intraInstance inst (c # cs) (mw_now w)"
    and cs: "c # cs = List.map_filter (candidateIn cm inst tr name params) (sortedRegions inst)"
    using assms(7,9,10) def by (auto elim!: inst_stepE)
  from cs have "c \<in> set (List.map_filter (candidateIn cm inst tr name params) (sortedRegions inst))"
    by (metis list.set_intros(1))
  then obtain r where r: "r \<in> set (sortedRegions inst)" "candidateIn cm inst tr name params r = Some c"
    by (auto simp: List.map_filter_def)
  from r(1) obtain leaf where leaf: "mlook (wi_ActiveInParallel inst) r = Some leaf"
    unfolding sortedRegions_lookup by blast
  from ci [OF leaf] r(2) have "?tp leaf" by (auto split: if_splits)
  moreover have "mlook (wi_ActiveInParallel (rs_Instance res)) q =
       map_option (\<lambda>leaf. if ?tp leaf then target else leaf) (mlook (wi_ActiveInParallel inst) q)" for q
    using ci [of q] unfolding i intraInstance_lookup [OF cs] by (auto split: option.splits if_splits)
  ultimately show ?thesis using leaf i by auto
qed

lemma order_inside: "(''PRINT'', ''SHIP'') \<in> (parent_rel order_def)\<^sup>+" "(''AWAIT'', ''SHIP'') \<in> (parent_rel order_def)\<^sup>+"
proof -
  have "''SHIP'' \<in> set (anc_of (cm_Ancestry order_cm) ''PRINT'')" "''SHIP'' \<in> set (anc_of (cm_Ancestry order_cm) ''AWAIT'')"
    by code_simp+
  then show "(''PRINT'', ''SHIP'') \<in> (parent_rel order_def)\<^sup>+" "(''AWAIT'', ''SHIP'') \<in> (parent_rel order_def)\<^sup>+"
    using chain_set [OF Compile_chain [OF order_compiles]] by blast+
qed

lemma print_takes_part: "takes_part order_def print_tr ''SHIP'' ''PRINT''" "\<not> takes_part order_def print_tr ''SHIP'' ''AWAIT''"
proof -
  have s: "[] \<notin> set (tr_Sources print_tr)" by (simp add: print_tr_def s_edge_def)
  have "parallelSource order_cm print_tr ''SHIP'' ''PRINT'' \<noteq> []" "parallelSource order_cm print_tr ''SHIP'' ''AWAIT'' = []"
    by code_simp+
  then show "takes_part order_def print_tr ''SHIP'' ''PRINT''" "\<not> takes_part order_def print_tr ''SHIP'' ''AWAIT''"
    using parallelSource_takes_part(2) [OF order_compiles _ s] order_inside by blast+
qed

theorem Transition_intra_parallel_witness:
  "\<exists>res w'. run_state (Transition order_engine ''order'' ''o1'' ''print'' ''u1'' None) (order_world shipping_inst) = (Inr res, w') \<and>
     mlook (wi_ActiveInParallel (rs_Instance res)) ''LABEL'' = Some ''PRINTED'' \<and>
     mlook (wi_ActiveInParallel (rs_Instance res)) ''PICKUP'' = Some ''AWAIT''"
proof -
  let ?w = "order_world shipping_inst" and ?c = "candidateIn order_cm shipping_inst print_tr ''print'' None"
  have k: "well_keyed key (mem_view ?w)" by (simp add: well_keyed_def inst_key_def)
  have "sortedRegions shipping_inst = [''LABEL'', ''PICKUP'']" by (simp add: sortedRegions_def)
  then obtain c where c: "List.map_filter ?c (sortedRegions shipping_inst) = [c]" "pc_ct c = compileTransition print_tr"
    by (simp add: map_filter_simps print_candidates)
  have "\<not> isTerminalState order_cm ''SHIP''" by code_simp
  with engine_env.progress_intra [OF wired_env, of order_engine "[]" "[]" ?w "''order''" "''o1''" shipping_inst order_cm
      "''print''" print_tr None "''PRINTED''" c "[]" "''u1''"] c print_tr
  obtain res w' where r: "run_state (Transition order_engine ''order'' ''o1'' ''print'' ''u1'' None) ?w = (Inr res, w')"
    by (auto simp: no_activities_succeed inst_key_def targetOf_def print_tr_def s_edge_def guardsPass_def nilInputs_def
        compileTransition_def)
  have tr: "map_of (df_Transitions order_def) ''print'' = Some print_tr"
    using print_tr by (simp add: Compile_Definition [OF order_compiles])
  have par: "parent_of order_def ''PRINT'' = parent_of order_def ''PRINTED''"
    and lf: "\<not> st_IsCompound (state_of order_def ''PRINTED'')" by code_simp+
  have src: "wi_CurrentState shipping_inst \<notin> set (tr_Sources print_tr)" "[] \<notin> set (tr_Sources print_tr)"
    "targetOf print_tr shipping_inst None = Inr ''PRINTED''" by (simp_all add: print_tr_def s_edge_def targetOf_def)
  have look: "mlook (wi_ActiveInParallel shipping_inst) q =
     (if q = ''LABEL'' then Some ''PRINT'' else if q = ''PICKUP'' then Some ''AWAIT'' else None)" for q
    by (simp add: mlook_def)
  have "\<forall>q leaf. mlook (wi_ActiveInParallel shipping_inst) q = Some leaf \<longrightarrow>
      (leaf, wi_CurrentState shipping_inst) \<in> (parent_rel order_def)\<^sup>+"
    unfolding look using order_inside by (auto split: if_splits)
  moreover have "\<forall>q leaf. mlook (wi_ActiveInParallel shipping_inst) q = Some leaf \<and>
      takes_part order_def print_tr (wi_CurrentState shipping_inst) leaf \<longrightarrow>
      parent_of order_def leaf = parent_of order_def ''PRINTED''"
    unfolding look using print_takes_part par by (auto split: if_splits)
  ultimately show ?thesis
    using Transition_intra_parallel [OF order_engine_deps(1) k _ _ order_compiles order_links(4) _ _ tr src lf _ r] r
      print_takes_part look by auto
qed

section \<open>The parallel clock\<close>

lemma sint_add_nat:
  fixes x :: int64
  assumes "sint x + int k < 2 ^ 63"
  shows "sint (x + of_nat k) = sint x + int k"
proof -
  have "- (2 ^ 63) \<le> sint x" using sint_ge [of x] by simp
  with assms have "signed_take_bit 63 (sint x + int k) = sint x + int k"
    by (intro signed_take_bit_int_eq_self) simp_all
  with sint_sbintrunc' [where 'a = 64, of "sint x + int k"] show ?thesis by simp
qed

lemma recordRegions_clock: "wi_ParallelClock (recordRegions cm i p) = wi_ParallelClock i"
proof -
  have "wi_ParallelClock (fold (\<lambda>region i. recordHistory i (aip_leaf i region)
               (computeExitSequence (aip_leaf i region) p (cm_Ancestry cm)) (cm_Definition cm)) rs i) = wi_ParallelClock i" for rs
    by (induction rs arbitrary: i) auto
  then show ?thesis by (simp add: recordRegions_def)
qed

text \<open>Any step of an instance leaves the clock alone or advances it by one.\<close>

lemma inst_step_clock:
  assumes "inst_step cm i name params now ct i'"
  shows "wi_ParallelClock i' = wi_ParallelClock i \<or> wi_ParallelClock i' = wi_ParallelClock i + 1"
  using assms
  by (cases rule: inst_step.cases)
    (auto simp: movedInstance_def moveInstance_def withHistory_def enterParallelRegions_def leftInstance_def
      recordRegions_clock Let_def)

definition stepsTo :: "CompiledMachine \<Rightarrow> WorkflowInstance \<Rightarrow> WorkflowInstance \<Rightarrow> bool" where
  "stepsTo cm i i' \<longleftrightarrow> (\<exists>name params now ct. inst_step cm i name params now ct i')"

lemma steps_clock:
  "(stepsTo cm ^^ n) i i' \<Longrightarrow> \<exists>k \<le> n. wi_ParallelClock i' = wi_ParallelClock i + of_nat k"
proof (induction n arbitrary: i')
  case (Suc n)
  then obtain j name params now ct where j: "(stepsTo cm ^^ n) i j" "inst_step cm j name params now ct i'"
    by (metis relcompp.cases relpowp.simps(2) stepsTo_def)
  from Suc.IH [OF j(1)] obtain k where k: "k \<le> n" "wi_ParallelClock j = wi_ParallelClock i + of_nat k" by blast
  from inst_step_clock [OF j(2)] show ?case
  proof
    assume "wi_ParallelClock i' = wi_ParallelClock j"
    with k show ?thesis by (intro exI [of _ k]) simp
  next
    assume "wi_ParallelClock i' = wi_ParallelClock j + 1"
    with k show ?thesis by (intro exI [of _ "Suc k"]) simp
  qed
qed simp

text \<open>
  C34. The parallel clock is a signed 64-bit counter. Over any sequence of \<open>n\<close> transitions it never
  decreases and grows by at most \<open>n\<close>, as long as it stays below 2^63; a transition inside a parallel
  state that finds it at 2^63 - 1 wraps it around to -2^63.
\<close>

theorem ParallelClock_bounds:
  assumes "(stepsTo cm ^^ n) i i'" "sint (wi_ParallelClock i) + int n < 2 ^ 63"
  shows "sint (wi_ParallelClock i) \<le> sint (wi_ParallelClock i') \<and>
    sint (wi_ParallelClock i') \<le> sint (wi_ParallelClock i) + int n \<and>
    (wi_ParallelClock j = 2 ^ 63 - 1 \<longrightarrow> sint (wi_ParallelClock (intraInstance j cs now)) = - (2 ^ 63))"
proof -
  from steps_clock [OF assms(1)] obtain k where k: "k \<le> n" "wi_ParallelClock i' = wi_ParallelClock i + of_nat k"
    by blast
  with assms(2) have "sint (wi_ParallelClock i') = sint (wi_ParallelClock i) + int k" by (simp add: sint_add_nat)
  moreover have "sint (2 ^ 63 :: int64) = - (2 ^ 63)" by simp
  ultimately show ?thesis using k(1) by simp
qed

lemma print_step:
  "inst_step order_cm shipping_inst ''print'' None 1000 (compileTransition print_tr)
     (intraInstance shipping_inst (List.map_filter (candidateIn order_cm shipping_inst print_tr ''print'' None) (sortedRegions shipping_inst)) 1000)"
proof -
  let ?c = "candidateIn order_cm shipping_inst print_tr ''print'' None"
  have "sortedRegions shipping_inst = [''LABEL'', ''PICKUP'']" by (simp add: sortedRegions_def)
  then obtain c where c: "List.map_filter ?c (sortedRegions shipping_inst) = [c]" "pc_ct c = compileTransition print_tr"
    by (simp add: map_filter_simps print_candidates)
  have "\<not> isTerminalState order_cm ''SHIP''" by code_simp
  with c step_intra [of shipping_inst order_cm "''print''" print_tr c "[]" None 1000] print_tr show ?thesis
    by (simp add: guardsPass_def print_tr_def s_edge_def compileTransition_def)
qed

theorem ParallelClock_bounds_witness:
  "\<exists>i'. stepsTo order_cm shipping_inst i' \<and> wi_ParallelClock i' = 1 \<and> sint (wi_ParallelClock i') \<le> 1 \<and>
     sint (wi_ParallelClock (intraInstance (shipping_inst\<lparr>wi_ParallelClock := 2 ^ 63 - 1\<rparr>) [] 7)) = - (2 ^ 63)"
proof -
  let ?i = "intraInstance shipping_inst (List.map_filter (candidateIn order_cm shipping_inst print_tr ''print'' None) (sortedRegions shipping_inst)) 1000"
  have st: "stepsTo order_cm shipping_inst ?i" using print_step unfolding stepsTo_def by blast
  then have "(stepsTo order_cm ^^ 1) shipping_inst ?i" by (simp only: relpowp_1)
  from ParallelClock_bounds [OF this, of "shipping_inst\<lparr>wi_ParallelClock := 2 ^ 63 - 1\<rparr>" "[]" 7] st show ?thesis
    by (intro exI [of _ ?i]) auto
qed

section \<open>Tasks of the states that are left\<close>





lemma testDeps_RandRead [simp]: "dp_RandRead (testDeps acts handlers) = readEntropy"
  by (simp add: testDeps_def)








lemma testDeps_post [simp]:
  "dp_EventBus (testDeps acts handlers) = Some (NewBus (map (\<lambda>h event. onUser (h event)) handlers))"
  "dp_ActivityRunner (testDeps acts handlers) = Some (NewRunner (fold Runner_Register (map liftActivity acts) []))"
  "dp_ActivityStore (testDeps acts handlers) = Some NewActivityStore"
  by (simp_all add: testDeps_def)










end
