(* ===== verification/Flow_Examples.thy ===== *)
theory Flow_Examples
  imports Flow_Builder
begin

text \<open>
  The workflows the repository builds itself, in \<open>testutil/fixtures.go\<close> and in the programs under
  \<open>examples/\<close>, as calls on the builder. The properties of the builder are stated here, with these
  workflows as their concrete cases.
\<close>

section \<open>Fixtures\<close>

definition OrderWorkflow :: DefBuilder where
  "OrderWorkflow = applyOptions
     [DefBuilder_Version 1,
      DefBuilder_States [Initial ''CREATED'', StateOpt ''PROCESSING'' [], Terminal ''DONE'' [], Terminal ''CANCELLED'' []],
      DefBuilder_Transition ''start_processing''
        [From [''CREATED''], To ''PROCESSING'', Event ''OrderStarted''],
      DefBuilder_Transition ''complete''
        [From [''PROCESSING''], To ''DONE'', Event ''OrderCompleted''],
      DefBuilder_Transition ''cancel''
        [From [''CREATED'', ''PROCESSING''], To ''CANCELLED'', Event ''OrderCancelled'']]
     (Define ''order'' ''order_workflow'')"

definition ApprovalWorkflow :: DefBuilder where
  "ApprovalWorkflow = applyOptions
     [DefBuilder_Version 1,
      DefBuilder_States [Initial ''SUBMITTED'', WaitState ''PENDING_APPROVAL'' [], Terminal ''APPROVED'' [], Terminal ''REJECTED'' []],
      DefBuilder_Transition ''submit_for_approval''
        [From [''SUBMITTED''], To ''PENDING_APPROVAL'', Event ''ApprovalRequested'',
         EmitTask \<lparr>td_Type = ''approval'', td_Description = ''Approve or reject the request'',
                   td_Options = [''approve'', ''reject''], td_Timeout = 0\<rparr>],
      DefBuilder_Transition ''approve''
        [From [''PENDING_APPROVAL''], To ''APPROVED'', Event ''RequestApproved'', OnTaskCompleted ''approval''],
      DefBuilder_Transition ''reject''
        [From [''PENDING_APPROVAL''], To ''REJECTED'', Event ''RequestRejected'', OnTaskCompleted ''approval'']]
     (Define ''request'' ''approval_workflow'')"

section \<open>Example programs\<close>

text \<open>\<open>examples/01-basic-linear\<close> builds the same workflow as \<open>OrderWorkflow\<close>.\<close>

definition loanWorkflow :: "Guard \<Rightarrow> Condition \<Rightarrow> DefBuilder" where
  "loanWorkflow minimumAmountGuard highValueCondition = applyOptions
     [DefBuilder_Version 1,
      DefBuilder_States [Initial ''SUBMITTED'', Terminal ''MANUAL_REVIEW'' [], Terminal ''AUTO_APPROVED'' []],
      DefBuilder_Transition ''evaluate''
        [From [''SUBMITTED''], Guards [minimumAmountGuard],
         RouteTo [When highValueCondition, To ''MANUAL_REVIEW''],
         RouteTo [Default, To ''AUTO_APPROVED''],
         Event ''LoanEvaluated'']]
     (Define ''loan'' ''loan_workflow'')"

definition bookingWorkflow :: DefBuilder where
  "bookingWorkflow = applyOptions
     [DefBuilder_Version 1,
      DefBuilder_States [Initial ''CREATED'', StateOpt ''AWAITING_PAYMENT'' [], Terminal ''CONFIRMED'' [], Terminal ''CANCELLED'' []],
      DefBuilder_Transition ''initiate_payment''
        [From [''CREATED''], To ''AWAITING_PAYMENT'', Event ''PaymentInitiated''],
      DefBuilder_Transition ''payment_ok''
        [From [''AWAITING_PAYMENT''], To ''CONFIRMED'', OnSignal ''payment_succeeded'', Event ''BookingConfirmed''],
      DefBuilder_Transition ''payment_fail''
        [From [''AWAITING_PAYMENT''], To ''CANCELLED'', OnSignal ''payment_failed'', Event ''BookingCancelled'']]
     (Define ''booking'' ''booking_workflow'')"

definition expenseWorkflow :: DefBuilder where
  "expenseWorkflow = applyOptions
     [DefBuilder_Version 1,
      DefBuilder_States [Initial ''SUBMITTED'', WaitState ''PENDING_APPROVAL'' [], Terminal ''APPROVED'' [], Terminal ''REJECTED'' []],
      DefBuilder_Transition ''submit_for_approval''
        [From [''SUBMITTED''], To ''PENDING_APPROVAL'', Event ''ApprovalRequested'',
         EmitTask \<lparr>td_Type = ''expense_approval'',
                   td_Description = ''Review and approve or reject the expense claim'',
                   td_Options = [''approve'', ''reject''], td_Timeout = 48 * 3600 * 10 ^ 9\<rparr>],
      DefBuilder_Transition ''approve''
        [From [''PENDING_APPROVAL''], To ''APPROVED'', OnTaskCompleted ''expense_approval'', Event ''ExpenseApproved''],
      DefBuilder_Transition ''reject''
        [From [''PENDING_APPROVAL''], To ''REJECTED'', OnTaskCompleted ''expense_approval'', Event ''ExpenseRejected'']]
     (Define ''expense'' ''expense_workflow'')"

definition childWorkflowType :: string where
  "childWorkflowType = ''shipment_workflow''"

definition buildOrderWorkflow :: DefBuilder where
  "buildOrderWorkflow = applyOptions
     [DefBuilder_Version 1,
      DefBuilder_States [Initial ''CREATED'', StateOpt ''PROCESSING'' [], StateOpt ''WAITING_FOR_SHIPMENT'' [],
        Terminal ''COMPLETED'' [], Terminal ''CANCELLED'' []],
      DefBuilder_Transition ''start_processing''
        [From [''CREATED''], To ''PROCESSING'', Event ''OrderStarted''],
      DefBuilder_Transition ''ship''
        [From [''PROCESSING''], To ''WAITING_FOR_SHIPMENT'', Event ''ShipmentStarted'',
         SpawnChild \<lparr>cd_WorkflowType = childWorkflowType, cd_InputFrom = []\<rparr>],
      DefBuilder_Transition ''shipment_delivered''
        [From [''WAITING_FOR_SHIPMENT''], To ''COMPLETED'', OnChildCompleted childWorkflowType, Event ''OrderCompleted''],
      DefBuilder_Transition ''cancel''
        [From [''CREATED'', ''PROCESSING''], To ''CANCELLED'', Event ''OrderCancelled'']]
     (Define ''order'' ''order_workflow'')"

definition buildShipmentWorkflow :: DefBuilder where
  "buildShipmentWorkflow = applyOptions
     [DefBuilder_Version 1,
      DefBuilder_States [Initial ''CREATED'', StateOpt ''IN_TRANSIT'' [], Terminal ''DELIVERED'' [], Terminal ''FAILED'' []],
      DefBuilder_Transition ''pick_up'' [From [''CREATED''], To ''IN_TRANSIT'', Event ''ShipmentPickedUp''],
      DefBuilder_Transition ''deliver'' [From [''IN_TRANSIT''], To ''DELIVERED'', Event ''ShipmentDelivered''],
      DefBuilder_Transition ''fail'' [From [''CREATED'', ''IN_TRANSIT''], To ''FAILED'', Event ''ShipmentFailed'']]
     (Define ''shipment'' childWorkflowType)"

definition itemWorkflowType :: string where
  "itemWorkflowType = ''item_workflow''"

definition purchaseOrderWorkflow :: DefBuilder where
  "purchaseOrderWorkflow = applyOptions
     [DefBuilder_Version 1,
      DefBuilder_States [Initial ''CREATED'', StateOpt ''PROCESSING'' [], StateOpt ''AWAITING_ITEMS'' [],
        StateOpt ''AWAITING_PAYMENT'' [], Terminal ''CONFIRMED'' [], Terminal ''CANCELLED'' []],
      DefBuilder_Transition ''start'' [From [''CREATED''], To ''PROCESSING'', Event ''OrderStarted''],
      DefBuilder_Transition ''fan_out''
        [From [''PROCESSING''], To ''AWAITING_ITEMS'', Event ''ItemsFannedOut'',
         SpawnChildren \<lparr>cs_WorkflowType = itemWorkflowType,
           cs_InputsFn = Some (\<lambda>_.
             [Some [(''item_id'', GString ''item-A''), (''sku'', GString ''SKU-001'')],
              Some [(''item_id'', GString ''item-B''), (''sku'', GString ''SKU-002'')],
              Some [(''item_id'', GString ''item-C''), (''sku'', GString ''SKU-003'')]]),
           cs_Join = JoinAll\<rparr>],
      DefBuilder_Transition ''items_ready''
        [From [''AWAITING_ITEMS''], To ''AWAITING_PAYMENT'', OnChildrenJoined, Event ''ItemsReady''],
      DefBuilder_Transition ''payment_ok''
        [From [''AWAITING_PAYMENT''], To ''CONFIRMED'', OnSignal ''payment_succeeded'', Event ''OrderConfirmed''],
      DefBuilder_Transition ''payment_fail''
        [From [''AWAITING_PAYMENT''], To ''CANCELLED'', OnSignal ''payment_failed'', Event ''OrderCancelled'']]
     (Define ''purchase_order'' ''purchase_order_workflow'')"

definition buildItemWorkflow :: DefBuilder where
  "buildItemWorkflow = applyOptions
     [DefBuilder_Version 1,
      DefBuilder_States [Initial ''CREATED'', StateOpt ''PROCESSING'' [], Terminal ''DONE'' [], Terminal ''FAILED'' []],
      DefBuilder_Transition ''process'' [From [''CREATED''], To ''PROCESSING'', Event ''ItemProcessingStarted''],
      DefBuilder_Transition ''complete'' [From [''PROCESSING''], To ''DONE'', Event ''ItemCompleted''],
      DefBuilder_Transition ''fail'' [From [''CREATED'', ''PROCESSING''], To ''FAILED'', Event ''ItemFailed'']]
     (Define ''item'' itemWorkflowType)"

definition buildEditorWorkflow :: DefBuilder where
  "buildEditorWorkflow = applyOptions
     [DefBuilder_Version 1,
      DefBuilder_States
        [Initial ''IDLE'',
         Done (Region ''italic_region'' [StateOpt ''italic_off'' [], StateOpt ''italic_on'' []]
              (Region ''bold_region'' [StateOpt ''bold_off'' [], StateOpt ''bold_on'' []]
              (ParallelState ''editing''))),
         Terminal ''DONE'' []],
      DefBuilder_Transition ''startEditing'' [From [''IDLE''], To ''editing'', Event ''EditingStarted''],
      DefBuilder_Transition ''toggleBold'' [From [''bold_off''], To ''bold_on'', Event ''BoldEnabled''],
      DefBuilder_Transition ''untoggleBold'' [From [''bold_on''], To ''bold_off'', Event ''BoldDisabled''],
      DefBuilder_Transition ''toggleItalic'' [From [''italic_off''], To ''italic_on'', Event ''ItalicEnabled''],
      DefBuilder_Transition ''untoggleItalic'' [From [''italic_on''], To ''italic_off'', Event ''ItalicDisabled''],
      DefBuilder_Transition ''finishEditing'' [From [''editing''], To ''DONE'', Event ''EditingFinished'']]
     (Define ''Editor'' ''editor_workflow'')"

text \<open>The main programs build their workflows and register them one after the other.\<close>

fun registerAll :: "(string \<Rightarrow> string) \<Rightarrow> DefBuilder list \<Rightarrow> 'w Engine \<Rightarrow> 'w Engine option" where
  "registerAll digest [] e = Some e"
| "registerAll digest (b # bs) e =
     (case Build (\<lambda>keys. keys) b of
        Some (Inr def) \<Rightarrow>
          (case Register digest def e of
             Some (None, e') \<Rightarrow> registerAll digest bs e'
           | _ \<Rightarrow> None)
      | _ \<Rightarrow> None)"

section \<open>Properties of the builder\<close>

lemma some_order_id_rev [simp]: "some_order (\<lambda>keys. keys)" "some_order rev"
  by (simp_all add: some_order_def)

lemma editor_ok: "builder_ok buildEditorWorkflow" "db_validateFn buildEditorWorkflow = Some Validate"
  by (simp_all add: builder_ok_def buildEditorWorkflow_def applyOptions_def DefBuilder_Version_def
      DefBuilder_States_def DefBuilder_Transition_def Define_def NewDefBuilder_def flattenStates_def
      Initial_def Done_def Region_def ParallelState_def StateOpt_def Terminal_def inRegion_def
      plain_state_def zero_StateDef_def Let_def)

lemma editor_builds:
  obtains def def' where "Build (\<lambda>keys. keys) buildEditorWorkflow = Some (Inr def)"
    "Build rev buildEditorWorkflow = Some (Inr def')"
proof -
  have "case Build (\<lambda>keys. keys) buildEditorWorkflow of Some (Inr def) \<Rightarrow> True | _ \<Rightarrow> False" by code_simp
  moreover have "case Build rev buildEditorWorkflow of Some (Inr def) \<Rightarrow> True | _ \<Rightarrow> False" by code_simp
  ultimately show thesis using that by (auto split: option.splits sum.splits)
qed


text \<open>
  C9. What \<open>Build\<close> returns is the definition the calls on the builder describe, whatever the order
  in which it ranges over the states: every declared state (the last declaration of a name), as it was
  declared but for its children and the compound mark; the children of a state are exactly the
  states that name it as their parent, each once, and a state with children is compound; every
  transition with its options applied in order; and every entry is stored under its own name.
\<close>

theorem Build_correct:
  assumes "Build order b = Some (Inr def)" "builder_ok b" "some_order order"
  shows "names_ok def \<and> distinct (map fst (db_transitions b)) \<and>
    fst ` set (df_States def) = {n. declared b n \<noteq> None} \<and>
    (\<forall>p st. map_of (df_States def) p = Some st \<longrightarrow>
       mset (st_Children st) = (if p = [] then {#} else mset (filter (\<lambda>n. parent_of def n = p) (mkeys (df_States def)))) \<and>
       (\<exists>sd. declared b p = Some sd \<and>
          st = sd\<lparr>st_Children := st_Children st, st_IsCompound := (st_IsCompound sd \<or> st_Children st \<noteq> [])\<rparr>)) \<and>
    (\<forall>n. map_of (df_Transitions def) n =
       map_option (\<lambda>opts. transitionDef (applyOptions opts (newTransition n))) (map_of (db_transitions b) n)) \<and>
    df_TerminalStates def = map (st_Name \<circ> so_def) (filter (st_IsTerminal \<circ> so_def) (flattenStates (db_states b)))"
proof (intro conjI allI impI)
  show "names_ok def" "distinct (map fst (db_transitions b))"
    by (rule Build_names_ok [OF assms(1,2)] Build_transitions(1) [OF assms(1,2)])+
  have "n \<in> fst ` set (df_States def) \<longleftrightarrow> map_of (df_States def) n \<noteq> None" for n
    by (simp add: map_of_None_iff)
  then show "fst ` set (df_States def) = {n. declared b n \<noteq> None}"
    by (auto simp: Build_state [OF assms(1)] simp del: not_None_eq)
  show "df_TerminalStates def = map (st_Name \<circ> so_def) (filter (st_IsTerminal \<circ> so_def) (flattenStates (db_states b)))"
    by (simp add: Build_Inr(7) [OF assms(1)] collected_def)
next
  fix p st assume st: "map_of (df_States def) p = Some st"
  show "mset (st_Children st) = (if p = [] then {#} else mset (filter (\<lambda>n. parent_of def n = p) (mkeys (df_States def))))"
    by (rule Build_children_mset [OF assms st])
  show "\<exists>sd. declared b p = Some sd \<and>
      st = sd\<lparr>st_Children := st_Children st, st_IsCompound := (st_IsCompound sd \<or> st_Children st \<noteq> [])\<rparr>"
    by (rule Build_children(2) [OF assms(1,2) st])
qed (rule Build_transitions(3) [OF assms(1,2)])

theorem Build_correct_witness:
  "\<exists>def. Build rev buildEditorWorkflow = Some (Inr def) \<and> names_ok def \<and>
     fst ` set (df_States def) = {n. declared buildEditorWorkflow n \<noteq> None}"
proof -
  from editor_builds obtain def where "Build rev buildEditorWorkflow = Some (Inr def)" by metis
  with Build_correct [OF this editor_ok(1) some_order_id_rev(2)] show ?thesis by blast
qed



lemma Build_same_content:
  assumes "Build order b = Some (Inr def)" "Build order' b = Some (Inr def')" "builder_ok b"
    "some_order order" "some_order order'"
  shows "same_content def def'"
proof -
  have keys: "mkeys (df_States def) = mkeys (df_States def')"
    by (simp add: Build_keys [OF assms(1)] Build_keys [OF assms(2)])
  have trs: "df_Transitions def = df_Transitions def'"
    using Build_Inr(2) [OF assms(1)] Build_Inr(2) [OF assms(2)] by simp
  have par: "parent_of def n = parent_of def' n" for n
    using Build_parent [OF assms(1), of n] Build_parent [OF assms(2), of n]
    by (auto simp: parent_of_def state_of_def split: option.splits)
  have "(state_of def n)\<lparr>st_Children := sort (st_Children (state_of def n))\<rparr> =
      (state_of def' n)\<lparr>st_Children := sort (st_Children (state_of def' n))\<rparr>" for n
  proof (cases "declared b n")
    case None
    then show ?thesis by (simp add: state_of_def Build_state [OF assms(1)] Build_state [OF assms(2)])
  next
    case (Some sd)
    then obtain st st' where st: "map_of (df_States def) n = Some st" "map_of (df_States def') n = Some st'"
      by (simp add: Build_state [OF assms(1)] Build_state [OF assms(2)])
    from Build_children(2) [OF assms(1,3) st(1)] Some have s:
      "st = sd\<lparr>st_Children := st_Children st, st_IsCompound := (st_IsCompound sd \<or> st_Children st \<noteq> [])\<rparr>" by simp
    from Build_children(2) [OF assms(2,3) st(2)] Some have s':
      "st' = sd\<lparr>st_Children := st_Children st', st_IsCompound := (st_IsCompound sd \<or> st_Children st' \<noteq> [])\<rparr>" by simp
    have m: "mset (st_Children st) = mset (st_Children st')"
      using Build_children_mset [OF assms(1,3,4) st(1)] Build_children_mset [OF assms(2,3,5) st(2)] keys par by simp
    then have "st_Children st = [] \<longleftrightarrow> st_Children st' = []" by auto
    with st sort_eq_of_mset [OF m] show ?thesis by (subst (1 2) state_of_Some [OF st(1)], subst (1 2) state_of_Some [OF st(2)]) (subst s, subst s', simp)
  qed
  with keys trs show ?thesis
    by (simp add: same_content_def Build_Inr [OF assms(1)] Build_Inr [OF assms(2)])
qed

text \<open>
  C27. The hash of a built definition is stable. Two builds from the same builder, each with its own
  order of ranging over maps, have the same hash, also when each hash is computed over another
  arrangement of the maps of its definition: a snapshot taken by one process is accepted by another
  that builds its definition afresh.
\<close>

theorem Build_hash_stable:
  assumes "Build order b = Some (Inr def)" "Build order' b = Some (Inr def')" "builder_ok b"
    "some_order order" "some_order order'"
    and "same_content def ranged" "same_content def' ranged'"
  shows "HashDefinition digest ranged = HashDefinition digest ranged'"
proof -
  from same_content_sym [OF assms(6)] Build_same_content [OF assms(1-5)] assms(7)
  have "same_content ranged ranged'" by (blast intro: same_content_trans)
  with computeHash_same_content show ?thesis by (simp add: HashDefinition_def)
qed

text \<open>Any arrangement of the two maps of a built definition has its content.\<close>

lemma same_content_arranged:
  assumes "wf_map (df_States def)" "wf_map (df_Transitions def)"
    "mset states = mset (df_States def)" "mset transitions = mset (df_Transitions def)"
  shows "same_content def (def\<lparr>df_States := states, df_Transitions := transitions\<rparr>)"
proof -
  have look: "map_of m' = map_of m" if "wf_map m" "mset m' = mset m" for m m' :: "(string, 'v) gomap"
  proof -
    from that(2) have "set m' = set m" by (metis set_mset_mset)
    moreover from that(2) have "mset (mkeys m') = mset (mkeys m)" by (metis mset_map)
    from mset_eq_imp_distinct_iff [OF this] that(1) have "distinct (mkeys m')" by (simp add: wf_map_def)
    ultimately show ?thesis using that(1) by (simp add: map_of_inject_set wf_map_def)
  qed
  from assms(3,4) have "mset (mkeys states) = mset (mkeys (df_States def))"
    "mset (mkeys transitions) = mset (mkeys (df_Transitions def))" by (metis mset_map)+
  with look [OF assms(1,3)] look [OF assms(2,4)] show ?thesis
    by (simp add: same_content_def state_of_def)
qed

theorem Build_hash_stable_witness:
  "\<exists>def def'. Build (\<lambda>keys. keys) buildEditorWorkflow = Some (Inr def) \<and>
     Build rev buildEditorWorkflow = Some (Inr def') \<and>
     HashDefinition (\<lambda>bytes. bytes) def =
     HashDefinition (\<lambda>bytes. bytes) (def'\<lparr>df_States := rev (df_States def'), df_Transitions := rev (df_Transitions def')\<rparr>)"
proof -
  from editor_builds obtain def def' where b: "Build (\<lambda>keys. keys) buildEditorWorkflow = Some (Inr def)"
    "Build rev buildEditorWorkflow = Some (Inr def')" by metis
  have wf: "wf_map (df_States def')" "wf_map (df_Transitions def')"
    using Build_wf [OF b(2)] Build_transitions(2) [OF b(2) editor_ok(1)] by (auto simp: names_ok_def)
  from Build_hash_stable [OF b editor_ok(1) some_order_id_rev, of def
      "def'\<lparr>df_States := rev (df_States def'), df_Transitions := rev (df_Transitions def')\<rparr>"]
    same_content_arranged [OF wf, of "rev (df_States def')" "rev (df_Transitions def')"] b
  show ?thesis by (auto simp: same_content_def)
qed

text \<open>
  C32. In a definition built with \<open>Define\<close> and accepted by its validation, entering a compound state
  that is not parallel always leads somewhere: the compiled machine has an initial leaf for it, and
  it is the state at the end of its \<open>InitialChild\<close> links, a proper descendant of it, and a declared
  state in which an instance can rest, a leaf or a parallel state.
\<close>

theorem Build_initial_leaves:
  assumes "Build order b = Some (Inr def)" "builder_ok b" "some_order order" "db_validateFn b = Some Validate"
    "Compile digest def = Some (Inr cm)" "st_IsCompound (state_of def n)" "\<not> st_IsParallel (state_of def n)"
  shows "\<exists>l. map_of (cm_InitialLeafMap cm) n = Some l \<and> initial_leaf def n l \<and>
    (l, n) \<in> (parent_rel def)\<^sup>+ \<and> rests def l"
proof -
  from Build_Inr(8) [OF assms(1,4)] have v: "Validate def = Some None" .
  note links = Build_links [OF assms(1-3) v] Build_wf [OF assms(1)]
  have "st_InitialChild (state_of def n) \<noteq> []" by (rule Validate_compound_links [OF v assms(6,7)])
  with assms(6,7) Compile_leaf(1) [OF assms(5) links, of n] obtain l where
    "map_of (cm_InitialLeafMap cm) n = Some l" by (auto simp: hasInitialLeaf_def)
  with InitialLeafMap_resting [OF assms(5) v links this] show ?thesis by blast
qed

theorem Build_initial_leaves_witness:
  "\<exists>def cm l. Build rev buildEditorWorkflow = Some (Inr def) \<and> Compile (\<lambda>bytes. bytes) def = Some (Inr cm) \<and>
     map_of (cm_InitialLeafMap cm) ''bold_region'' = Some l \<and> rests def l"
proof -
  from editor_builds obtain def where d: "Build rev buildEditorWorkflow = Some (Inr def)" by metis
  have "case Build rev buildEditorWorkflow of
      Some (Inr def) \<Rightarrow> st_IsCompound (state_of def ''bold_region'') \<and> \<not> st_IsParallel (state_of def ''bold_region'')
    | _ \<Rightarrow> False"
    "case Build rev buildEditorWorkflow of
      Some (Inr def) \<Rightarrow> (case Compile (\<lambda>bytes. bytes) def of Some (Inr cm) \<Rightarrow> True | _ \<Rightarrow> False)
    | _ \<Rightarrow> False" by code_simp+
  with d obtain cm where c: "Compile (\<lambda>bytes. bytes) def = Some (Inr cm)"
    "st_IsCompound (state_of def ''bold_region'')" "\<not> st_IsParallel (state_of def ''bold_region'')"
    by (simp split: option.splits sum.splits)
  from Build_initial_leaves [OF d editor_ok(1) some_order_id_rev(2) editor_ok(2) c] d c show ?thesis by blast
qed

text \<open>Every workflow of the fixtures and of the example programs builds and registers: none hangs, none is rejected.\<close>

lemma Examples_register:
  shows "registerAll (\<lambda>bytes. bytes) [OrderWorkflow] (New deps) \<noteq> None"
    "registerAll (\<lambda>bytes. bytes) [ApprovalWorkflow] (New deps) \<noteq> None"
    "registerAll (\<lambda>bytes. bytes) [loanWorkflow guard cond] (New deps) \<noteq> None"
    "registerAll (\<lambda>bytes. bytes) [bookingWorkflow] (New deps) \<noteq> None"
    "registerAll (\<lambda>bytes. bytes) [expenseWorkflow] (New deps) \<noteq> None"
    "registerAll (\<lambda>bytes. bytes) [buildOrderWorkflow, buildShipmentWorkflow] (New deps) \<noteq> None"
    "registerAll (\<lambda>bytes. bytes) [purchaseOrderWorkflow, buildItemWorkflow] (New deps) \<noteq> None"
    "registerAll (\<lambda>bytes. bytes) [buildEditorWorkflow] (New deps) \<noteq> None"
  by code_simp+

section \<open>A transition without a target\<close>

text \<open>
  Neither \<open>Build\<close> nor \<open>Validate\<close> asks a transition for a target or a route. A transition declared
  with neither is accepted, and its target is the empty string, which is no state of the definition.
\<close>

definition targetless :: DefBuilder where
  "targetless = applyOptions
     [DefBuilder_States [Initial ''A'', Terminal ''T'' []],
      DefBuilder_Transition ''go'' [From [''A''], To ''T''],
      DefBuilder_Transition ''lost'' [From [''A'']]]
     (Define ''x'' ''x_workflow'')"

lemma Build_accepts_missing_target:
  "case Build (\<lambda>keys. keys) targetless of
     Some (Inr def) \<Rightarrow>
       (case map_of (df_Transitions def) ''lost'' of
          Some tr \<Rightarrow> tr_Target tr = [] \<and> tr_Routes tr = [] \<and> map_of (df_States def) [] = None
        | None \<Rightarrow> False)
   | _ \<Rightarrow> False"
proof -
  have "case Build (\<lambda>keys. keys) targetless of Some (Inr def) \<Rightarrow>
      (case map_of (df_Transitions def) ''lost'' of
         Some tr \<Rightarrow> tr_Target tr = [] \<and> length (tr_Routes tr) = 0 \<and> \<not> knownState def []
       | None \<Rightarrow> False) | _ \<Rightarrow> False" by code_simp
  then show ?thesis by (auto simp: knownState_def split: option.splits sum.splits)
qed

end
