(* ===== verification/Flow_Mermaid.thy ===== *)
theory Flow_Mermaid
  imports Flow_Builder
begin

text \<open>
  \<open>types/mermaid.go\<close>: the rendering of a definition as a Mermaid state diagram. The renderer follows
  child and parent links without marking what it has seen, so its recursive functions are partial:
  \<open>None\<close> stands for a run that does not end.
\<close>

section \<open>Loops with partial bodies\<close>

primrec anyM :: "('a \<Rightarrow> bool option) \<Rightarrow> 'a list \<Rightarrow> bool option" where
  "anyM f [] = Some False"
| "anyM f (x # xs) = Option.bind (f x) (\<lambda>b. if b then Some True else anyM f xs)"

primrec writeM :: "('a \<Rightarrow> string option) \<Rightarrow> 'a list \<Rightarrow> string option" where
  "writeM f [] = Some []"
| "writeM f (x # xs) = Option.bind (f x) (\<lambda>s. Option.bind (writeM f xs) (\<lambda>t. Some (s @ t)))"

lemma anyM_mono [partial_function_mono]:
  "(\<And>x. mono_option (\<lambda>f. C x f)) \<Longrightarrow> mono_option (\<lambda>f. anyM (\<lambda>x. C x f) xs)"
  by (induction xs) (auto intro!: partial_function_mono)

lemma writeM_mono [partial_function_mono]:
  "(\<And>x. mono_option (\<lambda>f. C x f)) \<Longrightarrow> mono_option (\<lambda>f. writeM (\<lambda>x. C x f) xs)"
  by (induction xs) (auto intro!: partial_function_mono)

section \<open>The scope of a transition\<close>

partial_function (option) mermaidIsInSubtree :: "Definition \<Rightarrow> string \<Rightarrow> string \<Rightarrow> bool option" where
  "mermaidIsInSubtree d stateName root =
     (if stateName = root then Some True
      else (case map_of (df_States d) root of
              None \<Rightarrow> Some False
            | Some rootSt \<Rightarrow>
                if \<not> st_IsCompound rootSt then Some False
                else anyM (\<lambda>child. mermaidIsInSubtree d stateName child) (st_Children rootSt)))"

declare mermaidIsInSubtree.simps [code]

primrec mermaidAllInSubtree :: "string list \<Rightarrow> string \<Rightarrow> Definition \<Rightarrow> bool option" where
  "mermaidAllInSubtree [] root d = Some True"
| "mermaidAllInSubtree (s # states) root d =
     Option.bind (mermaidIsInSubtree d s root)
       (\<lambda>b. if \<not> b then Some False else mermaidAllInSubtree states root d)"

partial_function (option) mermaidDepthLoop :: "Definition \<Rightarrow> StateDef option \<Rightarrow> int \<Rightarrow> int option" where
  "mermaidDepthLoop d found depth =
     (case found of
        None \<Rightarrow> Some depth
      | Some st \<Rightarrow>
          if st_Parent st = [] then Some depth
          else mermaidDepthLoop d (map_of (df_States d) (st_Parent st)) (depth + 1))"

declare mermaidDepthLoop.simps [code]

definition mermaidStateDepth :: "string \<Rightarrow> Definition \<Rightarrow> int option" where
  "mermaidStateDepth name d = mermaidDepthLoop d (map_of (df_States d) name) 0"

definition mermaidParticipants :: "TransitionDef \<Rightarrow> string list" where
  "mermaidParticipants tr =
     tr_Sources tr @
     (if tr_Target tr \<noteq> [] then [tr_Target tr]
      else filter (\<lambda>t. t \<noteq> []) (map rt_Target (tr_Routes tr)))"

primrec mermaidScopeLoop ::
  "string list \<Rightarrow> Definition \<Rightarrow> (string, StateDef) gomap \<Rightarrow> string \<Rightarrow> int \<Rightarrow> string option" where
  "mermaidScopeLoop participants d [] bestScope bestDepth = Some bestScope"
| "mermaidScopeLoop participants d (entry # entries) bestScope bestDepth =
     (case entry of (compName, compSt) \<Rightarrow>
        if \<not> st_IsCompound compSt then mermaidScopeLoop participants d entries bestScope bestDepth
        else Option.bind (mermaidAllInSubtree participants compName d) (\<lambda>inside.
          if \<not> inside then mermaidScopeLoop participants d entries bestScope bestDepth
          else Option.bind (mermaidStateDepth compName d) (\<lambda>depth.
            if depth > bestDepth then mermaidScopeLoop participants d entries compName depth
            else mermaidScopeLoop participants d entries bestScope bestDepth)))"

definition mermaidTransitionScope :: "TransitionDef \<Rightarrow> Definition \<Rightarrow> string option" where
  "mermaidTransitionScope tr d =
     (let participants = mermaidParticipants tr in
      if participants = [] then Some []
      else mermaidScopeLoop participants d (df_States d) [] (- 1))"

section \<open>Rendering\<close>

abbreviation newline :: string where "newline \<equiv> [CHR 0x0A]"

definition mermaidTransitionLabel :: "TransitionDef \<Rightarrow> string" where
  "mermaidTransitionLabel tr =
     (case tr_HistoryMode tr of
        HistoryShallow \<Rightarrow> tr_Name tr @ '' [H]''
      | HistoryDeep \<Rightarrow> tr_Name tr @ '' [H*]''
      | HistoryNone \<Rightarrow> tr_Name tr)"

definition arrow :: "string \<Rightarrow> string \<Rightarrow> string \<Rightarrow> string \<Rightarrow> string" where
  "arrow indent src target label = indent @ ''    '' @ src @ '' --> '' @ target @ '' : '' @ label @ newline"

text \<open>The loop over the sorted sources, the same inside a block and at the top level (empty indent).\<close>

definition transitionLines :: "string \<Rightarrow> TransitionDef \<Rightarrow> string" where
  "transitionLines indent tr =
     (let label = mermaidTransitionLabel tr in
      concat (map (\<lambda>src.
        if tr_Target tr \<noteq> [] then arrow indent src (tr_Target tr) label
        else concat (map (\<lambda>route. if rt_Target route = [] then [] else arrow indent src (rt_Target route) label)
                       (tr_Routes tr)))
        (sort (tr_Sources tr))))"

definition scoped :: "(string, TransitionDef list) gomap \<Rightarrow> string \<Rightarrow> TransitionDef list" where
  "scoped compoundTransitions name =
     (case map_of compoundTransitions name of None \<Rightarrow> [] | Some trs \<Rightarrow> trs)"

partial_function (option) mermaidCompoundBlock ::
  "Definition \<Rightarrow> (string, TransitionDef list) gomap \<Rightarrow> string \<Rightarrow> nat \<Rightarrow> string option" where
  "mermaidCompoundBlock d compoundTransitions name depth =
     (let indent = concat (replicate depth ''    '');
          st = state_of d name in
      Option.bind
        (writeM (\<lambda>child. mermaidCompoundBlock d compoundTransitions child (depth + 1))
           (filter (\<lambda>child. st_IsCompound (state_of d child)) (sort (st_Children st))))
        (\<lambda>blocks. Some (
           indent @ ''state '' @ name @ '' {'' @ newline @
           (if st_InitialChild st \<noteq> [] then indent @ ''    [*] --> '' @ st_InitialChild st @ newline else []) @
           blocks @
           concat (map (transitionLines indent) (scoped compoundTransitions name)) @
           indent @ ''}'' @ newline)))"

declare mermaidCompoundBlock.simps [code]

definition mermaidRootStateNames :: "Definition \<Rightarrow> string list" where
  "mermaidRootStateNames d = sort (map fst (filter (\<lambda>(name, st). st_Parent st = []) (df_States d)))"

primrec mermaidPartition ::
  "Definition \<Rightarrow> TransitionDef list \<Rightarrow> (string, TransitionDef list) gomap \<Rightarrow> TransitionDef list \<Rightarrow>
     ((string, TransitionDef list) gomap \<times> TransitionDef list) option" where
  "mermaidPartition d [] compoundTransitions topLevel = Some (compoundTransitions, topLevel)"
| "mermaidPartition d (tr # trs) compoundTransitions topLevel =
     Option.bind (mermaidTransitionScope tr d) (\<lambda>scope.
       if scope = [] then mermaidPartition d trs compoundTransitions (topLevel @ [tr])
       else mermaidPartition d trs (mput scope (scoped compoundTransitions scope @ [tr]) compoundTransitions) topLevel)"

definition transition_of :: "Definition \<Rightarrow> string \<Rightarrow> TransitionDef list" where
  "transition_of d name = (case map_of (df_Transitions d) name of None \<Rightarrow> [] | Some tr \<Rightarrow> [tr])"

definition Mermaid :: "Definition \<Rightarrow> string option" where
  "Mermaid d =
     Option.bind (mermaidPartition d (concat (map (transition_of d) (sort (mkeys (df_Transitions d))))) [] [])
       (\<lambda>(compoundTransitions, topLevelTransitions).
     Option.bind (writeM (\<lambda>name. mermaidCompoundBlock d compoundTransitions name 1)
                    (filter (\<lambda>name. st_IsCompound (state_of d name)) (mermaidRootStateNames d)))
       (\<lambda>blocks. Some (
          ''stateDiagram-v2'' @ newline @
          ''    [*] --> '' @ df_InitialState d @ newline @
          blocks @
          concat (map (transitionLines []) topLevelTransitions) @
          concat (map (\<lambda>ts. ''    '' @ ts @ '' --> [*]'' @ newline) (sort (df_TerminalStates d))))))"

section \<open>Trees of states\<close>

text \<open>
  What the renderer relies on: the parent links have no cycle, children and parent links agree, a
  state with children is compound, and no compound state has the empty name.
\<close>

definition tree_ok :: "Definition \<Rightarrow> bool" where
  "tree_ok d \<longleftrightarrow>
     acyclic (parent_rel d) \<and> wf_map (df_States d) \<and> named_compounds d \<and>
     (\<forall>n c. n \<noteq> [] \<longrightarrow> (c \<in> set (st_Children (state_of d n)) \<longleftrightarrow> parent_of d c = n)) \<and>
     (\<forall>c. parent_of d c \<noteq> [] \<longrightarrow> st_IsCompound (state_of d (parent_of d c)))"

lemma tree_okD:
  assumes "tree_ok d"
  shows "acyclic (parent_rel d)" "wf_map (df_States d)" "named_compounds d"
    "n \<noteq> [] \<Longrightarrow> c \<in> set (st_Children (state_of d n)) \<longleftrightarrow> parent_of d c = n"
    "parent_of d c \<noteq> [] \<Longrightarrow> st_IsCompound (state_of d (parent_of d c))"
    "wf (parent_rel d)"
  using assms finite_acyclic_wf [OF finite_parent_rel] by (auto simp: tree_ok_def)

lemma compound_named: "named_compounds d \<Longrightarrow> st_IsCompound (state_of d n) \<Longrightarrow> n \<noteq> []"
  by (auto simp: named_compounds_def)

lemma compound_known: "st_IsCompound (state_of d n) \<Longrightarrow> map_of (df_States d) n = Some (state_of d n)"
  by (auto simp: state_of_def split: option.splits)

lemma tree_ok_built:
  assumes b: "Build order b = Some (Inr def)" "builder_ok b" "some_order order"
    and v: "Validate def = Some None" and a: "acyclic (parent_rel def)"
  shows "tree_ok def"
proof -
  have ch: "c \<in> set (st_Children (state_of def n)) \<longleftrightarrow> parent_of def c = n" if n: "n \<noteq> []" for n c
  proof (cases "map_of (df_States def) n")
    case None
    have "parent_of def c \<noteq> n"
    proof
      assume c: "parent_of def c = n"
      with n have "c \<in> fst ` set (df_States def)" by (simp add: parent_of_key)
      then obtain st where st: "(c, st) \<in> set (df_States def)" by auto
      with Build_wf [OF b(1)] c have "st_Parent st = n" by (simp add: parent_of_def state_of_def map_of_in_set_wf)
      with st v n None show False
        by (auto simp: Validate_accept checkOrphanedChildren_def first_err_None knownState_def split: if_splits)
    qed
    with None show ?thesis by (simp add: state_of_def)
  next
    case (Some st)
    have "c \<in> set (st_Children st) \<longleftrightarrow> c \<in> fst ` set (df_States def) \<and> parent_of def c = n"
      using n by (auto simp: Build_children(1) [OF b(1,2) Some] set_some_order [OF b(3)] parent_of_lookup
          simp del: map_option_eq_Some)
    with Some n parent_of_key [of def c] show ?thesis by (auto simp: state_of_def)
  qed
  have "st_IsCompound (state_of def (parent_of def c))" if p: "parent_of def c \<noteq> []" for c
  proof -
    from ch [OF p] have "c \<in> set (st_Children (state_of def (parent_of def c)))" by simp
    moreover from this obtain st where st: "map_of (df_States def) (parent_of def c) = Some st"
      by (cases "map_of (df_States def) (parent_of def c)") (auto simp: state_of_def)
    moreover from Build_children(2) [OF b(1,2) st] obtain sd where
      "st = sd\<lparr>st_Children := st_Children st, st_IsCompound := (st_IsCompound sd \<or> st_Children st \<noteq> [])\<rparr>" by blast
    from arg_cong [OF this, of st_IsCompound] have "st_Children st \<noteq> [] \<longrightarrow> st_IsCompound st" by simp
    ultimately show ?thesis by (auto simp: state_of_def)
  qed
  with ch a Build_wf [OF b(1)] Build_links(2) [OF b v] show ?thesis by (simp add: tree_ok_def)
qed

section \<open>Subtrees and depths\<close>

lemma anyM_Some: "(\<And>x. x \<in> set xs \<Longrightarrow> f x = Some (P x)) \<Longrightarrow> anyM f xs = Some (\<exists>x \<in> set xs. P x)"
  by (induction xs) auto

lemma writeM_Some: "(\<And>x. x \<in> set xs \<Longrightarrow> f x = Some (g x)) \<Longrightarrow> writeM f xs = Some (concat (map g xs))"
  by (induction xs) auto

lemma rtrancl_parent_cases:
  "(s, r) \<in> (parent_rel d)\<^sup>* \<longleftrightarrow> s = r \<or> (\<exists>c. parent_of d c = r \<and> r \<noteq> [] \<and> (s, c) \<in> (parent_rel d)\<^sup>*)"
  by (subst rtrancl.simps) (auto simp: parent_rel_def)

lemma mermaidIsInSubtree_eq:
  assumes t: "tree_ok d"
  shows "mermaidIsInSubtree d s r = Some ((s, r) \<in> (parent_rel d)\<^sup>*)"
  using tree_okD(6) [OF t]
proof (induction r rule: wf_induct_rule)
  case (less r)
  show ?case
  proof (cases "s \<noteq> r \<and> st_IsCompound (state_of d r)")
    case False
    then have "(s, r) \<in> (parent_rel d)\<^sup>* \<longleftrightarrow> s = r"
      using tree_okD(5) [OF t] by (subst rtrancl_parent_cases) auto
    with False show ?thesis
      by (subst mermaidIsInSubtree.simps) (auto simp: state_of_def split: option.splits)
  next
    case True
    note r = compound_named [OF tree_okD(3) [OF t] conjunct2 [OF True]]
    have "anyM (mermaidIsInSubtree d s) (st_Children (state_of d r)) =
        Some (\<exists>c \<in> set (st_Children (state_of d r)). (s, c) \<in> (parent_rel d)\<^sup>*)"
    proof (rule anyM_Some)
      fix c assume "c \<in> set (st_Children (state_of d r))"
      with tree_okD(4) [OF t r] r have "(c, r) \<in> parent_rel d" by (auto simp: parent_rel_def)
      from less.IH [OF this] show "mermaidIsInSubtree d s c = Some ((s, c) \<in> (parent_rel d)\<^sup>*)" .
    qed
    moreover have "(s, r) \<in> (parent_rel d)\<^sup>* \<longleftrightarrow> (\<exists>c \<in> set (st_Children (state_of d r)). (s, c) \<in> (parent_rel d)\<^sup>*)"
      unfolding rtrancl_parent_cases [of s r d] using True r tree_okD(4) [OF t r] by blast
    moreover from True have "mermaidIsInSubtree d s r = anyM (mermaidIsInSubtree d s) (st_Children (state_of d r))"
      by (subst mermaidIsInSubtree.simps) (simp only: compound_known option.case if_False not_True_eq_False)
    ultimately show ?thesis by simp
  qed
qed

lemma mermaidAllInSubtree_eq:
  "tree_ok d \<Longrightarrow> mermaidAllInSubtree ps r d = Some (\<forall>p \<in> set ps. (p, r) \<in> (parent_rel d)\<^sup>*)"
  by (induction ps) (auto simp: mermaidIsInSubtree_eq)

lemma mermaidDepthLoop_chain:
  "chain d n c \<Longrightarrow> mermaidDepthLoop d (map_of (df_States d) n) k = Some (k + int (length c))"
proof (induction arbitrary: k rule: chain.induct)
  case (chain_root n)
  then show ?case
    by (subst mermaidDepthLoop.simps) (auto simp: parent_of_def state_of_def split: option.splits)
next
  case (chain_step n ps)
  then show ?case
    by (subst mermaidDepthLoop.simps) (auto simp: parent_of_def state_of_def split: option.splits)
qed

definition depth_of :: "Definition \<Rightarrow> string \<Rightarrow> int" where
  "depth_of d n = int (card {m. (n, m) \<in> (parent_rel d)\<^sup>+})"

lemma mermaidStateDepth_eq:
  assumes "tree_ok d"
  shows "mermaidStateDepth n d = Some (depth_of d n)"
proof -
  from chain_exists_of_acyclic [OF tree_okD(1) [OF assms]] obtain c where c: "chain d n c" by blast
  with chain_set [OF c] distinct_card [OF chain_distinct [OF c]] show ?thesis
    by (simp add: mermaidStateDepth_def mermaidDepthLoop_chain depth_of_def)
qed

lemma depth_less:
  assumes t: "tree_ok d" and m: "(m, n) \<in> (parent_rel d)\<^sup>+"
  shows "depth_of d n < depth_of d m"
proof -
  from chain_exists_of_acyclic [OF tree_okD(1) [OF t]] obtain c where "chain d m c" by blast
  from chain_set [OF this] have "finite {x. (m, x) \<in> (parent_rel d)\<^sup>+}" by (metis List.finite_set)
  moreover have "{x. (n, x) \<in> (parent_rel d)\<^sup>+} \<subset> {x. (m, x) \<in> (parent_rel d)\<^sup>+}"
    using m tree_okD(1) [OF t] by (auto simp: acyclic_def intro: trancl_trans)
  ultimately show ?thesis by (simp add: depth_of_def psubset_card_mono)
qed

section \<open>The scope is the innermost compound state around a transition\<close>

definition covers :: "Definition \<Rightarrow> string list \<Rightarrow> string set" where
  "covers d ps = {c. st_IsCompound (state_of d c) \<and> (\<forall>p \<in> set ps. (p, c) \<in> (parent_rel d)\<^sup>*)}"

definition is_scope :: "Definition \<Rightarrow> string list \<Rightarrow> string \<Rightarrow> bool" where
  "is_scope d ps r \<longleftrightarrow>
     (if ps = [] \<or> covers d ps = {} then r = []
      else r \<in> covers d ps \<and> (\<forall>c \<in> covers d ps. (r, c) \<in> (parent_rel d)\<^sup>*))"

lemma covers_known: "c \<in> covers d ps \<Longrightarrow> c \<in> fst ` set (df_States d)"
  by (auto simp: covers_def dest!: compound_known map_of_SomeD) (metis fst_conv image_eqI)

lemma mermaidScopeLoop_result:
  assumes t: "tree_ok d"
  shows "set entries \<subseteq> set (df_States d) \<Longrightarrow>
    \<exists>r. mermaidScopeLoop ps d entries best bd = Some r \<and>
      (r = best \<and> (\<forall>c \<in> covers d ps \<inter> fst ` set entries. depth_of d c \<le> bd) \<or>
       r \<in> covers d ps \<and> bd < depth_of d r \<and> (\<forall>c \<in> covers d ps \<inter> fst ` set entries. depth_of d c \<le> depth_of d r))"
proof (induction entries arbitrary: best bd)
  case (Cons entry entries)
  obtain n st where e: "entry = (n, st)" by fastforce
  with Cons.prems tree_okD(2) [OF t] have "map_of (df_States d) n = Some st" by (simp add: map_of_in_set_wf)
  then have st: "state_of d n = st" by (simp add: state_of_def)
  have n: "n \<in> covers d ps \<longleftrightarrow> st_IsCompound st \<and> (\<forall>p \<in> set ps. (p, n) \<in> (parent_rel d)\<^sup>*)"
    by (simp add: covers_def st)
  show ?case
  proof (cases "n \<in> covers d ps \<and> depth_of d n > bd")
    case True
    then have "mermaidScopeLoop ps d (entry # entries) best bd = mermaidScopeLoop ps d entries n (depth_of d n)"
      by (simp add: e n mermaidAllInSubtree_eq [OF t] mermaidStateDepth_eq [OF t])
    with Cons.IH [of n "depth_of d n"] Cons.prems True show ?thesis by (fastforce simp: e)
  next
    case False
    then have "mermaidScopeLoop ps d (entry # entries) best bd = mermaidScopeLoop ps d entries best bd"
      by (auto simp: e n mermaidAllInSubtree_eq [OF t] mermaidStateDepth_eq [OF t])
    with Cons.IH [of best bd] Cons.prems False show ?thesis by (fastforce simp: e)
  qed
qed simp

lemma covers_linear:
  assumes "tree_ok d" "ps \<noteq> []" "r \<in> covers d ps" "c \<in> covers d ps" "depth_of d c \<le> depth_of d r"
  shows "(r, c) \<in> (parent_rel d)\<^sup>*"
proof -
  from assms(2-4) obtain p where p: "(p, r) \<in> (parent_rel d)\<^sup>*" "(p, c) \<in> (parent_rel d)\<^sup>*"
    by (cases ps) (auto simp: covers_def)
  have "single_valued (parent_rel d)" by (auto simp: single_valued_def parent_rel_def)
  from single_valued_confluent [OF this p] consider "(r, c) \<in> (parent_rel d)\<^sup>*" | "(c, r) \<in> (parent_rel d)\<^sup>*" by (elim disjE)
  then show ?thesis
  proof cases
    case 2
    then have "c = r \<or> (c, r) \<in> (parent_rel d)\<^sup>+" by (auto simp: rtrancl_eq_or_trancl)
    with depth_less [OF assms(1), of c r] assms(5) show ?thesis by auto
  qed
qed

lemma mermaidTransitionScope_is_scope:
  assumes t: "tree_ok d"
  shows "\<exists>r. mermaidTransitionScope tr d = Some r \<and> is_scope d (mermaidParticipants tr) r"
proof (cases "mermaidParticipants tr = []")
  case True
  then show ?thesis by (simp add: mermaidTransitionScope_def is_scope_def)
next
  case False
  let ?ps = "mermaidParticipants tr"
  have all: "covers d ?ps \<inter> fst ` set (df_States d) = covers d ?ps" using covers_known by auto
  from mermaidScopeLoop_result [OF t, of "df_States d" ?ps "[]" "- 1"] all
  obtain r where r: "mermaidScopeLoop ?ps d (df_States d) [] (- 1) = Some r"
    and c: "r = [] \<and> (\<forall>c \<in> covers d ?ps. depth_of d c \<le> - 1) \<or>
      r \<in> covers d ?ps \<and> (\<forall>c \<in> covers d ?ps. depth_of d c \<le> depth_of d r)" by auto
  have none: "\<not> depth_of d c \<le> - 1" for c unfolding depth_of_def by linarith
  have "is_scope d ?ps r"
    using c none covers_linear [OF t False] False by (auto simp: is_scope_def)
  with r False show ?thesis by (simp add: mermaidTransitionScope_def)
qed

lemma is_scope_unique:
  assumes "tree_ok d" "is_scope d ps r" "is_scope d ps r'"
  shows "r = r'"
proof -
  have "antisym ((parent_rel d)\<^sup>*)" by (rule acyclic_impl_antisym_rtrancl [OF tree_okD(1) [OF assms(1)]])
  with assms(2,3) show ?thesis by (auto simp: is_scope_def antisym_def split: if_splits)
qed

definition scope_of :: "Definition \<Rightarrow> TransitionDef \<Rightarrow> string" where
  "scope_of d tr = (case mermaidTransitionScope tr d of Some r \<Rightarrow> r | None \<Rightarrow> [])"

lemma mermaidTransitionScope_eq:
  assumes "tree_ok d"
  shows "mermaidTransitionScope tr d = Some (scope_of d tr)" "is_scope d (mermaidParticipants tr) (scope_of d tr)"
  using mermaidTransitionScope_is_scope [OF assms, of tr] by (auto simp: scope_of_def)

section \<open>Every transition is drawn once\<close>

lemma mermaidPartition_result:
  assumes t: "tree_ok d"
  shows "\<exists>cts. mermaidPartition d trs cts0 outer = Some (cts, outer @ filter (\<lambda>tr. scope_of d tr = []) trs) \<and>
    (\<forall>n. n \<noteq> [] \<longrightarrow> scoped cts n = scoped cts0 n @ filter (\<lambda>tr. scope_of d tr = n) trs)"
proof (induction trs arbitrary: cts0 outer)
  case (Cons tr trs)
  show ?case
  proof (cases "scope_of d tr = []")
    case True
    with Cons [of cts0 "outer @ [tr]"] show ?thesis by (auto simp: mermaidTransitionScope_eq [OF t])
  next
    case False
    with Cons [of "mput (scope_of d tr) (scoped cts0 (scope_of d tr) @ [tr]) cts0" outer] show ?thesis
      by (auto simp: mermaidTransitionScope_eq [OF t] scoped_def)
  qed
qed simp

definition block_text :: "Definition \<Rightarrow> TransitionDef list \<Rightarrow> string \<Rightarrow> nat \<Rightarrow> string \<Rightarrow> string" where
  "block_text d trs name depth blocks =
     (let indent = concat (replicate depth ''    ''); st = state_of d name in
      indent @ ''state '' @ name @ '' {'' @ newline @
      (if st_InitialChild st \<noteq> [] then indent @ ''    [*] --> '' @ st_InitialChild st @ newline else []) @
      blocks @ concat (map (transitionLines indent) trs) @ indent @ ''}'' @ newline)"

abbreviation compound_children :: "Definition \<Rightarrow> string \<Rightarrow> string list" where
  "compound_children d name \<equiv> filter (\<lambda>child. st_IsCompound (state_of d child)) (sort (st_Children (state_of d name)))"

lemma mermaidCompoundBlock_eq:
  "mermaidCompoundBlock d cts n k =
     Option.bind (writeM (\<lambda>child. mermaidCompoundBlock d cts child (k + 1)) (compound_children d n))
       (\<lambda>blocks. Some (block_text d (scoped cts n) n k blocks))"
  by (subst mermaidCompoundBlock.simps) (simp only: block_text_def Let_def)

lemma child_below:
  assumes "tree_ok d" "st_IsCompound (state_of d n)" "c \<in> set (st_Children (state_of d n))"
  shows "(c, n) \<in> parent_rel d"
  using assms(3) tree_okD(4) [OF assms(1) compound_named [OF tree_okD(3) [OF assms(1)] assms(2)]]
    compound_named [OF tree_okD(3) [OF assms(1)] assms(2)] by (auto simp: parent_rel_def)

lemma mermaidCompoundBlock_returns:
  assumes t: "tree_ok d"
  shows "st_IsCompound (state_of d n) \<Longrightarrow> \<exists>text. mermaidCompoundBlock d cts n k = Some text"
  using tree_okD(6) [OF t]
proof (induction n arbitrary: k rule: wf_induct_rule)
  case (less n)
  have "mermaidCompoundBlock d cts c (k + 1) = Some (the (mermaidCompoundBlock d cts c (k + 1)))"
    if "c \<in> set (compound_children d n)" for c
    using that less.IH [OF child_below [OF t less.prems], of c "k + 1"] by auto
  then have "writeM (\<lambda>c. mermaidCompoundBlock d cts c (k + 1)) (compound_children d n) =
      Some (concat (map (\<lambda>c. the (mermaidCompoundBlock d cts c (k + 1))) (compound_children d n)))"
    by (rule writeM_Some)
  then show ?case by (subst mermaidCompoundBlock_eq) simp
qed

definition block :: "Definition \<Rightarrow> (string, TransitionDef list) gomap \<Rightarrow> string \<Rightarrow> nat \<Rightarrow> string" where
  "block d cts n k = the (mermaidCompoundBlock d cts n k)"

lemma block_eq:
  assumes t: "tree_ok d" and n: "st_IsCompound (state_of d n)"
  shows "mermaidCompoundBlock d cts n k = Some (block d cts n k)"
    "block d cts n k = block_text d (scoped cts n) n k (concat (map (\<lambda>c. block d cts c (k + 1)) (compound_children d n)))"
proof -
  from mermaidCompoundBlock_returns [OF t n] show b: "mermaidCompoundBlock d cts n k = Some (block d cts n k)" 
    by (auto simp: block_def)
  have "writeM (\<lambda>c. mermaidCompoundBlock d cts c (k + 1)) (compound_children d n) =
      Some (concat (map (\<lambda>c. block d cts c (k + 1)) (compound_children d n)))"
    by (rule writeM_Some) (use mermaidCompoundBlock_returns [OF t] in \<open>auto simp: block_def\<close>)
  then show "block d cts n k = block_text d (scoped cts n) n k (concat (map (\<lambda>c. block d cts c (k + 1)) (compound_children d n)))"
    using b by (subst (asm) mermaidCompoundBlock_eq) simp
qed

abbreviation sorted_transitions :: "Definition \<Rightarrow> TransitionDef list" where
  "sorted_transitions d \<equiv> concat (map (transition_of d) (sort (mkeys (df_Transitions d))))"

abbreviation root_compounds :: "Definition \<Rightarrow> string list" where
  "root_compounds d \<equiv> filter (\<lambda>name. st_IsCompound (state_of d name)) (mermaidRootStateNames d)"

lemma Mermaid_text:
  assumes t: "tree_ok d"
  obtains cts where "\<And>n. n \<noteq> [] \<Longrightarrow> scoped cts n = filter (\<lambda>tr. scope_of d tr = n) (sorted_transitions d)"
    "Mermaid d = Some (
       ''stateDiagram-v2'' @ newline @ ''    [*] --> '' @ df_InitialState d @ newline @
       concat (map (\<lambda>n. block d cts n 1) (root_compounds d)) @
       concat (map (transitionLines []) (filter (\<lambda>tr. scope_of d tr = []) (sorted_transitions d))) @
       concat (map (\<lambda>ts. ''    '' @ ts @ '' --> [*]'' @ newline) (sort (df_TerminalStates d))))"
proof -
  from mermaidPartition_result [OF t, of "sorted_transitions d" "[]" "[]"] obtain cts where
    p: "mermaidPartition d (sorted_transitions d) [] [] = Some (cts, filter (\<lambda>tr. scope_of d tr = []) (sorted_transitions d))"
    and s: "\<And>n. n \<noteq> [] \<Longrightarrow> scoped cts n = filter (\<lambda>tr. scope_of d tr = n) (sorted_transitions d)"
    by (auto simp: scoped_def)
  have "writeM (\<lambda>name. mermaidCompoundBlock d cts name 1) (root_compounds d) =
      Some (concat (map (\<lambda>n. block d cts n 1) (root_compounds d)))"
    by (rule writeM_Some) (use block_eq(1) [OF t] in auto)
  with p s show thesis by (intro that) (simp_all add: Mermaid_def)
qed

definition contains :: "string \<Rightarrow> string \<Rightarrow> bool" where
  "contains part text \<longleftrightarrow> (\<exists>before after. text = before @ part @ after)"

lemma contains_trans: "contains a b \<Longrightarrow> contains b c \<Longrightarrow> contains a c"
  unfolding contains_def by (metis append.assoc)

lemma contains_concat: "x \<in> set xs \<Longrightarrow> contains (f x) (concat (map f xs))"
  unfolding contains_def by (auto dest!: split_list simp del: append_assoc) (metis append_assoc)

lemma contains_append: "contains a b \<Longrightarrow> contains a (b @ c)" "contains a b \<Longrightarrow> contains a (c @ b)"
  unfolding contains_def by (metis append.assoc)+

lemma contains_block_text:
  assumes "contains a blocks"
  shows "contains a (block_text d trs n k blocks)"
  unfolding block_text_def Let_def
  by (rule contains_append(2), rule contains_append(2), rule contains_append(2), rule contains_append(2),
      rule contains_append(2), rule contains_append(2), rule contains_append(1), rule assms)

lemma contains_block_lines:
  assumes "tr \<in> set trs"
  shows "contains (transitionLines (concat (replicate k ''    '')) tr) (block_text d trs n k blocks)"
  unfolding block_text_def Let_def
  by (rule contains_append(2), rule contains_append(2), rule contains_append(2), rule contains_append(2),
      rule contains_append(2), rule contains_append(2), rule contains_append(2), rule contains_append(1),
      rule contains_concat [OF assms])

lemma contains_block_up:
  assumes t: "tree_ok d" and n: "st_IsCompound (state_of d n)" and p: "parent_of d n \<noteq> []"
  shows "contains (block d cts n (k + 1)) (block d cts (parent_of d n) k)"
proof -
  note c = tree_okD(5) [OF t p]
  from tree_okD(4) [OF t p, of n] n have "n \<in> set (compound_children d (parent_of d n))" by simp
  from contains_concat [OF this, of "\<lambda>c. block d cts c (k + 1)"] show ?thesis
    unfolding block_eq(2) [OF t c] by (rule contains_block_text)
qed

lemma contains_root_block:
  assumes t: "tree_ok d" and n: "st_IsCompound (state_of d n)"
  shows "\<exists>k. contains (block d cts n k) (concat (map (\<lambda>n. block d cts n 1) (root_compounds d)))"
proof -
  from chain_exists_of_acyclic [OF tree_okD(1) [OF t]] obtain c where c: "chain d n c" by blast
  have "\<exists>root k. root \<in> set (root_compounds d) \<and> contains (block d cts n k) (block d cts root 1)"
    using c n
  proof (induction rule: chain.induct)
    case (chain_root n)
    from map_of_SomeD [OF compound_known [OF chain_root.prems]] chain_root.hyps
    have "(n, state_of d n) \<in> set (filter (\<lambda>(name, st). st_Parent st = []) (df_States d))" by (simp add: parent_of_def)
    from imageI [OF this, of fst] have "n \<in> set (mermaidRootStateNames d)"
      unfolding mermaidRootStateNames_def set_sort set_map by (simp only: fst_conv)
    with chain_root.prems show ?case
      by (intro exI [of _ n] exI [of _ 1]) (auto simp: contains_def intro: exI [of _ "[]"])
  next
    case (chain_step n ps)
    from chain_step.IH [OF tree_okD(5) [OF t chain_step.hyps(1)]] obtain root k where
      r: "root \<in> set (root_compounds d)" "contains (block d cts (parent_of d n) k) (block d cts root 1)" by blast
    from contains_trans [OF contains_block_up [OF t chain_step.prems chain_step.hyps(1)] r(2)]
    r(1) show ?case by blast
  qed
  then obtain root k where "root \<in> set (root_compounds d)" "contains (block d cts n k) (block d cts root 1)" by blast
  with contains_trans contains_concat [of root "root_compounds d" "\<lambda>n. block d cts n 1"] show ?thesis by blast
qed

lemma sorted_transitions_iff:
  assumes "map_of (df_Transitions d) name = Some tr"
  shows "tr \<in> set (sorted_transitions d)"
  using assms map_of_SomeD [OF assms] by (force simp: transition_of_def)

lemma Mermaid_contains:
  assumes t: "tree_ok d"
  obtains out where "Mermaid d = Some out"
    "\<And>name tr. map_of (df_Transitions d) name = Some tr \<Longrightarrow> \<exists>k. contains (transitionLines (concat (replicate k ''    '')) tr) out"
proof -
  from Mermaid_text [OF t] obtain cts where
    s: "\<And>n. n \<noteq> [] \<Longrightarrow> scoped cts n = filter (\<lambda>tr. scope_of d tr = n) (sorted_transitions d)"
    and m: "Mermaid d = Some (
       ''stateDiagram-v2'' @ newline @ ''    [*] --> '' @ df_InitialState d @ newline @
       concat (map (\<lambda>n. block d cts n 1) (root_compounds d)) @
       concat (map (transitionLines []) (filter (\<lambda>tr. scope_of d tr = []) (sorted_transitions d))) @
       concat (map (\<lambda>ts. ''    '' @ ts @ '' --> [*]'' @ newline) (sort (df_TerminalStates d))))" (is "_ = Some (?a @ ?b @ ?c @ ?d @ ?e @ ?blocks @ ?top @ ?end)")
    by metis
  have "\<exists>k. contains (transitionLines (concat (replicate k ''    '')) tr) (?blocks @ ?top @ ?end)"
    if tr: "map_of (df_Transitions d) name = Some tr" for name tr
  proof (cases "scope_of d tr = []")
    case True
    with sorted_transitions_iff [OF tr] have "tr \<in> set (filter (\<lambda>tr. scope_of d tr = []) (sorted_transitions d))" by simp
    from contains_append(2) [OF contains_append(1) [OF contains_concat [OF this]]] show ?thesis
      by (intro exI [of _ 0]) simp
  next
    case False
    from mermaidTransitionScope_eq(2) [OF t] False have c: "st_IsCompound (state_of d (scope_of d tr))"
      by (force simp: is_scope_def covers_def split: if_splits)
    from contains_root_block [OF t c, of cts] obtain k where
      k: "contains (block d cts (scope_of d tr) k) ?blocks" by blast
    have "tr \<in> set (scoped cts (scope_of d tr))" using s [OF False] sorted_transitions_iff [OF tr] by simp
    from contains_block_lines [OF this] have "contains (transitionLines (concat (replicate k ''    '')) tr) (block d cts (scope_of d tr) k)"
      unfolding block_eq(2) [OF t c] .
    from contains_append(1) [OF contains_trans [OF this k]] show ?thesis by blast
  qed
  note lines = this
  show thesis
  proof (rule that [OF m])
    fix name tr
    assume "map_of (df_Transitions d) name = Some tr"
    from lines [OF this] obtain k where
      k: "contains (transitionLines (concat (replicate k ''    '')) tr) (?blocks @ ?top @ ?end)" by (elim exE)
    show "\<exists>k. contains (transitionLines (concat (replicate k ''    '')) tr)
        (?a @ ?b @ ?c @ ?d @ ?e @ ?blocks @ ?top @ ?end)"
      by (rule exI [of _ k], rule contains_append(2), rule contains_append(2), rule contains_append(2),
          rule contains_append(2), rule contains_append(2), rule k)
  qed
qed

section \<open>Equal content, equal diagram\<close>

lemma same_contentD:
  assumes "same_content d e"
  shows "st_Parent (state_of d n) = st_Parent (state_of e n)" "st_IsCompound (state_of d n) = st_IsCompound (state_of e n)"
    "st_InitialChild (state_of d n) = st_InitialChild (state_of e n)"
    "sort (st_Children (state_of d n)) = sort (st_Children (state_of e n))"
    "set (st_Children (state_of d n)) = set (st_Children (state_of e n))"
    "mset (mkeys (df_States d)) = mset (mkeys (df_States e))" "df_InitialState d = df_InitialState e"
    "sort (df_TerminalStates d) = sort (df_TerminalStates e)"
    "sort (mkeys (df_Transitions d)) = sort (mkeys (df_Transitions e))"
    "map_option norm_transition (map_of (df_Transitions d) m) = map_option norm_transition (map_of (df_Transitions e) m)"
proof -
  from assms have s: "(state_of d n)\<lparr>st_Children := sort (st_Children (state_of d n))\<rparr> =
      (state_of e n)\<lparr>st_Children := sort (st_Children (state_of e n))\<rparr>" by (simp only: same_content_def)
  from arg_cong [OF s, of st_Parent] arg_cong [OF s, of st_IsCompound] arg_cong [OF s, of st_InitialChild]
    arg_cong [OF s, of st_Children]
  show "st_Parent (state_of d n) = st_Parent (state_of e n)" "st_IsCompound (state_of d n) = st_IsCompound (state_of e n)"
    "st_InitialChild (state_of d n) = st_InitialChild (state_of e n)"
    and c: "sort (st_Children (state_of d n)) = sort (st_Children (state_of e n))" by simp_all
  from arg_cong [OF c, of set] show "set (st_Children (state_of d n)) = set (st_Children (state_of e n))" by simp
  show "mset (mkeys (df_States d)) = mset (mkeys (df_States e))" "df_InitialState d = df_InitialState e"
    "map_option norm_transition (map_of (df_Transitions d) m) = map_option norm_transition (map_of (df_Transitions e) m)"
    using assms by (simp_all only: same_content_def)
  show "sort (df_TerminalStates d) = sort (df_TerminalStates e)"
    by (rule sort_eq_of_mset) (use assms in \<open>simp only: same_content_def\<close>)
  show "sort (mkeys (df_Transitions d)) = sort (mkeys (df_Transitions e))"
    by (rule sort_eq_of_mset) (use assms in \<open>simp only: same_content_def\<close>)
qed

lemma same_content_parent_rel: "same_content d e \<Longrightarrow> parent_rel d = parent_rel e"
  by (simp add: parent_rel_def parent_of_def same_contentD(1))

lemma same_content_tree:
  assumes s: "same_content d e" and t: "tree_ok d"
  shows "tree_ok e"
proof -
  have "distinct (mkeys (df_States e))"
    using tree_okD(2) [OF t] same_contentD(6) [OF s] mset_eq_imp_distinct_iff unfolding wf_map_def by blast
  moreover have "parent_of d n = parent_of e n" for n by (simp add: parent_of_def same_contentD(1) [OF s])
  ultimately show ?thesis
    using t same_content_parent_rel [OF s]
    by (simp add: tree_ok_def wf_map_def named_compounds_def same_contentD(2,5) [OF s])
qed

lemma norm_transition_eq:
  assumes "norm_transition tr = norm_transition tr'"
  shows "transitionLines i tr = transitionLines i tr'" "set (mermaidParticipants tr) = set (mermaidParticipants tr')"
proof -
  from arg_cong [OF assms, of tr_Sources] have s: "sort (tr_Sources tr) = sort (tr_Sources tr')"
    by (simp add: norm_transition_def)
  then have st: "set (tr_Sources tr) = set (tr_Sources tr')" by (metis set_sort)
  from arg_cong [OF assms, of tr_Target] arg_cong [OF assms, of tr_Routes] arg_cong [OF assms, of tr_Name]
    arg_cong [OF assms, of tr_HistoryMode]
  have q: "tr_Target tr = tr_Target tr'" "tr_Routes tr = tr_Routes tr'" "tr_Name tr = tr_Name tr'"
    "tr_HistoryMode tr = tr_HistoryMode tr'" by (simp_all add: norm_transition_def)
  show "transitionLines i tr = transitionLines i tr'"
    unfolding transitionLines_def mermaidTransitionLabel_def s q by (rule refl)
  show "set (mermaidParticipants tr) = set (mermaidParticipants tr')"
    by (simp add: mermaidParticipants_def q st)
qed

lemma scope_same:
  assumes s: "same_content d e" and t: "tree_ok d" and tr: "norm_transition tr = norm_transition tr'"
  shows "scope_of d tr = scope_of e tr'"
proof -
  note ps = norm_transition_eq(2) [OF tr]
  then have "mermaidParticipants tr = [] \<longleftrightarrow> mermaidParticipants tr' = []" by (metis set_empty)
  moreover have "covers d (mermaidParticipants tr) = covers e (mermaidParticipants tr')"
    by (simp add: covers_def ps same_content_parent_rel [OF s] same_contentD(2) [OF s])
  ultimately have "is_scope d (mermaidParticipants tr) r = is_scope e (mermaidParticipants tr') r" for r
    by (simp add: is_scope_def same_content_parent_rel [OF s])
  with mermaidTransitionScope_eq(2) [OF t, of tr] have "is_scope e (mermaidParticipants tr') (scope_of d tr)" by simp
  with mermaidTransitionScope_eq(2) [OF same_content_tree [OF s t], of tr'] is_scope_unique [OF same_content_tree [OF s t]]
  show ?thesis by blast
qed

lemma scoped_lines_same:
  assumes s: "same_content d e" and t: "tree_ok d"
  shows "concat (map (transitionLines i) (filter (\<lambda>tr. scope_of d tr = n) (sorted_transitions d))) =
    concat (map (transitionLines i) (filter (\<lambda>tr. scope_of e tr = n) (sorted_transitions e)))"
proof -
  have f: "concat (map (transitionLines i) (filter P (concat (map g names)))) =
      concat (map (\<lambda>m. concat (map (transitionLines i) (filter P (g m)))) names)" for P g and names :: "string list"
    by (induction names) auto
  have "concat (map (transitionLines i) (filter (\<lambda>tr. scope_of d tr = n) (transition_of d m))) =
      concat (map (transitionLines i) (filter (\<lambda>tr. scope_of e tr = n) (transition_of e m)))" for m
  proof (cases "map_of (df_Transitions d) m")
    case None
    with same_contentD(10) [OF s, of m] show ?thesis by (simp add: transition_of_def)
  next
    case (Some tr)
    with same_contentD(10) [OF s, of m] obtain tr' where tr': "map_of (df_Transitions e) m = Some tr'"
      "norm_transition tr = norm_transition tr'" by (cases "map_of (df_Transitions e) m") simp_all
    with Some scope_same [OF s t tr'(2)] norm_transition_eq(1) [OF tr'(2)] show ?thesis by (simp add: transition_of_def)
  qed
  then show ?thesis unfolding f same_contentD(9) [OF s] by simp
qed

lemma block_same:
  assumes s: "same_content d e" and t: "tree_ok d"
    and c: "\<And>n. n \<noteq> [] \<Longrightarrow> scoped cts n = filter (\<lambda>tr. scope_of d tr = n) (sorted_transitions d)"
    and c': "\<And>n. n \<noteq> [] \<Longrightarrow> scoped cts' n = filter (\<lambda>tr. scope_of e tr = n) (sorted_transitions e)"
  shows "st_IsCompound (state_of d n) \<Longrightarrow> block d cts n k = block e cts' n k"
  using tree_okD(6) [OF t]
proof (induction n arbitrary: k rule: wf_induct_rule)
  case (less n)
  note n = compound_named [OF tree_okD(3) [OF t] less.prems]
  have "map (\<lambda>c. block d cts c (k + 1)) (compound_children d n) = map (\<lambda>c. block e cts' c (k + 1)) (compound_children d n)"
    using less.IH [OF child_below [OF t less.prems]] by simp
  moreover have "block_text d (scoped cts n) n k bs = block_text e (scoped cts' n) n k bs" for bs
    unfolding block_text_def Let_def c [OF n] c' [OF n] scoped_lines_same [OF s t] by (simp add: same_contentD(3) [OF s])
  ultimately show ?case
    using less.prems unfolding block_eq(2) [OF t less.prems]
    by (subst block_eq(2) [OF same_content_tree [OF s t]]) (simp_all only: same_contentD(2,4) [OF s])
qed

lemma roots_same:
  assumes s: "same_content d e" and t: "tree_ok d"
  shows "mermaidRootStateNames d = mermaidRootStateNames e"
proof -
  have r: "map fst (filter (\<lambda>(n, st). st_Parent st = []) (df_States x)) =
      filter (\<lambda>n. parent_of x n = []) (mkeys (df_States x))" if "wf_map (df_States x)" for x
  proof -
    have "filter (\<lambda>(n, st). st_Parent st = []) (df_States x) =
        filter (\<lambda>p. parent_of x (fst p) = []) (df_States x)"
      by (rule filter_cong) (auto simp: parent_of_def state_of_def map_of_in_set_wf [OF that])
    then show ?thesis by (simp add: filter_map o_def)
  qed
  have "parent_of d n = parent_of e n" for n by (simp add: parent_of_def same_contentD(1) [OF s])
  note par = this
  show ?thesis
    unfolding mermaidRootStateNames_def r [OF tree_okD(2) [OF t]] r [OF tree_okD(2) [OF same_content_tree [OF s t]]]
    by (rule sort_eq_of_mset) (simp only: mset_filter same_contentD(6) [OF s] par)
qed

section \<open>Properties of the renderer\<close>

text \<open>
  A transition is drawn in the innermost compound state around it. The scope that
  \<open>mermaidTransitionScope\<close> returns is a compound state whose subtree contains every source and
  every target of the transition and which lies below every other such state; it is the top level
  exactly when there is no such state. The search returns on every tree of states.
\<close>

lemma mermaidTransitionScope_correct:
  assumes "tree_ok d"
  shows "\<exists>scope. mermaidTransitionScope tr d = Some scope \<and>
    (if mermaidParticipants tr = [] \<or> covers d (mermaidParticipants tr) = {} then scope = []
     else scope \<in> covers d (mermaidParticipants tr) \<and>
       (\<forall>c \<in> covers d (mermaidParticipants tr). (scope, c) \<in> (parent_rel d)\<^sup>*))"
  using mermaidTransitionScope_is_scope [OF assms, of tr] unfolding is_scope_def .

lemma tree_ok_check:
  assumes "acyclic (parent_rel d)" and w: "wf_map (df_States d)" and "named_compounds d"
    and c: "\<forall>(n, st) \<in> set (df_States d). \<forall>c \<in> set (st_Children st). parent_of d c = n"
    and p: "\<forall>(c, st) \<in> set (df_States d). st_Parent st \<noteq> [] \<longrightarrow>
      c \<in> set (st_Children (state_of d (st_Parent st))) \<and> st_IsCompound (state_of d (st_Parent st))"
  shows "tree_ok d"
proof -
  have "parent_of d x = n" if "x \<in> set (st_Children (state_of d n))" for n x
  proof (cases "map_of (df_States d) n")
    case (Some st)
    with c map_of_SomeD [OF Some] that show ?thesis by (auto simp: state_of_def)
  qed (use that in \<open>simp add: state_of_def\<close>)
  moreover have "x \<in> set (st_Children (state_of d (parent_of d x))) \<and> st_IsCompound (state_of d (parent_of d x))"
    if "parent_of d x \<noteq> []" for x
  proof (cases "map_of (df_States d) x")
    case (Some st)
    with p map_of_SomeD [OF Some] that show ?thesis by (auto simp: parent_of_def state_of_def [of d x])
  qed (use that in \<open>simp add: parent_of_def state_of_def\<close>)
  ultimately show ?thesis using assms(1-3) unfolding tree_ok_def by blast
qed

lemma order_tree: "tree_ok order_def"
  by (rule tree_ok_check [OF order_acyclic order_links(3,2)]) code_simp+

lemma mermaidTransitionScope_correct_witness:
  "\<exists>scope. mermaidTransitionScope (s_edge ''print'' [''PRINT''] ''PRINTED'') order_def = Some scope \<and>
     st_IsCompound (state_of order_def scope) \<and> (scope, ''LABEL'') \<in> (parent_rel order_def)\<^sup>*"
proof -
  let ?ps = "mermaidParticipants (s_edge ''print'' [''PRINT''] ''PRINTED'')"
  have ps: "?ps = [''PRINT'', ''PRINTED'']" by (simp add: mermaidParticipants_def s_edge_def)
  have "parent_of order_def ''PRINT'' = ''LABEL''" "parent_of order_def ''PRINTED'' = ''LABEL''"
    "st_IsCompound (state_of order_def ''LABEL'')" by code_simp+
  then have "''LABEL'' \<in> covers order_def ?ps" unfolding ps covers_def by (auto simp: parent_rel_def)
  with mermaidTransitionScope_correct [OF order_tree, of "s_edge ''print'' [''PRINT''] ''PRINTED''"] ps show ?thesis
    by (auto simp: covers_def split: if_splits)
qed

lemma contains_arrow:
  assumes "src \<in> set (tr_Sources tr)" "target \<noteq> []"
    "target = tr_Target tr \<or> tr_Target tr = [] \<and> (\<exists>route \<in> set (tr_Routes tr). target = rt_Target route)"
  shows "contains (''    '' @ src @ '' --> '' @ target @ '' : '' @ mermaidTransitionLabel tr @ newline) (transitionLines indent tr)"
proof -
  let ?label = "mermaidTransitionLabel tr"
  let ?line = "\<lambda>src. if tr_Target tr \<noteq> [] then arrow indent src (tr_Target tr) ?label
        else concat (map (\<lambda>route. if rt_Target route = [] then [] else arrow indent src (rt_Target route) ?label) (tr_Routes tr))"
  have self: "contains x x" for x by (auto simp: contains_def intro: exI [of _ "[]"])
  have "contains (arrow indent src target ?label) (?line src)"
  proof (cases "tr_Target tr = []")
    case True
    with assms(2,3) obtain route where r: "route \<in> set (tr_Routes tr)" "rt_Target route = target" by auto
    from contains_concat [OF r(1), of "\<lambda>route. if rt_Target route = [] then [] else arrow indent src (rt_Target route) ?label"]
    show ?thesis using True r(2) assms(2) by simp
  qed (use assms(3) self in auto)
  moreover have "contains (''    '' @ src @ '' --> '' @ target @ '' : '' @ ?label @ newline) (arrow indent src target ?label)"
    unfolding arrow_def by (rule contains_append(2) [OF self])
  moreover have "contains (?line src) (transitionLines indent tr)"
    unfolding transitionLines_def Let_def by (rule contains_concat) (use assms(1) in simp)
  ultimately show ?thesis by (blast intro: contains_trans)
qed

text \<open>
  C35. The renderer returns on every tree of states and no transition is lost: for each transition of
  the definition and each of its sources the diagram has a line with an arrow from the source to the
  target, or to the target of each route when there is no direct target, labelled with the name of the
  transition and, for a history transition, the mark \<open>[H]\<close> or \<open>[H*]\<close>.
\<close>

theorem Mermaid_draws_transitions:
  assumes "tree_ok d"
  shows "\<exists>out. Mermaid d = Some out \<and>
    (\<forall>name tr src target. map_of (df_Transitions d) name = Some tr \<and> src \<in> set (tr_Sources tr) \<and> target \<noteq> [] \<and>
       (target = tr_Target tr \<or> tr_Target tr = [] \<and> (\<exists>route \<in> set (tr_Routes tr). target = rt_Target route)) \<longrightarrow>
       contains (''    '' @ src @ '' --> '' @ target @ '' : '' @ tr_Name tr @
         (case tr_HistoryMode tr of HistoryNone \<Rightarrow> [] | HistoryShallow \<Rightarrow> '' [H]'' | HistoryDeep \<Rightarrow> '' [H*]'') @ newline) out)"
proof -
  from Mermaid_contains [OF assms] obtain out where out: "Mermaid d = Some out"
    "\<And>name tr. map_of (df_Transitions d) name = Some tr \<Longrightarrow> \<exists>k. contains (transitionLines (concat (replicate k ''    '')) tr) out"
    by metis
  have label: "mermaidTransitionLabel tr @ newline = tr_Name tr @
      (case tr_HistoryMode tr of HistoryNone \<Rightarrow> [] | HistoryShallow \<Rightarrow> '' [H]'' | HistoryDeep \<Rightarrow> '' [H*]'') @ newline" for tr
    by (simp add: mermaidTransitionLabel_def split: HistoryMode.splits)
  show ?thesis
  proof (intro exI [of _ out] conjI out(1) allI impI, elim conjE)
    fix name tr src target
    assume tr: "map_of (df_Transitions d) name = Some tr"
      and h: "src \<in> set (tr_Sources tr)" "target \<noteq> []"
        "target = tr_Target tr \<or> tr_Target tr = [] \<and> (\<exists>route \<in> set (tr_Routes tr). target = rt_Target route)"
    from out(2) [OF tr] obtain k where "contains (transitionLines (concat (replicate k ''    '')) tr) out" by blast
    from contains_trans [OF contains_arrow [OF h] this]
    show "contains (''    '' @ src @ '' --> '' @ target @ '' : '' @ tr_Name tr @
         (case tr_HistoryMode tr of HistoryNone \<Rightarrow> [] | HistoryShallow \<Rightarrow> '' [H]'' | HistoryDeep \<Rightarrow> '' [H*]'') @ newline) out"
      unfolding label .
  qed
qed

theorem Mermaid_draws_transitions_witness:
  "\<exists>out. Mermaid order_def = Some out \<and> contains (''    PRINT --> PRINTED : print'' @ newline) out"
proof -
  let ?tr = "s_edge ''print'' [''PRINT''] ''PRINTED''"
  have m: "map_of (df_Transitions order_def) ''print'' = Some ?tr"
    by (simp add: order_def_def order_transitions_def)
  from Mermaid_draws_transitions [OF order_tree] obtain out where "Mermaid order_def = Some out"
    "\<forall>name tr src target. map_of (df_Transitions order_def) name = Some tr \<and> src \<in> set (tr_Sources tr) \<and> target \<noteq> [] \<and>
       (target = tr_Target tr \<or> tr_Target tr = [] \<and> (\<exists>route \<in> set (tr_Routes tr). target = rt_Target route)) \<longrightarrow>
       contains (''    '' @ src @ '' --> '' @ target @ '' : '' @ tr_Name tr @
         (case tr_HistoryMode tr of HistoryNone \<Rightarrow> [] | HistoryShallow \<Rightarrow> '' [H]'' | HistoryDeep \<Rightarrow> '' [H*]'') @ newline) out" by blast
  note out = this
  from out(2) [rule_format, of "''print''" ?tr "''PRINT''" "''PRINTED''"] m
  have "contains (''    '' @ ''PRINT'' @ '' --> '' @ ''PRINTED'' @ '' : '' @ ''print'' @ [] @ newline) out"
    by (simp add: s_edge_def)
  with out(1) show ?thesis by (intro exI [of _ out]) simp
qed

text \<open>
  C38. The diagram of a tree of states is deterministic: two definitions with the same content, whatever
  the iteration order of their maps and the order in which children, sources and terminal states are
  listed, are rendered to the same text.
\<close>

theorem Mermaid_deterministic:
  assumes "same_content d e" "tree_ok d"
  shows "Mermaid d = Mermaid e"
proof -
  note t = assms(2) and t' = same_content_tree [OF assms]
  from Mermaid_text [OF t] obtain cts where
    c: "\<And>n. n \<noteq> [] \<Longrightarrow> scoped cts n = filter (\<lambda>tr. scope_of d tr = n) (sorted_transitions d)"
    and m: "Mermaid d = Some (''stateDiagram-v2'' @ newline @ ''    [*] --> '' @ df_InitialState d @ newline @
       concat (map (\<lambda>n. block d cts n 1) (root_compounds d)) @
       concat (map (transitionLines []) (filter (\<lambda>tr. scope_of d tr = []) (sorted_transitions d))) @
       concat (map (\<lambda>ts. ''    '' @ ts @ '' --> [*]'' @ newline) (sort (df_TerminalStates d))))" by metis
  from Mermaid_text [OF t'] obtain cts' where
    c': "\<And>n. n \<noteq> [] \<Longrightarrow> scoped cts' n = filter (\<lambda>tr. scope_of e tr = n) (sorted_transitions e)"
    and m': "Mermaid e = Some (''stateDiagram-v2'' @ newline @ ''    [*] --> '' @ df_InitialState e @ newline @
       concat (map (\<lambda>n. block e cts' n 1) (root_compounds e)) @
       concat (map (transitionLines []) (filter (\<lambda>tr. scope_of e tr = []) (sorted_transitions e))) @
       concat (map (\<lambda>ts. ''    '' @ ts @ '' --> [*]'' @ newline) (sort (df_TerminalStates e))))" by metis
  have "root_compounds d = root_compounds e" by (simp add: roots_same [OF assms] same_contentD(2) [OF assms(1)])
  moreover have "map (\<lambda>n. block d cts n 1) (root_compounds d) = map (\<lambda>n. block e cts' n 1) (root_compounds d)"
    by (rule map_cong) (use block_same [OF assms c c'] in auto)
  ultimately show ?thesis
    unfolding m m' scoped_lines_same [OF assms] by (simp only: same_contentD(7,8) [OF assms(1)])
qed

theorem Mermaid_deterministic_witness:
  "Mermaid order_def = Mermaid (order_def\<lparr>df_States := rev order_states\<rparr>)"
proof (rule Mermaid_deterministic [OF _ order_tree])
  have "distinct (mkeys order_states)"
    using order_links(3) by (simp add: wf_map_def order_def_def)
  then have "map_of (rev order_states) = map_of order_states"
    by (intro map_of_inject_set [THEN iffD2]) (simp_all add: rev_map [symmetric])
  then show "same_content order_def (order_def\<lparr>df_States := rev order_states\<rparr>)"
    by (simp add: same_content_def order_def_def state_of_def)
qed

end
