(* ===== verification/Flow_Goroutines.thy ===== *)
theory Flow_Goroutines
  imports Flow_Memstore
begin

text \<open>
  \<open>adapters/goroutinerunner\<close>: an activity runner that starts a goroutine per invocation. The
  goroutines interleave freely; each has two visible steps, the execution of the activity and the
  recording of its error, which ends the goroutine (the deferred \<open>wg.Done\<close>). The counter of the wait
  group is the number of goroutines that have not ended.
\<close>

section \<open>The runner\<close>

datatype phase = Started | Executed "gerr option"

record 'w goroutine =
  go_activity :: "'w Activity"
  go_invocation :: ActivityInvocation
  go_phase :: phase

record 'w GoRunner =
  gr_activities :: "(string, 'w Activity) gomap"
  gr_goroutines :: "'w goroutine list"
  gr_errors :: "gerr list"

definition NewGoRunner :: "'w GoRunner" where
  "NewGoRunner = \<lparr>gr_activities = [], gr_goroutines = [], gr_errors = []\<rparr>"

definition GoRunner_Register :: "'w Activity \<Rightarrow> 'w GoRunner \<Rightarrow> 'w GoRunner" where
  "GoRunner_Register activity r = r\<lparr>gr_activities := mput (ac_Name activity) activity (gr_activities r)\<rparr>"

definition GoRunner_Dispatch :: "ActivityInvocation \<Rightarrow> 'w GoRunner \<Rightarrow> gerr option \<times> 'w GoRunner" where
  "GoRunner_Dispatch invocation r =
     (case map_of (gr_activities r) (ai_ActivityName invocation) of
        None \<Rightarrow> (Some (Errorf ''goroutinerunner: activity %q not registered''
                   (qs [ai_ActivityName invocation]) None), r)
      | Some activity \<Rightarrow>
          (None, r\<lparr>gr_goroutines := gr_goroutines r @
                    [\<lparr>go_activity = activity, go_invocation = invocation, go_phase = Started\<rparr>]\<rparr>))"

text \<open>\<open>Wait\<close> blocks until the predicate holds; \<open>Errors\<close> returns a copy.\<close>

definition GoRunner_Wait :: "'w GoRunner \<Rightarrow> bool" where
  "GoRunner_Wait r \<longleftrightarrow> gr_goroutines r = []"

definition GoRunner_Errors :: "'w GoRunner \<Rightarrow> gerr list" where
  "GoRunner_Errors r = gr_errors r"

definition activityError :: "ActivityInvocation \<Rightarrow> gerr \<Rightarrow> gerr" where
  "activityError invocation err = Errorf ''activity %s: %w'' (qs [ai_ActivityName invocation]) (Some err)"

definition execute :: "'w goroutine \<Rightarrow> 'w \<Rightarrow> 'w goroutine \<times> 'w" where
  "execute g w =
     (case run_state (ac_Execute (go_activity g) (ai_Input (go_invocation g))) w of
        (Inl err, w') \<Rightarrow> (g\<lparr>go_phase := Executed (Some err)\<rparr>, w')
      | (Inr _, w') \<Rightarrow> (g\<lparr>go_phase := Executed None\<rparr>, w'))"

definition outcome :: "'w goroutine \<Rightarrow> gerr list" where
  "outcome g = (case go_phase g of Executed (Some err) \<Rightarrow> [activityError (go_invocation g) err] | _ \<Rightarrow> [])"

definition report :: "'w goroutine \<Rightarrow> 'w GoRunner \<Rightarrow> 'w GoRunner" where
  "report g r = r\<lparr>gr_errors := gr_errors r @ outcome g\<rparr>"

section \<open>Interleavings\<close>

datatype gr_label = Dispatched ActivityInvocation | Ran ActivityInvocation "gerr option" | Silent

inductive gr_step :: "'w GoRunner \<times> 'w \<Rightarrow> gr_label \<Rightarrow> 'w GoRunner \<times> 'w \<Rightarrow> bool" where
  gr_register: "gr_step (r, w) Silent (GoRunner_Register activity r, w)"
| gr_dispatch: "GoRunner_Dispatch invocation r = (None, r') \<Longrightarrow> gr_step (r, w) (Dispatched invocation) (r', w)"
| gr_refuse: "GoRunner_Dispatch invocation r = (Some err, r') \<Longrightarrow> gr_step (r, w) Silent (r', w)"
| gr_execute: "gr_goroutines r = xs @ g # ys \<Longrightarrow> go_phase g = Started \<Longrightarrow> execute g w = (g', w') \<Longrightarrow>
     go_phase g' = Executed err \<Longrightarrow>
     gr_step (r, w) (Ran (go_invocation g) err) (r\<lparr>gr_goroutines := xs @ g' # ys\<rparr>, w')"
| gr_report: "gr_goroutines r = xs @ g # ys \<Longrightarrow> go_phase g = Executed err \<Longrightarrow>
     gr_step (r, w) Silent (report g (r\<lparr>gr_goroutines := xs @ ys\<rparr>), w)"

inductive gr_run :: "'w GoRunner \<times> 'w \<Rightarrow> gr_label list \<Rightarrow> 'w GoRunner \<times> 'w \<Rightarrow> bool" where
  gr_done: "gr_run c [] c"
| gr_next: "gr_run c ls c' \<Longrightarrow> gr_step c' l c'' \<Longrightarrow> gr_run c (ls @ [l]) c''"

definition dispatched :: "gr_label \<Rightarrow> ActivityInvocation list" where
  "dispatched l = (case l of Dispatched i \<Rightarrow> [i] | _ \<Rightarrow> [])"

definition ran :: "gr_label \<Rightarrow> ActivityInvocation list" where
  "ran l = (case l of Ran i _ \<Rightarrow> [i] | _ \<Rightarrow> [])"

definition failures :: "gr_label \<Rightarrow> gerr list" where
  "failures l = (case l of Ran i (Some err) \<Rightarrow> [activityError i err] | _ \<Rightarrow> [])"

abbreviation started :: "'w goroutine \<Rightarrow> ActivityInvocation list" where
  "started g \<equiv> (if go_phase g = Started then [go_invocation g] else [])"

text \<open>The books: an invocation has run or its goroutine is still before the execution; an error has been
  recorded or its goroutine is still before the recording.\<close>

definition balanced :: "gr_label list \<Rightarrow> 'w GoRunner \<Rightarrow> bool" where
  "balanced ls r \<longleftrightarrow>
     mset (concat (map dispatched ls)) = mset (concat (map ran ls)) + mset (concat (map started (gr_goroutines r))) \<and>
     mset (concat (map failures ls)) = mset (gr_errors r) + mset (concat (map outcome (gr_goroutines r)))"

lemma execute_invocation: "execute g w = (g', w') \<Longrightarrow> go_invocation g' = go_invocation g"
  by (auto simp: execute_def split: prod.splits sum.splits)

lemma balanced_step:
  assumes "balanced ls r" "gr_step (r, w) l (r', w')"
  shows "balanced (ls @ [l]) r'"
  using assms(2)
proof cases
  case (gr_execute xs g ys g' err)
  then have "go_invocation g' = go_invocation g" by (blast dest: execute_invocation)
  with gr_execute assms(1) show ?thesis
    by (cases err) (auto simp: balanced_def dispatched_def ran_def failures_def outcome_def)
next
  case (gr_report xs g ys err)
  with assms(1) show ?thesis
    by (auto simp: balanced_def dispatched_def ran_def failures_def report_def)
qed (use assms(1) in \<open>auto simp: balanced_def dispatched_def ran_def failures_def outcome_def GoRunner_Register_def
      GoRunner_Dispatch_def split: option.splits\<close>)

lemma balanced_run:
  "gr_run c ls c' \<Longrightarrow> c = (NewGoRunner, w) \<Longrightarrow> balanced ls (fst c')"
proof (induction rule: gr_run.induct)
  case (gr_done c)
  then show ?case by (simp add: balanced_def NewGoRunner_def)
next
  case (gr_next c ls c' l c'')
  then show ?case using balanced_step [of ls "fst c'" "snd c'" l "fst c''" "snd c''"] by simp
qed

text \<open>From every state the goroutines can run to their end: \<open>Wait\<close> is not blocked for ever.\<close>

lemma gr_drain:
  "\<exists>ls r' w'. gr_run (r, w) ls (r', w') \<and> GoRunner_Wait r' \<and> concat (map dispatched ls) = []"
proof -
  have run_trans: "gr_run a ls b \<Longrightarrow> gr_run b ls' c \<Longrightarrow> gr_run a (ls @ ls') c" for a ls b ls' and c :: "'a GoRunner \<times> 'a"
    by (rotate_tac, induction rule: gr_run.induct) (auto intro: gr_run.intros simp flip: append_assoc)
  have "\<exists>ls r' w'. gr_run (r, w) ls (r', w') \<and> gr_goroutines r' = [] \<and> concat (map dispatched ls) = []"
  proof (induction "gr_goroutines r" arbitrary: r w)
    case Nil
    then show ?case by (intro exI [of _ "[]"] exI) (auto intro: gr_done)
  next
    case (Cons g gs)
    have fin: "\<exists>ls r' w'. gr_run (r, w) ls (r', w') \<and> gr_goroutines r' = [] \<and> concat (map dispatched ls) = []"
      if g: "gr_goroutines r = g # gs" "go_phase g = Executed err" for r w g err
    proof -
      let ?r = "report g (r\<lparr>gr_goroutines := gs\<rparr>)"
      have "gs = gr_goroutines ?r" by (simp add: report_def)
      from Cons.hyps(1) [OF this, of w] obtain ls r' w' where
        l: "gr_run (?r, w) ls (r', w')" "gr_goroutines r' = []" "concat (map dispatched ls) = []" by blast
      from gr_report [of r "[]" g gs err w] g have "gr_step (r, w) Silent (?r, w)" by simp
      from run_trans [OF gr_next [OF gr_done this] l(1)] l(2,3) show ?thesis
        by (intro exI [of _ "Silent # ls"]) (auto simp: dispatched_def)
    qed
    show ?case
    proof (cases "go_phase g")
      case (Executed err)
      with fin Cons.hyps(2) show ?thesis by metis
    next
      case Started
      obtain g' w1 where e: "execute g w = (g', w1)" by fastforce
      then obtain err where x: "go_phase g' = Executed err"
        by (auto simp: execute_def split: prod.splits sum.splits)
      let ?r = "r\<lparr>gr_goroutines := g' # gs\<rparr>"
      from gr_execute [of r "[]" g gs w g' w1 err] Cons.hyps(2) Started e x
      have st: "gr_step (r, w) (Ran (go_invocation g) err) (?r, w1)" by simp
      from fin [of ?r g' err w1] x obtain ls r' w' where
        l: "gr_run (?r, w1) ls (r', w')" "gr_goroutines r' = []" "concat (map dispatched ls) = []" by auto
      from run_trans [OF gr_next [OF gr_done st] l(1)] l(2,3) show ?thesis
        by (intro exI [of _ "Ran (go_invocation g) err # ls"]) (auto simp: dispatched_def)
    qed
  qed
  then show ?thesis by (simp add: GoRunner_Wait_def)
qed

text \<open>
  C37. Under every interleaving of registrations, dispatches and goroutines, when \<open>Wait\<close> lets its caller
  go on, every invocation that \<open>Dispatch\<close> accepted has been executed exactly once, and \<open>Errors\<close> holds
  exactly the errors of the executions that failed, each once, in some order; and from every state
  the runner reaches, the goroutines can run to a state in which \<open>Wait\<close> lets its caller go on.
\<close>

theorem GoRunner_wait_complete:
  assumes "gr_run (NewGoRunner, w) ls (r, w')"
  shows "(GoRunner_Wait r \<longrightarrow>
      mset (concat (map dispatched ls)) = mset (concat (map ran ls)) \<and>
      mset (GoRunner_Errors r) = mset (concat (map failures ls))) \<and>
    (\<exists>ls' r' w''. gr_run (r, w') ls' (r', w'') \<and> GoRunner_Wait r')"
  using balanced_run [OF assms refl] gr_drain [of r w']
  by (auto simp: balanced_def GoRunner_Wait_def GoRunner_Errors_def)

definition mail_activity :: "unit Activity" where
  "mail_activity = \<lparr>ac_Name = ''mail'', ac_Execute = (\<lambda>_. fail (UserErr 7))\<rparr>"

definition mail_goroutine :: "ActivityInvocation \<Rightarrow> phase \<Rightarrow> unit goroutine" where
  "mail_goroutine i p = \<lparr>go_activity = mail_activity, go_invocation = i, go_phase = p\<rparr>"

definition mail_runner :: "unit goroutine list \<Rightarrow> gerr list \<Rightarrow> unit GoRunner" where
  "mail_runner gs es = \<lparr>gr_activities = [(''mail'', mail_activity)], gr_goroutines = gs, gr_errors = es\<rparr>"

lemma mail_run:
  assumes "ai_ActivityName i = ''mail''"
  shows "gr_run (NewGoRunner, ()) [Silent, Dispatched i, Ran i (Some (UserErr 7)), Silent]
    (mail_runner [] [activityError i (UserErr 7)], ())"
proof -
  have 1: "gr_step (NewGoRunner, ()) Silent (mail_runner [] [], ())"
    using gr_register [of NewGoRunner "()" mail_activity]
    by (simp add: GoRunner_Register_def NewGoRunner_def mail_runner_def mail_activity_def)
  have 2: "gr_step (mail_runner [] [], ()) (Dispatched i) (mail_runner [mail_goroutine i Started] [], ())"
    by (rule gr_dispatch) (simp add: GoRunner_Dispatch_def mail_runner_def mail_goroutine_def assms)
  have 3: "gr_step (mail_runner [mail_goroutine i Started] [], ()) (Ran i (Some (UserErr 7)))
      (mail_runner [mail_goroutine i (Executed (Some (UserErr 7)))] [], ())"
    using gr_execute [of "mail_runner [mail_goroutine i Started] []" "[]" "mail_goroutine i Started" "[]" "()"
        "mail_goroutine i (Executed (Some (UserErr 7)))" "()" "Some (UserErr 7)"]
    by (simp add: mail_runner_def mail_goroutine_def execute_def mail_activity_def)
  have 4: "gr_step (mail_runner [mail_goroutine i (Executed (Some (UserErr 7)))] [], ()) Silent
      (mail_runner [] [activityError i (UserErr 7)], ())"
    using gr_report [of "mail_runner [mail_goroutine i (Executed (Some (UserErr 7)))] []" "[]"
        "mail_goroutine i (Executed (Some (UserErr 7)))" "[]" "Some (UserErr 7)" "()"]
    by (simp add: mail_runner_def mail_goroutine_def report_def outcome_def)
  from gr_next [OF gr_next [OF gr_next [OF gr_next [OF gr_done 1] 2] 3] 4] show ?thesis by simp
qed

theorem GoRunner_wait_complete_witness:
  "\<exists>i. ai_ActivityName i = ''mail'' \<and>
     mset (GoRunner_Errors (mail_runner [] [activityError i (UserErr 7)])) = {#activityError i (UserErr 7)#} \<and>
     GoRunner_Wait (mail_runner [] [activityError i (UserErr 7)]) \<and>
     mset (concat (map ran [Silent, Dispatched i, Ran i (Some (UserErr 7)), Silent])) = {#i#}"
proof -
  obtain i :: ActivityInvocation where i: "ai_ActivityName i = ''mail''"
    by (metis ActivityInvocation.select_convs(2))
  have "GoRunner_Wait (mail_runner [] [activityError i (UserErr 7)])"
    by (simp add: GoRunner_Wait_def mail_runner_def)
  with GoRunner_wait_complete [OF mail_run [OF i]] i show ?thesis
    by (intro exI [of _ i]) (simp add: dispatched_def ran_def failures_def)
qed

end
