(* ===== verification/Flow_Adapters.thy ===== *)
theory Flow_Adapters
  imports Flow_Memstore
begin

text \<open>
  The remaining adapters of buses, runners and observers: \<open>natsbus\<close>, \<open>redisbus\<close>, \<open>asynqrunner\<close> and
  \<open>slogadapter\<close>. The clients they call (JetStream, Redis, asynq, the logger) and the JSON codec are
  parameters: \<open>marshal\<close> and \<open>unmarshal\<close>, \<open>publish\<close>, \<open>xadd\<close>, \<open>xack\<close>, \<open>enqueue\<close>, \<open>log\<close>.
\<close>

section \<open>NATS bus\<close>

definition natsbus_Emit ::
  "(DomainEvent \<Rightarrow> gerr + string) \<Rightarrow> (string \<Rightarrow> string \<Rightarrow> 'w proc) \<Rightarrow> string \<Rightarrow> DomainEvent \<Rightarrow> 'w proc" where
  "natsbus_Emit marshal publish subject event =
     (case marshal event of
        Inl err \<Rightarrow> ret (Some (Errorf ''natsbus: marshal event: %w'' [] (Some err)))
      | Inr data \<Rightarrow>
          check (publish subject data)
            (\<lambda>err. ret (Some (Errorf ''natsbus: publish: %w'' [] (Some err))))
            (ret None))"

definition NewNatsBus ::
  "(DomainEvent \<Rightarrow> gerr + string) \<Rightarrow> (string \<Rightarrow> string \<Rightarrow> 'w proc) \<Rightarrow> string \<Rightarrow> 'w EventBus" where
  "NewNatsBus marshal publish subject = \<lparr>bus_Emit = natsbus_Emit marshal publish subject\<rparr>"

datatype ackReply = Ack | Nak

text \<open>The callback of \<open>Subscribe\<close>: what it answers for one message.\<close>

definition natsbus_onMessage ::
  "(string \<Rightarrow> gerr + DomainEvent) \<Rightarrow> (DomainEvent \<Rightarrow> 'w proc) \<Rightarrow> string \<Rightarrow> ('w, ackReply) state" where
  "natsbus_onMessage unmarshal handler data =
     (case unmarshal data of
        Inl _ \<Rightarrow> ret Nak
      | Inr event \<Rightarrow> check (handler event) (\<lambda>_. ret Nak) (ret Ack))"

text \<open>
  \<open>Subscribe\<close>: the result of the client's call, the messages it delivers until the context is done, and
  the error of the context then. The replies go to the client.
\<close>

definition natsbus_Subscribe ::
  "(string \<Rightarrow> gerr + DomainEvent) \<Rightarrow> (ackReply \<Rightarrow> ('w, unit) state) \<Rightarrow> gerr option \<Rightarrow> (DomainEvent \<Rightarrow> 'w proc) \<Rightarrow>
     string list \<Rightarrow> gerr \<Rightarrow> 'w proc" where
  "natsbus_Subscribe unmarshal reply subscribed handler msgs ctxErr =
     (case subscribed of
        Some err \<Rightarrow> ret (Some (Errorf ''natsbus: subscribe: %w'' [] (Some err)))
      | None \<Rightarrow> do {
          each (\<lambda>data. do { answer \<leftarrow> natsbus_onMessage unmarshal handler data; reply answer }) msgs;
          ret (Some ctxErr) })"

lemma natsbus_onMessage_ack:
  "fst (run_state (natsbus_onMessage unmarshal handler data) w) = Ack \<longleftrightarrow>
     (\<exists>event. unmarshal data = Inr event \<and> fst (run_state (handler event) w) = None)"
  by (auto simp: natsbus_onMessage_def run_check split: sum.splits option.splits prod.splits)

section \<open>Redis bus\<close>

definition redisValues :: "DomainEvent \<Rightarrow> string \<Rightarrow> (string, gval) gomap" where
  "redisValues event data =
     [(''event_id'', GString (ev_ID event)), (''event_type'', GString (ev_EventType event)),
      (''aggregate_type'', GString (ev_AggregateType event)), (''aggregate_id'', GString (ev_AggregateID event)),
      (''correlation_id'', GString (ev_CorrelationID event)), (''data'', GString data)]"

definition redisbus_Emit ::
  "(DomainEvent \<Rightarrow> gerr + string) \<Rightarrow> (string \<Rightarrow> (string, gval) gomap \<Rightarrow> 'w proc) \<Rightarrow> string \<Rightarrow> DomainEvent \<Rightarrow> 'w proc" where
  "redisbus_Emit marshal xadd streamName event =
     (case marshal event of
        Inl err \<Rightarrow> ret (Some (Errorf ''redisbus: marshal event: %w'' [] (Some err)))
      | Inr data \<Rightarrow>
          check (xadd streamName (redisValues event data))
            (\<lambda>err. ret (Some (Errorf ''redisbus: xadd: %w'' [] (Some err))))
            (ret None))"

definition NewRedisBus ::
  "(DomainEvent \<Rightarrow> gerr + string) \<Rightarrow> (string \<Rightarrow> (string, gval) gomap \<Rightarrow> 'w proc) \<Rightarrow> string \<Rightarrow> 'w EventBus" where
  "NewRedisBus marshal xadd streamName = \<lparr>bus_Emit = redisbus_Emit marshal xadd streamName\<rparr>"

type_synonym redisMessage = "string \<times> (string, gval) gomap"

text \<open>The body of the message loop: a message that cannot be read or handled stays pending.\<close>

definition redisbus_message ::
  "(string \<Rightarrow> gerr + DomainEvent) \<Rightarrow> (DomainEvent \<Rightarrow> 'w proc) \<Rightarrow> (string \<Rightarrow> ('w, unit) state) \<Rightarrow> redisMessage \<Rightarrow> ('w, unit) state" where
  "redisbus_message unmarshal handler xack msg =
     (case map_of (snd msg) ''data'' of
        Some (GString data) \<Rightarrow>
          (case unmarshal data of
             Inl _ \<Rightarrow> ret ()
           | Inr event \<Rightarrow> check (handler event) (\<lambda>_. ret ()) (xack (fst msg)))
      | _ \<Rightarrow> ret ())"

text \<open>
  What one pass of the \<open>for\<close> loop of \<open>Subscribe\<close> meets: the context was cancelled before the read, the
  read failed (with the context's own error, if it has one by then), or it returned messages.
\<close>

datatype readGroup = CtxDone gerr | ReadFailed gerr "gerr option" | Messages "redisMessage list list"

fun redisbus_readLoop ::
  "(string \<Rightarrow> gerr + DomainEvent) \<Rightarrow> (DomainEvent \<Rightarrow> 'w proc) \<Rightarrow> (string \<Rightarrow> ('w, unit) state) \<Rightarrow> readGroup list \<Rightarrow>
     ('w, gerr option) state" where
  "redisbus_readLoop unmarshal handler xack [] = ret None"
| "redisbus_readLoop unmarshal handler xack (CtxDone err # reads) = ret (Some err)"
| "redisbus_readLoop unmarshal handler xack (ReadFailed err ctxErr # reads) =
     (case ctxErr of
        Some cerr \<Rightarrow> ret (Some cerr)
      | None \<Rightarrow> ret (Some (Errorf ''redisbus: xreadgroup: %w'' [] (Some err))))"
| "redisbus_readLoop unmarshal handler xack (Messages streams # reads) = do {
     each (each (redisbus_message unmarshal handler xack)) streams;
     redisbus_readLoop unmarshal handler xack reads }"

text \<open>The consumer group is created first; an error, such as that it exists, is ignored.\<close>

definition redisbus_Subscribe ::
  "(string \<Rightarrow> gerr + DomainEvent) \<Rightarrow> 'w proc \<Rightarrow> (DomainEvent \<Rightarrow> 'w proc) \<Rightarrow> (string \<Rightarrow> ('w, unit) state) \<Rightarrow>
     readGroup list \<Rightarrow> 'w proc" where
  "redisbus_Subscribe unmarshal groupCreate handler xack reads = do {
     _ \<leftarrow> groupCreate;
     redisbus_readLoop unmarshal handler xack reads }"

text \<open>What \<open>Emit\<close> writes, the message loop reads back.\<close>

lemma redisbus_roundtrip:
  assumes "unmarshal data = Inr event" "fst (run_state (handler event) w) = None"
  shows "run_state (redisbus_message unmarshal handler xack (msgID, redisValues event data)) w =
    run_state (xack msgID) (snd (run_state (handler event) w))"
  using assms by (cases "run_state (handler event) w") (simp add: redisbus_message_def redisValues_def run_check)

section \<open>asynq runner\<close>

definition taskTypePrefix :: string where "taskTypePrefix = ''flowstep:activity:''"

definition TaskType :: "string \<Rightarrow> string" where
  "TaskType activityName = taskTypePrefix @ activityName"

datatype asynqOption = AsynqTimeout int | AsynqMaxRetry int

definition asynqOptions :: "ActivityInvocation \<Rightarrow> asynqOption list" where
  "asynqOptions invocation =
     (if ai_Timeout invocation > 0 then [AsynqTimeout (ai_Timeout invocation)] else []) @
     (case ai_RetryPolicy invocation of
        None \<Rightarrow> []
      | Some policy \<Rightarrow> if rp_MaxAttempts policy > 0 then [AsynqMaxRetry (rp_MaxAttempts policy)] else [])"

definition asynq_Dispatch ::
  "(ActivityInvocation \<Rightarrow> gerr + string) \<Rightarrow> (string \<Rightarrow> string \<Rightarrow> asynqOption list \<Rightarrow> 'w proc) \<Rightarrow> ActivityInvocation \<Rightarrow> 'w proc" where
  "asynq_Dispatch marshal enqueue invocation =
     (case marshal invocation of
        Inl err \<Rightarrow> ret (Some (Errorf ''asynqrunner: marshal invocation: %w'' [] (Some err)))
      | Inr payload \<Rightarrow>
          check (enqueue (taskTypePrefix @ ai_ActivityName invocation) payload (asynqOptions invocation))
            (\<lambda>err. ret (Some (Errorf ''asynqrunner: enqueue: %w'' [] (Some err))))
            (ret None))"

definition asynq_HandleFunc ::
  "(string \<Rightarrow> gerr + ActivityInvocation) \<Rightarrow> (ActivityInput \<Rightarrow> ('w, ActivityResult option) prog) \<Rightarrow> string \<Rightarrow> 'w proc" where
  "asynq_HandleFunc unmarshal execute payload =
     (case unmarshal payload of
        Inl err \<Rightarrow> ret (Some (Errorf ''asynqrunner: unmarshal invocation: %w'' [] (Some err)))
      | Inr invocation \<Rightarrow> attempt (execute (ai_Input invocation)) (\<lambda>err. ret (Some err)) (\<lambda>_. ret None))"

definition NewAsynqRunner ::
  "(ActivityInvocation \<Rightarrow> gerr + string) \<Rightarrow> (string \<Rightarrow> string \<Rightarrow> asynqOption list \<Rightarrow> 'w proc) \<Rightarrow> 'w ActivityRunner" where
  "NewAsynqRunner marshal enqueue = \<lparr>rn_Dispatch = asynq_Dispatch marshal enqueue, rn_Resolve = None\<rparr>"

lemma TaskType_inj: "TaskType a = TaskType b \<longleftrightarrow> a = b"
  by (simp add: TaskType_def)

text \<open>
  The task that \<open>Dispatch\<close> enqueues is routed to the handler registered under \<open>TaskType\<close> of the
  activity, and that handler runs the activity on the input of the invocation.
\<close>

lemma asynq_roundtrip:
  assumes "marshal invocation = Inr payload" "unmarshal payload = Inr invocation"
  shows "run_state (asynq_Dispatch marshal enqueue invocation) w =
      run_state (check (enqueue (TaskType (ai_ActivityName invocation)) payload (asynqOptions invocation))
        (\<lambda>err. ret (Some (Errorf ''asynqrunner: enqueue: %w'' [] (Some err)))) (ret None)) w"
    "asynq_HandleFunc unmarshal execute payload =
      attempt (execute (ai_Input invocation)) (\<lambda>err. ret (Some err)) (\<lambda>_. ret None)"
  using assms by (simp_all add: asynq_Dispatch_def asynq_HandleFunc_def TaskType_def)

section \<open>Log observer\<close>

definition LevelInfo :: int where "LevelInfo = 0"
definition LevelWarn :: int where "LevelWarn = 4"
definition LevelError :: int where "LevelError = 8"

datatype logValue = LString string | LInt int | LError gerr | LText gtext

record slogObserver =
  so_transitionLevel :: int
  so_guardFailedLevel :: int
  so_activityDispatchedLevel :: int
  so_activityCompletedLevel :: int
  so_activityFailedLevel :: int
  so_stuckLevel :: int
  so_postCommitErrorLevel :: int

type_synonym slogOption = "slogObserver \<Rightarrow> slogObserver"

definition slogDefaults :: slogObserver where
  "slogDefaults =
     \<lparr>so_transitionLevel = LevelInfo, so_guardFailedLevel = LevelWarn, so_activityDispatchedLevel = LevelInfo,
      so_activityCompletedLevel = LevelInfo, so_activityFailedLevel = LevelError, so_stuckLevel = LevelError,
      so_postCommitErrorLevel = LevelError\<rparr>"

definition NewSlog :: "slogOption list \<Rightarrow> slogObserver" where
  "NewSlog opts = fold (\<lambda>opt. opt) opts slogDefaults"

definition WithTransitionLevel :: "int \<Rightarrow> slogOption" where
  "WithTransitionLevel level so = so\<lparr>so_transitionLevel := level\<rparr>"
definition WithGuardFailedLevel :: "int \<Rightarrow> slogOption" where
  "WithGuardFailedLevel level so = so\<lparr>so_guardFailedLevel := level\<rparr>"
definition WithActivityDispatchedLevel :: "int \<Rightarrow> slogOption" where
  "WithActivityDispatchedLevel level so = so\<lparr>so_activityDispatchedLevel := level\<rparr>"
definition WithActivityCompletedLevel :: "int \<Rightarrow> slogOption" where
  "WithActivityCompletedLevel level so = so\<lparr>so_activityCompletedLevel := level\<rparr>"
definition WithActivityFailedLevel :: "int \<Rightarrow> slogOption" where
  "WithActivityFailedLevel level so = so\<lparr>so_activityFailedLevel := level\<rparr>"
definition WithStuckLevel :: "int \<Rightarrow> slogOption" where
  "WithStuckLevel level so = so\<lparr>so_stuckLevel := level\<rparr>"
definition WithPostCommitErrorLevel :: "int \<Rightarrow> slogOption" where
  "WithPostCommitErrorLevel level so = so\<lparr>so_postCommitErrorLevel := level\<rparr>"

text \<open>\<open>Duration.Milliseconds\<close> divides nanoseconds and truncates toward zero.\<close>

definition Milliseconds :: "int \<Rightarrow> int" where
  "Milliseconds d = sgn d * (\<bar>d\<bar> div 1000000)"

definition invocationAttrs :: "ActivityInvocation \<Rightarrow> (string \<times> logValue) list" where
  "invocationAttrs i =
     [(''activity_name'', LString (ai_ActivityName i)), (''invocation_id'', LString (ai_ID i)),
      (''workflow_type'', LString (ai_WorkflowType i)), (''aggregate_id'', LString (ai_AggregateID i))]"

text \<open>The record a method logs, by the event it receives: level, message and attributes.\<close>

definition logRecord :: "slogObserver \<Rightarrow> ObserverEvent \<Rightarrow> int \<times> string \<times> (string \<times> logValue) list" where
  "logRecord so event =
     (case event of
        TransitionEvent res duration \<Rightarrow>
          (so_transitionLevel so, ''flowstep.transition'',
            [(''workflow_type'', LString (wi_WorkflowType (rs_Instance res))),
             (''aggregate_id'', LString (wi_AggregateID (rs_Instance res))),
             (''transition_name'', LString (rs_TransitionName res)), (''duration_ms'', LInt (Milliseconds duration))])
      | GuardFailureEvent wt tn gn err \<Rightarrow>
          (so_guardFailedLevel so, ''flowstep.guard_failed'',
            [(''workflow_type'', LString wt), (''transition_name'', LString tn), (''guard_name'', LString gn),
             (''error'', LError err)])
      | ActivityDispatchedEvent i \<Rightarrow>
          (so_activityDispatchedLevel so, ''flowstep.activity_dispatched'', invocationAttrs i)
      | ActivityCompletedEvent i _ \<Rightarrow>
          (so_activityCompletedLevel so, ''flowstep.activity_completed'', invocationAttrs i)
      | ActivityFailedEvent i err \<Rightarrow>
          (so_activityFailedLevel so, ''flowstep.activity_failed'', invocationAttrs i @ [(''error'', LError err)])
      | StuckEvent inst reason \<Rightarrow>
          (so_stuckLevel so, ''flowstep.stuck'',
            [(''workflow_type'', LString (wi_WorkflowType inst)), (''aggregate_id'', LString (wi_AggregateID inst)),
             (''reason'', LText reason)])
      | PostCommitErrorEvent operation err \<Rightarrow>
          (so_postCommitErrorLevel so, ''flowstep.post_commit_error'',
            [(''operation'', LString operation), (''error'', LError err)]))"

definition slogObserve ::
  "(int \<Rightarrow> string \<Rightarrow> (string \<times> logValue) list \<Rightarrow> ('w, unit) state) \<Rightarrow> slogObserver \<Rightarrow> ObserverEvent \<Rightarrow> ('w, unit) state" where
  "slogObserve log so event = (case logRecord so event of (level, msg, attrs) \<Rightarrow> log level msg attrs)"

text \<open>The observer implements all four interfaces.\<close>

definition slogObserver_of ::
  "(int \<Rightarrow> string \<Rightarrow> (string \<times> logValue) list \<Rightarrow> ('w, unit) state) \<Rightarrow> slogObserver \<Rightarrow> 'w Observer" where
  "slogObserver_of log so =
     \<lparr>ob_Transition = Some (slogObserve log so), ob_Guard = Some (slogObserve log so),
      ob_Activity = Some \<lparr>ao_OnActivityDispatched = slogObserve log so,
        ao_OnActivityCompleted = slogObserve log so, ao_OnActivityFailed = slogObserve log so\<rparr>,
      ob_Infrastructure = Some \<lparr>io_OnStuck = slogObserve log so, io_OnPostCommitError = slogObserve log so\<rparr>\<rparr>"

text \<open>Every notification of the engine reaches the log exactly once, at the configured level.\<close>

lemma slog_notified:
  assumes "r = Some (NewObserverRegistry [slogObserver_of log so])"
  shows "run_state (NotifyTransition r event) w = run_state (slogObserve log so event) w"
    "run_state (NotifyGuardFailed r event) w = run_state (slogObserve log so event) w"
    "run_state (NotifyActivityDispatched r event) w = run_state (slogObserve log so event) w"
    "run_state (NotifyPostCommitError r event) w = run_state (slogObserve log so event) w"
  unfolding assms
  by (simp_all add: NotifyTransition_def NotifyGuardFailed_def NotifyActivityDispatched_def
      NotifyPostCommitError_def NewObserverRegistry_sel slogObserver_of_def map_filter_simps split: prod.splits)

lemma slog_level_options:
  "so_transitionLevel (NewSlog [WithTransitionLevel l]) = l"
  "so_guardFailedLevel (NewSlog [WithTransitionLevel l]) = LevelWarn"
  by (simp_all add: NewSlog_def WithTransitionLevel_def slogDefaults_def)

end
