(* ===== verification/Flow_Sql.thy ===== *)
theory Flow_Sql
  imports Flow_Interfaces
begin

text \<open>
  The database interface of \<open>adapters/sqlitestore\<close> and \<open>adapters/pgxstore\<close>. The drivers
  (\<open>database/sql\<close> with a SQLite driver, \<open>pgx\<close>) and the servers are not part of the repository: a
  driver is the record \<open>sqldb\<close> of the calls the stores make, and \<open>sql_db\<close> states what SQL documents of
  the statements they issue, for one transaction at a time and a server that does not fail. A statement
  is kept as its parsed form: table, columns, conditions joined by \<open>AND\<close>, the column of \<open>ORDER BY\<close>; a
  placeholder is the position of its argument.
\<close>

section \<open>Statements and drivers\<close>

datatype sqlval = SNull | SText string | SInt int | SBool bool | STime gtime

datatype operand = Arg nat | Lit sqlval | Now

datatype cmpop = EqOp | LtOp | LeOp

type_synonym sqlcond = "string \<times> cmpop \<times> operand"

datatype stmt =
    Insert string "string list"
  | Update string "(string \<times> operand) list" "sqlcond list"
  | Select "string list" string "sqlcond list" "string option"

text \<open>
  \<open>db_TxExec\<close> and \<open>db_Exec\<close> return the number of affected rows, \<open>db_QueryRow\<close> no row for the
  driver's \<open>ErrNoRows\<close>, \<open>db_Query\<close> the rows that \<open>Next\<close> delivers and what \<open>rows.Err\<close> is after them.
  The last five convert a column for \<open>Scan\<close>; a NULL column gives a nil \<open>[]byte\<close>.
\<close>

record 'w sqldb =
  db_isTx :: "gval \<Rightarrow> bool"
  db_Begin :: "('w, gval) prog"
  db_Commit :: "gval \<Rightarrow> 'w proc"
  db_Rollback :: "gval \<Rightarrow> 'w proc"
  db_TxExec :: "gval \<Rightarrow> stmt \<Rightarrow> sqlval list \<Rightarrow> ('w, int) prog"
  db_Exec :: "stmt \<Rightarrow> sqlval list \<Rightarrow> ('w, int) prog"
  db_QueryRow :: "stmt \<Rightarrow> sqlval list \<Rightarrow> ('w, sqlval list option) prog"
  db_Query :: "stmt \<Rightarrow> sqlval list \<Rightarrow> ('w, sqlval list list \<times> gerr option) prog"
  db_ScanString :: "sqlval \<Rightarrow> gerr + string"
  db_ScanInt :: "sqlval \<Rightarrow> gerr + int"
  db_ScanBool :: "sqlval \<Rightarrow> gerr + bool"
  db_ScanTime :: "sqlval \<Rightarrow> gerr + gtime"
  db_ScanBytes :: "sqlval \<Rightarrow> gerr + string option"

text \<open>A destination of pointer type takes NULL as nil.\<close>

definition scanPtr :: "(sqlval \<Rightarrow> gerr + 'a) \<Rightarrow> sqlval \<Rightarrow> gerr + 'a option" where
  "scanPtr f v = (if v = SNull then Inr None else map_sum id Some (f v))"

text \<open>The destinations of one \<open>Scan\<close>, left to right; the first that fails ends it.\<close>

definition into :: "gerr + 'a \<Rightarrow> ('a \<Rightarrow> gerr + 'b) \<Rightarrow> gerr + 'b" where
  "into v k = (case v of Inl err \<Rightarrow> Inl err | Inr x \<Rightarrow> k x)"

lemma into_simps [simp]: "into (Inr x) k = k x" "into (Inl err) k = Inl err"
  by (simp_all add: into_def)

text \<open>
  The loop \<open>for rows.Next()\<close> of a scan function: each row is scanned and appended, the first that fails
  ends it with its wrapped error, and \<open>rows.Err\<close> is the error at the end.
\<close>

fun scanRows :: "string \<Rightarrow> (sqlval list \<Rightarrow> gerr + 'a) \<Rightarrow> sqlval list list \<Rightarrow> gerr option \<Rightarrow> gerr + 'a list" where
  "scanRows msg scan [] rowsErr = (case rowsErr of None \<Rightarrow> Inr [] | Some err \<Rightarrow> Inl err)"
| "scanRows msg scan (row # rows) rowsErr =
     (case scan row of
        Inl err \<Rightarrow> Inl (Errorf msg [] (Some err))
      | Inr x \<Rightarrow> map_sum id (Cons x) (scanRows msg scan rows rowsErr))"

lemma scanRows_all:
  "(\<And>row. row \<in> set rows \<Longrightarrow> scan row = Inr (f row)) \<Longrightarrow> scanRows msg scan rows None = Inr (map f rows)"
  by (induction rows) auto

lemma scanRows_bad:
  "row \<in> set rows \<Longrightarrow> scan row = Inl err \<Longrightarrow> \<exists>err'. scanRows msg scan rows rowsErr = Inl err'"
  by (induction rows) (auto split: sum.splits)

section \<open>What the codecs do\<close>

definition zero_input :: ActivityInput where
  "zero_input =
     \<lparr>in_WorkflowType = [], in_AggregateType = [], in_AggregateID = [], in_CorrelationID = [], in_Params = None,
      in_ScheduledAt = 0, in_Transition = [], in_SourceState = [], in_EventID = []\<rparr>"

text \<open>
  The encodings of the standard library, with the errors the stores discard: a \<open>Marshal\<close> that fails
  leaves no text, an \<open>Unmarshal\<close> or \<open>Parse\<close> that fails the value the destination had.
  \<open>cd_Text\<close> renders a text that the engine keeps unrendered.
\<close>

record codec =
  cd_Params :: "gparams \<Rightarrow> string"
  cd_toParams :: "string \<Rightarrow> gparams"
  cd_StrMap :: "(string, string) gomap option \<Rightarrow> string"
  cd_toStrMap :: "string \<Rightarrow> (string, string) gomap option"
  cd_Options :: "string list \<Rightarrow> string"
  cd_toOptions :: "string \<Rightarrow> string list"
  cd_Input :: "ActivityInput \<Rightarrow> string"
  cd_toInput :: "string \<Rightarrow> ActivityInput"
  cd_Retry :: "RetryPolicy option \<Rightarrow> string"
  cd_toRetry :: "string \<Rightarrow> RetryPolicy option"
  cd_Result :: "ActivityResult \<Rightarrow> string"
  cd_toResult :: "string \<Rightarrow> ActivityResult"
  cd_Format :: "gtime \<Rightarrow> string"
  cd_Parse :: "string \<Rightarrow> gtime"
  cd_Text :: "gtext \<Rightarrow> string"

section \<open>What SQL documents of the statements\<close>

datatype coltype = CText | CInt | CBigInt | CBool | CTime | CJson

record colspec =
  cs_name :: string
  cs_type :: coltype
  cs_notnull :: bool
  cs_unique :: bool
  cs_default :: operand

type_synonym sqlschema = "string \<Rightarrow> colspec list"
type_synonym sqlrow = "(string \<times> sqlval) list"
type_synonym sqltables = "string \<Rightarrow> sqlrow list"
type_synonym coercion = "coltype \<Rightarrow> sqlval \<Rightarrow> sqlval option"

definition col :: "sqlrow \<Rightarrow> string \<Rightarrow> sqlval" where
  "col r c = (case map_of r c of None \<Rightarrow> SNull | Some v \<Rightarrow> v)"

definition opval :: "gtime \<Rightarrow> sqlval list \<Rightarrow> operand \<Rightarrow> sqlval" where
  "opval now args x = (case x of Arg i \<Rightarrow> args ! i | Lit v \<Rightarrow> v | Now \<Rightarrow> STime now)"

text \<open>A value sent to a column is converted to the type of the column, or refused; NULL fits every type.\<close>

definition sent :: "coercion \<Rightarrow> sqlschema \<Rightarrow> string \<Rightarrow> string \<Rightarrow> sqlval \<Rightarrow> sqlval option" where
  "sent co sch tbl c v =
     (case find (\<lambda>s. cs_name s = c) (sch tbl) of
        None \<Rightarrow> None
      | Some s \<Rightarrow> if v = SNull then Some SNull else co (cs_type s) v)"

fun sql_less :: "sqlval \<Rightarrow> sqlval \<Rightarrow> bool" where
  "sql_less (SInt a) (SInt b) = (a < b)"
| "sql_less (STime a) (STime b) = (a < b)"
| "sql_less _ _ = False"

text \<open>A comparison with NULL does not hold.\<close>

fun sql_cmp :: "cmpop \<Rightarrow> sqlval \<Rightarrow> sqlval \<Rightarrow> bool" where
  "sql_cmp EqOp a b = (a \<noteq> SNull \<and> a = b)"
| "sql_cmp LtOp a b = sql_less a b"
| "sql_cmp LeOp a b = (sql_less a b \<or> a \<noteq> SNull \<and> a = b)"

definition matches :: "coercion \<Rightarrow> sqlschema \<Rightarrow> string \<Rightarrow> gtime \<Rightarrow> sqlval list \<Rightarrow> sqlcond list \<Rightarrow> sqlrow \<Rightarrow> bool" where
  "matches co sch tbl now args conds r =
     list_all (\<lambda>(c, cmp, x). case sent co sch tbl c (opval now args x) of
        None \<Rightarrow> False | Some v \<Rightarrow> sql_cmp cmp (col r c) v) conds"

text \<open>Every argument of the conditions fits the column it is compared with.\<close>

definition fitting :: "coercion \<Rightarrow> sqlschema \<Rightarrow> string \<Rightarrow> gtime \<Rightarrow> sqlval list \<Rightarrow> sqlcond list \<Rightarrow> bool" where
  "fitting co sch tbl now args conds = list_all (\<lambda>(c, cmp, x). sent co sch tbl c (opval now args x) \<noteq> None) conds"

text \<open>The row of an \<open>INSERT\<close>: a column that is not listed has its default.\<close>

definition new_row :: "coercion \<Rightarrow> sqlschema \<Rightarrow> gtime \<Rightarrow> string \<Rightarrow> string list \<Rightarrow> sqlval list \<Rightarrow> sqlrow option" where
  "new_row co sch now tbl cols args =
     those (map (\<lambda>s. map_option (Pair (cs_name s))
       (case map_of (zip cols args) (cs_name s) of
          Some v \<Rightarrow> sent co sch tbl (cs_name s) v
        | None \<Rightarrow> Some (opval now args (cs_default s)))) (sch tbl))"

definition misses :: "colspec list \<Rightarrow> sqlrow \<Rightarrow> bool" where
  "misses specs r = list_ex (\<lambda>s. cs_notnull s \<and> col r (cs_name s) = SNull) specs"

definition clashes :: "colspec list \<Rightarrow> sqlrow list \<Rightarrow> sqlrow \<Rightarrow> bool" where
  "clashes specs rows r =
     list_ex (\<lambda>s. cs_unique s \<and> col r (cs_name s) \<noteq> SNull \<and>
       list_ex (\<lambda>r'. col r' (cs_name s) = col r (cs_name s)) rows) specs"

fun set_cols :: "coercion \<Rightarrow> sqlschema \<Rightarrow> string \<Rightarrow> gtime \<Rightarrow> sqlval list \<Rightarrow> (string \<times> operand) list \<Rightarrow> sqlrow \<Rightarrow> sqlrow option" where
  "set_cols co sch tbl now args [] r = Some r"
| "set_cols co sch tbl now args ((c, x) # sets) r =
     (case sent co sch tbl c (opval now args x) of
        None \<Rightarrow> None
      | Some v \<Rightarrow> set_cols co sch tbl now args sets (map (\<lambda>(c', v'). (c', if c' = c then v else v')) r))"

text \<open>
  The effect of a statement that writes on the tables, with the number of affected rows; \<open>None\<close> when a
  value does not fit or a constraint does not hold.
\<close>

fun apply_stmt :: "coercion \<Rightarrow> sqlschema \<Rightarrow> gtime \<Rightarrow> sqlval list \<Rightarrow> stmt \<Rightarrow> sqltables \<Rightarrow> (sqltables \<times> int) option" where
  "apply_stmt co sch now args (Insert tbl cols) T =
     (case new_row co sch now tbl cols args of
        None \<Rightarrow> None
      | Some r \<Rightarrow> if misses (sch tbl) r \<or> clashes (sch tbl) (T tbl) r then None
                  else Some (T(tbl := T tbl @ [r]), 1))"
| "apply_stmt co sch now args (Update tbl sets conds) T =
     (if \<not> fitting co sch tbl now args conds then None else
      case those (map (\<lambda>r. if matches co sch tbl now args conds r
                           then set_cols co sch tbl now args sets r else Some r) (T tbl)) of
        None \<Rightarrow> None
      | Some rows \<Rightarrow> if list_ex (misses (sch tbl)) rows then None
                     else Some (T(tbl := rows), int (length (filter (matches co sch tbl now args conds) (T tbl)))))"
| "apply_stmt co sch now args (Select cols tbl conds order) T = Some (T, 0)"

fun accepts :: "coercion \<Rightarrow> sqlschema \<Rightarrow> gtime \<Rightarrow> sqlval list \<Rightarrow> stmt \<Rightarrow> bool" where
  "accepts co sch now args (Select cols tbl conds order) = fitting co sch tbl now args conds"
| "accepts co sch now args _ = False"

fun chosen :: "coercion \<Rightarrow> sqlschema \<Rightarrow> gtime \<Rightarrow> sqlval list \<Rightarrow> stmt \<Rightarrow> sqltables \<Rightarrow> sqlrow list" where
  "chosen co sch now args (Select cols tbl conds order) T = filter (matches co sch tbl now args conds) (T tbl)"
| "chosen co sch now args _ T = []"

fun projected :: "stmt \<Rightarrow> sqlrow \<Rightarrow> sqlval list" where
  "projected (Select cols tbl conds order) r = map (col r) cols"
| "projected _ r = []"

fun ordered :: "(sqlval \<Rightarrow> sqlval \<Rightarrow> bool) \<Rightarrow> stmt \<Rightarrow> sqlrow list \<Rightarrow> bool" where
  "ordered le (Select cols tbl conds (Some c)) rs = sorted_wrt (\<lambda>r r'. le (col r c) (col r' c)) rs"
| "ordered le _ rs = True"

text \<open>No statement of the stores changes a column with a uniqueness constraint.\<close>

fun keeps_unique :: "sqlschema \<Rightarrow> stmt \<Rightarrow> bool" where
  "keeps_unique sch (Update tbl sets conds) =
     list_all (\<lambda>s. cs_unique s \<longrightarrow> cs_name s \<notin> fst ` set sets) (sch tbl)"
| "keeps_unique sch _ = True"

text \<open>The committed tables, the open transaction with its own, and the clock of the server.\<close>

record dbview =
  dv_tables :: sqltables
  dv_tx :: "(gval \<times> sqltables) option"
  dv_now :: gtime

definition sql_scans :: "'w sqldb \<Rightarrow> bool" where
  "sql_scans D \<longleftrightarrow>
     (\<forall>s. db_ScanString D (SText s) = Inr s) \<and> (\<exists>err. db_ScanString D SNull = Inl err) \<and>
     (\<forall>n. db_ScanInt D (SInt n) = Inr n) \<and> (\<forall>b. db_ScanBool D (SBool b) = Inr b) \<and>
     (\<forall>t. db_ScanTime D (STime t) = Inr t) \<and>
     (\<forall>s. db_ScanBytes D (SText s) = Inr (Some s)) \<and> db_ScanBytes D SNull = Inr None"

definition sql_reads :: "coercion \<Rightarrow> sqlschema \<Rightarrow> (sqlval \<Rightarrow> sqlval \<Rightarrow> bool) \<Rightarrow> ('w \<Rightarrow> dbview) \<Rightarrow> 'w sqldb \<Rightarrow> bool" where
  "sql_reads co sch le view D \<longleftrightarrow>
     (\<forall>st args w. accepts co sch (dv_now (view w)) args st \<longrightarrow> (\<exists>w'. view w' = view w \<and>
        run_state (db_QueryRow D st args) w =
          (Inr (case chosen co sch (dv_now (view w)) args st (dv_tables (view w)) of
                  [] \<Rightarrow> None | r # _ \<Rightarrow> Some (projected st r)), w'))) \<and>
     (\<forall>st args w. accepts co sch (dv_now (view w)) args st \<longrightarrow> (\<exists>w' rs. view w' = view w \<and> ordered le st rs \<and>
        mset rs = mset (chosen co sch (dv_now (view w)) args st (dv_tables (view w))) \<and>
        run_state (db_Query D st args) w = (Inr (map (projected st) rs, None), w')))"

definition sql_writes :: "coercion \<Rightarrow> sqlschema \<Rightarrow> ('w \<Rightarrow> dbview) \<Rightarrow> 'w sqldb \<Rightarrow> bool" where
  "sql_writes co sch view D \<longleftrightarrow>
     (\<forall>st args tx T w. keeps_unique sch st \<longrightarrow> dv_tx (view w) = Some (tx, T) \<longrightarrow>
        (\<exists>w'. case apply_stmt co sch (dv_now (view w)) args st T of
           None \<Rightarrow> view w' = view w \<and> (\<exists>err. run_state (db_TxExec D tx st args) w = (Inl err, w'))
         | Some (T', n) \<Rightarrow> view w' = (view w)\<lparr>dv_tx := Some (tx, T')\<rparr> \<and>
             run_state (db_TxExec D tx st args) w = (Inr n, w'))) \<and>
     (\<forall>st args w. keeps_unique sch st \<longrightarrow> dv_tx (view w) = None \<longrightarrow>
        (\<exists>w'. case apply_stmt co sch (dv_now (view w)) args st (dv_tables (view w)) of
           None \<Rightarrow> view w' = view w \<and> (\<exists>err. run_state (db_Exec D st args) w = (Inl err, w'))
         | Some (T', n) \<Rightarrow> view w' = (view w)\<lparr>dv_tables := T'\<rparr> \<and>
             run_state (db_Exec D st args) w = (Inr n, w')))"

definition sql_txs :: "('w \<Rightarrow> dbview) \<Rightarrow> 'w sqldb \<Rightarrow> bool" where
  "sql_txs view D \<longleftrightarrow>
     (\<forall>w. dv_tx (view w) = None \<longrightarrow>
        (\<exists>tx w'. run_state (db_Begin D) w = (Inr tx, w') \<and>
           view w' = (view w)\<lparr>dv_tx := Some (tx, dv_tables (view w))\<rparr>)) \<and>
     (\<forall>tx T w. dv_tx (view w) = Some (tx, T) \<longrightarrow> db_isTx D tx \<and> tx \<noteq> GNil \<and>
        (\<exists>w'. run_state (db_Commit D tx) w = (None, w') \<and>
           view w' = (view w)\<lparr>dv_tables := T, dv_tx := None\<rparr>) \<and>
        (\<exists>w'. run_state (db_Rollback D tx) w = (None, w') \<and> view w' = (view w)\<lparr>dv_tx := None\<rparr>))"

definition sql_db :: "coercion \<Rightarrow> sqlschema \<Rightarrow> (sqlval \<Rightarrow> sqlval \<Rightarrow> bool) \<Rightarrow> ('w \<Rightarrow> dbview) \<Rightarrow> 'w sqldb \<Rightarrow> bool" where
  "sql_db co sch le view D \<longleftrightarrow>
     sql_scans D \<and> sql_reads co sch le view D \<and> sql_writes co sch view D \<and> sql_txs view D"

section \<open>Using the contract\<close>

lemma sql_scans_simps [simp]:
  assumes "sql_scans D"
  shows "db_ScanString D (SText s) = Inr s" "db_ScanInt D (SInt n) = Inr n" "db_ScanBool D (SBool b) = Inr b"
    "db_ScanTime D (STime t) = Inr t" "db_ScanBytes D (SText s) = Inr (Some s)" "db_ScanBytes D SNull = Inr None"
  using assms by (simp_all add: sql_scans_def)

lemma sql_scans_null:
  assumes "sql_scans D"
  obtains err where "db_ScanString D SNull = Inl err"
  using assms unfolding sql_scans_def by blast

lemma sql_db_scans: "sql_db co sch le view D \<Longrightarrow> sql_scans D"
  by (simp add: sql_db_def)

lemma sql_db_QueryRow:
  assumes "sql_db co sch le view D" "accepts co sch (dv_now (view w)) args st"
  obtains w' where "view w' = view w"
    "run_state (db_QueryRow D st args) w =
       (Inr (case chosen co sch (dv_now (view w)) args st (dv_tables (view w)) of
               [] \<Rightarrow> None | r # _ \<Rightarrow> Some (projected st r)), w')"
proof -
  from assms(1) have "sql_reads co sch le view D" by (simp add: sql_db_def)
  from this [unfolded sql_reads_def, THEN conjunct1, rule_format, OF assms(2)]
  show thesis using that by (elim exE conjE)
qed

lemma sql_db_Query:
  assumes "sql_db co sch le view D" "accepts co sch (dv_now (view w)) args st"
  obtains rs w' where "view w' = view w" "ordered le st rs"
    "mset rs = mset (chosen co sch (dv_now (view w)) args st (dv_tables (view w)))"
    "run_state (db_Query D st args) w = (Inr (map (projected st) rs, None), w')"
proof -
  from assms(1) have "sql_reads co sch le view D" by (simp add: sql_db_def)
  from this [unfolded sql_reads_def, THEN conjunct2, rule_format, OF assms(2)]
  show thesis using that by (elim exE conjE)
qed

lemma sql_db_TxExec_Some:
  assumes "sql_db co sch le view D" "keeps_unique sch st" "dv_tx (view w) = Some (tx, T)"
    and "apply_stmt co sch (dv_now (view w)) args st T = Some (T', n)"
  obtains w' where "view w' = (view w)\<lparr>dv_tx := Some (tx, T')\<rparr>"
    "run_state (db_TxExec D tx st args) w = (Inr n, w')"
proof -
  from assms(1) have "sql_writes co sch view D" by (simp add: sql_db_def)
  from this [unfolded sql_writes_def, THEN conjunct1, rule_format, OF assms(2,3), of args]
  show thesis using that by (auto simp: assms(4))
qed

lemma sql_db_TxExec_None:
  assumes "sql_db co sch le view D" "keeps_unique sch st" "dv_tx (view w) = Some (tx, T)"
    and "apply_stmt co sch (dv_now (view w)) args st T = None"
  obtains err w' where "view w' = view w" "run_state (db_TxExec D tx st args) w = (Inl err, w')"
proof -
  from assms(1) have "sql_writes co sch view D" by (simp add: sql_db_def)
  from this [unfolded sql_writes_def, THEN conjunct1, rule_format, OF assms(2,3), of args]
  show thesis using that by (auto simp: assms(4))
qed

lemma sql_db_Exec_Some:
  assumes "sql_db co sch le view D" "keeps_unique sch st" "dv_tx (view w) = None"
    and "apply_stmt co sch (dv_now (view w)) args st (dv_tables (view w)) = Some (T', n)"
  obtains w' where "view w' = (view w)\<lparr>dv_tables := T'\<rparr>" "run_state (db_Exec D st args) w = (Inr n, w')"
proof -
  from assms(1) have "sql_writes co sch view D" by (simp add: sql_db_def)
  from this [unfolded sql_writes_def, THEN conjunct2, rule_format, OF assms(2,3), of args]
  show thesis using that by (auto simp: assms(4))
qed

lemma sql_db_Exec_None:
  assumes "sql_db co sch le view D" "keeps_unique sch st" "dv_tx (view w) = None"
    and "apply_stmt co sch (dv_now (view w)) args st (dv_tables (view w)) = None"
  obtains err w' where "view w' = view w" "run_state (db_Exec D st args) w = (Inl err, w')"
proof -
  from assms(1) have "sql_writes co sch view D" by (simp add: sql_db_def)
  from this [unfolded sql_writes_def, THEN conjunct2, rule_format, OF assms(2,3), of args]
  show thesis using that by (auto simp: assms(4))
qed

lemma sql_db_Begin:
  assumes "sql_db co sch le view D" "dv_tx (view w) = None"
  obtains tx w' where "run_state (db_Begin D) w = (Inr tx, w')"
    "view w' = (view w)\<lparr>dv_tx := Some (tx, dv_tables (view w))\<rparr>"
  using assms unfolding sql_db_def sql_txs_def by blast

lemma sql_db_tx:
  assumes "sql_db co sch le view D" "dv_tx (view w) = Some (tx, T)"
  shows sql_db_isTx: "db_isTx D tx" and sql_db_notNil: "tx \<noteq> GNil"
  using assms unfolding sql_db_def sql_txs_def by blast+

lemma sql_db_Commit:
  assumes "sql_db co sch le view D" "dv_tx (view w) = Some (tx, T)"
  obtains w' where "run_state (db_Commit D tx) w = (None, w')"
    "view w' = (view w)\<lparr>dv_tables := T, dv_tx := None\<rparr>"
  using assms unfolding sql_db_def sql_txs_def by blast

lemma sql_db_Rollback:
  assumes "sql_db co sch le view D" "dv_tx (view w) = Some (tx, T)"
  obtains w' where "run_state (db_Rollback D tx) w = (None, w')" "view w' = (view w)\<lparr>dv_tx := None\<rparr>"
  using assms unfolding sql_db_def sql_txs_def by blast

text \<open>Rows and queries.\<close>

lemma those_map_Some: "(\<And>x. x \<in> set xs \<Longrightarrow> f x = Some (g x)) \<Longrightarrow> those (map f xs) = Some (map g xs)"
  by (induction xs) auto

text \<open>An \<open>INSERT\<close> that lists every column, in the order of the table, with values that fit.\<close>

lemma new_row_all:
  assumes cols: "cols = map cs_name (sch tbl)" "distinct cols"
    and fits: "list_all2 (\<lambda>s v. v = SNull \<or> co (cs_type s) v = Some v) (sch tbl) args"
  shows "new_row co sch now tbl cols args = Some (zip cols args)"
proof -
  let ?f = "\<lambda>s. map_option (Pair (cs_name s))
       (case map_of (zip cols args) (cs_name s) of
          Some v \<Rightarrow> sent co sch tbl (cs_name s) v
        | None \<Rightarrow> Some (opval now args (cs_default s)))"
  have len: "length args = length (sch tbl)" using fits by (simp add: list_all2_lengthD)
  have f: "?f (sch tbl ! i) = Some (zip cols args ! i)" if i: "i < length (sch tbl)" for i
  proof -
    have m: "map_of (zip cols args) (cs_name (sch tbl ! i)) = Some (args ! i)"
      using i cols len map_of_zip_nth [of cols args i] by simp
    have "find (\<lambda>s. cs_name s = cs_name (sch tbl ! i)) (sch tbl) = Some (sch tbl ! i)"
      using i cols by (auto simp: find_Some_iff distinct_conv_nth intro!: exI [of _ i])
    moreover have "zip cols args ! i = (cs_name (sch tbl ! i), args ! i)" using i cols len by simp
    ultimately show ?thesis using list_all2_nthD [OF fits i] by (auto simp: m sent_def)
  qed
  have "map ?f (sch tbl) = map Some (zip cols args)"
    by (rule nth_equalityI) (use f len cols in auto)
  then have "those (map ?f (sch tbl)) = Some (zip cols args)" by (simp add: those_map_Some [of _ Some id, simplified])
  then show ?thesis by (simp add: new_row_def)
qed

lemma col_zip: "distinct cols \<Longrightarrow> length args = length cols \<Longrightarrow> i < length cols \<Longrightarrow> col (zip cols args) (cols ! i) = args ! i"
  by (simp add: col_def map_of_zip_nth)

lemma map_col_zip: "distinct cols \<Longrightarrow> length args = length cols \<Longrightarrow> map (col (zip cols args)) cols = args"
  by (rule nth_equalityI) (auto simp: col_zip)

lemma find_append: "find p (xs @ ys) = (case find p xs of None \<Rightarrow> find p ys | Some x \<Rightarrow> Some x)"
  by (induction xs) auto

lemma mset_map_split: "mset rs = mset (map f xs) \<Longrightarrow> \<exists>ys. rs = map f ys \<and> mset ys = mset xs"
proof (induction rs arbitrary: xs)
  case (Cons r rs)
  then have "r \<in> set (map f xs)" by (metis list.set_intros(1) set_mset_mset)
  then obtain us x vs where x: "xs = us @ x # vs" "r = f x" by (auto simp: in_set_conv_decomp)
  with Cons.prems have "mset rs = mset (map f (us @ vs))" by simp
  from Cons.IH [OF this] obtain ys where "rs = map f ys" "mset ys = mset (us @ vs)" by blast
  with x show ?case by (intro exI [of _ "x # ys"]) simp
qed simp

text \<open>A query over rows that encode values: the values that match, in the order of the column.\<close>

lemma sql_db_Query_map:
  assumes db: "sql_db co sch le view D"
    and fit: "fitting co sch tbl (dv_now (view w)) args conds"
    and sel: "chosen co sch (dv_now (view w)) args (Select cols tbl conds (Some oc)) (dv_tables (view w)) = map enc xs"
    and scan: "\<And>x. scan (map (col (enc x)) cols) = Inr (dec x)"
  shows "\<exists>ys w' rows. view w' = view w \<and> mset ys = mset xs \<and>
    run_state (db_Query D (Select cols tbl conds (Some oc)) args) w = (Inr (rows, None), w') \<and>
    scanRows msg scan rows None = Inr (map dec ys) \<and>
    sorted_wrt (\<lambda>x y. le (col (enc x) oc) (col (enc y) oc)) ys"
proof -
  obtain rs w' where q: "view w' = view w" "ordered le (Select cols tbl conds (Some oc)) rs"
    "mset rs = mset (map enc xs)"
    "run_state (db_Query D (Select cols tbl conds (Some oc)) args) w = (Inr (map (projected (Select cols tbl conds (Some oc))) rs, None), w')"
    by (rule sql_db_Query [OF db, of w args "Select cols tbl conds (Some oc)"]) (simp_all only: sel accepts.simps fit)
  from mset_map_split [OF q(3)] obtain ys where ys: "rs = map enc ys" "mset ys = mset xs" by blast
  have "scanRows msg scan (map (\<lambda>x. map (col (enc x)) cols) ys) None = Inr (map dec ys)"
    by (induction ys) (simp_all add: scan)
  with q ys show ?thesis by (intro exI [of _ ys]) (auto simp: o_def sorted_wrt_map)
qed

section \<open>A transaction around a call\<close>

text \<open>How the engine uses a \<open>TxProvider\<close>: begin, run the body, roll back on its error and commit otherwise.\<close>

definition inTx :: "'w TxProvider \<Rightarrow> (gval \<Rightarrow> 'w proc) \<Rightarrow> 'w proc" where
  "inTx TX body =
     attempt (tx_Begin TX) (\<lambda>err. ret (Some err))
       (\<lambda>tx. check (body tx) (\<lambda>err. do { _ \<leftarrow> tx_Rollback TX tx; ret (Some err) }) (tx_Commit TX tx))"

text \<open>A provider whose calls are those of the driver, up to what it makes of errors.\<close>

definition tx_of :: "'w sqldb \<Rightarrow> 'w TxProvider \<Rightarrow> bool" where
  "tx_of D TX \<longleftrightarrow>
     (\<forall>w tx w'. run_state (db_Begin D) w = (Inr tx, w') \<longrightarrow> run_state (tx_Begin TX) w = (Inr tx, w')) \<and>
     (\<forall>tx. db_isTx D tx \<longrightarrow> tx_Commit TX tx = db_Commit D tx \<and> tx_Rollback TX tx = db_Rollback D tx)"

lemma inTx_begin:
  assumes db: "sql_db co sch le view D" "dv_tx (view w) = None" and TX: "tx_of D TX"
  obtains tx w1 where "db_isTx D tx" "view w1 = (view w)\<lparr>dv_tx := Some (tx, dv_tables (view w))\<rparr>"
    "run_state (inTx TX body) w = run_state (check (body tx)
       (\<lambda>err. do { _ \<leftarrow> db_Rollback D tx; ret (Some err) }) (db_Commit D tx)) w1"
proof -
  obtain tx w1 where b: "run_state (db_Begin D) w = (Inr tx, w1)"
    "view w1 = (view w)\<lparr>dv_tx := Some (tx, dv_tables (view w))\<rparr>" by (rule sql_db_Begin [OF db])
  have isTx: "db_isTx D tx" by (rule sql_db_isTx [OF db(1), of w1]) (simp add: b(2))
  then have "run_state (inTx TX body) w = run_state (check (body tx)
       (\<lambda>err. do { _ \<leftarrow> db_Rollback D tx; ret (Some err) }) (db_Commit D tx)) w1"
    using TX b(1) by (simp add: inTx_def tx_of_def run_attempt)
  with that [OF isTx b(2)] show thesis by blast
qed

lemma inTx_commit:
  assumes db: "sql_db co sch le view D" "dv_tx (view w) = None" and TX: "tx_of D TX"
    and body: "\<And>tx w1. view w1 = (view w)\<lparr>dv_tx := Some (tx, dv_tables (view w))\<rparr> \<Longrightarrow> db_isTx D tx \<Longrightarrow>
      \<exists>w2. run_state (body tx) w1 = (None, w2) \<and> view w2 = (view w1)\<lparr>dv_tx := Some (tx, T)\<rparr>"
  shows "\<exists>w'. run_state (inTx TX body) w = (None, w') \<and> view w' = (view w)\<lparr>dv_tables := T\<rparr>"
proof -
  obtain tx w1 where b: "db_isTx D tx" "view w1 = (view w)\<lparr>dv_tx := Some (tx, dv_tables (view w))\<rparr>"
    "run_state (inTx TX body) w = run_state (check (body tx)
       (\<lambda>err. do { _ \<leftarrow> db_Rollback D tx; ret (Some err) }) (db_Commit D tx)) w1" by (rule inTx_begin [OF db TX])
  from body [OF b(2,1)] obtain w2 where w2: "run_state (body tx) w1 = (None, w2)"
    "view w2 = (view w1)\<lparr>dv_tx := Some (tx, T)\<rparr>" by blast
  obtain w' where w': "run_state (db_Commit D tx) w2 = (None, w')" "view w' = (view w2)\<lparr>dv_tables := T, dv_tx := None\<rparr>"
    by (rule sql_db_Commit [OF db(1), of w2 tx T]) (simp_all add: w2)
  have "(view w)\<lparr>dv_tables := T, dv_tx := None\<rparr> = (view w)\<lparr>dv_tables := T\<rparr>" using db(2) by simp
  then show ?thesis using w' w2 b by (simp add: run_check)
qed

lemma inTx_abort:
  assumes db: "sql_db co sch le view D" "dv_tx (view w) = None" and TX: "tx_of D TX"
    and body: "\<And>tx w1. view w1 = (view w)\<lparr>dv_tx := Some (tx, dv_tables (view w))\<rparr> \<Longrightarrow> db_isTx D tx \<Longrightarrow>
      \<exists>w2 T err. run_state (body tx) w1 = (Some err, w2) \<and> P err \<and> view w2 = (view w1)\<lparr>dv_tx := Some (tx, T)\<rparr>"
  shows "\<exists>w' err. run_state (inTx TX body) w = (Some err, w') \<and> P err \<and> view w' = view w"
proof -
  obtain tx w1 where b: "db_isTx D tx" "view w1 = (view w)\<lparr>dv_tx := Some (tx, dv_tables (view w))\<rparr>"
    "run_state (inTx TX body) w = run_state (check (body tx)
       (\<lambda>err. do { _ \<leftarrow> db_Rollback D tx; ret (Some err) }) (db_Commit D tx)) w1" by (rule inTx_begin [OF db TX])
  from body [OF b(2,1)] obtain w2 T err where w2: "run_state (body tx) w1 = (Some err, w2)" "P err"
    "view w2 = (view w1)\<lparr>dv_tx := Some (tx, T)\<rparr>" by blast
  obtain w' where w': "run_state (db_Rollback D tx) w2 = (None, w')" "view w' = (view w2)\<lparr>dv_tx := None\<rparr>"
    by (rule sql_db_Rollback [OF db(1), of w2 tx T]) (simp_all add: w2)
  have "(view w)\<lparr>dv_tx := None\<rparr> = view w" using db(2) by simp
  then show ?thesis using w' w2 b by (simp add: run_check)
qed

section \<open>A server that meets the contract\<close>

definition refdb_select :: "coercion \<Rightarrow> sqlschema \<Rightarrow> (sqlval \<Rightarrow> int) \<Rightarrow> stmt \<Rightarrow> sqlval list \<Rightarrow> dbview \<Rightarrow> sqlrow list" where
  "refdb_select co sch rank st args v =
     (let rs = chosen co sch (dv_now v) args st (dv_tables v) in
      case st of Select _ _ _ (Some c) \<Rightarrow> sort_key (\<lambda>r. rank (col r c)) rs | _ \<Rightarrow> rs)"

definition refdb :: "coercion \<Rightarrow> sqlschema \<Rightarrow> (sqlval \<Rightarrow> int) \<Rightarrow> dbview sqldb" where
  "refdb co sch rank =
     \<lparr>db_isTx = (\<lambda>tx. tx = GOpaque 1),
      db_Begin = State (\<lambda>v. (Inr (GOpaque 1), v\<lparr>dv_tx := Some (GOpaque 1, dv_tables v)\<rparr>)),
      db_Commit = (\<lambda>tx. State (\<lambda>v. case dv_tx v of
         None \<Rightarrow> (Some (UserErr 1), v)
       | Some (_, T) \<Rightarrow> (None, v\<lparr>dv_tables := T, dv_tx := None\<rparr>))),
      db_Rollback = (\<lambda>tx. State (\<lambda>v. (None, v\<lparr>dv_tx := None\<rparr>))),
      db_TxExec = (\<lambda>tx st args. State (\<lambda>v. case dv_tx v of
         None \<Rightarrow> (Inl (UserErr 1), v)
       | Some (_, T) \<Rightarrow> (case apply_stmt co sch (dv_now v) args st T of
           None \<Rightarrow> (Inl (UserErr 2), v) | Some (T', n) \<Rightarrow> (Inr n, v\<lparr>dv_tx := Some (GOpaque 1, T')\<rparr>)))),
      db_Exec = (\<lambda>st args. State (\<lambda>v. case apply_stmt co sch (dv_now v) args st (dv_tables v) of
         None \<Rightarrow> (Inl (UserErr 2), v) | Some (T', n) \<Rightarrow> (Inr n, v\<lparr>dv_tables := T'\<rparr>))),
      db_QueryRow = (\<lambda>st args. State (\<lambda>v. (Inr (case chosen co sch (dv_now v) args st (dv_tables v) of
         [] \<Rightarrow> None | r # _ \<Rightarrow> Some (projected st r)), v))),
      db_Query = (\<lambda>st args. State (\<lambda>v. (Inr (map (projected st) (refdb_select co sch rank st args v), None), v))),
      db_ScanString = (\<lambda>v. case v of SText s \<Rightarrow> Inr s | _ \<Rightarrow> Inl (UserErr 3)),
      db_ScanInt = (\<lambda>v. case v of SInt n \<Rightarrow> Inr n | _ \<Rightarrow> Inl (UserErr 3)),
      db_ScanBool = (\<lambda>v. case v of SBool b \<Rightarrow> Inr b | _ \<Rightarrow> Inl (UserErr 3)),
      db_ScanTime = (\<lambda>v. case v of STime t \<Rightarrow> Inr t | _ \<Rightarrow> Inl (UserErr 3)),
      db_ScanBytes = (\<lambda>v. case v of SText s \<Rightarrow> Inr (Some s) | SNull \<Rightarrow> Inr None | _ \<Rightarrow> Inl (UserErr 3))\<rparr>"

definition refdb_view :: "dbview \<Rightarrow> dbview" where
  "refdb_view v = v\<lparr>dv_tx := map_option (\<lambda>(_, T). (GOpaque 1, T)) (dv_tx v)\<rparr>"

lemma refdb_ordered:
  "ordered (\<lambda>a b. rank a \<le> rank b) st (refdb_select co sch rank st args v)"
  by (cases "(\<lambda>a b. rank a \<le> rank b, st, refdb_select co sch rank st args v)" rule: ordered.cases)
     (use sorted_sort_key in \<open>auto simp: refdb_select_def Let_def sorted_wrt_map\<close>)

lemma refdb_mset:
  "mset (refdb_select co sch rank st args v) = mset (chosen co sch (dv_now v) args st (dv_tables v))"
  by (simp add: refdb_select_def Let_def split: stmt.splits option.splits)

lemma refdb_scans: "sql_scans (refdb co sch rank)"
  by (simp add: sql_scans_def refdb_def)

lemma refdb_txs: "sql_txs refdb_view (refdb co sch rank)"
  by (auto simp: sql_txs_def refdb_def refdb_view_def)

lemma refdb_reads: "sql_reads co sch (\<lambda>a b. rank a \<le> rank b) refdb_view (refdb co sch rank)"
  unfolding sql_reads_def
proof (intro conjI allI impI)
  fix st args w
  show "\<exists>w'. refdb_view w' = refdb_view w \<and> run_state (db_QueryRow (refdb co sch rank) st args) w =
      (Inr (case chosen co sch (dv_now (refdb_view w)) args st (dv_tables (refdb_view w)) of
              [] \<Rightarrow> None | r # _ \<Rightarrow> Some (projected st r)), w')"
    by (rule exI [of _ w]) (simp add: refdb_def refdb_view_def)
next
  fix st args w
  show "\<exists>w' rs. refdb_view w' = refdb_view w \<and> ordered (\<lambda>a b. rank a \<le> rank b) st rs \<and>
      mset rs = mset (chosen co sch (dv_now (refdb_view w)) args st (dv_tables (refdb_view w))) \<and>
      run_state (db_Query (refdb co sch rank) st args) w = (Inr (map (projected st) rs, None), w')"
    by (rule exI [of _ w], rule exI [of _ "refdb_select co sch rank st args w"])
       (simp add: refdb_ordered refdb_mset, simp add: refdb_def refdb_view_def)
qed

lemma refdb_writes: "sql_writes co sch refdb_view (refdb co sch rank)"
  unfolding sql_writes_def
proof (intro conjI allI impI)
  fix st args tx T w
  assume tx: "dv_tx (refdb_view w) = Some (tx, T)"
  then obtain h where h: "dv_tx w = Some (h, T)" "tx = GOpaque 1" by (auto simp: refdb_view_def)
  show "\<exists>w'. case apply_stmt co sch (dv_now (refdb_view w)) args st T of
      None \<Rightarrow> refdb_view w' = refdb_view w \<and> (\<exists>err. run_state (db_TxExec (refdb co sch rank) tx st args) w = (Inl err, w'))
    | Some (T', n) \<Rightarrow> refdb_view w' = (refdb_view w)\<lparr>dv_tx := Some (tx, T')\<rparr> \<and>
        run_state (db_TxExec (refdb co sch rank) tx st args) w = (Inr n, w')"
    by (cases "apply_stmt co sch (dv_now w) args st T")
       (auto simp: refdb_def refdb_view_def h split: prod.splits)
next
  fix st args w
  show "\<exists>w'. case apply_stmt co sch (dv_now (refdb_view w)) args st (dv_tables (refdb_view w)) of
      None \<Rightarrow> refdb_view w' = refdb_view w \<and> (\<exists>err. run_state (db_Exec (refdb co sch rank) st args) w = (Inl err, w'))
    | Some (T', n) \<Rightarrow> refdb_view w' = (refdb_view w)\<lparr>dv_tables := T'\<rparr> \<and>
        run_state (db_Exec (refdb co sch rank) st args) w = (Inr n, w')"
    by (cases "apply_stmt co sch (dv_now w) args st (dv_tables w)")
       (auto simp: refdb_def refdb_view_def split: prod.splits)
qed

lemma refdb_sql_db: "sql_db co sch (\<lambda>a b. rank a \<le> rank b) refdb_view (refdb co sch rank)"
  by (simp add: sql_db_def refdb_scans refdb_txs refdb_reads refdb_writes)

text \<open>Codecs and a conversion for examples.\<close>

definition sampleFormat :: "gtime \<Rightarrow> string" where
  "sampleFormat t = (if t < 0 then CHR ''-'' # replicate (nat (- t)) CHR ''1'' else replicate (nat t) CHR ''1'')"

definition sampleParse :: "string \<Rightarrow> gtime" where
  "sampleParse s = (case s of [] \<Rightarrow> 0 | x # xs \<Rightarrow> if x = CHR ''-'' then - int (length xs) else int (length s))"

lemma sampleParse_Format: "sampleParse (sampleFormat t) = t"
proof (cases "t > 0")
  case True
  then obtain n where "nat t = Suc n" by (metis Suc_pred zero_less_nat_eq)
  with True show ?thesis by (simp add: sampleParse_def sampleFormat_def)
qed (auto simp: sampleParse_def sampleFormat_def)

definition sampleCodec :: codec where
  "sampleCodec =
     \<lparr>cd_Params = (\<lambda>_. ''null''), cd_toParams = (\<lambda>_. None),
      cd_StrMap = (\<lambda>_. ''{}''), cd_toStrMap = (\<lambda>_. Some []),
      cd_Options = (\<lambda>_. ''[]''), cd_toOptions = (\<lambda>_. []),
      cd_Input = (\<lambda>_. ''{}''), cd_toInput = (\<lambda>_. zero_input), cd_Retry = (\<lambda>_. ''null''), cd_toRetry = (\<lambda>_. None),
      cd_Result = (\<lambda>_. ''{}''), cd_toResult = (\<lambda>_. \<lparr>ar_Output = None, ar_Error = []\<rparr>),
      cd_Format = sampleFormat, cd_Parse = sampleParse,
      cd_Text = (\<lambda>x. case x of Text s \<Rightarrow> s | _ \<Rightarrow> [])\<rparr>"

fun sampleCoercion :: coercion where
  "sampleCoercion _ v = Some v"

end
