(* ===== verification/Flow_Sqlite.thy ===== *)
theory Flow_Sqlite
  imports Flow_Sql
begin

text \<open>
  The SQLite stores, \<open>adapters/sqlitestore/store.go\<close>, over a driver \<open>D\<close> and the codecs \<open>c\<close> of
  \<open>Flow_Sql\<close>, with the tables of \<open>adapters/sqlitestore/migrations\<close> that they use.
\<close>

section \<open>Schema\<close>

definition textCol :: "string \<Rightarrow> colspec" where
  "textCol n = \<lparr>cs_name = n, cs_type = CText, cs_notnull = False, cs_unique = False, cs_default = Lit SNull\<rparr>"

definition notNull :: "colspec \<Rightarrow> colspec" where
  "notNull s = s\<lparr>cs_notnull := True\<rparr>"

definition uniqueCol :: "colspec \<Rightarrow> colspec" where
  "uniqueCol s = s\<lparr>cs_unique := True\<rparr>"

definition intCol :: "string \<Rightarrow> int \<Rightarrow> colspec" where
  "intCol n d = \<lparr>cs_name = n, cs_type = CInt, cs_notnull = False, cs_unique = False, cs_default = Lit (SInt d)\<rparr>"

definition sqlite_events :: "colspec list" where
  "sqlite_events =
     [uniqueCol (textCol ''id''), notNull (textCol ''aggregate_type''), notNull (textCol ''aggregate_id''),
      notNull (textCol ''workflow_type''), notNull (intCol ''workflow_version'' 1),
      notNull (textCol ''event_type''), notNull (textCol ''correlation_id''), textCol ''causation_id'',
      textCol ''actor_id'', textCol ''transition_name'', textCol ''state_before'', textCol ''state_after'',
      textCol ''payload'', notNull (textCol ''created_at'')]"

definition docCol :: "string \<Rightarrow> colspec" where
  "docCol n = (textCol n)\<lparr>cs_default := Lit (SText ''{}'')\<rparr>"

definition sqlite_instances :: "colspec list" where
  "sqlite_instances =
     [uniqueCol (textCol ''id''), notNull (textCol ''workflow_type''), notNull (intCol ''workflow_version'' 1),
      notNull (textCol ''aggregate_type''), uniqueCol (notNull (textCol ''aggregate_id'')),
      notNull (textCol ''current_state''), docCol ''state_data'', notNull (textCol ''correlation_id''),
      intCol ''is_stuck'' 0, textCol ''stuck_reason'', intCol ''retry_count'' 0,
      notNull (textCol ''created_at''), notNull (textCol ''updated_at''),
      docCol ''shallow_history'', docCol ''deep_history'', docCol ''active_in_parallel'',
      intCol ''parallel_clock'' 0]"

definition sqlite_schema :: sqlschema where
  "sqlite_schema tbl =
     (if tbl = ''flowstep_events'' then sqlite_events
      else if tbl = ''flowstep_instances'' then sqlite_instances else [])"

lemmas column_defs = textCol_def notNull_def uniqueCol_def intCol_def docCol_def

text \<open>A TEXT column keeps a text and an INTEGER column an integer as it is sent.\<close>

definition plain_coercion :: "coercion \<Rightarrow> bool" where
  "plain_coercion co \<longleftrightarrow> (\<forall>s. co CText (SText s) = Some (SText s)) \<and> (\<forall>n. co CInt (SInt n) = Some (SInt n))"

section \<open>Transactions\<close>

definition sqlite_Begin :: "'w sqldb \<Rightarrow> ('w, gval) prog" where
  "sqlite_Begin D = attempt (db_Begin D) (\<lambda>err. fail (Errorf ''sqlitestore: begin tx: %w'' [] (Some err))) ok"

text \<open>A type assertion \<open>tx.(*sql.Tx)\<close> on another value panics.\<close>

definition notSqlTx :: gerr where
  "notSqlTx = Panic ''interface conversion: interface {} is not *sql.Tx''"

definition sqlite_Commit :: "'w sqldb \<Rightarrow> gval \<Rightarrow> 'w proc" where
  "sqlite_Commit D tx = (if db_isTx D tx then db_Commit D tx else ret (Some notSqlTx))"

definition sqlite_Rollback :: "'w sqldb \<Rightarrow> gval \<Rightarrow> 'w proc" where
  "sqlite_Rollback D tx = (if db_isTx D tx then db_Rollback D tx else ret (Some notSqlTx))"

definition sqlite_NewTxProvider :: "'w sqldb \<Rightarrow> 'w TxProvider" where
  "sqlite_NewTxProvider D =
     \<lparr>tx_Begin = sqlite_Begin D, tx_Commit = sqlite_Commit D, tx_Rollback = sqlite_Rollback D, tx_Savepoints = None\<rparr>"

section \<open>Event store\<close>

definition eventColumns :: "string list" where
  "eventColumns =
     [''id'', ''aggregate_type'', ''aggregate_id'', ''workflow_type'', ''workflow_version'',
      ''event_type'', ''correlation_id'', ''causation_id'', ''actor_id'', ''transition_name'',
      ''state_before'', ''state_after'', ''payload'', ''created_at'']"

definition sqlite_eventArgs :: "codec \<Rightarrow> DomainEvent \<Rightarrow> sqlval list" where
  "sqlite_eventArgs c event =
     [SText (ev_ID event), SText (ev_AggregateType event), SText (ev_AggregateID event),
      SText (ev_WorkflowType event), SInt (ev_WorkflowVersion event),
      SText (ev_EventType event), SText (ev_CorrelationID event), SText (ev_CausationID event),
      SText (ev_ActorID event), SText (ev_TransitionName event),
      SText (cd_Params c (ev_StateBefore event)), SText (cd_Params c (ev_StateAfter event)),
      SText (cd_Params c (ev_Payload event)), SText (cd_Format c (ev_CreatedAt event))]"

definition sqlite_Append :: "'w sqldb \<Rightarrow> codec \<Rightarrow> gval \<Rightarrow> DomainEvent \<Rightarrow> 'w proc" where
  "sqlite_Append D c tx event =
     (if \<not> db_isTx D tx then ret (Some notSqlTx)
      else attempt (db_TxExec D tx (Insert ''flowstep_events'' eventColumns) (sqlite_eventArgs c event))
        (\<lambda>err. ret (Some (Errorf ''sqlitestore: insert event: %w'' [] (Some err))))
        (\<lambda>_. ret None))"

definition scanMismatch :: gerr where
  "scanMismatch = Errorf ''sql: expected destination arguments in Scan'' [] None"

text \<open>One row of \<open>scanEvents\<close>. The fields that no column holds keep their zero values.\<close>

definition sqlite_scanEvent :: "'w sqldb \<Rightarrow> codec \<Rightarrow> sqlval list \<Rightarrow> gerr + DomainEvent" where
  "sqlite_scanEvent D c row =
     (if length row \<noteq> 14 then Inl scanMismatch else
      into (db_ScanString D (row ! 0)) (\<lambda>i.
      into (db_ScanString D (row ! 1)) (\<lambda>aggregateType.
      into (db_ScanString D (row ! 2)) (\<lambda>aggregateID.
      into (db_ScanString D (row ! 3)) (\<lambda>workflowType.
      into (db_ScanInt D (row ! 4)) (\<lambda>workflowVersion.
      into (db_ScanString D (row ! 5)) (\<lambda>eventType.
      into (db_ScanString D (row ! 6)) (\<lambda>correlationID.
      into (db_ScanString D (row ! 7)) (\<lambda>causationID.
      into (db_ScanString D (row ! 8)) (\<lambda>actorID.
      into (db_ScanString D (row ! 9)) (\<lambda>transitionName.
      into (db_ScanString D (row ! 10)) (\<lambda>stateBefore.
      into (db_ScanString D (row ! 11)) (\<lambda>stateAfter.
      into (db_ScanString D (row ! 12)) (\<lambda>payload.
      into (db_ScanString D (row ! 13)) (\<lambda>createdAt.
      Inr \<lparr>ev_ID = i, ev_AggregateType = aggregateType, ev_AggregateID = aggregateID,
           ev_WorkflowType = workflowType, ev_WorkflowVersion = workflowVersion,
           ev_EventType = eventType, ev_CorrelationID = correlationID, ev_CausationID = causationID,
           ev_ActorID = actorID, ev_StateBefore = cd_toParams c stateBefore,
           ev_StateAfter = cd_toParams c stateAfter, ev_TransitionName = transitionName,
           ev_Error = None, ev_Payload = cd_toParams c payload, ev_CreatedAt = cd_Parse c createdAt,
           ev_SequenceNum = 0\<rparr>)))))))))))))))"

definition sqlite_scanEvents :: "'w sqldb \<Rightarrow> codec \<Rightarrow> sqlval list list \<Rightarrow> gerr option \<Rightarrow> gerr + DomainEvent list" where
  "sqlite_scanEvents D c = scanRows ''sqlitestore: scan event: %w'' (sqlite_scanEvent D c)"

definition byCorrelation :: stmt where
  "byCorrelation = Select eventColumns ''flowstep_events'' [(''correlation_id'', EqOp, Arg 0)] (Some ''created_at'')"

definition byAggregate :: stmt where
  "byAggregate = Select eventColumns ''flowstep_events''
     [(''aggregate_type'', EqOp, Arg 0), (''aggregate_id'', EqOp, Arg 1)] (Some ''created_at'')"

definition sqlite_ListByCorrelation :: "'w sqldb \<Rightarrow> codec \<Rightarrow> string \<Rightarrow> ('w, DomainEvent list) prog" where
  "sqlite_ListByCorrelation D c correlationID =
     attempt (db_Query D byCorrelation [SText correlationID])
       (\<lambda>err. fail (Errorf ''sqlitestore: query events: %w'' [] (Some err)))
       (\<lambda>(rows, rowsErr). ret (sqlite_scanEvents D c rows rowsErr))"

definition sqlite_ListByAggregate :: "'w sqldb \<Rightarrow> codec \<Rightarrow> string \<Rightarrow> string \<Rightarrow> ('w, DomainEvent list) prog" where
  "sqlite_ListByAggregate D c aggregateType aggregateID =
     attempt (db_Query D byAggregate [SText aggregateType, SText aggregateID])
       (\<lambda>err. fail (Errorf ''sqlitestore: query events: %w'' [] (Some err)))
       (\<lambda>(rows, rowsErr). ret (sqlite_scanEvents D c rows rowsErr))"

definition sqlite_NewEventStore :: "'w sqldb \<Rightarrow> codec \<Rightarrow> 'w EventStore" where
  "sqlite_NewEventStore D c =
     \<lparr>es_Append = sqlite_Append D c, es_ListByCorrelation = sqlite_ListByCorrelation D c,
      es_ListByAggregate = sqlite_ListByAggregate D c\<rparr>"

section \<open>Instance store\<close>

definition instanceColumns :: "string list" where
  "instanceColumns =
     [''id'', ''workflow_type'', ''workflow_version'', ''aggregate_type'', ''aggregate_id'',
      ''current_state'', ''state_data'', ''correlation_id'', ''is_stuck'', ''stuck_reason'',
      ''retry_count'', ''created_at'', ''updated_at'',
      ''shallow_history'', ''deep_history'', ''active_in_parallel'', ''parallel_clock'']"

definition stuckFlag :: "WorkflowInstance \<Rightarrow> int" where
  "stuckFlag inst = (if wi_IsStuck inst then 1 else 0)"

definition sqlite_instanceArgs :: "codec \<Rightarrow> WorkflowInstance \<Rightarrow> sqlval list" where
  "sqlite_instanceArgs c inst =
     [SText (wi_ID inst), SText (wi_WorkflowType inst), SInt (wi_WorkflowVersion inst),
      SText (wi_AggregateType inst), SText (wi_AggregateID inst),
      SText (wi_CurrentState inst), SText (cd_Params c (wi_StateData inst)), SText (wi_CorrelationID inst),
      SInt (stuckFlag inst), SText (cd_Text c (wi_StuckReason inst)), SInt (wi_RetryCount inst),
      SText (cd_Format c (wi_CreatedAt inst)), SText (cd_Format c (wi_UpdatedAt inst)),
      SText (cd_StrMap c (wi_ShallowHistory inst)), SText (cd_StrMap c (wi_DeepHistory inst)),
      SText (cd_StrMap c (wi_ActiveInParallel inst)), SInt (sint (wi_ParallelClock inst))]"

definition sqlite_scanInstance :: "'w sqldb \<Rightarrow> codec \<Rightarrow> sqlval list \<Rightarrow> gerr + WorkflowInstance" where
  "sqlite_scanInstance D c row =
     (if length row \<noteq> 17 then Inl scanMismatch else
      into (db_ScanString D (row ! 0)) (\<lambda>i.
      into (db_ScanString D (row ! 1)) (\<lambda>workflowType.
      into (db_ScanInt D (row ! 2)) (\<lambda>workflowVersion.
      into (db_ScanString D (row ! 3)) (\<lambda>aggregateType.
      into (db_ScanString D (row ! 4)) (\<lambda>aggregateID.
      into (db_ScanString D (row ! 5)) (\<lambda>currentState.
      into (db_ScanString D (row ! 6)) (\<lambda>stateData.
      into (db_ScanString D (row ! 7)) (\<lambda>correlationID.
      into (db_ScanInt D (row ! 8)) (\<lambda>isStuck.
      into (db_ScanString D (row ! 9)) (\<lambda>stuckReason.
      into (db_ScanInt D (row ! 10)) (\<lambda>retryCount.
      into (db_ScanString D (row ! 11)) (\<lambda>createdAt.
      into (db_ScanString D (row ! 12)) (\<lambda>updatedAt.
      into (db_ScanString D (row ! 13)) (\<lambda>shallowHistory.
      into (db_ScanString D (row ! 14)) (\<lambda>deepHistory.
      into (db_ScanString D (row ! 15)) (\<lambda>activeInParallel.
      into (db_ScanInt D (row ! 16)) (\<lambda>parallelClock.
      Inr (zero_instance\<lparr>wi_ID := i, wi_WorkflowType := workflowType, wi_WorkflowVersion := workflowVersion,
           wi_AggregateType := aggregateType, wi_AggregateID := aggregateID,
           wi_CurrentState := currentState, wi_StateData := cd_toParams c stateData,
           wi_CorrelationID := correlationID, wi_IsStuck := isStuck \<noteq> 0, wi_StuckReason := Text stuckReason,
           wi_RetryCount := retryCount, wi_CreatedAt := cd_Parse c createdAt, wi_UpdatedAt := cd_Parse c updatedAt,
           wi_ShallowHistory := cd_toStrMap c shallowHistory, wi_DeepHistory := cd_toStrMap c deepHistory,
           wi_ActiveInParallel := cd_toStrMap c activeInParallel,
           wi_ParallelClock := word_of_int parallelClock\<rparr>)))))))))))))))))))"

definition selectInstance :: stmt where
  "selectInstance = Select instanceColumns ''flowstep_instances''
     [(''aggregate_type'', EqOp, Arg 0), (''aggregate_id'', EqOp, Arg 1)] None"

definition sqlite_Get :: "'w sqldb \<Rightarrow> codec \<Rightarrow> gerr \<Rightarrow> string \<Rightarrow> string \<Rightarrow> ('w, WorkflowInstance) prog" where
  "sqlite_Get D c errNotFound aggregateType aggregateID =
     attempt (db_QueryRow D selectInstance [SText aggregateType, SText aggregateID])
       (\<lambda>err. fail (Errorf ''sqlitestore: get instance: %w'' [] (Some err)))
       (\<lambda>found. case found of
          None \<Rightarrow> fail errNotFound
        | Some row \<Rightarrow> (case sqlite_scanInstance D c row of
            Inl err \<Rightarrow> fail (Errorf ''sqlitestore: get instance: %w'' [] (Some err))
          | Inr inst \<Rightarrow> ok inst))"

definition sqlite_Create :: "'w sqldb \<Rightarrow> codec \<Rightarrow> gval \<Rightarrow> WorkflowInstance \<Rightarrow> 'w proc" where
  "sqlite_Create D c tx inst =
     (if \<not> db_isTx D tx then ret (Some notSqlTx)
      else attempt (db_TxExec D tx (Insert ''flowstep_instances'' instanceColumns) (sqlite_instanceArgs c inst))
        (\<lambda>err. ret (Some (Errorf ''sqlitestore: create instance: %w'' [] (Some err))))
        (\<lambda>_. ret None))"

definition instanceSets :: "(string \<times> operand) list" where
  "instanceSets =
     [(''current_state'', Arg 0), (''state_data'', Arg 1), (''is_stuck'', Arg 2), (''stuck_reason'', Arg 3),
      (''retry_count'', Arg 4), (''updated_at'', Arg 5), (''shallow_history'', Arg 6), (''deep_history'', Arg 7),
      (''active_in_parallel'', Arg 8), (''parallel_clock'', Arg 9)]"

definition lockConds :: "sqlcond list" where
  "lockConds = [(''aggregate_type'', EqOp, Arg 10), (''aggregate_id'', EqOp, Arg 11), (''updated_at'', EqOp, Arg 12)]"

definition updateInstance :: stmt where
  "updateInstance = Update ''flowstep_instances'' instanceSets lockConds"

definition sqlite_updateArgs :: "codec \<Rightarrow> WorkflowInstance \<Rightarrow> sqlval list" where
  "sqlite_updateArgs c inst =
     [SText (wi_CurrentState inst), SText (cd_Params c (wi_StateData inst)), SInt (stuckFlag inst),
      SText (cd_Text c (wi_StuckReason inst)), SInt (wi_RetryCount inst),
      SText (cd_Format c (wi_UpdatedAt inst)), SText (cd_StrMap c (wi_ShallowHistory inst)),
      SText (cd_StrMap c (wi_DeepHistory inst)), SText (cd_StrMap c (wi_ActiveInParallel inst)),
      SInt (sint (wi_ParallelClock inst)), SText (wi_AggregateType inst), SText (wi_AggregateID inst),
      SText (cd_Format c (wi_LastReadUpdatedAt inst))]"

definition sqlite_Update :: "'w sqldb \<Rightarrow> codec \<Rightarrow> gval \<Rightarrow> WorkflowInstance \<Rightarrow> 'w proc" where
  "sqlite_Update D c tx inst =
     (if \<not> db_isTx D tx then ret (Some notSqlTx)
      else attempt (db_TxExec D tx updateInstance (sqlite_updateArgs c inst))
        (\<lambda>err. ret (Some (Errorf ''sqlitestore: update instance: %w'' [] (Some err))))
        (\<lambda>n. if n = 0
              then ret (Some (Errorf ''sqlitestore: update instance: %w'' [] (Some (Sentinel ErrConcurrentModification))))
              else ret None))"

definition sqlite_selectStuck :: stmt where
  "sqlite_selectStuck = Select instanceColumns ''flowstep_instances''
     [(''is_stuck'', EqOp, Lit (SInt 1))] (Some ''updated_at'')"

definition sqlite_ListStuck :: "'w sqldb \<Rightarrow> codec \<Rightarrow> ('w, WorkflowInstance list) prog" where
  "sqlite_ListStuck D c =
     attempt (db_Query D sqlite_selectStuck [])
       (\<lambda>err. fail (Errorf ''sqlitestore: query stuck: %w'' [] (Some err)))
       (\<lambda>(rows, rowsErr). ret (scanRows ''sqlitestore: scan instance: %w'' (sqlite_scanInstance D c) rows rowsErr))"

definition sqlite_NewInstanceStore :: "'w sqldb \<Rightarrow> codec \<Rightarrow> gerr \<Rightarrow> 'w InstanceStore" where
  "sqlite_NewInstanceStore D c errNotFound =
     \<lparr>is_Get = sqlite_Get D c errNotFound, is_Create = sqlite_Create D c, is_Update = sqlite_Update D c,
      is_ListStuck = sqlite_ListStuck D c\<rparr>"

section \<open>Rows of events and instances\<close>

definition sqlite_eventRow :: "codec \<Rightarrow> DomainEvent \<Rightarrow> sqlrow" where
  "sqlite_eventRow c event = zip eventColumns (sqlite_eventArgs c event)"

definition sqlite_instanceRow :: "codec \<Rightarrow> WorkflowInstance \<Rightarrow> sqlrow" where
  "sqlite_instanceRow c inst = zip instanceColumns (sqlite_instanceArgs c inst)"

lemma distinct_columns: "distinct eventColumns" "distinct instanceColumns"
  by (simp_all add: eventColumns_def instanceColumns_def)

lemma sqlite_columns:
  "eventColumns = map cs_name (sqlite_schema ''flowstep_events'')"
  "instanceColumns = map cs_name (sqlite_schema ''flowstep_instances'')"
  by (simp_all add: eventColumns_def instanceColumns_def sqlite_schema_def sqlite_events_def
        sqlite_instances_def column_defs)

lemma sqlite_eventRow_cols: "map (col (sqlite_eventRow c event)) eventColumns = sqlite_eventArgs c event"
  unfolding sqlite_eventRow_def
  by (rule map_col_zip) (simp_all add: distinct_columns, simp add: eventColumns_def sqlite_eventArgs_def)

lemma sqlite_instanceRow_cols: "map (col (sqlite_instanceRow c inst)) instanceColumns = sqlite_instanceArgs c inst"
  unfolding sqlite_instanceRow_def
  by (rule map_col_zip) (simp_all add: distinct_columns, simp add: instanceColumns_def sqlite_instanceArgs_def)

lemma sqlite_new_event_row:
  assumes "plain_coercion co"
  shows "new_row co sqlite_schema now ''flowstep_events'' eventColumns (sqlite_eventArgs c event) =
    Some (sqlite_eventRow c event)"
  unfolding sqlite_eventRow_def
proof (rule new_row_all)
  show "list_all2 (\<lambda>s v. v = SNull \<or> co (cs_type s) v = Some v) (sqlite_schema ''flowstep_events'') (sqlite_eventArgs c event)"
    using assms by (simp add: plain_coercion_def sqlite_schema_def sqlite_events_def sqlite_eventArgs_def column_defs)
qed (use sqlite_columns distinct_columns in auto)

lemma sqlite_new_instance_row:
  assumes "plain_coercion co"
  shows "new_row co sqlite_schema now ''flowstep_instances'' instanceColumns (sqlite_instanceArgs c inst) =
    Some (sqlite_instanceRow c inst)"
  unfolding sqlite_instanceRow_def
proof (rule new_row_all)
  show "list_all2 (\<lambda>s v. v = SNull \<or> co (cs_type s) v = Some v) (sqlite_schema ''flowstep_instances'')
      (sqlite_instanceArgs c inst)"
    using assms by (simp add: plain_coercion_def sqlite_schema_def sqlite_instances_def sqlite_instanceArgs_def column_defs)
qed (use sqlite_columns distinct_columns in auto)

text \<open>The columns of a row that conditions and constraints read.\<close>

lemma sqlite_instance_col:
  "col (sqlite_instanceRow c inst) ''id'' = SText (wi_ID inst)"
  "col (sqlite_instanceRow c inst) ''workflow_type'' = SText (wi_WorkflowType inst)"
  "col (sqlite_instanceRow c inst) ''workflow_version'' = SInt (wi_WorkflowVersion inst)"
  "col (sqlite_instanceRow c inst) ''aggregate_type'' = SText (wi_AggregateType inst)"
  "col (sqlite_instanceRow c inst) ''aggregate_id'' = SText (wi_AggregateID inst)"
  "col (sqlite_instanceRow c inst) ''current_state'' = SText (wi_CurrentState inst)"
  "col (sqlite_instanceRow c inst) ''correlation_id'' = SText (wi_CorrelationID inst)"
  "col (sqlite_instanceRow c inst) ''is_stuck'' = SInt (stuckFlag inst)"
  "col (sqlite_instanceRow c inst) ''created_at'' = SText (cd_Format c (wi_CreatedAt inst))"
  "col (sqlite_instanceRow c inst) ''updated_at'' = SText (cd_Format c (wi_UpdatedAt inst))"
  by (simp_all add: col_def sqlite_instanceRow_def instanceColumns_def sqlite_instanceArgs_def)

lemma sqlite_event_col:
  "col (sqlite_eventRow c event) ''id'' = SText (ev_ID event)"
  "col (sqlite_eventRow c event) ''aggregate_type'' = SText (ev_AggregateType event)"
  "col (sqlite_eventRow c event) ''aggregate_id'' = SText (ev_AggregateID event)"
  "col (sqlite_eventRow c event) ''workflow_type'' = SText (ev_WorkflowType event)"
  "col (sqlite_eventRow c event) ''workflow_version'' = SInt (ev_WorkflowVersion event)"
  "col (sqlite_eventRow c event) ''event_type'' = SText (ev_EventType event)"
  "col (sqlite_eventRow c event) ''correlation_id'' = SText (ev_CorrelationID event)"
  "col (sqlite_eventRow c event) ''created_at'' = SText (cd_Format c (ev_CreatedAt event))"
  by (simp_all add: col_def sqlite_eventRow_def eventColumns_def sqlite_eventArgs_def)

lemma sqlite_not_missing:
  "\<not> misses (sqlite_schema ''flowstep_instances'') (sqlite_instanceRow c inst)"
  "\<not> misses (sqlite_schema ''flowstep_events'') (sqlite_eventRow c event)"
  by (simp_all add: misses_def sqlite_schema_def sqlite_instances_def sqlite_events_def column_defs
        sqlite_instance_col sqlite_event_col)

lemma sqlite_clashes:
  "clashes (sqlite_schema ''flowstep_instances'') (map (sqlite_instanceRow c) is) (sqlite_instanceRow c inst) \<longleftrightarrow>
     (\<exists>i\<in>set is. wi_ID i = wi_ID inst \<or> wi_AggregateID i = wi_AggregateID inst)"
  "clashes (sqlite_schema ''flowstep_events'') (map (sqlite_eventRow c) es) (sqlite_eventRow c event) \<longleftrightarrow>
     (\<exists>e\<in>set es. ev_ID e = ev_ID event)"
  by (auto simp: clashes_def sqlite_schema_def sqlite_instances_def sqlite_events_def column_defs
        sqlite_instance_col sqlite_event_col list_ex_iff)

lemma sqlite_sent_text:
  assumes "plain_coercion co"
  shows "sent co sqlite_schema ''flowstep_instances'' ''aggregate_type'' (SText s) = Some (SText s)"
    "sent co sqlite_schema ''flowstep_instances'' ''aggregate_id'' (SText s) = Some (SText s)"
    "sent co sqlite_schema ''flowstep_instances'' ''updated_at'' (SText s) = Some (SText s)"
    "sent co sqlite_schema ''flowstep_instances'' ''is_stuck'' (SInt n) = Some (SInt n)"
    "sent co sqlite_schema ''flowstep_events'' ''correlation_id'' (SText s) = Some (SText s)"
    "sent co sqlite_schema ''flowstep_events'' ''aggregate_type'' (SText s) = Some (SText s)"
    "sent co sqlite_schema ''flowstep_events'' ''aggregate_id'' (SText s) = Some (SText s)"
  using assms
  by (simp_all add: plain_coercion_def sent_def sqlite_schema_def sqlite_instances_def sqlite_events_def column_defs)

section \<open>What is read back\<close>

definition sqlite_readback :: "codec \<Rightarrow> WorkflowInstance \<Rightarrow> WorkflowInstance" where
  "sqlite_readback c inst = inst\<lparr>
     wi_StateData := cd_toParams c (cd_Params c (wi_StateData inst)),
     wi_StuckReason := Text (cd_Text c (wi_StuckReason inst)), wi_StuckAt := None,
     wi_CreatedAt := cd_Parse c (cd_Format c (wi_CreatedAt inst)),
     wi_UpdatedAt := cd_Parse c (cd_Format c (wi_UpdatedAt inst)),
     wi_ShallowHistory := cd_toStrMap c (cd_StrMap c (wi_ShallowHistory inst)),
     wi_DeepHistory := cd_toStrMap c (cd_StrMap c (wi_DeepHistory inst)),
     wi_ActiveInParallel := cd_toStrMap c (cd_StrMap c (wi_ActiveInParallel inst)),
     wi_LastReadUpdatedAt := 0\<rparr>"

definition sqlite_eventBack :: "codec \<Rightarrow> DomainEvent \<Rightarrow> DomainEvent" where
  "sqlite_eventBack c event = event\<lparr>
     ev_StateBefore := cd_toParams c (cd_Params c (ev_StateBefore event)),
     ev_StateAfter := cd_toParams c (cd_Params c (ev_StateAfter event)),
     ev_Error := None, ev_Payload := cd_toParams c (cd_Params c (ev_Payload event)),
     ev_CreatedAt := cd_Parse c (cd_Format c (ev_CreatedAt event)), ev_SequenceNum := 0\<rparr>"

lemma sqlite_scanInstance_args:
  assumes "sql_scans D"
  shows "sqlite_scanInstance D c (sqlite_instanceArgs c inst) = Inr (sqlite_readback c inst)"
  using assms
  by (simp add: sqlite_scanInstance_def sqlite_instanceArgs_def sqlite_readback_def zero_instance_def stuckFlag_def)

lemma sqlite_scanEvent_args:
  assumes "sql_scans D"
  shows "sqlite_scanEvent D c (sqlite_eventArgs c event) = Inr (sqlite_eventBack c event)"
  using assms by (simp add: sqlite_scanEvent_def sqlite_eventArgs_def sqlite_eventBack_def)

text \<open>The columns an \<open>UPDATE\<close> writes; the others stay as they were.\<close>

definition written :: "WorkflowInstance \<Rightarrow> WorkflowInstance \<Rightarrow> WorkflowInstance" where
  "written old inst = old\<lparr>
     wi_CurrentState := wi_CurrentState inst, wi_StateData := wi_StateData inst,
     wi_IsStuck := wi_IsStuck inst, wi_StuckReason := wi_StuckReason inst,
     wi_RetryCount := wi_RetryCount inst, wi_UpdatedAt := wi_UpdatedAt inst,
     wi_ShallowHistory := wi_ShallowHistory inst, wi_DeepHistory := wi_DeepHistory inst,
     wi_ActiveInParallel := wi_ActiveInParallel inst, wi_ParallelClock := wi_ParallelClock inst\<rparr>"

definition sameAggregate :: "string \<Rightarrow> string \<Rightarrow> WorkflowInstance \<Rightarrow> bool" where
  "sameAggregate at aid i \<longleftrightarrow> wi_AggregateType i = at \<and> wi_AggregateID i = aid"

definition sqlite_current :: "codec \<Rightarrow> WorkflowInstance \<Rightarrow> WorkflowInstance \<Rightarrow> bool" where
  "sqlite_current c inst i \<longleftrightarrow> sameAggregate (wi_AggregateType inst) (wi_AggregateID inst) i \<and>
     cd_Format c (wi_UpdatedAt i) = cd_Format c (wi_LastReadUpdatedAt inst)"

text \<open>The instances after an \<open>UPDATE\<close>, and the tables that hold given instances.\<close>

definition overwritten ::
  "(WorkflowInstance \<Rightarrow> bool) \<Rightarrow> WorkflowInstance \<Rightarrow> WorkflowInstance list \<Rightarrow> WorkflowInstance list" where
  "overwritten current inst is = map (\<lambda>i. if current i then written i inst else i) is"

abbreviation sqlite_updated :: "codec \<Rightarrow> WorkflowInstance \<Rightarrow> WorkflowInstance list \<Rightarrow> WorkflowInstance list" where
  "sqlite_updated c inst \<equiv> overwritten (sqlite_current c inst) inst"

abbreviation sqlite_with :: "codec \<Rightarrow> WorkflowInstance list \<Rightarrow> sqltables \<Rightarrow> sqltables" where
  "sqlite_with c is T \<equiv> T(''flowstep_instances'' := map (sqlite_instanceRow c) is)"

lemma sqlite_matches_key:
  assumes "plain_coercion co"
  shows "matches co sqlite_schema ''flowstep_instances'' now [SText at, SText aid]
      [(''aggregate_type'', EqOp, Arg 0), (''aggregate_id'', EqOp, Arg 1)] (sqlite_instanceRow c i) \<longleftrightarrow>
    sameAggregate at aid i"
  using assms by (simp add: matches_def opval_def sqlite_sent_text sqlite_instance_col sameAggregate_def)

lemma sqlite_matches_current:
  assumes "plain_coercion co"
  shows "matches co sqlite_schema ''flowstep_instances'' now (sqlite_updateArgs c inst)
      lockConds (sqlite_instanceRow c i) \<longleftrightarrow> sqlite_current c inst i"
  using assms by (simp add: matches_def opval_def sqlite_sent_text sqlite_instance_col sqlite_current_def
      sameAggregate_def sqlite_updateArgs_def lockConds_def)

lemma sqlite_fitting:
  assumes "plain_coercion co"
  shows "fitting co sqlite_schema ''flowstep_instances'' now [SText at, SText aid]
      [(''aggregate_type'', EqOp, Arg 0), (''aggregate_id'', EqOp, Arg 1)]"
    "fitting co sqlite_schema ''flowstep_instances'' now (sqlite_updateArgs c inst) lockConds"
    "fitting co sqlite_schema ''flowstep_instances'' now [] [(''is_stuck'', EqOp, Lit (SInt 1))]"
    "fitting co sqlite_schema ''flowstep_events'' now [SText at, SText aid]
      [(''aggregate_type'', EqOp, Arg 0), (''aggregate_id'', EqOp, Arg 1)]"
    "fitting co sqlite_schema ''flowstep_events'' now [SText cid] [(''correlation_id'', EqOp, Arg 0)]"
  using assms by (simp_all add: fitting_def opval_def sqlite_sent_text lockConds_def sqlite_updateArgs_def)

lemma sqlite_set_cols:
  assumes "plain_coercion co"
  shows "set_cols co sqlite_schema ''flowstep_instances'' now (sqlite_updateArgs c inst)
      instanceSets (sqlite_instanceRow c i) =
    Some (sqlite_instanceRow c (written i inst))"
  using assms
  by (simp add: opval_def sent_def sqlite_schema_def sqlite_instances_def column_defs plain_coercion_def
      sqlite_updateArgs_def sqlite_instanceRow_def instanceColumns_def sqlite_instanceArgs_def written_def
      stuckFlag_def instanceSets_def)

lemma sqlite_apply_update:
  assumes co: "plain_coercion co" and T: "T ''flowstep_instances'' = map (sqlite_instanceRow c) is"
  shows "apply_stmt co sqlite_schema now (sqlite_updateArgs c inst) updateInstance T =
    Some (sqlite_with c (sqlite_updated c inst is) T, int (length (filter (sqlite_current c inst) is)))"
proof -
  let ?m = "matches co sqlite_schema ''flowstep_instances'' now (sqlite_updateArgs c inst) lockConds"
  have filt: "filter ?m (map (sqlite_instanceRow c) is) = map (sqlite_instanceRow c) (filter (sqlite_current c inst) is)"
    using sqlite_matches_current [OF co] by (simp add: filter_map o_def)
  have upd: "(if ?m r then set_cols co sqlite_schema ''flowstep_instances'' now (sqlite_updateArgs c inst)
      instanceSets r else Some r) =
      Some (sqlite_instanceRow c (if sqlite_current c inst i then written i inst else i))"
    if "r = sqlite_instanceRow c i" for r i
    unfolding that sqlite_matches_current [OF co] sqlite_set_cols [OF co] by simp
  show ?thesis
    unfolding updateInstance_def apply_stmt.simps T filt map_map o_def upd [OF refl]
    by (simp add: sqlite_fitting [OF co] those_map_Some list_ex_iff sqlite_not_missing o_def overwritten_def)
qed

lemma sqlite_apply_create:
  assumes "plain_coercion co" "T ''flowstep_instances'' = map (sqlite_instanceRow c) is"
  shows "apply_stmt co sqlite_schema now (sqlite_instanceArgs c inst) (Insert ''flowstep_instances'' instanceColumns) T =
    (if \<exists>i\<in>set is. wi_ID i = wi_ID inst \<or> wi_AggregateID i = wi_AggregateID inst then None
     else Some (sqlite_with c (is @ [inst]) T, 1))"
  using assms by (simp add: sqlite_new_instance_row sqlite_not_missing sqlite_clashes)

lemma sqlite_apply_append:
  assumes "plain_coercion co" "T ''flowstep_events'' = map (sqlite_eventRow c) es"
  shows "apply_stmt co sqlite_schema now (sqlite_eventArgs c event) (Insert ''flowstep_events'' eventColumns) T =
    (if \<exists>e\<in>set es. ev_ID e = ev_ID event then None
     else Some (T(''flowstep_events'' := map (sqlite_eventRow c) (es @ [event])), 1))"
  using assms by (simp add: sqlite_new_event_row sqlite_not_missing sqlite_clashes)

lemma sqlite_keeps_unique:
  "keeps_unique sqlite_schema updateInstance" "keeps_unique sqlite_schema (Insert tbl cols)"
  by (simp_all add: updateInstance_def instanceSets_def sqlite_schema_def sqlite_instances_def column_defs)

lemma sqlite_tx_of: "tx_of D (sqlite_NewTxProvider D)"
  by (simp add: tx_of_def sqlite_NewTxProvider_def sqlite_Begin_def sqlite_Commit_def sqlite_Rollback_def run_attempt)

section \<open>The instance store over its rows\<close>

lemma sqlite_Get_find:
  assumes db: "sql_db co sqlite_schema le view D" and co: "plain_coercion co"
    and rows: "dv_tables (view w) ''flowstep_instances'' = map (sqlite_instanceRow c) is"
  shows "\<exists>w'. view w' = view w \<and> run_state (sqlite_Get D c errNotFound at aid) w =
    (case find (sameAggregate at aid) is of
       None \<Rightarrow> Inl errNotFound | Some i \<Rightarrow> Inr (sqlite_readback c i), w')"
proof -
  let ?args = "[SText at, SText aid]"
  have acc: "accepts co sqlite_schema (dv_now (view w)) ?args selectInstance"
    unfolding selectInstance_def accepts.simps by (rule sqlite_fitting(1) [OF co])
  obtain w' where w': "view w' = view w" "run_state (db_QueryRow D selectInstance ?args) w =
      (Inr (case chosen co sqlite_schema (dv_now (view w)) ?args selectInstance (dv_tables (view w)) of
              [] \<Rightarrow> None | r # _ \<Rightarrow> Some (projected selectInstance r)), w')"
    by (rule sql_db_QueryRow [OF db acc])
  have sel: "chosen co sqlite_schema (dv_now (view w)) ?args selectInstance (dv_tables (view w)) =
      map (sqlite_instanceRow c) (filter (sameAggregate at aid) is)"
    unfolding selectInstance_def chosen.simps rows
    using sqlite_matches_key [OF co] by (simp add: filter_map o_def)
  have hd: "find (sameAggregate at aid) is =
      (case filter (sameAggregate at aid) is of [] \<Rightarrow> None | i # _ \<Rightarrow> Some i)"
    by (induction "is") auto
  show ?thesis
    using w' unfolding sel hd
    by (cases "filter (sameAggregate at aid) is")
       (auto simp: sqlite_Get_def run_attempt selectInstance_def sqlite_instanceRow_cols
          sqlite_scanInstance_args [OF sql_db_scans [OF db]])
qed

lemma sqlite_Update_session:
  assumes db: "sql_db co sqlite_schema le view D" "dv_tx (view w) = None" and co: "plain_coercion co"
    and rows: "dv_tables (view w) ''flowstep_instances'' = map (sqlite_instanceRow c) is"
    and found: "i \<in> set is" "sqlite_current c inst i"
  shows "\<exists>w'. run_state (inTx (sqlite_NewTxProvider D) (\<lambda>tx. sqlite_Update D c tx inst)) w = (None, w') \<and>
    view w' = (view w)\<lparr>dv_tables := sqlite_with c (sqlite_updated c inst is) (dv_tables (view w))\<rparr>"
proof (rule inTx_commit [OF db sqlite_tx_of])
  fix tx w1
  assume w1: "view w1 = (view w)\<lparr>dv_tx := Some (tx, dv_tables (view w))\<rparr>" and isTx: "db_isTx D tx"
  have tx: "dv_tx (view w1) = Some (tx, dv_tables (view w))" by (simp add: w1)
  obtain w2 where w2: "view w2 = (view w1)\<lparr>dv_tx := Some (tx, sqlite_with c (sqlite_updated c inst is) (dv_tables (view w)))\<rparr>"
    "run_state (db_TxExec D tx updateInstance (sqlite_updateArgs c inst)) w1 =
      (Inr (int (length (filter (sqlite_current c inst) is))), w2)"
    by (rule sql_db_TxExec_Some [OF db(1) sqlite_keeps_unique(1) tx sqlite_apply_update [where T = "dv_tables (view w)", OF co rows]])
  from found have "filter (sqlite_current c inst) is \<noteq> []" by (auto simp: filter_empty_conv)
  then show "\<exists>w2. run_state (sqlite_Update D c tx inst) w1 = (None, w2) \<and>
      view w2 = (view w1)\<lparr>dv_tx := Some (tx, sqlite_with c (sqlite_updated c inst is) (dv_tables (view w)))\<rparr>"
    using w2 isTx by (auto simp: sqlite_Update_def run_attempt)
qed

lemma sqlite_Update_conflict:
  assumes db: "sql_db co sqlite_schema le view D" "dv_tx (view w) = None" and co: "plain_coercion co"
    and rows: "dv_tables (view w) ''flowstep_instances'' = map (sqlite_instanceRow c) is"
    and none: "\<not> (\<exists>i\<in>set is. sqlite_current c inst i)"
  shows "\<exists>w' err. run_state (inTx (sqlite_NewTxProvider D) (\<lambda>tx. sqlite_Update D c tx inst)) w = (Some err, w') \<and>
    err_is err ErrConcurrentModification \<and> view w' = view w"
proof (rule inTx_abort [OF db sqlite_tx_of])
  fix tx w1
  assume w1: "view w1 = (view w)\<lparr>dv_tx := Some (tx, dv_tables (view w))\<rparr>" and isTx: "db_isTx D tx"
  have tx: "dv_tx (view w1) = Some (tx, dv_tables (view w))" by (simp add: w1)
  obtain w2 T where "view w2 = (view w1)\<lparr>dv_tx := Some (tx, T)\<rparr>"
    "run_state (db_TxExec D tx updateInstance (sqlite_updateArgs c inst)) w1 =
      (Inr (int (length (filter (sqlite_current c inst) is))), w2)"
    by (rule sql_db_TxExec_Some [OF db(1) sqlite_keeps_unique(1) tx sqlite_apply_update [where T = "dv_tables (view w)", OF co rows]])
  moreover from none have "filter (sqlite_current c inst) is = []" by (auto simp: filter_empty_conv)
  ultimately show "\<exists>w2 T err. run_state (sqlite_Update D c tx inst) w1 = (Some err, w2) \<and>
      err_is err ErrConcurrentModification \<and> view w2 = (view w1)\<lparr>dv_tx := Some (tx, T)\<rparr>"
    using isTx by (auto simp: sqlite_Update_def run_attempt)
qed

lemma sqlite_Create_session:
  assumes db: "sql_db co sqlite_schema le view D" "dv_tx (view w) = None" and co: "plain_coercion co"
    and rows: "dv_tables (view w) ''flowstep_instances'' = map (sqlite_instanceRow c) is"
    and fresh: "\<forall>i\<in>set is. wi_ID i \<noteq> wi_ID inst \<and> wi_AggregateID i \<noteq> wi_AggregateID inst"
  shows "\<exists>w'. run_state (inTx (sqlite_NewTxProvider D) (\<lambda>tx. sqlite_Create D c tx inst)) w = (None, w') \<and>
    view w' = (view w)\<lparr>dv_tables := sqlite_with c (is @ [inst]) (dv_tables (view w))\<rparr>"
proof (rule inTx_commit [OF db sqlite_tx_of])
  fix tx w1
  assume w1: "view w1 = (view w)\<lparr>dv_tx := Some (tx, dv_tables (view w))\<rparr>" and isTx: "db_isTx D tx"
  have tx: "dv_tx (view w1) = Some (tx, dv_tables (view w))" by (simp add: w1)
  have ap: "apply_stmt co sqlite_schema (dv_now (view w1)) (sqlite_instanceArgs c inst)
      (Insert ''flowstep_instances'' instanceColumns) (dv_tables (view w)) =
    Some (sqlite_with c (is @ [inst]) (dv_tables (view w)), 1)"
    unfolding sqlite_apply_create [where T = "dv_tables (view w)", OF co rows] using fresh by auto
  obtain w2 where "view w2 = (view w1)\<lparr>dv_tx := Some (tx, sqlite_with c (is @ [inst]) (dv_tables (view w)))\<rparr>"
    "run_state (db_TxExec D tx (Insert ''flowstep_instances'' instanceColumns) (sqlite_instanceArgs c inst)) w1 = (Inr 1, w2)"
    by (rule sql_db_TxExec_Some [OF db(1) sqlite_keeps_unique(2) tx ap])
  then show "\<exists>w2. run_state (sqlite_Create D c tx inst) w1 = (None, w2) \<and>
      view w2 = (view w1)\<lparr>dv_tx := Some (tx, sqlite_with c (is @ [inst]) (dv_tables (view w)))\<rparr>"
    using isTx by (auto simp: sqlite_Create_def run_attempt)
qed

lemma written_simps [simp]:
  "wi_AggregateType (written i inst) = wi_AggregateType i"
  "wi_AggregateID (written i inst) = wi_AggregateID i"
  "wi_UpdatedAt (written i inst) = wi_UpdatedAt inst"
  by (simp_all add: written_def)

text \<open>An update is visible under its own aggregate only.\<close>

lemma find_overwritten:
  assumes "distinct (map wi_AggregateID is)" "i \<in> set is" "current i"
    and key: "\<And>k. current k \<Longrightarrow> sameAggregate (wi_AggregateType inst) (wi_AggregateID inst) k"
  shows "find (sameAggregate at aid) (overwritten current inst is) =
    (if sameAggregate at aid inst then Some (written i inst) else find (sameAggregate at aid) is)"
  using assms(1-3)
proof (induction "is")
  case (Cons j js)
  from key [OF Cons.prems(3)] have i: "wi_AggregateType i = wi_AggregateType inst" "wi_AggregateID i = wi_AggregateID inst"
    by (simp_all add: sameAggregate_def)
  show ?case
  proof (cases "j = i")
    case True
    then have "\<not> current k" if "k \<in> set js" for k
      using Cons.prems(1) i that by (auto simp: sameAggregate_def dest!: key) (metis image_eqI)
    then have "overwritten current inst js = js" by (simp add: overwritten_def map_idI)
    then show ?thesis using True Cons.prems(3) i by (auto simp: overwritten_def sameAggregate_def)
  next
    case False
    then have js: "i \<in> set js" using Cons.prems by simp
    then have "wi_AggregateID j \<noteq> wi_AggregateID inst" using Cons.prems(1) i(2) by (metis distinct.simps(2) image_eqI list.set_map list.simps(9))
    then have "\<not> current j" "sameAggregate at aid inst \<Longrightarrow> \<not> sameAggregate at aid j"
      by (auto simp: sameAggregate_def dest: key)
    then show ?thesis using Cons.IH [OF _ js] Cons.prems by (simp add: overwritten_def)
  qed
qed simp

lemma sqlite_current_key:
  "sqlite_current c inst k \<Longrightarrow> sameAggregate (wi_AggregateType inst) (wi_AggregateID inst) k"
  by (simp add: sqlite_current_def)

lemma sqlite_Get_result:
  assumes "sql_db co sqlite_schema le view D" "plain_coercion co"
    and "dv_tables (view w) ''flowstep_instances'' = map (sqlite_instanceRow c) is"
  shows "fst (run_state (sqlite_Get D c errNotFound at aid) w) =
    (case find (sameAggregate at aid) is of None \<Rightarrow> Inl errNotFound | Some i \<Rightarrow> Inr (sqlite_readback c i))"
  using sqlite_Get_find [OF assms, of errNotFound at aid] by auto

lemma sqlite_current_iff:
  assumes times: "\<forall>t. cd_Parse c (cd_Format c t) = t"
  shows "sqlite_current c inst i \<longleftrightarrow> sameAggregate (wi_AggregateType inst) (wi_AggregateID inst) i \<and>
    wi_UpdatedAt i = wi_LastReadUpdatedAt inst"
  unfolding sqlite_current_def using times by metis

lemma sqlite_current_find:
  assumes "\<forall>t. cd_Parse c (cd_Format c t) = t" "distinct (map wi_AggregateID is)"
  shows "(\<exists>i\<in>set is. sqlite_current c inst i) \<longleftrightarrow>
    (case find (sameAggregate (wi_AggregateType inst) (wi_AggregateID inst)) is of
       None \<Rightarrow> False | Some i \<Rightarrow> wi_UpdatedAt i = wi_LastReadUpdatedAt inst)"
  using assms(2)
proof (induction "is")
  case (Cons j js)
  have "\<not> (\<exists>i\<in>set js. sqlite_current c inst i)" if "sameAggregate (wi_AggregateType inst) (wi_AggregateID inst) j"
    using that Cons.prems by (auto simp: sqlite_current_def sameAggregate_def) (metis image_eqI)
  then show ?case using Cons by (auto simp: sqlite_current_iff [OF assms(1)])
qed simp

section \<open>Lists of events and of stuck instances\<close>

lemma sqlite_Append_session:
  assumes db: "sql_db co sqlite_schema le view D" "dv_tx (view w) = None" and co: "plain_coercion co"
    and rows: "dv_tables (view w) ''flowstep_events'' = map (sqlite_eventRow c) es"
    and fresh: "\<forall>e\<in>set es. ev_ID e \<noteq> ev_ID event"
  shows "\<exists>w'. run_state (inTx (sqlite_NewTxProvider D) (\<lambda>tx. sqlite_Append D c tx event)) w = (None, w') \<and>
    view w' = (view w)\<lparr>dv_tables := (dv_tables (view w))(''flowstep_events'' := map (sqlite_eventRow c) (es @ [event]))\<rparr>"
proof (rule inTx_commit [OF db sqlite_tx_of])
  fix tx w1
  let ?T = "(dv_tables (view w))(''flowstep_events'' := map (sqlite_eventRow c) (es @ [event]))"
  assume w1: "view w1 = (view w)\<lparr>dv_tx := Some (tx, dv_tables (view w))\<rparr>" and isTx: "db_isTx D tx"
  have tx: "dv_tx (view w1) = Some (tx, dv_tables (view w))" by (simp add: w1)
  have ap: "apply_stmt co sqlite_schema (dv_now (view w1)) (sqlite_eventArgs c event)
      (Insert ''flowstep_events'' eventColumns) (dv_tables (view w)) = Some (?T, 1)"
    unfolding sqlite_apply_append [where T = "dv_tables (view w)", OF co rows] using fresh by auto
  obtain w2 where "view w2 = (view w1)\<lparr>dv_tx := Some (tx, ?T)\<rparr>"
    "run_state (db_TxExec D tx (Insert ''flowstep_events'' eventColumns) (sqlite_eventArgs c event)) w1 = (Inr 1, w2)"
    by (rule sql_db_TxExec_Some [OF db(1) sqlite_keeps_unique(2) tx ap])
  then show "\<exists>w2. run_state (sqlite_Append D c tx event) w1 = (None, w2) \<and> view w2 = (view w1)\<lparr>dv_tx := Some (tx, ?T)\<rparr>"
    using isTx by (auto simp: sqlite_Append_def run_attempt)
qed

lemma sqlite_matches_event:
  assumes "plain_coercion co"
  shows "matches co sqlite_schema ''flowstep_events'' now [SText at, SText aid]
      [(''aggregate_type'', EqOp, Arg 0), (''aggregate_id'', EqOp, Arg 1)] (sqlite_eventRow c e) \<longleftrightarrow>
      ev_AggregateType e = at \<and> ev_AggregateID e = aid"
    "matches co sqlite_schema ''flowstep_events'' now [SText cid] [(''correlation_id'', EqOp, Arg 0)] (sqlite_eventRow c e) \<longleftrightarrow>
      ev_CorrelationID e = cid"
  using assms by (simp_all add: matches_def opval_def sqlite_sent_text sqlite_event_col)

lemma sqlite_event_scan:
  assumes "sql_scans D"
  shows "sqlite_scanEvent D c (map (col (sqlite_eventRow c e)) eventColumns) = Inr (sqlite_eventBack c e)"
  by (simp add: sqlite_eventRow_cols sqlite_scanEvent_args [OF assms])

lemma sqlite_instance_scan:
  assumes "sql_scans D"
  shows "sqlite_scanInstance D c (map (col (sqlite_instanceRow c i)) instanceColumns) = Inr (sqlite_readback c i)"
  by (simp add: sqlite_instanceRow_cols sqlite_scanInstance_args [OF assms])

lemma sqlite_ListByAggregate_result:
  assumes db: "sql_db co sqlite_schema le view D" and co: "plain_coercion co"
    and rows: "dv_tables (view w) ''flowstep_events'' = map (sqlite_eventRow c) es"
  shows "\<exists>ys w'. run_state (sqlite_ListByAggregate D c at aid) w = (Inr (map (sqlite_eventBack c) ys), w') \<and>
    mset ys = mset (filter (\<lambda>e. ev_AggregateType e = at \<and> ev_AggregateID e = aid) es) \<and> view w' = view w"
proof -
  have "chosen co sqlite_schema (dv_now (view w)) [SText at, SText aid] byAggregate (dv_tables (view w)) =
      map (sqlite_eventRow c) (filter (\<lambda>e. ev_AggregateType e = at \<and> ev_AggregateID e = aid) es)"
    unfolding byAggregate_def chosen.simps rows using sqlite_matches_event [OF co] by (simp add: filter_map o_def)
  from sql_db_Query_map [where scan = "sqlite_scanEvent D c" and dec = "sqlite_eventBack c", OF db
      sqlite_fitting(4) [OF co] this [unfolded byAggregate_def] sqlite_event_scan [OF sql_db_scans [OF db]]]
  show ?thesis
    unfolding sqlite_ListByAggregate_def byAggregate_def sqlite_scanEvents_def
    by (fastforce simp: run_attempt)
qed

lemma sqlite_ListByCorrelation_result:
  assumes db: "sql_db co sqlite_schema le view D" and co: "plain_coercion co"
    and rows: "dv_tables (view w) ''flowstep_events'' = map (sqlite_eventRow c) es"
  shows "\<exists>ys w'. run_state (sqlite_ListByCorrelation D c cid) w = (Inr (map (sqlite_eventBack c) ys), w') \<and>
    mset ys = mset (filter (\<lambda>e. ev_CorrelationID e = cid) es) \<and> view w' = view w"
proof -
  have "chosen co sqlite_schema (dv_now (view w)) [SText cid] byCorrelation (dv_tables (view w)) =
      map (sqlite_eventRow c) (filter (\<lambda>e. ev_CorrelationID e = cid) es)"
    unfolding byCorrelation_def chosen.simps rows using sqlite_matches_event [OF co] by (simp add: filter_map o_def)
  from sql_db_Query_map [where scan = "sqlite_scanEvent D c" and dec = "sqlite_eventBack c", OF db
      sqlite_fitting(5) [OF co] this [unfolded byCorrelation_def] sqlite_event_scan [OF sql_db_scans [OF db]]]
  show ?thesis
    unfolding sqlite_ListByCorrelation_def byCorrelation_def sqlite_scanEvents_def
    by (fastforce simp: run_attempt)
qed

lemma sqlite_ListStuck_result:
  assumes db: "sql_db co sqlite_schema le view D" and co: "plain_coercion co"
    and rows: "dv_tables (view w) ''flowstep_instances'' = map (sqlite_instanceRow c) is"
  shows "\<exists>ys w'. run_state (sqlite_ListStuck D c) w = (Inr (map (sqlite_readback c) ys), w') \<and>
    mset ys = mset (filter wi_IsStuck is) \<and> view w' = view w"
proof -
  have "matches co sqlite_schema ''flowstep_instances'' (dv_now (view w)) [] [(''is_stuck'', EqOp, Lit (SInt 1))]
      (sqlite_instanceRow c i) \<longleftrightarrow> wi_IsStuck i" for i
    using co by (simp add: matches_def opval_def sqlite_sent_text sqlite_instance_col stuckFlag_def)
  then have "chosen co sqlite_schema (dv_now (view w)) [] sqlite_selectStuck (dv_tables (view w)) =
      map (sqlite_instanceRow c) (filter wi_IsStuck is)"
    unfolding sqlite_selectStuck_def chosen.simps rows by (simp add: filter_map o_def)
  from sql_db_Query_map [where scan = "sqlite_scanInstance D c" and dec = "sqlite_readback c", OF db
      sqlite_fitting(3) [OF co] this [unfolded sqlite_selectStuck_def] sqlite_instance_scan [OF sql_db_scans [OF db]]]
  show ?thesis
    unfolding sqlite_ListStuck_def sqlite_selectStuck_def by (fastforce simp: run_attempt)
qed

text \<open>
  \<open>aggregate_id\<close> is unique by itself, so an aggregate ID that another aggregate type uses is refused.
\<close>

lemma sqlite_Create_id_taken:
  assumes db: "sql_db co sqlite_schema le view D" "dv_tx (view w) = None" and co: "plain_coercion co"
    and rows: "dv_tables (view w) ''flowstep_instances'' = map (sqlite_instanceRow c) is"
    and taken: "i \<in> set is" "wi_AggregateID i = wi_AggregateID inst"
  shows "\<exists>w' err. run_state (inTx (sqlite_NewTxProvider D) (\<lambda>tx. sqlite_Create D c tx inst)) w = (Some err, w') \<and>
    True \<and> view w' = view w"
proof (rule inTx_abort [OF db sqlite_tx_of])
  fix tx w1
  assume w1: "view w1 = (view w)\<lparr>dv_tx := Some (tx, dv_tables (view w))\<rparr>" and isTx: "db_isTx D tx"
  have tx: "dv_tx (view w1) = Some (tx, dv_tables (view w))" by (simp add: w1)
  have ap: "apply_stmt co sqlite_schema (dv_now (view w1)) (sqlite_instanceArgs c inst)
      (Insert ''flowstep_instances'' instanceColumns) (dv_tables (view w)) = None"
    unfolding sqlite_apply_create [where T = "dv_tables (view w)", OF co rows] using taken by auto
  obtain err w2 where "view w2 = view w1"
    "run_state (db_TxExec D tx (Insert ''flowstep_instances'' instanceColumns) (sqlite_instanceArgs c inst)) w1 = (Inl err, w2)"
    by (rule sql_db_TxExec_None [OF db(1) sqlite_keeps_unique(2) tx ap])
  then show "\<exists>w2 T err. run_state (sqlite_Create D c tx inst) w1 = (Some err, w2) \<and> True \<and>
      view w2 = (view w1)\<lparr>dv_tx := Some (tx, T)\<rparr>"
    using isTx w1 by (auto simp: sqlite_Create_def run_attempt)
qed

section \<open>A database for the witnesses\<close>

lemma sampleCoercion_plain: "plain_coercion sampleCoercion"
  by (simp add: plain_coercion_def)

definition sampleDb :: "dbview sqldb" where
  "sampleDb = refdb sampleCoercion sqlite_schema (\<lambda>v. case v of STime t \<Rightarrow> t | _ \<Rightarrow> 0)"

lemma sampleDb_contract:
  "sql_db sampleCoercion sqlite_schema (\<lambda>a b. (case a of STime t \<Rightarrow> t | _ \<Rightarrow> 0) \<le> (case b of STime t \<Rightarrow> t | _ \<Rightarrow> 0))
     refdb_view sampleDb"
  unfolding sampleDb_def by (rule refdb_sql_db)

definition sampleInstance :: WorkflowInstance where
  "sampleInstance = zero_instance\<lparr>wi_ID := ''w1'', wi_AggregateType := ''order'', wi_AggregateID := ''o1'',
     wi_CurrentState := ''OPEN'', wi_CreatedAt := 5, wi_UpdatedAt := 5\<rparr>"

text \<open>A database that holds given instances.\<close>

definition sampleWith :: "WorkflowInstance list \<Rightarrow> dbview" where
  "sampleWith is = \<lparr>dv_tables = (\<lambda>_. [])(''flowstep_instances'' := map (sqlite_instanceRow sampleCodec) is),
     dv_tx = None, dv_now = 9\<rparr>"

lemma sampleWith_simps [simp]:
  "dv_tx (refdb_view (sampleWith is)) = None"
  "dv_tables (refdb_view (sampleWith is)) ''flowstep_instances'' = map (sqlite_instanceRow sampleCodec) is"
  by (simp_all add: sampleWith_def refdb_view_def)

definition samplePaid :: WorkflowInstance where
  "samplePaid = sampleInstance\<lparr>wi_CurrentState := ''PAID'', wi_UpdatedAt := 8, wi_LastReadUpdatedAt := 5\<rparr>"

lemma sampleCodec_times: "\<forall>t. cd_Parse sampleCodec (cd_Format sampleCodec t) = t"
  by (simp add: sampleCodec_def sampleParse_Format)

section \<open>Round trip and optimistic lock\<close>

text \<open>
  C25. A committed \<open>Create\<close> of an instance whose ID and aggregate ID are new succeeds, and \<open>Get\<close> then returns
  what was written for its aggregate and what it returned before for every other one.
\<close>

theorem sqlite_create_get:
  assumes "sql_db co sqlite_schema le view D" "plain_coercion co" "dv_tx (view w) = None"
    and "dv_tables (view w) ''flowstep_instances'' = map (sqlite_instanceRow c) is"
    and "\<forall>i\<in>set is. wi_ID i \<noteq> wi_ID inst \<and> wi_AggregateID i \<noteq> wi_AggregateID inst"
  shows "\<exists>w'. run_state (inTx (sqlite_NewTxProvider D) (\<lambda>tx. sqlite_Create D c tx inst)) w = (None, w') \<and>
    (\<forall>at aid. fst (run_state (sqlite_Get D c errNotFound at aid) w') =
       (if sameAggregate at aid inst then Inr (sqlite_readback c inst)
        else fst (run_state (sqlite_Get D c errNotFound at aid) w)))"
proof -
  obtain w' where w': "run_state (inTx (sqlite_NewTxProvider D) (\<lambda>tx. sqlite_Create D c tx inst)) w = (None, w')"
    "view w' = (view w)\<lparr>dv_tables := sqlite_with c (is @ [inst]) (dv_tables (view w))\<rparr>"
    using sqlite_Create_session [OF assms(1,3,2,4,5)] by blast
  have get': "fst (run_state (sqlite_Get D c errNotFound at aid) w') =
      (case find (sameAggregate at aid) (is @ [inst]) of
         None \<Rightarrow> Inl errNotFound | Some i \<Rightarrow> Inr (sqlite_readback c i))" for at aid
    by (rule sqlite_Get_result [OF assms(1,2)]) (simp add: w')
  have "find (sameAggregate at aid) is = None" if "sameAggregate at aid inst" for at aid
    using that assms(5) by (auto simp: find_None_iff sameAggregate_def)
  then show ?thesis
    using w'(1) by (auto simp: get' sqlite_Get_result [OF assms(1,2,4)] find_append split: option.splits)
qed

theorem sqlite_create_get_witness:
  "\<exists>w'. run_state (inTx (sqlite_NewTxProvider sampleDb) (\<lambda>tx. sqlite_Create sampleDb sampleCodec tx sampleInstance)) (sampleWith []) =
      (None, w') \<and>
    fst (run_state (sqlite_Get sampleDb sampleCodec (Sentinel ErrInstanceNotFound) ''order'' ''o1'') w') =
      Inr (sqlite_readback sampleCodec sampleInstance)"
  using sqlite_create_get [OF sampleDb_contract sampleCoercion_plain, of "sampleWith []" sampleCodec "[]" sampleInstance
      "Sentinel ErrInstanceNotFound"]
  by (auto simp: sameAggregate_def sampleInstance_def)

text \<open>
  C22. An \<open>Update\<close> goes through exactly when the stored instance still has the update time that was read, and
  then changes that instance only; otherwise it fails with \<open>ErrConcurrentModification\<close> and every \<open>Get\<close>
  returns what it did before.
\<close>

theorem sqlite_update_lock:
  assumes "sql_db co sqlite_schema le view D" "plain_coercion co" "dv_tx (view w) = None"
    and "dv_tables (view w) ''flowstep_instances'' = map (sqlite_instanceRow c) is"
    and "distinct (map wi_AggregateID is)" "\<forall>t. cd_Parse c (cd_Format c t) = t"
  shows "\<exists>r w'. run_state (inTx (sqlite_NewTxProvider D) (\<lambda>tx. sqlite_Update D c tx inst)) w = (r, w') \<and>
    (case find (sameAggregate (wi_AggregateType inst) (wi_AggregateID inst)) is of
       Some i \<Rightarrow>
         if wi_UpdatedAt i = wi_LastReadUpdatedAt inst
         then r = None \<and> (\<forall>at aid. fst (run_state (sqlite_Get D c errNotFound at aid) w') =
           (if sameAggregate at aid inst then Inr (sqlite_readback c (written i inst))
            else fst (run_state (sqlite_Get D c errNotFound at aid) w)))
         else (\<exists>err. r = Some err \<and> err_is err ErrConcurrentModification) \<and> view w' = view w
     | None \<Rightarrow> (\<exists>err. r = Some err \<and> err_is err ErrConcurrentModification) \<and> view w' = view w)"
proof (cases "\<exists>i\<in>set is. sqlite_current c inst i")
  case True
  with sqlite_current_find [OF assms(6,5)] obtain i where
    i: "find (sameAggregate (wi_AggregateType inst) (wi_AggregateID inst)) is = Some i"
      "wi_UpdatedAt i = wi_LastReadUpdatedAt inst" by (auto split: option.splits)
  then have cur: "i \<in> set is" "sqlite_current c inst i"
    by (auto simp: find_Some_iff sqlite_current_iff [OF assms(6)])
  obtain w' where w': "run_state (inTx (sqlite_NewTxProvider D) (\<lambda>tx. sqlite_Update D c tx inst)) w = (None, w')"
    "view w' = (view w)\<lparr>dv_tables := sqlite_with c (sqlite_updated c inst is) (dv_tables (view w))\<rparr>"
    using sqlite_Update_session [OF assms(1,3,2,4) cur] by blast
  have "fst (run_state (sqlite_Get D c errNotFound at aid) w') =
      (case find (sameAggregate at aid) (sqlite_updated c inst is) of
         None \<Rightarrow> Inl errNotFound | Some i \<Rightarrow> Inr (sqlite_readback c i))" for at aid
    by (rule sqlite_Get_result [OF assms(1,2)]) (simp add: w')
  with w' i show ?thesis
    by (simp add: find_overwritten [where current = "sqlite_current c inst", OF assms(5) cur sqlite_current_key] sqlite_Get_result [OF assms(1,2,4)])
next
  case False
  with sqlite_Update_conflict [OF assms(1,3,2,4)] sqlite_current_find [OF assms(6,5)]
  show ?thesis by (fastforce split: option.splits)
qed

theorem sqlite_update_lock_witness:
  "\<exists>w'. run_state (inTx (sqlite_NewTxProvider sampleDb) (\<lambda>tx. sqlite_Update sampleDb sampleCodec tx samplePaid))
      (sampleWith [sampleInstance]) = (None, w')"
  using sqlite_update_lock [OF sampleDb_contract sampleCoercion_plain, of "sampleWith [sampleInstance]" sampleCodec
      "[sampleInstance]" samplePaid "Sentinel ErrInstanceNotFound"] sampleCodec_times
  by (auto simp: sameAggregate_def sampleInstance_def samplePaid_def)

text \<open>
  Of two transactions that update the same aggregate from the same read, the second one fails with
  \<open>ErrConcurrentModification\<close> once the first has been committed with a new update time: no update is lost.
\<close>

lemma sqlite_no_lost_update:
  assumes "sql_db co sqlite_schema le view D" "plain_coercion co" "dv_tx (view w) = None"
    and "dv_tables (view w) ''flowstep_instances'' = map (sqlite_instanceRow c) is"
    and "distinct (map wi_AggregateID is)" "\<forall>t. cd_Parse c (cd_Format c t) = t"
    and "sameAggregate (wi_AggregateType a) (wi_AggregateID a) b" "wi_LastReadUpdatedAt b = wi_LastReadUpdatedAt a"
    and "wi_UpdatedAt a \<noteq> wi_LastReadUpdatedAt a"
    and first: "run_state (inTx (sqlite_NewTxProvider D) (\<lambda>tx. sqlite_Update D c tx a)) w = (None, w1)"
  shows "\<exists>w2 err. run_state (inTx (sqlite_NewTxProvider D) (\<lambda>tx. sqlite_Update D c tx b)) w1 = (Some err, w2) \<and>
    err_is err ErrConcurrentModification \<and> view w2 = view w1"
proof -
  have "\<exists>i\<in>set is. sqlite_current c a i"
    using sqlite_Update_conflict [OF assms(1,3,2,4), of a] first by fastforce
  then obtain i where cur: "i \<in> set is" "sqlite_current c a i" by blast
  have w1: "view w1 = (view w)\<lparr>dv_tables := sqlite_with c (sqlite_updated c a is) (dv_tables (view w))\<rparr>"
    using sqlite_Update_session [OF assms(1,3,2,4) cur] first by simp
  have "\<not> (\<exists>j\<in>set (sqlite_updated c a is). sqlite_current c b j)"
    using assms(7,8,9)
    by (auto simp: overwritten_def sqlite_current_iff [OF assms(6)] sameAggregate_def)
  then show ?thesis by (intro sqlite_Update_conflict [OF assms(1) _ assms(2)]) (simp_all add: w1 assms(3))
qed

definition sampleRefund :: WorkflowInstance where
  "sampleRefund = sampleInstance\<lparr>wi_CurrentState := ''CANCELLED'', wi_UpdatedAt := 9, wi_LastReadUpdatedAt := 5\<rparr>"

lemma sqlite_no_lost_update_witness:
  "\<exists>w1 w2 err. run_state (inTx (sqlite_NewTxProvider sampleDb) (\<lambda>tx. sqlite_Update sampleDb sampleCodec tx samplePaid))
      (sampleWith [sampleInstance]) = (None, w1) \<and>
    run_state (inTx (sqlite_NewTxProvider sampleDb) (\<lambda>tx. sqlite_Update sampleDb sampleCodec tx sampleRefund)) w1 = (Some err, w2) \<and>
    err_is err ErrConcurrentModification"
proof -
  have "sqlite_current sampleCodec samplePaid sampleInstance"
    by (simp add: sqlite_current_def sameAggregate_def sampleInstance_def samplePaid_def)
  then obtain w1 where w1: "run_state (inTx (sqlite_NewTxProvider sampleDb)
      (\<lambda>tx. sqlite_Update sampleDb sampleCodec tx samplePaid)) (sampleWith [sampleInstance]) = (None, w1)"
    using sqlite_Update_session [OF sampleDb_contract _ sampleCoercion_plain,
        of "sampleWith [sampleInstance]" sampleCodec "[sampleInstance]" sampleInstance samplePaid] by auto
  then show ?thesis
    using sqlite_no_lost_update [OF sampleDb_contract sampleCoercion_plain, of "sampleWith [sampleInstance]" sampleCodec
        "[sampleInstance]" samplePaid sampleRefund w1] sampleCodec_times
    by (auto simp: sameAggregate_def sampleInstance_def samplePaid_def sampleRefund_def)
qed

end
