(* ===== verification/Flow_Pgx.thy ===== *)
theory Flow_Pgx
  imports Flow_Sqlite Flow_Compile
begin

text \<open>
  The PostgreSQL stores, \<open>adapters/pgxstore\<close>, over a driver \<open>D\<close> and the codecs \<open>c\<close> of \<open>Flow_Sql\<close>, with
  the tables of \<open>adapters/pgxstore/migrations\<close>. Unlike SQLite the columns are typed: JSON documents are
  stored in the canonical form of \<open>jsonb\<close>, times in microseconds.
\<close>

section \<open>Schema\<close>

definition jsonCol :: "string \<Rightarrow> colspec" where
  "jsonCol n = (textCol n)\<lparr>cs_type := CJson\<rparr>"

definition jsonDocCol :: "string \<Rightarrow> colspec" where
  "jsonDocCol n = (docCol n)\<lparr>cs_type := CJson\<rparr>"

definition timeCol :: "string \<Rightarrow> colspec" where
  "timeCol n = (textCol n)\<lparr>cs_type := CTime\<rparr>"

definition stampCol :: "string \<Rightarrow> colspec" where
  "stampCol n = (timeCol n)\<lparr>cs_notnull := True, cs_default := Now\<rparr>"

definition bigintCol :: "string \<Rightarrow> int \<Rightarrow> colspec" where
  "bigintCol n d = (intCol n d)\<lparr>cs_type := CBigInt\<rparr>"

definition statusCol :: "string \<Rightarrow> colspec" where
  "statusCol d = (textCol ''status'')\<lparr>cs_notnull := True, cs_default := Lit (SText d)\<rparr>"

definition keyCol :: "string \<Rightarrow> colspec" where
  "keyCol n = notNull (uniqueCol (textCol n))"

definition pg_events :: "colspec list" where
  "pg_events =
     [keyCol ''id'', notNull (textCol ''aggregate_type''), notNull (textCol ''aggregate_id''),
      notNull (textCol ''workflow_type''), notNull (intCol ''workflow_version'' 1),
      notNull (textCol ''event_type''), notNull (textCol ''correlation_id''), textCol ''causation_id'',
      textCol ''actor_id'', textCol ''transition_name'', jsonCol ''state_before'', jsonCol ''state_after'',
      jsonCol ''payload'', stampCol ''created_at'']"

definition pg_instances :: "colspec list" where
  "pg_instances =
     [keyCol ''id'', notNull (textCol ''workflow_type''), notNull (intCol ''workflow_version'' 1),
      notNull (textCol ''aggregate_type''), uniqueCol (notNull (textCol ''aggregate_id'')),
      notNull (textCol ''current_state''), jsonDocCol ''state_data'', notNull (textCol ''correlation_id''),
      (textCol ''is_stuck'')\<lparr>cs_type := CBool, cs_default := Lit (SBool False)\<rparr>, textCol ''stuck_reason'',
      intCol ''retry_count'' 0, stampCol ''created_at'', stampCol ''updated_at'',
      jsonDocCol ''shallow_history'', jsonDocCol ''deep_history'', jsonDocCol ''active_in_parallel'',
      bigintCol ''parallel_clock'' 0]"

definition pg_tasks :: "colspec list" where
  "pg_tasks =
     [keyCol ''id'', notNull (textCol ''workflow_type''), notNull (textCol ''aggregate_type''),
      notNull (textCol ''aggregate_id''), notNull (textCol ''correlation_id''), notNull (textCol ''task_type''),
      textCol ''description'', jsonCol ''options'', statusCol ''PENDING'', textCol ''choice'',
      textCol ''completed_by'', bigintCol ''timeout'' 0, timeCol ''expires_at'', stampCol ''created_at'',
      timeCol ''completed_at'']"

definition pg_children :: "colspec list" where
  "pg_children =
     [keyCol ''id'', textCol ''group_id'', notNull (textCol ''parent_workflow_type''),
      notNull (textCol ''parent_aggregate_type''), notNull (textCol ''parent_aggregate_id''),
      notNull (textCol ''child_workflow_type''), notNull (textCol ''child_aggregate_type''),
      notNull (textCol ''child_aggregate_id''), notNull (textCol ''correlation_id''), statusCol ''ACTIVE'',
      textCol ''child_terminal_state'', textCol ''join_policy'', stampCol ''created_at'', timeCol ''completed_at'']"

definition pg_activities :: "colspec list" where
  "pg_activities =
     [keyCol ''id'', notNull (textCol ''activity_name''), notNull (textCol ''workflow_type''),
      notNull (textCol ''aggregate_type''), notNull (textCol ''aggregate_id''), notNull (textCol ''correlation_id''),
      notNull (textCol ''mode''), jsonCol ''input'', jsonCol ''output'', textCol ''error_msg'',
      jsonCol ''retry_policy'', bigintCol ''timeout'' 0, statusCol ''SCHEDULED'', intCol ''max_attempts'' 1,
      intCol ''attempt_count'' 0, stampCol ''scheduled_at'', timeCol ''started_at'', timeCol ''completed_at'',
      timeCol ''next_retry_at'']"

definition pg_schema :: sqlschema where
  "pg_schema tbl =
     (if tbl = ''flowstep_events'' then pg_events else if tbl = ''flowstep_instances'' then pg_instances
      else if tbl = ''flowstep_tasks'' then pg_tasks else if tbl = ''flowstep_children'' then pg_children
      else if tbl = ''flowstep_activities'' then pg_activities else [])"

lemmas pg_column_defs = column_defs jsonCol_def jsonDocCol_def timeCol_def stampCol_def bigintCol_def
  statusCol_def keyCol_def

section \<open>Transactions\<close>

definition pgx_Begin :: "'w sqldb \<Rightarrow> ('w, gval) prog" where
  "pgx_Begin D = attempt (db_Begin D) (\<lambda>err. fail (Errorf ''pgxstore: begin tx: %w'' [] (Some err))) ok"

definition pgx_invalidTx :: gerr where
  "pgx_invalidTx = Errorf ''pgxstore: invalid tx type'' [] None"

definition pgx_Commit :: "'w sqldb \<Rightarrow> gval \<Rightarrow> 'w proc" where
  "pgx_Commit D tx = (if db_isTx D tx then db_Commit D tx else ret (Some pgx_invalidTx))"

definition pgx_Rollback :: "'w sqldb \<Rightarrow> gval \<Rightarrow> 'w proc" where
  "pgx_Rollback D tx = (if db_isTx D tx then db_Rollback D tx else ret (Some pgx_invalidTx))"

definition pgx_NewTxProvider :: "'w sqldb \<Rightarrow> 'w TxProvider" where
  "pgx_NewTxProvider D =
     \<lparr>tx_Begin = pgx_Begin D, tx_Commit = pgx_Commit D, tx_Rollback = pgx_Rollback D, tx_Savepoints = None\<rparr>"

definition getTx :: "'w sqldb \<Rightarrow> gval \<Rightarrow> gerr + gval" where
  "getTx D tx =
     (if tx = GNil then Inl (Errorf ''pgxstore: nil tx'' [] None)
      else if db_isTx D tx then Inr tx else Inl pgx_invalidTx)"

text \<open>The two ways the stores write: the pool for every handle that is no transaction, or for nil only.\<close>

definition execAny :: "'w sqldb \<Rightarrow> gval \<Rightarrow> stmt \<Rightarrow> sqlval list \<Rightarrow> ('w, int) prog" where
  "execAny D tx st args = (case getTx D tx of Inl _ \<Rightarrow> db_Exec D st args | Inr t \<Rightarrow> db_TxExec D t st args)"

definition execNil :: "'w sqldb \<Rightarrow> string \<Rightarrow> gval \<Rightarrow> stmt \<Rightarrow> sqlval list \<Rightarrow> 'w proc" where
  "execNil D msg tx st args =
     (if tx \<noteq> GNil
      then (case getTx D tx of
              Inl err \<Rightarrow> ret (Some err)
            | Inr t \<Rightarrow> attempt (db_TxExec D t st args) (\<lambda>err. ret (Some (Errorf msg [] (Some err)))) (\<lambda>_. ret None))
      else attempt (db_Exec D st args) (\<lambda>err. ret (Some (Errorf msg [] (Some err)))) (\<lambda>_. ret None))"

text \<open>A JSON argument: no bytes are sent as NULL. What \<open>Unmarshal\<close> leaves of a scanned column.\<close>

definition mustJSON :: "string \<Rightarrow> sqlval" where
  "mustJSON doc = (if doc = [] then SNull else SText doc)"

definition fromJSON :: "(string \<Rightarrow> 'a) \<Rightarrow> 'a \<Rightarrow> string option \<Rightarrow> 'a" where
  "fromJSON f z bytes = (case bytes of None \<Rightarrow> z | Some doc \<Rightarrow> f doc)"

section \<open>Event store\<close>

definition pgx_eventArgs :: "codec \<Rightarrow> DomainEvent \<Rightarrow> sqlval list" where
  "pgx_eventArgs c event =
     [SText (ev_ID event), SText (ev_AggregateType event), SText (ev_AggregateID event),
      SText (ev_WorkflowType event), SInt (ev_WorkflowVersion event),
      SText (ev_EventType event), SText (ev_CorrelationID event), SText (ev_CausationID event),
      SText (ev_ActorID event), SText (ev_TransitionName event),
      mustJSON (cd_Params c (ev_StateBefore event)), mustJSON (cd_Params c (ev_StateAfter event)),
      mustJSON (cd_Params c (ev_Payload event)), STime (ev_CreatedAt event)]"

definition pgx_Append :: "'w sqldb \<Rightarrow> codec \<Rightarrow> gval \<Rightarrow> DomainEvent \<Rightarrow> 'w proc" where
  "pgx_Append D c tx event =
     (case getTx D tx of
        Inl err \<Rightarrow> ret (Some err)
      | Inr t \<Rightarrow> attempt (db_TxExec D t (Insert ''flowstep_events'' eventColumns) (pgx_eventArgs c event))
          (\<lambda>err. ret (Some (Errorf ''pgxstore: insert event: %w'' [] (Some err))))
          (\<lambda>_. ret None))"

definition pgx_scanEvent :: "'w sqldb \<Rightarrow> codec \<Rightarrow> sqlval list \<Rightarrow> gerr + DomainEvent" where
  "pgx_scanEvent D c row =
     (if length row \<noteq> 14 then Inl scanMismatch else
      into (db_ScanString D (row ! 0)) (\<lambda>i.
      into (db_ScanString D (row ! 1)) (\<lambda>aggregateType.
      into (db_ScanString D (row ! 2)) (\<lambda>aggregateID.
      into (db_ScanString D (row ! 3)) (\<lambda>workflowType.
      into (db_ScanInt D (row ! 4)) (\<lambda>workflowVersion.
      into (db_ScanString D (row ! 5)) (\<lambda>eventType.
      into (db_ScanString D (row ! 6)) (\<lambda>correlationID.
      into (db_ScanString D (row ! 7)) (\<lambda>causationID.
      into (db_ScanString D (row ! 8)) (\<lambda>actorID.
      into (db_ScanString D (row ! 9)) (\<lambda>transitionName.
      into (db_ScanBytes D (row ! 10)) (\<lambda>stateBefore.
      into (db_ScanBytes D (row ! 11)) (\<lambda>stateAfter.
      into (db_ScanBytes D (row ! 12)) (\<lambda>payload.
      into (db_ScanTime D (row ! 13)) (\<lambda>createdAt.
      Inr \<lparr>ev_ID = i, ev_AggregateType = aggregateType, ev_AggregateID = aggregateID,
           ev_WorkflowType = workflowType, ev_WorkflowVersion = workflowVersion,
           ev_EventType = eventType, ev_CorrelationID = correlationID, ev_CausationID = causationID,
           ev_ActorID = actorID, ev_StateBefore = fromJSON (cd_toParams c) None stateBefore,
           ev_StateAfter = fromJSON (cd_toParams c) None stateAfter, ev_TransitionName = transitionName,
           ev_Error = None, ev_Payload = fromJSON (cd_toParams c) None payload, ev_CreatedAt = createdAt,
           ev_SequenceNum = 0\<rparr>)))))))))))))))"

definition pgx_scanEvents :: "'w sqldb \<Rightarrow> codec \<Rightarrow> sqlval list list \<Rightarrow> gerr option \<Rightarrow> gerr + DomainEvent list" where
  "pgx_scanEvents D c = scanRows ''pgxstore: scan event: %w'' (pgx_scanEvent D c)"

text \<open>A query whose rows a scan function reads.\<close>

definition queryRows ::
  "'w sqldb \<Rightarrow> string \<Rightarrow> (sqlval list list \<Rightarrow> gerr option \<Rightarrow> gerr + 'a list) \<Rightarrow> stmt \<Rightarrow> sqlval list \<Rightarrow> ('w, 'a list) prog" where
  "queryRows D msg scan st args =
     attempt (db_Query D st args) (\<lambda>err. fail (Errorf msg [] (Some err))) (\<lambda>(rows, rowsErr). ret (scan rows rowsErr))"

definition pgx_ListByCorrelation :: "'w sqldb \<Rightarrow> codec \<Rightarrow> string \<Rightarrow> ('w, DomainEvent list) prog" where
  "pgx_ListByCorrelation D c correlationID =
     queryRows D ''pgxstore: query events: %w'' (pgx_scanEvents D c) byCorrelation [SText correlationID]"

definition pgx_ListByAggregate :: "'w sqldb \<Rightarrow> codec \<Rightarrow> string \<Rightarrow> string \<Rightarrow> ('w, DomainEvent list) prog" where
  "pgx_ListByAggregate D c aggregateType aggregateID =
     queryRows D ''pgxstore: query events: %w'' (pgx_scanEvents D c) byAggregate [SText aggregateType, SText aggregateID]"

definition pgx_NewEventStore :: "'w sqldb \<Rightarrow> codec \<Rightarrow> 'w EventStore" where
  "pgx_NewEventStore D c =
     \<lparr>es_Append = pgx_Append D c, es_ListByCorrelation = pgx_ListByCorrelation D c,
      es_ListByAggregate = pgx_ListByAggregate D c\<rparr>"

section \<open>Instance store\<close>

definition pgx_scanInstance :: "'w sqldb \<Rightarrow> codec \<Rightarrow> sqlval list \<Rightarrow> gerr + WorkflowInstance" where
  "pgx_scanInstance D c row =
     (if length row \<noteq> 17 then Inl scanMismatch else
      into (db_ScanString D (row ! 0)) (\<lambda>i.
      into (db_ScanString D (row ! 1)) (\<lambda>workflowType.
      into (db_ScanInt D (row ! 2)) (\<lambda>workflowVersion.
      into (db_ScanString D (row ! 3)) (\<lambda>aggregateType.
      into (db_ScanString D (row ! 4)) (\<lambda>aggregateID.
      into (db_ScanString D (row ! 5)) (\<lambda>currentState.
      into (db_ScanBytes D (row ! 6)) (\<lambda>stateData.
      into (db_ScanString D (row ! 7)) (\<lambda>correlationID.
      into (db_ScanBool D (row ! 8)) (\<lambda>isStuck.
      into (db_ScanString D (row ! 9)) (\<lambda>stuckReason.
      into (db_ScanInt D (row ! 10)) (\<lambda>retryCount.
      into (db_ScanTime D (row ! 11)) (\<lambda>createdAt.
      into (db_ScanTime D (row ! 12)) (\<lambda>updatedAt.
      into (db_ScanBytes D (row ! 13)) (\<lambda>shallowHistory.
      into (db_ScanBytes D (row ! 14)) (\<lambda>deepHistory.
      into (db_ScanBytes D (row ! 15)) (\<lambda>activeInParallel.
      into (db_ScanInt D (row ! 16)) (\<lambda>parallelClock.
      Inr (zero_instance\<lparr>wi_ID := i, wi_WorkflowType := workflowType, wi_WorkflowVersion := workflowVersion,
           wi_AggregateType := aggregateType, wi_AggregateID := aggregateID,
           wi_CurrentState := currentState, wi_StateData := fromJSON (cd_toParams c) None stateData,
           wi_CorrelationID := correlationID, wi_IsStuck := isStuck, wi_StuckReason := Text stuckReason,
           wi_RetryCount := retryCount, wi_CreatedAt := createdAt, wi_UpdatedAt := updatedAt,
           wi_ShallowHistory := fromJSON (cd_toStrMap c) (Some []) shallowHistory,
           wi_DeepHistory := fromJSON (cd_toStrMap c) (Some []) deepHistory,
           wi_ActiveInParallel := fromJSON (cd_toStrMap c) (Some []) activeInParallel,
           wi_ParallelClock := word_of_int parallelClock\<rparr>)))))))))))))))))))"

definition pgx_Get :: "'w sqldb \<Rightarrow> codec \<Rightarrow> gerr \<Rightarrow> string \<Rightarrow> string \<Rightarrow> ('w, WorkflowInstance) prog" where
  "pgx_Get D c errNotFound aggregateType aggregateID =
     attempt (db_QueryRow D selectInstance [SText aggregateType, SText aggregateID])
       (\<lambda>err. fail (Errorf ''pgxstore: get instance: %w'' [] (Some err)))
       (\<lambda>found. case found of
          None \<Rightarrow> fail errNotFound
        | Some row \<Rightarrow> (case pgx_scanInstance D c row of
            Inl err \<Rightarrow> fail (Errorf ''pgxstore: get instance: %w'' [] (Some err))
          | Inr inst \<Rightarrow> ok inst))"

definition pgx_instanceArgs :: "codec \<Rightarrow> WorkflowInstance \<Rightarrow> sqlval list" where
  "pgx_instanceArgs c inst =
     [SText (wi_ID inst), SText (wi_WorkflowType inst), SInt (wi_WorkflowVersion inst),
      SText (wi_AggregateType inst), SText (wi_AggregateID inst),
      SText (wi_CurrentState inst), mustJSON (cd_Params c (wi_StateData inst)), SText (wi_CorrelationID inst),
      SBool (wi_IsStuck inst), SText (cd_Text c (wi_StuckReason inst)), SInt (wi_RetryCount inst),
      STime (wi_CreatedAt inst), STime (wi_UpdatedAt inst),
      mustJSON (cd_StrMap c (wi_ShallowHistory inst)), mustJSON (cd_StrMap c (wi_DeepHistory inst)),
      mustJSON (cd_StrMap c (wi_ActiveInParallel inst)), SInt (sint (wi_ParallelClock inst))]"

definition pgx_Create :: "'w sqldb \<Rightarrow> codec \<Rightarrow> gval \<Rightarrow> WorkflowInstance \<Rightarrow> 'w proc" where
  "pgx_Create D c tx inst =
     attempt (execAny D tx (Insert ''flowstep_instances'' instanceColumns) (pgx_instanceArgs c inst))
       (\<lambda>err. ret (Some (Errorf ''pgxstore: create instance: %w'' [] (Some err))))
       (\<lambda>_. ret None)"

definition pgx_updateArgs :: "codec \<Rightarrow> WorkflowInstance \<Rightarrow> sqlval list" where
  "pgx_updateArgs c inst =
     [SText (wi_CurrentState inst), mustJSON (cd_Params c (wi_StateData inst)), SBool (wi_IsStuck inst),
      SText (cd_Text c (wi_StuckReason inst)), SInt (wi_RetryCount inst), STime (wi_UpdatedAt inst),
      mustJSON (cd_StrMap c (wi_ShallowHistory inst)), mustJSON (cd_StrMap c (wi_DeepHistory inst)),
      mustJSON (cd_StrMap c (wi_ActiveInParallel inst)), SInt (sint (wi_ParallelClock inst)),
      SText (wi_AggregateType inst), SText (wi_AggregateID inst), STime (wi_LastReadUpdatedAt inst)]"

definition pgx_Update :: "'w sqldb \<Rightarrow> codec \<Rightarrow> gval \<Rightarrow> WorkflowInstance \<Rightarrow> 'w proc" where
  "pgx_Update D c tx inst =
     attempt (execAny D tx updateInstance (pgx_updateArgs c inst))
       (\<lambda>err. ret (Some (Errorf ''pgxstore: update instance: %w'' [] (Some err))))
       (\<lambda>rowsAffected. if rowsAffected = 0
          then ret (Some (Errorf ''pgxstore: update instance: %w'' [] (Some (Sentinel ErrConcurrentModification))))
          else ret None)"

definition pgx_ListStuck :: "'w sqldb \<Rightarrow> codec \<Rightarrow> ('w, WorkflowInstance list) prog" where
  "pgx_ListStuck D c =
     queryRows D ''pgxstore: query stuck instances: %w'' (scanRows ''pgxstore: scan instance: %w'' (pgx_scanInstance D c))
       (Select instanceColumns ''flowstep_instances'' [(''is_stuck'', EqOp, Lit (SBool True))] (Some ''updated_at'')) []"

definition pgx_NewInstanceStore :: "'w sqldb \<Rightarrow> codec \<Rightarrow> gerr \<Rightarrow> 'w InstanceStore" where
  "pgx_NewInstanceStore D c errNotFound =
     \<lparr>is_Get = pgx_Get D c errNotFound, is_Create = pgx_Create D c, is_Update = pgx_Update D c,
      is_ListStuck = pgx_ListStuck D c\<rparr>"

section \<open>Task store\<close>

definition nilTime :: "gtime \<Rightarrow> sqlval" where
  "nilTime t = (if t = 0 then SNull else STime t)"

definition taskInsertColumns :: "string list" where
  "taskInsertColumns =
     [''id'', ''workflow_type'', ''aggregate_type'', ''aggregate_id'', ''correlation_id'',
      ''task_type'', ''description'', ''options'', ''status'', ''timeout'', ''expires_at'', ''created_at'']"

definition taskInsert :: stmt where
  "taskInsert = Insert ''flowstep_tasks'' taskInsertColumns"

definition pgx_taskArgs :: "codec \<Rightarrow> PendingTask \<Rightarrow> sqlval list" where
  "pgx_taskArgs c task =
     [SText (tk_ID task), SText (tk_WorkflowType task), SText (tk_AggregateType task), SText (tk_AggregateID task),
      SText (tk_CorrelationID task), SText (tk_TaskType task), SText (tk_Description task),
      mustJSON (cd_Options c (tk_Options task)), SText (tk_Status task), SInt (tk_Timeout task),
      nilTime (tk_ExpiresAt task), STime (tk_CreatedAt task)]"

definition pgx_TaskCreate :: "'w sqldb \<Rightarrow> codec \<Rightarrow> gval \<Rightarrow> PendingTask \<Rightarrow> 'w proc" where
  "pgx_TaskCreate D c tx task =
     attempt (execAny D tx taskInsert (pgx_taskArgs c task))
       (\<lambda>err. ret (Some (Errorf ''pgxstore: create task: %w'' [] (Some err))))
       (\<lambda>_. ret None)"

definition taskColumns :: "string list" where
  "taskColumns =
     [''id'', ''workflow_type'', ''aggregate_type'', ''aggregate_id'', ''correlation_id'',
      ''task_type'', ''description'', ''options'', ''status'', ''choice'', ''completed_by'',
      ''timeout'', ''expires_at'', ''created_at'']"

definition scanTask :: "'w sqldb \<Rightarrow> codec \<Rightarrow> sqlval list \<Rightarrow> gerr + PendingTask" where
  "scanTask D c row =
     (if length row \<noteq> 14 then Inl scanMismatch else
      into (db_ScanString D (row ! 0)) (\<lambda>i.
      into (db_ScanString D (row ! 1)) (\<lambda>workflowType.
      into (db_ScanString D (row ! 2)) (\<lambda>aggregateType.
      into (db_ScanString D (row ! 3)) (\<lambda>aggregateID.
      into (db_ScanString D (row ! 4)) (\<lambda>correlationID.
      into (db_ScanString D (row ! 5)) (\<lambda>taskType.
      into (db_ScanString D (row ! 6)) (\<lambda>description.
      into (db_ScanBytes D (row ! 7)) (\<lambda>options.
      into (db_ScanString D (row ! 8)) (\<lambda>status.
      into (db_ScanString D (row ! 9)) (\<lambda>choice.
      into (db_ScanString D (row ! 10)) (\<lambda>completedBy.
      into (db_ScanInt D (row ! 11)) (\<lambda>timeout.
      into (scanPtr (db_ScanTime D) (row ! 12)) (\<lambda>expiresAt.
      into (db_ScanTime D (row ! 13)) (\<lambda>createdAt.
      Inr \<lparr>tk_ID = i, tk_WorkflowType = workflowType, tk_AggregateType = aggregateType,
           tk_AggregateID = aggregateID, tk_CorrelationID = correlationID, tk_TaskType = taskType,
           tk_Description = description, tk_Options = fromJSON (cd_toOptions c) [] options, tk_State = [],
           tk_AssignedTo = [], tk_Timeout = timeout,
           tk_ExpiresAt = (case expiresAt of None \<Rightarrow> 0 | Some t \<Rightarrow> t), tk_CompletedAt = None,
           tk_Choice = choice, tk_CompletedBy = completedBy, tk_Status = status, tk_CreatedAt = createdAt\<rparr>)))))))))))))))"

definition pgx_TaskGet :: "'w sqldb \<Rightarrow> codec \<Rightarrow> gerr \<Rightarrow> string \<Rightarrow> ('w, PendingTask) prog" where
  "pgx_TaskGet D c errNotFound taskID =
     attempt (db_QueryRow D (Select taskColumns ''flowstep_tasks'' [(''id'', EqOp, Arg 0)] None) [SText taskID])
       (\<lambda>err. fail (Errorf ''pgxstore: get task: %w'' [] (Some err)))
       (\<lambda>found. case found of
          None \<Rightarrow> fail (Errorf ''pgxstore: get task: %w'' [] (Some errNotFound))
        | Some row \<Rightarrow> (case scanTask D c row of
            Inl err \<Rightarrow> fail (Errorf ''pgxstore: get task: %w'' [] (Some err))
          | Inr task \<Rightarrow> ok task))"

definition scanTasks :: "'w sqldb \<Rightarrow> codec \<Rightarrow> sqlval list list \<Rightarrow> gerr option \<Rightarrow> gerr + PendingTask list" where
  "scanTasks D c = scanRows ''pgxstore: scan task: %w'' (scanTask D c)"

definition selectTasks :: "sqlcond list \<Rightarrow> stmt" where
  "selectTasks conds = Select taskColumns ''flowstep_tasks'' conds (Some ''created_at'')"

definition pgx_TaskGetByAggregate :: "'w sqldb \<Rightarrow> codec \<Rightarrow> string \<Rightarrow> string \<Rightarrow> ('w, PendingTask list) prog" where
  "pgx_TaskGetByAggregate D c aggregateType aggregateID =
     queryRows D ''pgxstore: query tasks: %w'' (scanTasks D c)
       (selectTasks [(''aggregate_type'', EqOp, Arg 0), (''aggregate_id'', EqOp, Arg 1)])
       [SText aggregateType, SText aggregateID]"

definition pgx_TaskListPending :: "'w sqldb \<Rightarrow> codec \<Rightarrow> ('w, PendingTask list) prog" where
  "pgx_TaskListPending D c =
     queryRows D ''pgxstore: list pending tasks: %w'' (scanTasks D c)
       (selectTasks [(''status'', EqOp, Lit (SText ''PENDING''))]) []"

definition pgx_TaskListExpired :: "'w sqldb \<Rightarrow> codec \<Rightarrow> ('w, PendingTask list) prog" where
  "pgx_TaskListExpired D c =
     queryRows D ''pgxstore: list expired tasks: %w'' (scanTasks D c)
       (selectTasks [(''status'', EqOp, Lit (SText ''PENDING'')), (''expires_at'', LtOp, Now)]) []"

definition pgx_TaskComplete :: "'w sqldb \<Rightarrow> gval \<Rightarrow> string \<Rightarrow> string \<Rightarrow> string \<Rightarrow> 'w proc" where
  "pgx_TaskComplete D tx taskID choice actorID =
     execNil D ''pgxstore: complete task: %w'' tx
       (Update ''flowstep_tasks''
          [(''status'', Lit (SText ''COMPLETED'')), (''choice'', Arg 0), (''completed_by'', Arg 1), (''completed_at'', Now)]
          [(''id'', EqOp, Arg 2)])
       [SText choice, SText actorID, SText taskID]"

text \<open>The store has no \<open>InvalidateByStates\<close>.\<close>

definition pgx_NewTaskStore :: "'w sqldb \<Rightarrow> codec \<Rightarrow> gerr \<Rightarrow> 'w TaskStore" where
  "pgx_NewTaskStore D c errNotFound =
     \<lparr>ts_Create = pgx_TaskCreate D c, ts_Get = pgx_TaskGet D c errNotFound,
      ts_GetByAggregate = pgx_TaskGetByAggregate D c, ts_Complete = pgx_TaskComplete D,
      ts_ListPending = pgx_TaskListPending D c, ts_ListExpired = pgx_TaskListExpired D c,
      ts_InvalidateByStates = None\<rparr>"

section \<open>Child store\<close>

definition nilString :: "string \<Rightarrow> sqlval" where
  "nilString s = (if s = [] then SNull else SText s)"

definition childInsertColumns :: "string list" where
  "childInsertColumns =
     [''id'', ''group_id'', ''parent_workflow_type'', ''parent_aggregate_type'', ''parent_aggregate_id'',
      ''child_workflow_type'', ''child_aggregate_type'', ''child_aggregate_id'',
      ''correlation_id'', ''status'', ''join_policy'', ''created_at'']"

definition childInsert :: stmt where
  "childInsert = Insert ''flowstep_children'' childInsertColumns"

definition pgx_childArgs :: "ChildRelation \<Rightarrow> sqlval list" where
  "pgx_childArgs relation =
     [SText (cr_ID relation), nilString (cr_GroupID relation),
      SText (cr_ParentWorkflowType relation), SText (cr_ParentAggregateType relation), SText (cr_ParentAggregateID relation),
      SText (cr_ChildWorkflowType relation), SText (cr_ChildAggregateType relation), SText (cr_ChildAggregateID relation),
      SText (cr_CorrelationID relation), SText (cr_Status relation), nilString (cr_JoinPolicy relation),
      STime (cr_CreatedAt relation)]"

definition pgx_ChildCreate :: "'w sqldb \<Rightarrow> gval \<Rightarrow> ChildRelation \<Rightarrow> 'w proc" where
  "pgx_ChildCreate D tx relation =
     execNil D ''pgxstore: create child relation: %w'' tx childInsert (pgx_childArgs relation)"

definition childColumns :: "string list" where
  "childColumns =
     [''id'', ''group_id'', ''parent_workflow_type'', ''parent_aggregate_type'', ''parent_aggregate_id'',
      ''child_workflow_type'', ''child_aggregate_type'', ''child_aggregate_id'',
      ''correlation_id'', ''status'', ''child_terminal_state'', ''join_policy'', ''created_at'', ''completed_at'']"

definition ptrString :: "string option \<Rightarrow> string" where
  "ptrString p = (case p of None \<Rightarrow> [] | Some s \<Rightarrow> s)"

definition scanRelation :: "'w sqldb \<Rightarrow> sqlval list \<Rightarrow> gerr + ChildRelation" where
  "scanRelation D row =
     (if length row \<noteq> 14 then Inl scanMismatch else
      into (db_ScanString D (row ! 0)) (\<lambda>i.
      into (scanPtr (db_ScanString D) (row ! 1)) (\<lambda>groupID.
      into (db_ScanString D (row ! 2)) (\<lambda>parentWorkflowType.
      into (db_ScanString D (row ! 3)) (\<lambda>parentAggregateType.
      into (db_ScanString D (row ! 4)) (\<lambda>parentAggregateID.
      into (db_ScanString D (row ! 5)) (\<lambda>childWorkflowType.
      into (db_ScanString D (row ! 6)) (\<lambda>childAggregateType.
      into (db_ScanString D (row ! 7)) (\<lambda>childAggregateID.
      into (db_ScanString D (row ! 8)) (\<lambda>correlationID.
      into (db_ScanString D (row ! 9)) (\<lambda>status.
      into (db_ScanString D (row ! 10)) (\<lambda>childTerminalState.
      into (scanPtr (db_ScanString D) (row ! 11)) (\<lambda>joinPolicy.
      into (db_ScanTime D (row ! 12)) (\<lambda>createdAt.
      into (scanPtr (db_ScanTime D) (row ! 13)) (\<lambda>completedAt.
      Inr \<lparr>cr_ID = i, cr_GroupID = ptrString groupID, cr_ParentWorkflowType = parentWorkflowType,
           cr_ParentAggregateType = parentAggregateType, cr_ParentAggregateID = parentAggregateID,
           cr_ChildWorkflowType = childWorkflowType, cr_ChildAggregateType = childAggregateType,
           cr_ChildAggregateID = childAggregateID, cr_CorrelationID = correlationID, cr_Status = status,
           cr_ChildTerminalState = childTerminalState, cr_JoinPolicy = ptrString joinPolicy,
           cr_CreatedAt = createdAt, cr_CompletedAt = completedAt\<rparr>)))))))))))))))"

definition pgx_ChildGetByChild :: "'w sqldb \<Rightarrow> string \<Rightarrow> string \<Rightarrow> ('w, ChildRelation) prog" where
  "pgx_ChildGetByChild D childAggregateType childAggregateID =
     attempt (db_QueryRow D (Select childColumns ''flowstep_children''
         [(''child_aggregate_type'', EqOp, Arg 0), (''child_aggregate_id'', EqOp, Arg 1)] None)
         [SText childAggregateType, SText childAggregateID])
       (\<lambda>err. fail (Errorf ''pgxstore: get child relation: %w'' [] (Some err)))
       (\<lambda>found. case found of
          None \<Rightarrow> fail (Errorf ''pgxstore: get child relation: %w'' [] (Some (Errorf ''no rows in result set'' [] None)))
        | Some row \<Rightarrow> (case scanRelation D row of
            Inl err \<Rightarrow> fail (Errorf ''pgxstore: get child relation: %w'' [] (Some err))
          | Inr r \<Rightarrow> ok r))"

definition scanRelations :: "'w sqldb \<Rightarrow> sqlval list list \<Rightarrow> gerr option \<Rightarrow> gerr + ChildRelation list" where
  "scanRelations D = scanRows ''pgxstore: scan relation: %w'' (scanRelation D)"

definition pgx_ChildGetByParent :: "'w sqldb \<Rightarrow> string \<Rightarrow> string \<Rightarrow> ('w, ChildRelation list) prog" where
  "pgx_ChildGetByParent D parentAggregateType parentAggregateID =
     queryRows D ''pgxstore: query children: %w'' (scanRelations D)
       (Select childColumns ''flowstep_children''
          [(''parent_aggregate_type'', EqOp, Arg 0), (''parent_aggregate_id'', EqOp, Arg 1)] None)
       [SText parentAggregateType, SText parentAggregateID]"

definition pgx_ChildGetByGroup :: "'w sqldb \<Rightarrow> string \<Rightarrow> ('w, ChildRelation list) prog" where
  "pgx_ChildGetByGroup D groupID =
     queryRows D ''pgxstore: query children by group: %w'' (scanRelations D)
       (Select childColumns ''flowstep_children'' [(''group_id'', EqOp, Arg 0)] None) [SText groupID]"

definition pgx_ChildComplete :: "'w sqldb \<Rightarrow> gval \<Rightarrow> string \<Rightarrow> string \<Rightarrow> string \<Rightarrow> 'w proc" where
  "pgx_ChildComplete D tx childAggregateType childAggregateID terminalState =
     execNil D ''pgxstore: complete child: %w'' tx
       (Update ''flowstep_children''
          [(''status'', Lit (SText ''COMPLETED'')), (''child_terminal_state'', Arg 0), (''completed_at'', Now)]
          [(''child_aggregate_type'', EqOp, Arg 1), (''child_aggregate_id'', EqOp, Arg 2)])
       [SText terminalState, SText childAggregateType, SText childAggregateID]"

definition pgx_NewChildStore :: "'w sqldb \<Rightarrow> 'w ChildStore" where
  "pgx_NewChildStore D =
     \<lparr>ch_Create = pgx_ChildCreate D, ch_GetByChild = pgx_ChildGetByChild D,
      ch_GetByParent = pgx_ChildGetByParent D, ch_GetByGroup = pgx_ChildGetByGroup D,
      ch_Complete = pgx_ChildComplete D\<rparr>"

section \<open>Activity store\<close>

definition activityInsertColumns :: "string list" where
  "activityInsertColumns =
     [''id'', ''activity_name'', ''workflow_type'', ''aggregate_type'', ''aggregate_id'',
      ''correlation_id'', ''mode'', ''input'', ''retry_policy'', ''timeout'', ''status'',
      ''max_attempts'', ''scheduled_at'']"

definition activityInsert :: stmt where
  "activityInsert = Insert ''flowstep_activities'' activityInsertColumns"

definition pgx_activityArgs :: "codec \<Rightarrow> ActivityInvocation \<Rightarrow> sqlval list" where
  "pgx_activityArgs c ivc =
     [SText (ai_ID ivc), SText (ai_ActivityName ivc), SText (ai_WorkflowType ivc),
      SText (ai_AggregateType ivc), SText (ai_AggregateID ivc), SText (ai_CorrelationID ivc),
      SText (show_mode (ai_Mode ivc)), mustJSON (cd_Input c (ai_Input ivc)), mustJSON (cd_Retry c (ai_RetryPolicy ivc)),
      SInt (ai_Timeout ivc), SText (ai_Status ivc), SInt (ai_MaxAttempts ivc), STime (ai_ScheduledAt ivc)]"

definition pgx_ActivityCreate :: "'w sqldb \<Rightarrow> codec \<Rightarrow> gval \<Rightarrow> ActivityInvocation \<Rightarrow> 'w proc" where
  "pgx_ActivityCreate D c tx ivc =
     execNil D ''pgxstore: create activity: %w'' tx activityInsert (pgx_activityArgs c ivc)"

definition activityColumns :: "string list" where
  "activityColumns =
     [''id'', ''activity_name'', ''workflow_type'', ''aggregate_type'', ''aggregate_id'',
      ''correlation_id'', ''mode'', ''input'', ''output'', ''error_msg'', ''retry_policy'',
      ''timeout'', ''status'', ''max_attempts'', ''attempt_count'',
      ''scheduled_at'', ''started_at'', ''completed_at'']"

text \<open>\<open>types.DispatchMode(mode)\<close> on the two texts the store writes.\<close>

definition dispatchMode :: "string \<Rightarrow> DispatchMode" where
  "dispatchMode mode = (if mode = ''AWAIT_RESULT'' then AwaitResult else FireAndForget)"

definition scanActivity :: "'w sqldb \<Rightarrow> codec \<Rightarrow> sqlval list \<Rightarrow> gerr + ActivityInvocation" where
  "scanActivity D c row =
     (if length row \<noteq> 18 then Inl scanMismatch else
      into (db_ScanString D (row ! 0)) (\<lambda>i.
      into (db_ScanString D (row ! 1)) (\<lambda>activityName.
      into (db_ScanString D (row ! 2)) (\<lambda>workflowType.
      into (db_ScanString D (row ! 3)) (\<lambda>aggregateType.
      into (db_ScanString D (row ! 4)) (\<lambda>aggregateID.
      into (db_ScanString D (row ! 5)) (\<lambda>correlationID.
      into (db_ScanString D (row ! 6)) (\<lambda>mode.
      into (db_ScanBytes D (row ! 7)) (\<lambda>input.
      into (db_ScanBytes D (row ! 8)) (\<lambda>output.
      into (db_ScanString D (row ! 9)) (\<lambda>errorMsg.
      into (db_ScanBytes D (row ! 10)) (\<lambda>retryPolicy.
      into (db_ScanInt D (row ! 11)) (\<lambda>timeout.
      into (db_ScanString D (row ! 12)) (\<lambda>status.
      into (db_ScanInt D (row ! 13)) (\<lambda>maxAttempts.
      into (db_ScanInt D (row ! 14)) (\<lambda>attempts.
      into (db_ScanTime D (row ! 15)) (\<lambda>scheduledAt.
      into (scanPtr (db_ScanTime D) (row ! 16)) (\<lambda>startedAt.
      into (scanPtr (db_ScanTime D) (row ! 17)) (\<lambda>completedAt.
      Inr \<lparr>ai_ID = i, ai_ActivityName = activityName, ai_WorkflowType = workflowType,
           ai_AggregateType = aggregateType, ai_AggregateID = aggregateID, ai_CorrelationID = correlationID,
           ai_Mode = dispatchMode mode, ai_Input = fromJSON (cd_toInput c) zero_input input,
           ai_RetryPolicy = fromJSON (cd_toRetry c) None retryPolicy, ai_ResultSignals = None,
           ai_Timeout = timeout, ai_Status = status, ai_Result = map_option (cd_toResult c) output,
           ai_Attempts = attempts, ai_MaxAttempts = maxAttempts, ai_NextRetryAt = None,
           ai_ScheduledAt = scheduledAt, ai_StartedAt = startedAt, ai_CompletedAt = completedAt\<rparr>)))))))))))))))))))"

definition pgx_ActivityGet :: "'w sqldb \<Rightarrow> codec \<Rightarrow> gerr \<Rightarrow> string \<Rightarrow> ('w, ActivityInvocation) prog" where
  "pgx_ActivityGet D c errNotFound invocationID =
     attempt (db_QueryRow D (Select activityColumns ''flowstep_activities'' [(''id'', EqOp, Arg 0)] None) [SText invocationID])
       (\<lambda>err. fail (Errorf ''pgxstore: get activity: %w'' [] (Some err)))
       (\<lambda>found. case found of
          None \<Rightarrow> fail (Errorf ''pgxstore: get activity: %w'' [] (Some errNotFound))
        | Some row \<Rightarrow> (case scanActivity D c row of
            Inl err \<Rightarrow> fail (Errorf ''pgxstore: get activity: %w'' [] (Some err))
          | Inr ivc \<Rightarrow> ok ivc))"

definition pgx_ActivityUpdateStatus ::
  "'w sqldb \<Rightarrow> codec \<Rightarrow> string \<Rightarrow> string \<Rightarrow> ActivityResult option \<Rightarrow> 'w proc" where
  "pgx_ActivityUpdateStatus D c invocationID status result =
     attempt (db_Exec D
       (Update ''flowstep_activities''
          [(''status'', Arg 0), (''output'', Arg 1), (''error_msg'', Arg 2), (''completed_at'', Now)]
          [(''id'', EqOp, Arg 3)])
       [SText status,
        case result of None \<Rightarrow> SNull | Some r \<Rightarrow> mustJSON (cd_Result c r),
        SText (case result of None \<Rightarrow> [] | Some r \<Rightarrow> ar_Error r),
        SText invocationID])
       (\<lambda>err. ret (Some (Errorf ''pgxstore: update activity status: %w'' [] (Some err))))
       (\<lambda>_. ret None)"

text \<open>The lists read one more column.\<close>

definition scanActivityNext :: "'w sqldb \<Rightarrow> codec \<Rightarrow> sqlval list \<Rightarrow> gerr + ActivityInvocation" where
  "scanActivityNext D c row =
     (if length row \<noteq> 19 then Inl scanMismatch else
      into (scanActivity D c (take 18 row)) (\<lambda>ivc.
      into (scanPtr (db_ScanTime D) (row ! 18)) (\<lambda>nextRetryAt.
      Inr (ivc\<lparr>ai_NextRetryAt := nextRetryAt\<rparr>))))"

definition scanActivities :: "'w sqldb \<Rightarrow> codec \<Rightarrow> sqlval list list \<Rightarrow> gerr option \<Rightarrow> gerr + ActivityInvocation list" where
  "scanActivities D c = scanRows ''pgxstore: scan activity: %w'' (scanActivityNext D c)"

definition selectActivities :: "sqlcond list \<Rightarrow> stmt" where
  "selectActivities conds =
     Select (activityColumns @ [''next_retry_at'']) ''flowstep_activities'' conds (Some ''scheduled_at'')"

definition pgx_ActivityListByAggregate :: "'w sqldb \<Rightarrow> codec \<Rightarrow> string \<Rightarrow> string \<Rightarrow> ('w, ActivityInvocation list) prog" where
  "pgx_ActivityListByAggregate D c aggregateType aggregateID =
     queryRows D ''pgxstore: query activities: %w'' (scanActivities D c)
       (selectActivities [(''aggregate_type'', EqOp, Arg 0), (''aggregate_id'', EqOp, Arg 1)])
       [SText aggregateType, SText aggregateID]"

definition pgx_ActivityListPending :: "'w sqldb \<Rightarrow> codec \<Rightarrow> ('w, ActivityInvocation list) prog" where
  "pgx_ActivityListPending D c =
     queryRows D ''pgxstore: list pending activities: %w'' (scanActivities D c)
       (selectActivities [(''status'', EqOp, Lit (SText ''SCHEDULED''))]) []"

definition pgx_ActivityListFailed :: "'w sqldb \<Rightarrow> codec \<Rightarrow> ('w, ActivityInvocation list) prog" where
  "pgx_ActivityListFailed D c =
     queryRows D ''pgxstore: list failed activities: %w'' (scanActivities D c)
       (selectActivities [(''status'', EqOp, Lit (SText ''FAILED''))]) []"

definition pgx_ActivityListRetryable :: "'w sqldb \<Rightarrow> codec \<Rightarrow> ('w, ActivityInvocation list) prog" where
  "pgx_ActivityListRetryable D c =
     queryRows D ''pgxstore: list retryable activities: %w'' (scanActivities D c)
       (selectActivities [(''status'', EqOp, Lit (SText ''SCHEDULED'')), (''next_retry_at'', LeOp, Now)]) []"

definition pgx_NewActivityStore :: "'w sqldb \<Rightarrow> codec \<Rightarrow> gerr \<Rightarrow> 'w ActivityStore" where
  "pgx_NewActivityStore D c errNotFound =
     \<lparr>as_Create = pgx_ActivityCreate D c, as_Get = pgx_ActivityGet D c errNotFound,
      as_UpdateStatus = pgx_ActivityUpdateStatus D c, as_ListByAggregate = pgx_ActivityListByAggregate D c,
      as_ListPending = pgx_ActivityListPending D c, as_ListFailed = pgx_ActivityListFailed D c,
      as_ListRetryable = pgx_ActivityListRetryable D c\<rparr>"

end
