(* ===== verification/Flow_PgxLaws.thy ===== *)
theory Flow_PgxLaws
  imports Flow_Pgx
begin

text \<open>
  What the PostgreSQL stores of \<open>Flow_Pgx\<close> do on a server that meets \<open>pg_server\<close>, the contract of
  PostgreSQL, in which a statement that fails aborts its transaction: which rows their statements leave
  behind, which of these rows their own reads refuse, and the round trip and the optimistic lock of the
  instance store.
\<close>

section \<open>What PostgreSQL documents of its sessions\<close>

text \<open>
  The committed tables, the open transaction with its own tables, or none when it is aborted, and the
  clock of the server.
\<close>

record pgview =
  pv_tables :: sqltables
  pv_tx :: "(gval \<times> sqltables option) option"
  pv_now :: gtime

text \<open>
  Reads on the pool see the committed tables. \<open>QueryRow\<close> delivers some row that the query selects, \<open>Query\<close> all
  of them, in the order of \<open>ORDER BY\<close>.
\<close>

definition pg_reads :: "coercion \<Rightarrow> (sqlval \<Rightarrow> sqlval \<Rightarrow> bool) \<Rightarrow> ('w \<Rightarrow> pgview) \<Rightarrow> 'w sqldb \<Rightarrow> bool" where
  "pg_reads co le view D \<longleftrightarrow>
     (\<forall>st args w. accepts co pg_schema (pv_now (view w)) args st \<longrightarrow> (\<exists>w' res. view w' = view w \<and>
        run_state (db_QueryRow D st args) w = (Inr res, w') \<and>
        (let rs = chosen co pg_schema (pv_now (view w)) args st (pv_tables (view w)) in
         if rs = [] then res = None else \<exists>r\<in>set rs. res = Some (projected st r)))) \<and>
     (\<forall>st args w. accepts co pg_schema (pv_now (view w)) args st \<longrightarrow> (\<exists>w' rs. view w' = view w \<and> ordered le st rs \<and>
        mset rs = mset (chosen co pg_schema (pv_now (view w)) args st (pv_tables (view w))) \<and>
        run_state (db_Query D st args) w = (Inr (map (projected st) rs, None), w')))"

text \<open>
  A statement that fails in a transaction aborts it, and an aborted transaction refuses every statement.
  A statement outside a transaction takes effect as a whole or not at all.
\<close>

definition pg_writes :: "coercion \<Rightarrow> ('w \<Rightarrow> pgview) \<Rightarrow> 'w sqldb \<Rightarrow> bool" where
  "pg_writes co view D \<longleftrightarrow>
     (\<forall>st args tx T w. keeps_unique pg_schema st \<longrightarrow> pv_tx (view w) = Some (tx, T) \<longrightarrow>
        (\<exists>w'. case Option.bind T (apply_stmt co pg_schema (pv_now (view w)) args st) of
           None \<Rightarrow> view w' = (view w)\<lparr>pv_tx := Some (tx, None)\<rparr> \<and> (\<exists>err. run_state (db_TxExec D tx st args) w = (Inl err, w'))
         | Some (T', n) \<Rightarrow> view w' = (view w)\<lparr>pv_tx := Some (tx, Some T')\<rparr> \<and>
             run_state (db_TxExec D tx st args) w = (Inr n, w'))) \<and>
     (\<forall>st args w. keeps_unique pg_schema st \<longrightarrow> pv_tx (view w) = None \<longrightarrow>
        (\<exists>w'. case apply_stmt co pg_schema (pv_now (view w)) args st (pv_tables (view w)) of
           None \<Rightarrow> view w' = view w \<and> (\<exists>err. run_state (db_Exec D st args) w = (Inl err, w'))
         | Some (T', n) \<Rightarrow> view w' = (view w)\<lparr>pv_tables := T'\<rparr> \<and>
             run_state (db_Exec D st args) w = (Inr n, w')))"

text \<open>The commit of an aborted transaction fails and rolls it back.\<close>

definition pg_txs :: "('w \<Rightarrow> pgview) \<Rightarrow> 'w sqldb \<Rightarrow> bool" where
  "pg_txs view D \<longleftrightarrow>
     (\<forall>w. pv_tx (view w) = None \<longrightarrow>
        (\<exists>tx w'. run_state (db_Begin D) w = (Inr tx, w') \<and>
           view w' = (view w)\<lparr>pv_tx := Some (tx, Some (pv_tables (view w)))\<rparr>)) \<and>
     (\<forall>tx T w. pv_tx (view w) = Some (tx, T) \<longrightarrow> db_isTx D tx \<and> tx \<noteq> GNil \<and>
        (\<exists>w'. case T of
           None \<Rightarrow> view w' = (view w)\<lparr>pv_tx := None\<rparr> \<and> (\<exists>err. run_state (db_Commit D tx) w = (Some err, w'))
         | Some T' \<Rightarrow> view w' = (view w)\<lparr>pv_tables := T', pv_tx := None\<rparr> \<and>
             run_state (db_Commit D tx) w = (None, w')) \<and>
        (\<exists>w'. run_state (db_Rollback D tx) w = (None, w') \<and> view w' = (view w)\<lparr>pv_tx := None\<rparr>))"

text \<open>As \<open>sql_db\<close>, for one transaction at a time and a server that does not fail.\<close>

definition pg_server :: "coercion \<Rightarrow> (sqlval \<Rightarrow> sqlval \<Rightarrow> bool) \<Rightarrow> ('w \<Rightarrow> pgview) \<Rightarrow> 'w sqldb \<Rightarrow> bool" where
  "pg_server co le view D \<longleftrightarrow>
     sql_scans D \<and> pg_reads co le view D \<and> pg_writes co view D \<and> pg_txs view D"

lemma pg_server_scans: "pg_server co le view D \<Longrightarrow> sql_scans D"
  by (simp add: pg_server_def)

lemma pg_server_QueryRow:
  assumes "pg_server co le view D" "accepts co pg_schema (pv_now (view w)) args st"
    and rs: "chosen co pg_schema (pv_now (view w)) args st (pv_tables (view w)) = rs" "length rs \<le> 1"
  obtains w' where "view w' = view w"
    "run_state (db_QueryRow D st args) w = (Inr (case rs of [] \<Rightarrow> None | r # _ \<Rightarrow> Some (projected st r)), w')"
proof -
  from assms(1) have "pg_reads co le view D" by (simp add: pg_server_def)
  from this [unfolded pg_reads_def, THEN conjunct1, rule_format, OF assms(2), unfolded rs(1) Let_def]
  obtain w' res where "view w' = view w" "run_state (db_QueryRow D st args) w = (Inr res, w')"
    "if rs = [] then res = None else \<exists>r\<in>set rs. res = Some (projected st r)" by blast
  moreover from this rs(2) have "res = (case rs of [] \<Rightarrow> None | r # _ \<Rightarrow> Some (projected st r))"
    by (cases rs) (auto split: if_splits)
  ultimately show thesis using that by blast
qed

lemma pg_server_Query:
  assumes "pg_server co le view D" "accepts co pg_schema (pv_now (view w)) args st"
  obtains rs w' where "view w' = view w" "ordered le st rs"
    "mset rs = mset (chosen co pg_schema (pv_now (view w)) args st (pv_tables (view w)))"
    "run_state (db_Query D st args) w = (Inr (map (projected st) rs, None), w')"
proof -
  from assms(1) have "pg_reads co le view D" by (simp add: pg_server_def)
  from this [unfolded pg_reads_def, THEN conjunct2, rule_format, OF assms(2)]
  show thesis using that by (elim exE conjE)
qed

lemma pg_server_TxExec_Some:
  assumes "pg_server co le view D" "keeps_unique pg_schema st" "pv_tx (view w) = Some (tx, Some T)"
    and "apply_stmt co pg_schema (pv_now (view w)) args st T = Some (T', n)"
  obtains w' where "view w' = (view w)\<lparr>pv_tx := Some (tx, Some T')\<rparr>"
    "run_state (db_TxExec D tx st args) w = (Inr n, w')"
proof -
  from assms(1) have "pg_writes co view D" by (simp add: pg_server_def)
  from this [unfolded pg_writes_def, THEN conjunct1, rule_format, OF assms(2,3), of args]
  show thesis using that by (auto simp: assms(4))
qed

lemma pg_server_TxExec_None:
  assumes "pg_server co le view D" "keeps_unique pg_schema st" "pv_tx (view w) = Some (tx, Some T)"
    and "apply_stmt co pg_schema (pv_now (view w)) args st T = None"
  obtains err w' where "view w' = (view w)\<lparr>pv_tx := Some (tx, None)\<rparr>" "run_state (db_TxExec D tx st args) w = (Inl err, w')"
proof -
  from assms(1) have "pg_writes co view D" by (simp add: pg_server_def)
  from this [unfolded pg_writes_def, THEN conjunct1, rule_format, OF assms(2,3), of args]
  show thesis using that by (auto simp: assms(4))
qed

lemma pg_server_Exec_Some:
  assumes "pg_server co le view D" "keeps_unique pg_schema st" "pv_tx (view w) = None"
    and "apply_stmt co pg_schema (pv_now (view w)) args st (pv_tables (view w)) = Some (T', n)"
  obtains w' where "view w' = (view w)\<lparr>pv_tables := T'\<rparr>" "run_state (db_Exec D st args) w = (Inr n, w')"
proof -
  from assms(1) have "pg_writes co view D" by (simp add: pg_server_def)
  from this [unfolded pg_writes_def, THEN conjunct2, rule_format, OF assms(2,3), of args]
  show thesis using that by (auto simp: assms(4))
qed

lemma pg_server_Exec_None:
  assumes "pg_server co le view D" "keeps_unique pg_schema st" "pv_tx (view w) = None"
    and "apply_stmt co pg_schema (pv_now (view w)) args st (pv_tables (view w)) = None"
  obtains err w' where "view w' = view w" "run_state (db_Exec D st args) w = (Inl err, w')"
proof -
  from assms(1) have "pg_writes co view D" by (simp add: pg_server_def)
  from this [unfolded pg_writes_def, THEN conjunct2, rule_format, OF assms(2,3), of args]
  show thesis using that by (auto simp: assms(4))
qed

lemma pg_server_tx:
  assumes "pg_server co le view D" "pv_tx (view w) = Some (tx, T)"
  shows pg_server_isTx: "db_isTx D tx" and pg_server_notNil: "tx \<noteq> GNil"
    and pg_server_Rollback: "\<exists>w'. run_state (db_Rollback D tx) w = (None, w') \<and> view w' = (view w)\<lparr>pv_tx := None\<rparr>"
    and pg_server_Commit: "T = Some T' \<Longrightarrow>
      \<exists>w'. run_state (db_Commit D tx) w = (None, w') \<and> view w' = (view w)\<lparr>pv_tables := T', pv_tx := None\<rparr>"
proof -
  from assms(1) have "pg_txs view D" by (simp add: pg_server_def)
  note open_tx = this [unfolded pg_txs_def, THEN conjunct2, rule_format, OF assms(2)]
  from open_tx show "db_isTx D tx" "tx \<noteq> GNil"
    "\<exists>w'. run_state (db_Rollback D tx) w = (None, w') \<and> view w' = (view w)\<lparr>pv_tx := None\<rparr>" by blast+
  assume "T = Some T'"
  with open_tx show "\<exists>w'. run_state (db_Commit D tx) w = (None, w') \<and> view w' = (view w)\<lparr>pv_tables := T', pv_tx := None\<rparr>"
    by auto
qed

lemma pg_inTx_begin:
  assumes db: "pg_server co le view D" "pv_tx (view w) = None" and TX: "tx_of D TX"
  obtains tx w1 where "db_isTx D tx" "view w1 = (view w)\<lparr>pv_tx := Some (tx, Some (pv_tables (view w)))\<rparr>"
    "run_state (inTx TX body) w = run_state (check (body tx)
       (\<lambda>err. do { _ \<leftarrow> db_Rollback D tx; ret (Some err) }) (db_Commit D tx)) w1"
proof -
  from db(1) have "pg_txs view D" by (simp add: pg_server_def)
  with db(2) obtain tx w1 where b: "run_state (db_Begin D) w = (Inr tx, w1)"
    "view w1 = (view w)\<lparr>pv_tx := Some (tx, Some (pv_tables (view w)))\<rparr>" unfolding pg_txs_def by blast
  have isTx: "db_isTx D tx" by (rule pg_server_isTx [OF db(1), of w1]) (simp add: b(2))
  then have "run_state (inTx TX body) w = run_state (check (body tx)
       (\<lambda>err. do { _ \<leftarrow> db_Rollback D tx; ret (Some err) }) (db_Commit D tx)) w1"
    using TX b(1) by (simp add: inTx_def tx_of_def run_attempt)
  with that [OF isTx b(2)] show thesis by blast
qed

lemma pg_inTx_commit:
  assumes db: "pg_server co le view D" "pv_tx (view w) = None" and TX: "tx_of D TX"
    and body: "\<And>tx w1. view w1 = (view w)\<lparr>pv_tx := Some (tx, Some (pv_tables (view w)))\<rparr> \<Longrightarrow> db_isTx D tx \<Longrightarrow>
      \<exists>w2. run_state (body tx) w1 = (None, w2) \<and> view w2 = (view w1)\<lparr>pv_tx := Some (tx, Some T)\<rparr>"
  shows "\<exists>w'. run_state (inTx TX body) w = (None, w') \<and> view w' = (view w)\<lparr>pv_tables := T\<rparr>"
proof -
  obtain tx w1 where b: "db_isTx D tx" "view w1 = (view w)\<lparr>pv_tx := Some (tx, Some (pv_tables (view w)))\<rparr>"
    "run_state (inTx TX body) w = run_state (check (body tx)
       (\<lambda>err. do { _ \<leftarrow> db_Rollback D tx; ret (Some err) }) (db_Commit D tx)) w1" by (rule pg_inTx_begin [OF db TX])
  from body [OF b(2,1)] obtain w2 where w2: "run_state (body tx) w1 = (None, w2)"
    "view w2 = (view w1)\<lparr>pv_tx := Some (tx, Some T)\<rparr>" by blast
  obtain w' where w': "run_state (db_Commit D tx) w2 = (None, w')" "view w' = (view w2)\<lparr>pv_tables := T, pv_tx := None\<rparr>"
    using pg_server_Commit [OF db(1), of w2 tx "Some T" T] by (auto simp: w2)
  have "(view w)\<lparr>pv_tables := T, pv_tx := None\<rparr> = (view w)\<lparr>pv_tables := T\<rparr>" using db(2) by simp
  then show ?thesis using w' w2 b by (simp add: run_check)
qed

lemma pg_inTx_abort:
  assumes db: "pg_server co le view D" "pv_tx (view w) = None" and TX: "tx_of D TX"
    and body: "\<And>tx w1. view w1 = (view w)\<lparr>pv_tx := Some (tx, Some (pv_tables (view w)))\<rparr> \<Longrightarrow> db_isTx D tx \<Longrightarrow>
      \<exists>w2 T err. run_state (body tx) w1 = (Some err, w2) \<and> P err \<and> view w2 = (view w1)\<lparr>pv_tx := Some (tx, T)\<rparr>"
  shows "\<exists>w' err. run_state (inTx TX body) w = (Some err, w') \<and> P err \<and> view w' = view w"
proof -
  obtain tx w1 where b: "db_isTx D tx" "view w1 = (view w)\<lparr>pv_tx := Some (tx, Some (pv_tables (view w)))\<rparr>"
    "run_state (inTx TX body) w = run_state (check (body tx)
       (\<lambda>err. do { _ \<leftarrow> db_Rollback D tx; ret (Some err) }) (db_Commit D tx)) w1" by (rule pg_inTx_begin [OF db TX])
  from body [OF b(2,1)] obtain w2 T err where w2: "run_state (body tx) w1 = (Some err, w2)" "P err"
    "view w2 = (view w1)\<lparr>pv_tx := Some (tx, T)\<rparr>" by blast
  obtain w' where w': "run_state (db_Rollback D tx) w2 = (None, w')" "view w' = (view w2)\<lparr>pv_tx := None\<rparr>"
    using pg_server_Rollback [OF db(1), of w2 tx T] by (auto simp: w2)
  have "(view w)\<lparr>pv_tx := None\<rparr> = view w" using db(2) by simp
  then show ?thesis using w' w2 b by (simp add: run_check)
qed

section \<open>What PostgreSQL documents of its types\<close>

text \<open>The resolution of a \<open>timestamptz\<close> is a microsecond.\<close>

definition micros :: "gtime \<Rightarrow> gtime" where
  "micros t = t - t mod 1000"

text \<open>
  A value that a column accepts is kept as it is, except that a time is cut to its microseconds and a
  document is brought to the canonical form \<open>canon\<close>. Which texts, times and documents are accepted is
  left to the server (a text must be valid in its encoding, without a zero byte); an INT has 32 bits and a
  BIGINT 64.
\<close>

definition pg_coercion :: "(string \<Rightarrow> string) \<Rightarrow> coercion \<Rightarrow> bool" where
  "pg_coercion canon co \<longleftrightarrow>
     (\<forall>s v. co CText (SText s) = Some v \<longrightarrow> v = SText s) \<and>
     (\<forall>n. co CInt (SInt n) = (if - (2 ^ 31) \<le> n \<and> n < 2 ^ 31 then Some (SInt n) else None)) \<and>
     (\<forall>n. co CBigInt (SInt n) = (if - (2 ^ 63) \<le> n \<and> n < 2 ^ 63 then Some (SInt n) else None)) \<and>
     (\<forall>b. co CBool (SBool b) = Some (SBool b)) \<and>
     (\<forall>t v. co CTime (STime t) = Some v \<longrightarrow> v = STime (micros t)) \<and>
     (\<forall>doc v. co CJson (SText doc) = Some v \<longrightarrow> v = SText (canon doc))"

text \<open>What a column holds of an argument that it accepts.\<close>

definition kept :: "coercion \<Rightarrow> coltype \<Rightarrow> sqlval \<Rightarrow> sqlval option" where
  "kept co ty v = (if v = SNull then Some SNull else co ty v)"

definition pgJson :: "(string \<Rightarrow> string) \<Rightarrow> string \<Rightarrow> sqlval" where
  "pgJson canon doc = (if doc = [] then SNull else SText (canon doc))"

lemma pg_keptD:
  assumes "pg_coercion canon co"
  shows "kept co CText (SText s) = Some v \<Longrightarrow> v = SText s" "kept co CInt (SInt n) = Some v \<Longrightarrow> v = SInt n"
    "kept co CBigInt (SInt n) = Some v \<Longrightarrow> v = SInt n" "kept co CBool (SBool b) = Some v \<Longrightarrow> v = SBool b"
    "kept co CTime (STime t) = Some v \<Longrightarrow> v = STime (micros t)"
    "kept co CJson (mustJSON doc) = Some v \<Longrightarrow> v = pgJson canon doc"
    "kept co CText (nilString s) = Some v \<Longrightarrow> v = nilString s"
    "kept co CTime (nilTime t) = Some v \<Longrightarrow> v = (if t = 0 then SNull else STime (micros t))"
  using assms
  by (auto simp: pg_coercion_def kept_def mustJSON_def pgJson_def nilString_def nilTime_def split: if_splits)

lemma those_SomeD: "those (map f xs) = Some ys \<Longrightarrow> ys = map (\<lambda>x. the (f x)) xs \<and> (\<forall>x\<in>set xs. f x \<noteq> None)"
  by (induction xs arbitrary: ys) (auto split: option.splits)

lemma find_distinct_name:
  "distinct (map cs_name specs) \<Longrightarrow> s \<in> set specs \<Longrightarrow> find (\<lambda>x. cs_name x = cs_name s) specs = Some s"
  by (induction specs) force+

text \<open>The columns of a row that an \<open>INSERT\<close> made.\<close>

lemma new_row_col:
  assumes row: "new_row co sch now tbl cols args = Some r"
    and specs: "distinct (map cs_name (sch tbl))" "s \<in> set (sch tbl)"
  shows "(case map_of (zip cols args) (cs_name s) of
            Some v \<Rightarrow> kept co (cs_type s) v
          | None \<Rightarrow> Some (opval now args (cs_default s))) = Some (col r (cs_name s))"
proof -
  let ?g = "\<lambda>s. case map_of (zip cols args) (cs_name s) of
      Some v \<Rightarrow> sent co sch tbl (cs_name s) v | None \<Rightarrow> Some (opval now args (cs_default s))"
  from those_SomeD [OF row [unfolded new_row_def]]
  have r: "r = map (\<lambda>s. the (map_option (Pair (cs_name s)) (?g s))) (sch tbl)"
    and some: "\<forall>s\<in>set (sch tbl). ?g s \<noteq> None" by auto
  have "r = map (\<lambda>s. (cs_name s, the (?g s))) (sch tbl)"
    unfolding r by (rule map_cong [OF refl]) (use some in \<open>auto simp: option.map_sel\<close>)
  then have "map_of r (cs_name s) = Some (the (?g s))"
    using specs by (simp add: map_of_eq_Some_iff [where xys = r] o_def)
  with some specs(2) have "?g s = Some (col r (cs_name s))" by (auto simp: col_def)
  then show ?thesis by (auto simp: sent_def kept_def find_distinct_name [OF specs] split: option.splits)
qed

lemma pg_distinct_names:
  "distinct (map cs_name (pg_schema ''flowstep_tasks''))" "distinct (map cs_name (pg_schema ''flowstep_children''))"
  "distinct (map cs_name (pg_schema ''flowstep_activities''))"
  by (simp_all add: pg_schema_def pg_tasks_def pg_children_def pg_activities_def pg_column_defs)

lemma new_row_cols:
  assumes "new_row co sch now tbl cols args = Some r" "distinct (map cs_name (sch tbl))"
  shows "\<forall>s\<in>set (sch tbl). (case map_of (zip cols args) (cs_name s) of
            Some v \<Rightarrow> kept co (cs_type s) v
          | None \<Rightarrow> Some (opval now args (cs_default s))) = Some (col r (cs_name s))"
  using new_row_col [OF assms] by blast

lemmas pg_row_defs = pg_schema_def pg_tasks_def pg_children_def pg_activities_def pg_column_defs opval_def

text \<open>The row of a new task: \<open>choice\<close> and \<open>completed_by\<close> are NULL.\<close>

lemma pgx_task_row:
  assumes co: "pg_coercion canon co"
    and row: "new_row co pg_schema now ''flowstep_tasks'' taskInsertColumns (pgx_taskArgs c task) = Some r"
  shows "map (col r) taskColumns =
    [SText (tk_ID task), SText (tk_WorkflowType task), SText (tk_AggregateType task), SText (tk_AggregateID task),
     SText (tk_CorrelationID task), SText (tk_TaskType task), SText (tk_Description task),
     pgJson canon (cd_Options c (tk_Options task)), SText (tk_Status task), SNull, SNull,
     SInt (tk_Timeout task), if tk_ExpiresAt task = 0 then SNull else STime (micros (tk_ExpiresAt task)),
     STime (micros (tk_CreatedAt task))]"
  using new_row_cols [OF row pg_distinct_names(1)]
  by (auto simp: pg_row_defs pgx_taskArgs_def taskColumns_def taskInsertColumns_def
      dest!: pg_keptD [OF co])

text \<open>The row of a new relation: \<open>child_terminal_state\<close> is NULL.\<close>

lemma pgx_child_row:
  assumes co: "pg_coercion canon co"
    and row: "new_row co pg_schema now ''flowstep_children'' childInsertColumns (pgx_childArgs rel) = Some r"
  shows "map (col r) childColumns =
    [SText (cr_ID rel), nilString (cr_GroupID rel), SText (cr_ParentWorkflowType rel),
     SText (cr_ParentAggregateType rel), SText (cr_ParentAggregateID rel), SText (cr_ChildWorkflowType rel),
     SText (cr_ChildAggregateType rel), SText (cr_ChildAggregateID rel), SText (cr_CorrelationID rel),
     SText (cr_Status rel), SNull, nilString (cr_JoinPolicy rel), STime (micros (cr_CreatedAt rel)), SNull]"
  using new_row_cols [OF row pg_distinct_names(2)]
  by (auto simp: pg_row_defs pgx_childArgs_def childColumns_def childInsertColumns_def
      dest!: pg_keptD [OF co])

text \<open>The row of a new invocation: \<open>error_msg\<close> is NULL.\<close>

lemma pgx_activity_row:
  assumes co: "pg_coercion canon co"
    and row: "new_row co pg_schema now ''flowstep_activities'' activityInsertColumns (pgx_activityArgs c ivc) = Some r"
  shows "map (col r) activityColumns =
    [SText (ai_ID ivc), SText (ai_ActivityName ivc), SText (ai_WorkflowType ivc), SText (ai_AggregateType ivc),
     SText (ai_AggregateID ivc), SText (ai_CorrelationID ivc), SText (show_mode (ai_Mode ivc)),
     pgJson canon (cd_Input c (ai_Input ivc)), SNull, SNull, pgJson canon (cd_Retry c (ai_RetryPolicy ivc)),
     SInt (ai_Timeout ivc), SText (ai_Status ivc), SInt (ai_MaxAttempts ivc), SInt 0,
     STime (micros (ai_ScheduledAt ivc)), SNull, SNull]"
  using new_row_cols [OF row pg_distinct_names(3)]
  by (auto simp: pg_row_defs pgx_activityArgs_def activityColumns_def activityInsertColumns_def
      dest!: pg_keptD [OF co])

section \<open>Rows that cannot be read\<close>

lemma pg_server_Exec_insert:
  assumes db: "pg_server co le view D" "pv_tx (view w) = None"
    and run: "run_state (db_Exec D (Insert tbl cols) args) w = (Inr n, w1)"
  shows "\<exists>r. new_row co pg_schema (pv_now (view w)) tbl cols args = Some r \<and>
    \<not> clashes (pg_schema tbl) (pv_tables (view w) tbl) r \<and>
    view w1 = (view w)\<lparr>pv_tables := (pv_tables (view w))(tbl := pv_tables (view w) tbl @ [r])\<rparr>"
proof (cases "apply_stmt co pg_schema (pv_now (view w)) args (Insert tbl cols) (pv_tables (view w))")
  case None
  then obtain err w' where "run_state (db_Exec D (Insert tbl cols) args) w = (Inl err, w')"
    using pg_server_Exec_None [OF db(1) _ db(2)] by (metis keeps_unique.simps(2))
  with run show ?thesis by simp
next
  case (Some p)
  then obtain T' m where p: "apply_stmt co pg_schema (pv_now (view w)) args (Insert tbl cols) (pv_tables (view w)) = Some (T', m)"
    by (cases p) auto
  obtain w' where "view w' = (view w)\<lparr>pv_tables := T'\<rparr>" "run_state (db_Exec D (Insert tbl cols) args) w = (Inr m, w')"
    by (rule pg_server_Exec_Some [OF db(1) _ db(2) p]) simp_all
  with run p show ?thesis by (auto split: option.splits if_splits)
qed

lemma queryRows_bad:
  assumes db: "pg_server co le view D" and acc: "accepts co pg_schema (pv_now (view w)) args st"
    and r: "r \<in> set (chosen co pg_schema (pv_now (view w)) args st (pv_tables (view w)))"
    and bad: "scan (projected st r) = Inl err"
  shows "\<exists>err. fst (run_state (queryRows D msg (scanRows m scan) st args) w) = Inl err"
proof -
  obtain rs w' where q: "mset rs = mset (chosen co pg_schema (pv_now (view w)) args st (pv_tables (view w)))"
    "run_state (db_Query D st args) w = (Inr (map (projected st) rs, None), w')"
    by (rule pg_server_Query [OF db acc])
  from q(1) r have "projected st r \<in> set (map (projected st) rs)" by (metis image_eqI list.set_map set_mset_mset)
  from scanRows_bad [OF this, of scan, OF bad] q(2) show ?thesis by (auto simp: queryRows_def run_attempt)
qed

lemma scanBytes_pgJson:
  "sql_scans D \<Longrightarrow> db_ScanBytes D (pgJson canon doc) = Inr (if doc = [] then None else Some (canon doc))"
  by (simp add: pgJson_def)

lemma scanPtr_nilString: "sql_scans D \<Longrightarrow> scanPtr (db_ScanString D) (nilString s) = Inr (if s = [] then None else Some s)"
  by (simp add: scanPtr_def nilString_def)

text \<open>A column that an inserted row lists is accepted, also as an argument of a condition.\<close>

lemma new_row_sent:
  assumes "new_row co sch now tbl cols args = Some r" "distinct (map cs_name (sch tbl))" "s \<in> set (sch tbl)"
    and "map_of (zip cols args) (cs_name s) = Some v"
  shows "sent co sch tbl (cs_name s) v = Some (col r (cs_name s))"
  using new_row_col [OF assms(1-3)] assms(4) by (simp add: sent_def kept_def find_distinct_name [OF assms(2,3)])

lemma pg_spec_in:
  "keyCol ''id'' \<in> set (pg_schema ''flowstep_tasks'')"
  "notNull (textCol ''aggregate_type'') \<in> set (pg_schema ''flowstep_tasks'')"
  "notNull (textCol ''aggregate_id'') \<in> set (pg_schema ''flowstep_tasks'')"
  "statusCol ''PENDING'' \<in> set (pg_schema ''flowstep_tasks'')"
  by (simp_all add: pg_schema_def pg_tasks_def)

lemma pgx_task_sent:
  assumes co: "pg_coercion canon co"
    and row: "new_row co pg_schema now ''flowstep_tasks'' taskInsertColumns (pgx_taskArgs c task) = Some r"
  shows "sent co pg_schema ''flowstep_tasks'' ''id'' (SText (tk_ID task)) = Some (SText (tk_ID task))"
    "sent co pg_schema ''flowstep_tasks'' ''aggregate_type'' (SText (tk_AggregateType task)) = Some (SText (tk_AggregateType task))"
    "sent co pg_schema ''flowstep_tasks'' ''aggregate_id'' (SText (tk_AggregateID task)) = Some (SText (tk_AggregateID task))"
    "sent co pg_schema ''flowstep_tasks'' ''status'' (SText (tk_Status task)) = Some (SText (tk_Status task))"
  using new_row_sent [OF row pg_distinct_names(1) pg_spec_in(1)] new_row_sent [OF row pg_distinct_names(1) pg_spec_in(2)]
    new_row_sent [OF row pg_distinct_names(1) pg_spec_in(3)] new_row_sent [OF row pg_distinct_names(1) pg_spec_in(4)]
    pgx_task_row [OF assms]
  by (simp_all add: pg_column_defs taskInsertColumns_def pgx_taskArgs_def taskColumns_def)

lemma pgx_task_scan_fails:
  assumes "sql_scans D" "db_ScanString D SNull = Inl err"
    and "pg_coercion canon co"
    and "new_row co pg_schema now ''flowstep_tasks'' taskInsertColumns (pgx_taskArgs c task) = Some r"
  shows "scanTask D c (map (col r) taskColumns) = Inl err"
  unfolding pgx_task_row [OF assms(3,4)] scanTask_def using assms(1,2) by (simp add: scanBytes_pgJson)

lemma pgx_task_cols:
  assumes "pg_coercion canon co"
    and "new_row co pg_schema now ''flowstep_tasks'' taskInsertColumns (pgx_taskArgs c task) = Some r"
  shows "col r ''id'' = SText (tk_ID task)" "col r ''aggregate_type'' = SText (tk_AggregateType task)"
    "col r ''aggregate_id'' = SText (tk_AggregateID task)" "col r ''status'' = SText (tk_Status task)"
  using pgx_task_row [OF assms] by (simp_all add: taskColumns_def)

text \<open>The row an accepted \<open>INSERT\<close> adds is the only one with its ID.\<close>

lemma filter_new_id:
  assumes "\<not> clashes (pg_schema tbl) rows r" "keyCol ''id'' \<in> set (pg_schema tbl)"
    and "col r ''id'' = SText i" "sent co pg_schema tbl ''id'' (SText i) = Some (SText i)"
  shows "filter (matches co pg_schema tbl now [SText i] [(''id'', EqOp, Arg 0)]) (rows @ [r]) = [r]"
proof -
  have "col r' ''id'' \<noteq> SText i" if "r' \<in> set rows" for r'
    using assms(1-3) that by (force simp: clashes_def list_ex_iff pg_column_defs)
  then show ?thesis using assms(3,4) by (simp add: matches_def opval_def filter_empty_conv)
qed

text \<open>A relation with an active child cannot be read, by its parent or by its group.\<close>

lemma pgx_child_scan_fails:
  assumes "sql_scans D" "db_ScanString D SNull = Inl err" "pg_coercion canon co"
    and "new_row co pg_schema now ''flowstep_children'' childInsertColumns (pgx_childArgs rel) = Some r"
  shows "scanRelation D (map (col r) childColumns) = Inl err"
  unfolding pgx_child_row [OF assms(3,4)] scanRelation_def using assms(1,2) by (simp add: scanPtr_nilString)

lemma pgx_child_sent:
  assumes co: "pg_coercion canon co"
    and row: "new_row co pg_schema now ''flowstep_children'' childInsertColumns (pgx_childArgs rel) = Some r"
  shows "sent co pg_schema ''flowstep_children'' ''parent_aggregate_type'' (SText (cr_ParentAggregateType rel)) =
      Some (SText (cr_ParentAggregateType rel))"
    "sent co pg_schema ''flowstep_children'' ''parent_aggregate_id'' (SText (cr_ParentAggregateID rel)) =
      Some (SText (cr_ParentAggregateID rel))"
    "cr_GroupID rel \<noteq> [] \<Longrightarrow> sent co pg_schema ''flowstep_children'' ''group_id'' (SText (cr_GroupID rel)) =
      Some (SText (cr_GroupID rel))"
    "col r ''parent_aggregate_type'' = SText (cr_ParentAggregateType rel)"
    "col r ''parent_aggregate_id'' = SText (cr_ParentAggregateID rel)"
    "col r ''group_id'' = nilString (cr_GroupID rel)"
proof -
  have specs: "notNull (textCol ''parent_aggregate_type'') \<in> set (pg_schema ''flowstep_children'')"
    "notNull (textCol ''parent_aggregate_id'') \<in> set (pg_schema ''flowstep_children'')"
    "textCol ''group_id'' \<in> set (pg_schema ''flowstep_children'')"
    by (simp_all add: pg_schema_def pg_children_def)
  note new_row_sent [OF row pg_distinct_names(2) specs(1)] new_row_sent [OF row pg_distinct_names(2) specs(2)]
    new_row_sent [OF row pg_distinct_names(2) specs(3)] pgx_child_row [OF assms]
  then show "sent co pg_schema ''flowstep_children'' ''parent_aggregate_type'' (SText (cr_ParentAggregateType rel)) =
      Some (SText (cr_ParentAggregateType rel))"
    "sent co pg_schema ''flowstep_children'' ''parent_aggregate_id'' (SText (cr_ParentAggregateID rel)) =
      Some (SText (cr_ParentAggregateID rel))"
    "cr_GroupID rel \<noteq> [] \<Longrightarrow> sent co pg_schema ''flowstep_children'' ''group_id'' (SText (cr_GroupID rel)) =
      Some (SText (cr_GroupID rel))"
    "col r ''parent_aggregate_type'' = SText (cr_ParentAggregateType rel)"
    "col r ''parent_aggregate_id'' = SText (cr_ParentAggregateID rel)"
    "col r ''group_id'' = nilString (cr_GroupID rel)"
    by (simp_all add: pg_column_defs childInsertColumns_def pgx_childArgs_def childColumns_def nilString_def)
qed

lemma pgx_active_child_unreadable:
  assumes db: "pg_server co le view D" "pv_tx (view w) = None" and co: "pg_coercion canon co"
    and create: "run_state (pgx_ChildCreate D GNil rel) w = (None, w1)"
  shows "\<exists>err. fst (run_state (pgx_ChildGetByParent D (cr_ParentAggregateType rel) (cr_ParentAggregateID rel)) w1) = Inl err"
    and "cr_GroupID rel \<noteq> [] \<Longrightarrow> \<exists>err. fst (run_state (pgx_ChildGetByGroup D (cr_GroupID rel)) w1) = Inl err"
proof -
  obtain n where "run_state (db_Exec D childInsert (pgx_childArgs rel)) w = (Inr n, w1)"
    using create by (auto simp: pgx_ChildCreate_def execNil_def run_attempt split: prod.splits sum.splits)
  from pg_server_Exec_insert [OF db this [unfolded childInsert_def]] obtain r where
    row: "new_row co pg_schema (pv_now (view w)) ''flowstep_children'' childInsertColumns (pgx_childArgs rel) = Some r"
    and w1: "view w1 = (view w)\<lparr>pv_tables := (pv_tables (view w))
      (''flowstep_children'' := pv_tables (view w) ''flowstep_children'' @ [r])\<rparr>" by blast
  obtain err where null: "db_ScanString D SNull = Inl err" by (rule sql_scans_null [OF pg_server_scans [OF db(1)]])
  note sent = pgx_child_sent [OF co row] and scan = pgx_child_scan_fails [OF pg_server_scans [OF db(1)] null co row]
  show "\<exists>err. fst (run_state (pgx_ChildGetByParent D (cr_ParentAggregateType rel) (cr_ParentAggregateID rel)) w1) = Inl err"
    unfolding pgx_ChildGetByParent_def scanRelations_def
    by (rule queryRows_bad [OF db(1), where r = r and err = err])
       (simp_all add: fitting_def matches_def opval_def sent w1 scan)
  show "\<exists>err. fst (run_state (pgx_ChildGetByGroup D (cr_GroupID rel)) w1) = Inl err" if "cr_GroupID rel \<noteq> []"
    unfolding pgx_ChildGetByGroup_def scanRelations_def
    by (rule queryRows_bad [OF db(1), where r = r and err = err])
       (use that in \<open>simp_all add: fitting_def matches_def opval_def sent nilString_def w1 scan\<close>)
qed

text \<open>Nor can an invocation that is scheduled.\<close>

lemma pgx_activity_scan_fails:
  assumes "sql_scans D" "db_ScanString D SNull = Inl err" "pg_coercion canon co"
    and "new_row co pg_schema now ''flowstep_activities'' activityInsertColumns (pgx_activityArgs c ivc) = Some r"
  shows "scanActivity D c (map (col r) activityColumns) = Inl err"
  unfolding pgx_activity_row [OF assms(3,4)] scanActivity_def using assms(1,2) by (simp add: scanBytes_pgJson)

lemma pgx_scheduled_activity_unreadable:
  assumes db: "pg_server co le view D" "pv_tx (view w) = None" and co: "pg_coercion canon co"
    and create: "run_state (pgx_ActivityCreate D c GNil ivc) w = (None, w1)"
  shows "\<exists>err. fst (run_state (pgx_ActivityGet D c errNotFound (ai_ID ivc)) w1) = Inl (Errorf ''pgxstore: get activity: %w'' [] (Some err))"
    and "ai_Status ivc = ''SCHEDULED'' \<Longrightarrow> \<exists>err. fst (run_state (pgx_ActivityListPending D c) w1) = Inl err"
proof -
  obtain n where "run_state (db_Exec D activityInsert (pgx_activityArgs c ivc)) w = (Inr n, w1)"
    using create by (auto simp: pgx_ActivityCreate_def execNil_def run_attempt split: prod.splits sum.splits)
  from pg_server_Exec_insert [OF db this [unfolded activityInsert_def]] obtain r where
    row: "new_row co pg_schema (pv_now (view w)) ''flowstep_activities'' activityInsertColumns (pgx_activityArgs c ivc) = Some r"
    and fresh: "\<not> clashes (pg_schema ''flowstep_activities'') (pv_tables (view w) ''flowstep_activities'') r"
    and w1: "view w1 = (view w)\<lparr>pv_tables := (pv_tables (view w))
      (''flowstep_activities'' := pv_tables (view w) ''flowstep_activities'' @ [r])\<rparr>" by blast
  obtain err where null: "db_ScanString D SNull = Inl err" by (rule sql_scans_null [OF pg_server_scans [OF db(1)]])
  have specs: "keyCol ''id'' \<in> set (pg_schema ''flowstep_activities'')"
    "statusCol ''SCHEDULED'' \<in> set (pg_schema ''flowstep_activities'')"
    by (simp_all add: pg_schema_def pg_activities_def)
  note scan = pgx_activity_scan_fails [OF pg_server_scans [OF db(1)] null co row] and cols = pgx_activity_row [OF co row]
  have key: "col r ''id'' = SText (ai_ID ivc)" "col r ''status'' = SText (ai_Status ivc)"
    using cols by (simp_all add: activityColumns_def)
  have sent: "sent co pg_schema ''flowstep_activities'' ''id'' (SText (ai_ID ivc)) = Some (SText (ai_ID ivc))"
    "sent co pg_schema ''flowstep_activities'' ''status'' (SText (ai_Status ivc)) = Some (SText (ai_Status ivc))"
    using new_row_sent [OF row pg_distinct_names(3) specs(1)] new_row_sent [OF row pg_distinct_names(3) specs(2)] key
    by (simp_all add: pg_column_defs activityInsertColumns_def pgx_activityArgs_def)
  let ?get = "Select activityColumns ''flowstep_activities'' [(''id'', EqOp, Arg 0)] None"
  have T: "pv_tables (view w1) ''flowstep_activities'' = pv_tables (view w) ''flowstep_activities'' @ [r]" by (simp add: w1)
  have sel: "chosen co pg_schema (pv_now (view w1)) [SText (ai_ID ivc)] ?get (pv_tables (view w1)) = [r]"
    unfolding chosen.simps T by (rule filter_new_id [OF fresh specs(1) key(1) sent(1)])
  obtain w2 where "run_state (db_QueryRow D ?get [SText (ai_ID ivc)]) w1 =
      (Inr (case [r] of [] \<Rightarrow> None | r # _ \<Rightarrow> Some (projected ?get r)), w2)"
    by (rule pg_server_QueryRow [OF db(1) _ sel]) (simp_all add: fitting_def opval_def sent)
  then show "\<exists>err. fst (run_state (pgx_ActivityGet D c errNotFound (ai_ID ivc)) w1) = Inl (Errorf ''pgxstore: get activity: %w'' [] (Some err))"
    by (simp add: pgx_ActivityGet_def run_attempt scan)
  have "scanActivityNext D c (map (col r) (activityColumns @ [''next_retry_at''])) = Inl err"
    using scan by (simp add: scanActivityNext_def activityColumns_def)
  then show "\<exists>err. fst (run_state (pgx_ActivityListPending D c) w1) = Inl err" if "ai_Status ivc = ''SCHEDULED''"
    unfolding pgx_ActivityListPending_def scanActivities_def selectActivities_def
    by (intro queryRows_bad [OF db(1), where r = r and err = err])
       (use that sent(2) key(2) in \<open>simp_all add: fitting_def matches_def opval_def w1\<close>)
qed

text \<open>
  No statement writes \<open>next_retry_at\<close>, so \<open>ListRetryable\<close> selects no row that the store made.
\<close>

lemma pgx_never_retryable:
  assumes "new_row co pg_schema now ''flowstep_activities'' activityInsertColumns (pgx_activityArgs c ivc) = Some r"
  shows "\<not> matches co pg_schema ''flowstep_activities'' now' args
    [(''status'', EqOp, Lit (SText ''SCHEDULED'')), (''next_retry_at'', LeOp, Now)] r"
proof -
  have "col r ''next_retry_at'' = SNull"
    using new_row_col [OF assms pg_distinct_names(3), of "timeCol ''next_retry_at''"]
    by (simp add: pg_schema_def pg_activities_def activityInsertColumns_def pg_column_defs opval_def pgx_activityArgs_def)
  then show ?thesis by (simp add: matches_def split: option.splits)
qed

section \<open>The instance store over its rows\<close>

definition pgx_stored :: "(string \<Rightarrow> string) \<Rightarrow> codec \<Rightarrow> WorkflowInstance \<Rightarrow> sqlval list" where
  "pgx_stored canon c inst =
     [SText (wi_ID inst), SText (wi_WorkflowType inst), SInt (wi_WorkflowVersion inst),
      SText (wi_AggregateType inst), SText (wi_AggregateID inst),
      SText (wi_CurrentState inst), pgJson canon (cd_Params c (wi_StateData inst)), SText (wi_CorrelationID inst),
      SBool (wi_IsStuck inst), SText (cd_Text c (wi_StuckReason inst)), SInt (wi_RetryCount inst),
      STime (micros (wi_CreatedAt inst)), STime (micros (wi_UpdatedAt inst)),
      pgJson canon (cd_StrMap c (wi_ShallowHistory inst)), pgJson canon (cd_StrMap c (wi_DeepHistory inst)),
      pgJson canon (cd_StrMap c (wi_ActiveInParallel inst)), SInt (sint (wi_ParallelClock inst))]"

definition pgx_instanceRow :: "(string \<Rightarrow> string) \<Rightarrow> codec \<Rightarrow> WorkflowInstance \<Rightarrow> sqlrow" where
  "pgx_instanceRow canon c inst = zip instanceColumns (pgx_stored canon c inst)"

definition pgDoc :: "(string \<Rightarrow> string) \<Rightarrow> (string \<Rightarrow> 'a) \<Rightarrow> 'a \<Rightarrow> string \<Rightarrow> 'a" where
  "pgDoc canon f z doc = (if doc = [] then z else f (canon doc))"

definition pgx_readback :: "(string \<Rightarrow> string) \<Rightarrow> codec \<Rightarrow> WorkflowInstance \<Rightarrow> WorkflowInstance" where
  "pgx_readback canon c inst = inst\<lparr>
     wi_StateData := pgDoc canon (cd_toParams c) None (cd_Params c (wi_StateData inst)),
     wi_StuckReason := Text (cd_Text c (wi_StuckReason inst)), wi_StuckAt := None,
     wi_CreatedAt := micros (wi_CreatedAt inst), wi_UpdatedAt := micros (wi_UpdatedAt inst),
     wi_ShallowHistory := pgDoc canon (cd_toStrMap c) (Some []) (cd_StrMap c (wi_ShallowHistory inst)),
     wi_DeepHistory := pgDoc canon (cd_toStrMap c) (Some []) (cd_StrMap c (wi_DeepHistory inst)),
     wi_ActiveInParallel := pgDoc canon (cd_toStrMap c) (Some []) (cd_StrMap c (wi_ActiveInParallel inst)),
     wi_LastReadUpdatedAt := 0\<rparr>"

lemma pgx_instanceRow_cols: "map (col (pgx_instanceRow canon c inst)) instanceColumns = pgx_stored canon c inst"
  unfolding pgx_instanceRow_def
  by (rule map_col_zip) (simp_all add: distinct_columns, simp add: instanceColumns_def pgx_stored_def)

lemma pgx_scanInstance_stored:
  assumes "sql_scans D"
  shows "pgx_scanInstance D c (pgx_stored canon c inst) = Inr (pgx_readback canon c inst)"
  using assms
  by (simp add: pgx_scanInstance_def pgx_stored_def pgx_readback_def zero_instance_def scanBytes_pgJson fromJSON_def pgDoc_def)

lemma pg_instance_columns: "instanceColumns = map cs_name (pg_schema ''flowstep_instances'')"
  by (simp add: instanceColumns_def pg_schema_def pg_instances_def pg_column_defs)

lemma row_zip: "distinct cols \<Longrightarrow> map fst r = cols \<Longrightarrow> r = zip cols (map (col r) cols)"
proof -
  assume d: "distinct cols" and r: "map fst r = cols"
  have "col r (fst (r ! i)) = snd (r ! i)" if "i < length r" for i
    using that d r by (simp add: col_def map_of_eq_Some_iff [where xys = r, THEN iffD2, of "fst (r ! i)" "snd (r ! i)"])
  then show ?thesis using r by (intro nth_equalityI) (auto simp: prod_eq_iff)
qed

lemma new_row_names: "new_row co sch now tbl cols args = Some r \<Longrightarrow> map fst r = map cs_name (sch tbl)"
proof -
  assume r: "new_row co sch now tbl cols args = Some r"
  show ?thesis using those_SomeD [OF r [unfolded new_row_def]] by (auto simp: option.map_sel)
qed

lemma pgx_instance_row:
  assumes co: "pg_coercion canon co"
    and row: "new_row co pg_schema now ''flowstep_instances'' instanceColumns (pgx_instanceArgs c inst) = Some r"
  shows "r = pgx_instanceRow canon c inst"
proof -
  have "distinct (map cs_name (pg_schema ''flowstep_instances''))"
    using distinct_columns(2) by (simp add: pg_instance_columns)
  from new_row_cols [OF row this] have "map (col r) instanceColumns = pgx_stored canon c inst"
    by (auto simp: pg_schema_def pg_instances_def pg_column_defs pgx_instanceArgs_def instanceColumns_def pgx_stored_def
        dest!: pg_keptD [OF co])
  then show ?thesis
    using row_zip [OF distinct_columns(2), of r] new_row_names [OF row] by (simp add: pgx_instanceRow_def pg_instance_columns)
qed

lemma pgx_tx_of: "tx_of D (pgx_NewTxProvider D)"
  by (simp add: tx_of_def pgx_NewTxProvider_def pgx_Begin_def pgx_Commit_def pgx_Rollback_def run_attempt)

lemma execAny_tx: "db_isTx D tx \<Longrightarrow> tx \<noteq> GNil \<Longrightarrow> execAny D tx st args = db_TxExec D tx st args"
  by (simp add: execAny_def getTx_def)

text \<open>The types of the columns of an instance that statements send values to.\<close>

lemma pg_sent_instance:
  "sent co pg_schema ''flowstep_instances'' ''aggregate_type'' v = kept co CText v"
  "sent co pg_schema ''flowstep_instances'' ''aggregate_id'' v = kept co CText v"
  "sent co pg_schema ''flowstep_instances'' ''current_state'' v = kept co CText v"
  "sent co pg_schema ''flowstep_instances'' ''state_data'' v = kept co CJson v"
  "sent co pg_schema ''flowstep_instances'' ''is_stuck'' v = kept co CBool v"
  "sent co pg_schema ''flowstep_instances'' ''stuck_reason'' v = kept co CText v"
  "sent co pg_schema ''flowstep_instances'' ''retry_count'' v = kept co CInt v"
  "sent co pg_schema ''flowstep_instances'' ''updated_at'' v = kept co CTime v"
  "sent co pg_schema ''flowstep_instances'' ''shallow_history'' v = kept co CJson v"
  "sent co pg_schema ''flowstep_instances'' ''deep_history'' v = kept co CJson v"
  "sent co pg_schema ''flowstep_instances'' ''active_in_parallel'' v = kept co CJson v"
  "sent co pg_schema ''flowstep_instances'' ''parallel_clock'' v = kept co CBigInt v"
  by (simp_all add: sent_def kept_def pg_schema_def pg_instances_def pg_column_defs)

text \<open>The texts that a column accepts.\<close>

definition pg_text :: "coercion \<Rightarrow> string \<Rightarrow> bool" where
  "pg_text co s \<longleftrightarrow> co CText (SText s) \<noteq> None"

lemma kept_text: "pg_coercion canon co \<Longrightarrow> pg_text co s \<Longrightarrow> kept co CText (SText s) = Some (SText s)"
  by (auto simp: pg_coercion_def kept_def pg_text_def)

lemma kept_pg_text: "kept co CText (SText s) \<noteq> None \<longleftrightarrow> pg_text co s"
  by (simp add: kept_def pg_text_def)

lemma pgx_instance_col:
  "col (pgx_instanceRow canon c i) ''id'' = SText (wi_ID i)"
  "col (pgx_instanceRow canon c i) ''aggregate_type'' = SText (wi_AggregateType i)"
  "col (pgx_instanceRow canon c i) ''aggregate_id'' = SText (wi_AggregateID i)"
  "col (pgx_instanceRow canon c i) ''updated_at'' = STime (micros (wi_UpdatedAt i))"
  by (simp_all add: col_def pgx_instanceRow_def instanceColumns_def pgx_stored_def)

lemma pgx_matches_key:
  assumes "pg_coercion canon co" "pg_text co at" "pg_text co aid"
  shows "matches co pg_schema ''flowstep_instances'' now [SText at, SText aid]
      [(''aggregate_type'', EqOp, Arg 0), (''aggregate_id'', EqOp, Arg 1)] (pgx_instanceRow canon c i) \<longleftrightarrow>
      sameAggregate at aid i"
    and "fitting co pg_schema ''flowstep_instances'' now [SText at, SText aid]
      [(''aggregate_type'', EqOp, Arg 0), (''aggregate_id'', EqOp, Arg 1)]"
  by (simp_all add: matches_def fitting_def opval_def pg_sent_instance kept_text [OF assms(1,2)] kept_text [OF assms(1,3)]
      pgx_instance_col sameAggregate_def)





abbreviation pgx_with :: "(string \<Rightarrow> string) \<Rightarrow> codec \<Rightarrow> WorkflowInstance list \<Rightarrow> sqltables \<Rightarrow> sqltables" where
  "pgx_with canon c is T \<equiv> T(''flowstep_instances'' := map (pgx_instanceRow canon c) is)"


lemma pgx_apply_create:
  assumes co: "pg_coercion canon co" and T: "T ''flowstep_instances'' = map (pgx_instanceRow canon c) is"
    and ap: "apply_stmt co pg_schema now (pgx_instanceArgs c inst) (Insert ''flowstep_instances'' instanceColumns) T = Some (T', n)"
  shows "T' = pgx_with canon c (is @ [inst]) T \<and> n = 1 \<and> (\<forall>i\<in>set is. wi_AggregateID i \<noteq> wi_AggregateID inst)"
proof -
  from ap obtain r where r: "new_row co pg_schema now ''flowstep_instances'' instanceColumns (pgx_instanceArgs c inst) = Some r"
    and T': "T' = T(''flowstep_instances'' := T ''flowstep_instances'' @ [r])" "n = 1"
    and fresh: "\<not> clashes (pg_schema ''flowstep_instances'') (T ''flowstep_instances'') r"
    by (auto split: option.splits if_splits)
  have "uniqueCol (notNull (textCol ''aggregate_id'')) \<in> set (pg_schema ''flowstep_instances'')"
    by (simp add: pg_schema_def pg_instances_def)
  with fresh have "\<forall>i\<in>set is. wi_AggregateID i \<noteq> wi_AggregateID inst"
    unfolding pgx_instance_row [OF co r] T
    by (force simp: clashes_def list_ex_iff pg_column_defs pgx_instance_col)
  with T' T pgx_instance_row [OF co r] show ?thesis by simp
qed



lemma pgx_create_texts:
  assumes "apply_stmt co pg_schema now (pgx_instanceArgs c inst) (Insert ''flowstep_instances'' instanceColumns) T = Some (T', n)"
  shows "pg_text co (wi_AggregateType inst) \<and> pg_text co (wi_AggregateID inst)"
proof -
  from assms obtain r where r: "new_row co pg_schema now ''flowstep_instances'' instanceColumns (pgx_instanceArgs c inst) = Some r"
    by (auto split: option.splits)
  have "distinct (map cs_name (pg_schema ''flowstep_instances''))"
    using distinct_columns(2) by (simp add: pg_instance_columns)
  from new_row_cols [OF r this] show ?thesis
    by (auto simp: pg_schema_def pg_instances_def pg_column_defs pgx_instanceArgs_def instanceColumns_def
        simp flip: kept_pg_text)
qed

lemma pg_keeps_unique:
  "keeps_unique pg_schema updateInstance" "keeps_unique pg_schema (Insert tbl cols)"
  by (simp_all add: updateInstance_def instanceSets_def pg_schema_def pg_instances_def pg_column_defs)

lemma one_sameAggregate: "distinct (map wi_AggregateID is) \<Longrightarrow> length (filter (sameAggregate at aid) is) \<le> 1"
  by (induction "is") (auto simp: sameAggregate_def filter_empty_conv intro: rev_image_eqI)

lemma pgx_Get_result:
  assumes db: "pg_server co le view D" and co: "pg_coercion canon co"
    and rows: "pv_tables (view w) ''flowstep_instances'' = map (pgx_instanceRow canon c) is"
    and ids: "distinct (map wi_AggregateID is)" and key: "pg_text co at" "pg_text co aid"
  shows "fst (run_state (pgx_Get D c errNotFound at aid) w) =
    (case find (sameAggregate at aid) is of None \<Rightarrow> Inl errNotFound | Some i \<Rightarrow> Inr (pgx_readback canon c i))"
proof -
  let ?args = "[SText at, SText aid]"
  have acc: "accepts co pg_schema (pv_now (view w)) ?args selectInstance"
    unfolding selectInstance_def accepts.simps by (rule pgx_matches_key(2) [OF co key])
  have sel: "chosen co pg_schema (pv_now (view w)) ?args selectInstance (pv_tables (view w)) =
      map (pgx_instanceRow canon c) (filter (sameAggregate at aid) is)"
    unfolding selectInstance_def chosen.simps rows using pgx_matches_key(1) [OF co key] by (simp add: filter_map o_def)
  obtain w' where w': "run_state (db_QueryRow D selectInstance ?args) w =
      (Inr (case map (pgx_instanceRow canon c) (filter (sameAggregate at aid) is) of
              [] \<Rightarrow> None | r # _ \<Rightarrow> Some (projected selectInstance r)), w')"
    by (rule pg_server_QueryRow [OF db acc sel]) (use one_sameAggregate [OF ids] in simp_all)
  have hd: "find (sameAggregate at aid) is = (case filter (sameAggregate at aid) is of [] \<Rightarrow> None | i # _ \<Rightarrow> Some i)"
    by (induction "is") auto
  show ?thesis
    using w' unfolding hd
    by (cases "filter (sameAggregate at aid) is")
       (auto simp: pgx_Get_def run_attempt selectInstance_def pgx_instanceRow_cols
          pgx_scanInstance_stored [OF pg_server_scans [OF db]])
qed

text \<open>
  A call in a transaction that writes one statement: what it leaves behind when the server accepts the
  statement, and when it does not.
\<close>

lemma pgx_inTx_exec:
  assumes db: "pg_server co le view D" "pv_tx (view w) = None" and st: "keeps_unique pg_schema st"
    and body: "\<And>tx. body tx = attempt (execAny D tx st args) (\<lambda>err. ret (Some (Errorf msg [] (Some err)))) k"
    and k: "\<And>n. k n = (if bad n then ret (Some err0) else ret None)"
  shows "\<exists>r w'. run_state (inTx (pgx_NewTxProvider D) body) w = (r, w') \<and>
    (case apply_stmt co pg_schema (pv_now (view w)) args st (pv_tables (view w)) of
       None \<Rightarrow> r \<noteq> None \<and> view w' = view w
     | Some (T', n) \<Rightarrow> if bad n then r = Some err0 \<and> view w' = view w
                       else r = None \<and> view w' = (view w)\<lparr>pv_tables := T'\<rparr>)"
proof (cases "apply_stmt co pg_schema (pv_now (view w)) args st (pv_tables (view w))")
  case None
  have "\<exists>w' err. run_state (inTx (pgx_NewTxProvider D) body) w = (Some err, w') \<and> True \<and> view w' = view w"
  proof (rule pg_inTx_abort [OF db pgx_tx_of])
    fix tx w1
    assume w1: "view w1 = (view w)\<lparr>pv_tx := Some (tx, Some (pv_tables (view w)))\<rparr>" and isTx: "db_isTx D tx"
    have tx: "pv_tx (view w1) = Some (tx, Some (pv_tables (view w)))" by (simp add: w1)
    obtain err w2 where "view w2 = (view w1)\<lparr>pv_tx := Some (tx, None)\<rparr>" "run_state (db_TxExec D tx st args) w1 = (Inl err, w2)"
      by (rule pg_server_TxExec_None [OF db(1) st tx, of args]) (simp_all add: w1 None)
    then show "\<exists>w2 T err. run_state (body tx) w1 = (Some err, w2) \<and> True \<and> view w2 = (view w1)\<lparr>pv_tx := Some (tx, T)\<rparr>"
      using w1 by (auto simp: body execAny_tx [OF isTx pg_server_notNil [OF db(1) tx]] run_attempt)
  qed
  with None show ?thesis by auto
next
  case (Some p)
  obtain T' n where p: "p = (T', n)" by (cases p)
  have ex: "\<exists>w2. view w2 = (view w1)\<lparr>pv_tx := Some (tx, Some T')\<rparr> \<and> run_state (body tx) w1 = run_state (k n) w2"
    if w1: "view w1 = (view w)\<lparr>pv_tx := Some (tx, Some (pv_tables (view w)))\<rparr>" and isTx: "db_isTx D tx" for tx w1
  proof -
    have tx: "pv_tx (view w1) = Some (tx, Some (pv_tables (view w)))" by (simp add: w1)
    obtain w2 where "view w2 = (view w1)\<lparr>pv_tx := Some (tx, Some T')\<rparr>" "run_state (db_TxExec D tx st args) w1 = (Inr n, w2)"
      by (rule pg_server_TxExec_Some [OF db(1) st tx, of args]) (simp_all add: w1 Some p)
    then show ?thesis by (auto simp: body execAny_tx [OF isTx pg_server_notNil [OF db(1) tx]] run_attempt)
  qed
  show ?thesis
  proof (cases "bad n")
    case True
    have "\<exists>w' err. run_state (inTx (pgx_NewTxProvider D) body) w = (Some err, w') \<and> err = err0 \<and> view w' = view w"
      by (rule pg_inTx_abort [OF db pgx_tx_of]) (use ex True k in fastforce)
    with Some p True show ?thesis by auto
  next
    case False
    have "\<exists>w'. run_state (inTx (pgx_NewTxProvider D) body) w = (None, w') \<and> view w' = (view w)\<lparr>pv_tables := T'\<rparr>"
      by (rule pg_inTx_commit [OF db pgx_tx_of]) (use ex False k in fastforce)
    with Some p False show ?thesis by auto
  qed
qed

lemma sameAggregate_self: "sameAggregate at aid i \<longleftrightarrow> at = wi_AggregateType i \<and> aid = wi_AggregateID i"
  by (auto simp: sameAggregate_def)

lemma pgx_Create_session:
  assumes db: "pg_server co le view D" "pv_tx (view w) = None"
  shows "\<exists>r w'. run_state (inTx (pgx_NewTxProvider D) (\<lambda>tx. pgx_Create D c tx inst)) w = (r, w') \<and>
    (case apply_stmt co pg_schema (pv_now (view w)) (pgx_instanceArgs c inst)
       (Insert ''flowstep_instances'' instanceColumns) (pv_tables (view w)) of
       None \<Rightarrow> r \<noteq> None \<and> view w' = view w
     | Some (T', n) \<Rightarrow> if False then r = Some pgx_invalidTx \<and> view w' = view w
                       else r = None \<and> view w' = (view w)\<lparr>pv_tables := T'\<rparr>)"
  by (rule pgx_inTx_exec [OF db pg_keeps_unique(2), where k = "\<lambda>_. ret None"]) (simp_all add: pgx_Create_def)






section \<open>A database for the witnesses\<close>

fun samplePgCoercion :: coercion where
  "samplePgCoercion CText (SText s) = (if list_all (\<lambda>x. of_char x \<in> {1..<128::nat}) s then Some (SText s) else None)"
| "samplePgCoercion CInt (SInt n) = (if - (2 ^ 31) \<le> n \<and> n < 2 ^ 31 then Some (SInt n) else None)"
| "samplePgCoercion CBigInt (SInt n) = (if - (2 ^ 63) \<le> n \<and> n < 2 ^ 63 then Some (SInt n) else None)"
| "samplePgCoercion CBool (SBool b) = Some (SBool b)"
| "samplePgCoercion CTime (STime t) = Some (STime (micros t))"
| "samplePgCoercion CJson (SText doc) = Some (SText doc)"
| "samplePgCoercion _ _ = None"

lemma samplePgCoercion_ok: "pg_coercion id samplePgCoercion"
  by (simp add: pg_coercion_def)

text \<open>A server that meets the contract.\<close>

definition pgref_select :: "coercion \<Rightarrow> (sqlval \<Rightarrow> int) \<Rightarrow> stmt \<Rightarrow> sqlval list \<Rightarrow> pgview \<Rightarrow> sqlrow list" where
  "pgref_select co rank st args v =
     refdb_select co pg_schema rank st args \<lparr>dv_tables = pv_tables v, dv_tx = None, dv_now = pv_now v\<rparr>"

definition pgref :: "coercion \<Rightarrow> (sqlval \<Rightarrow> int) \<Rightarrow> pgview sqldb" where
  "pgref co rank =
     \<lparr>db_isTx = (\<lambda>tx. tx = GOpaque 1),
      db_Begin = State (\<lambda>v. (Inr (GOpaque 1), v\<lparr>pv_tx := Some (GOpaque 1, Some (pv_tables v))\<rparr>)),
      db_Commit = (\<lambda>tx. State (\<lambda>v. case pv_tx v of
         Some (_, Some T) \<Rightarrow> (None, v\<lparr>pv_tables := T, pv_tx := None\<rparr>)
       | _ \<Rightarrow> (Some (UserErr 1), v\<lparr>pv_tx := None\<rparr>))),
      db_Rollback = (\<lambda>tx. State (\<lambda>v. (None, v\<lparr>pv_tx := None\<rparr>))),
      db_TxExec = (\<lambda>tx st args. State (\<lambda>v. case pv_tx v of
         None \<Rightarrow> (Inl (UserErr 1), v)
       | Some (_, T) \<Rightarrow> (case Option.bind T (apply_stmt co pg_schema (pv_now v) args st) of
           None \<Rightarrow> (Inl (UserErr 2), v\<lparr>pv_tx := Some (GOpaque 1, None)\<rparr>)
         | Some (T', n) \<Rightarrow> (Inr n, v\<lparr>pv_tx := Some (GOpaque 1, Some T')\<rparr>)))),
      db_Exec = (\<lambda>st args. State (\<lambda>v. case apply_stmt co pg_schema (pv_now v) args st (pv_tables v) of
         None \<Rightarrow> (Inl (UserErr 2), v) | Some (T', n) \<Rightarrow> (Inr n, v\<lparr>pv_tables := T'\<rparr>))),
      db_QueryRow = (\<lambda>st args. State (\<lambda>v. (Inr (case chosen co pg_schema (pv_now v) args st (pv_tables v) of
         [] \<Rightarrow> None | r # _ \<Rightarrow> Some (projected st r)), v))),
      db_Query = (\<lambda>st args. State (\<lambda>v. (Inr (map (projected st) (pgref_select co rank st args v), None), v))),
      db_ScanString = db_ScanString (refdb co pg_schema rank), db_ScanInt = db_ScanInt (refdb co pg_schema rank),
      db_ScanBool = db_ScanBool (refdb co pg_schema rank), db_ScanTime = db_ScanTime (refdb co pg_schema rank),
      db_ScanBytes = db_ScanBytes (refdb co pg_schema rank)\<rparr>"

definition pgref_view :: "pgview \<Rightarrow> pgview" where
  "pgref_view v = v\<lparr>pv_tx := map_option (\<lambda>(_, T). (GOpaque 1, T)) (pv_tx v)\<rparr>"

lemma pgref_reads: "pg_reads co (\<lambda>a b. rank a \<le> rank b) pgref_view (pgref co rank)"
  unfolding pg_reads_def
proof (intro conjI allI impI)
  fix st args w
  show "\<exists>w' res. pgref_view w' = pgref_view w \<and> run_state (db_QueryRow (pgref co rank) st args) w = (Inr res, w') \<and>
      (let rs = chosen co pg_schema (pv_now (pgref_view w)) args st (pv_tables (pgref_view w)) in
       if rs = [] then res = None else \<exists>r\<in>set rs. res = Some (projected st r))"
    by (rule exI [of _ w]) (auto simp: pgref_def pgref_view_def Let_def neq_Nil_conv split: list.split)
next
  fix st args w
  show "\<exists>w' rs. pgref_view w' = pgref_view w \<and> ordered (\<lambda>a b. rank a \<le> rank b) st rs \<and>
      mset rs = mset (chosen co pg_schema (pv_now (pgref_view w)) args st (pv_tables (pgref_view w))) \<and>
      run_state (db_Query (pgref co rank) st args) w = (Inr (map (projected st) rs, None), w')"
    by (rule exI [of _ w], rule exI [of _ "pgref_select co rank st args w"])
       (simp add: pgref_select_def refdb_ordered refdb_mset, simp add: pgref_def pgref_view_def pgref_select_def)
qed

lemma pgref_writes: "pg_writes co pgref_view (pgref co rank)"
  unfolding pg_writes_def
proof (intro conjI allI impI)
  fix st args tx T w
  assume tx: "pv_tx (pgref_view w) = Some (tx, T)"
  then obtain h where h: "pv_tx w = Some (h, T)" "tx = GOpaque 1" by (auto simp: pgref_view_def)
  show "\<exists>w'. case Option.bind T (apply_stmt co pg_schema (pv_now (pgref_view w)) args st) of
      None \<Rightarrow> pgref_view w' = (pgref_view w)\<lparr>pv_tx := Some (tx, None)\<rparr> \<and>
        (\<exists>err. run_state (db_TxExec (pgref co rank) tx st args) w = (Inl err, w'))
    | Some (T', n) \<Rightarrow> pgref_view w' = (pgref_view w)\<lparr>pv_tx := Some (tx, Some T')\<rparr> \<and>
        run_state (db_TxExec (pgref co rank) tx st args) w = (Inr n, w')"
    by (cases "Option.bind T (apply_stmt co pg_schema (pv_now w) args st)")
       (auto simp: pgref_def pgref_view_def h split: prod.splits)
next
  fix st args w
  show "\<exists>w'. case apply_stmt co pg_schema (pv_now (pgref_view w)) args st (pv_tables (pgref_view w)) of
      None \<Rightarrow> pgref_view w' = pgref_view w \<and> (\<exists>err. run_state (db_Exec (pgref co rank) st args) w = (Inl err, w'))
    | Some (T', n) \<Rightarrow> pgref_view w' = (pgref_view w)\<lparr>pv_tables := T'\<rparr> \<and>
        run_state (db_Exec (pgref co rank) st args) w = (Inr n, w')"
    by (cases "apply_stmt co pg_schema (pv_now w) args st (pv_tables w)")
       (auto simp: pgref_def pgref_view_def split: prod.splits)
qed

lemma pgref_server: "pg_server co (\<lambda>a b. rank a \<le> rank b) pgref_view (pgref co rank)"
proof -
  have "sql_scans (pgref co rank)" by (simp add: sql_scans_def pgref_def refdb_def)
  moreover have "pg_txs pgref_view (pgref co rank)"
    unfolding pg_txs_def
  proof (intro conjI allI impI)
    fix tx T w
    assume "pv_tx (pgref_view w) = Some (tx, T)"
    then obtain h where h: "pv_tx w = Some (h, T)" "tx = GOpaque 1" by (auto simp: pgref_view_def)
    show "\<exists>w'. case T of
        None \<Rightarrow> pgref_view w' = (pgref_view w)\<lparr>pv_tx := None\<rparr> \<and> (\<exists>err. run_state (db_Commit (pgref co rank) tx) w = (Some err, w'))
      | Some T' \<Rightarrow> pgref_view w' = (pgref_view w)\<lparr>pv_tables := T', pv_tx := None\<rparr> \<and>
          run_state (db_Commit (pgref co rank) tx) w = (None, w')"
      by (cases T) (simp_all add: pgref_def pgref_view_def h)
  qed (auto simp: pgref_def pgref_view_def)
  ultimately show ?thesis by (simp add: pg_server_def pgref_reads pgref_writes)
qed

definition samplePg :: "pgview sqldb" where
  "samplePg = pgref samplePgCoercion (\<lambda>v. case v of STime t \<Rightarrow> t | _ \<Rightarrow> 0)"

lemma samplePg_contract:
  "pg_server samplePgCoercion (\<lambda>a b. (case a of STime t \<Rightarrow> t | _ \<Rightarrow> 0) \<le> (case b of STime t \<Rightarrow> t | _ \<Rightarrow> 0))
     pgref_view samplePg"
  unfolding samplePg_def by (rule pgref_server)

definition samplePgWith :: "WorkflowInstance list \<Rightarrow> pgview" where
  "samplePgWith is = \<lparr>pv_tables = (\<lambda>_. [])(''flowstep_instances'' := map (pgx_instanceRow id sampleCodec) is),
     pv_tx = None, pv_now = 9\<rparr>"

lemma samplePgWith_simps [simp]:
  "pv_tx (pgref_view (samplePgWith is)) = None"
  "pv_tables (pgref_view (samplePgWith is)) ''flowstep_instances'' = map (pgx_instanceRow id sampleCodec) is"
  by (simp_all add: samplePgWith_def pgref_view_def)

lemma samplePg_creates:
  "fst (run_state (inTx (pgx_NewTxProvider samplePg) (\<lambda>tx. pgx_Create samplePg sampleCodec tx sampleInstance)) (samplePgWith [])) = None"
  by code_simp

definition sampleTask :: PendingTask where
  "sampleTask = \<lparr>tk_ID = ''t1'', tk_WorkflowType = ''order'', tk_AggregateType = ''order'', tk_AggregateID = ''o1'',
     tk_CorrelationID = ''c1'', tk_TaskType = ''approval'', tk_Description = [], tk_Options = [''yes'', ''no''],
     tk_State = ''OPEN'', tk_AssignedTo = [], tk_Timeout = 0, tk_ExpiresAt = 0, tk_CompletedAt = None, tk_Choice = [],
     tk_CompletedBy = [], tk_Status = ''PENDING'', tk_CreatedAt = 5\<rparr>"

lemma samplePg_creates_task:
  "fst (run_state (pgx_TaskCreate samplePg sampleCodec GNil sampleTask) (samplePgWith [])) = None"
  by code_simp



section \<open>Round trip and optimistic lock\<close>

text \<open>
  C26. A \<open>Create\<close> that fails leaves the database as it was, its transaction rolled back. After one that is
  committed, \<open>Get\<close> returns the instance for its aggregate, with its times cut to microseconds and its
  documents in canonical form, and what it returned before for every other aggregate whose names the
  server accepts as texts. The table holds stored instances with distinct aggregate IDs, as its schema
  demands, and the server meets the contract of PostgreSQL above.
\<close>

theorem pgx_create_get:
  assumes db: "pg_server co le view D" "pv_tx (view w) = None" and co: "pg_coercion canon co"
    and rows: "pv_tables (view w) ''flowstep_instances'' = map (pgx_instanceRow canon c) is"
    and ids: "distinct (map wi_AggregateID is)"
  shows "\<exists>r w'. run_state (inTx (pgx_NewTxProvider D) (\<lambda>tx. pgx_Create D c tx inst)) w = (r, w') \<and>
    (if r = None
     then \<forall>at aid. sameAggregate at aid inst \<or> pg_text co at \<and> pg_text co aid \<longrightarrow>
       fst (run_state (pgx_Get D c errNotFound at aid) w') =
         (if sameAggregate at aid inst then Inr (pgx_readback canon c inst)
          else fst (run_state (pgx_Get D c errNotFound at aid) w))
     else view w' = view w)"
proof -
  let ?st = "Insert ''flowstep_instances'' instanceColumns"
  obtain r w' where run: "run_state (inTx (pgx_NewTxProvider D) (\<lambda>tx. pgx_Create D c tx inst)) w = (r, w')"
    and res: "case apply_stmt co pg_schema (pv_now (view w)) (pgx_instanceArgs c inst) ?st (pv_tables (view w)) of
       None \<Rightarrow> r \<noteq> None \<and> view w' = view w
     | Some (T', n) \<Rightarrow> r = None \<and> view w' = (view w)\<lparr>pv_tables := T'\<rparr>"
    using pgx_Create_session [OF db] unfolding if_False by blast
  show ?thesis
  proof (cases "r = None")
    case True
    with res obtain T' n where ap: "apply_stmt co pg_schema (pv_now (view w)) (pgx_instanceArgs c inst) ?st (pv_tables (view w)) = Some (T', n)"
      and w': "view w' = (view w)\<lparr>pv_tables := T'\<rparr>" by (auto split: option.splits prod.splits)
    note ap' = pgx_apply_create [where T = "pv_tables (view w)", OF co rows ap]
    have rows': "pv_tables (view w') ''flowstep_instances'' = map (pgx_instanceRow canon c) (is @ [inst])"
      using ap' by (simp add: w')
    have "find (sameAggregate (wi_AggregateType inst) (wi_AggregateID inst)) is = None"
      using ap' by (auto simp: find_None_iff sameAggregate_def)
    moreover have "distinct (map wi_AggregateID (is @ [inst]))" using ids ap' by auto
    ultimately show ?thesis
      using run True pgx_create_texts [OF ap]
      by (auto simp: pgx_Get_result [OF db(1) co rows'] pgx_Get_result [OF db(1) co rows ids] find_append sameAggregate_self
          split: option.splits)
  next
    case False
    with res run show ?thesis by (auto split: option.splits prod.splits)
  qed
qed

theorem pgx_create_get_witness:
  "\<exists>w'. run_state (inTx (pgx_NewTxProvider samplePg) (\<lambda>tx. pgx_Create samplePg sampleCodec tx sampleInstance)) (samplePgWith []) =
      (None, w') \<and>
    fst (run_state (pgx_Get samplePg sampleCodec (Sentinel ErrInstanceNotFound) ''order'' ''o1'') w') =
      Inr (pgx_readback id sampleCodec sampleInstance)"
  using pgx_create_get [OF samplePg_contract _ samplePgCoercion_ok, of "samplePgWith []" sampleCodec "[]" sampleInstance
      "Sentinel ErrInstanceNotFound"] samplePg_creates
  by (auto simp: sameAggregate_def sampleInstance_def)



text \<open>
  A task that \<open>Create\<close> has stored cannot be read while it is pending: \<open>choice\<close> is NULL, and \<open>Get\<close> fails
  with the error of scanning NULL into a string. The lists that contain it fail as well.
\<close>

lemma pgx_pending_task_unreadable:
  assumes db: "pg_server co le view D" "pv_tx (view w) = None" and co: "pg_coercion canon co"
    and create: "run_state (pgx_TaskCreate D c GNil task) w = (None, w1)"
  shows "(\<exists>err. db_ScanString D SNull = Inl err \<and>
      fst (run_state (pgx_TaskGet D c errNotFound (tk_ID task)) w1) = Inl (Errorf ''pgxstore: get task: %w'' [] (Some err))) \<and>
    (\<exists>err. fst (run_state (pgx_TaskGetByAggregate D c (tk_AggregateType task) (tk_AggregateID task)) w1) = Inl err) \<and>
    (tk_Status task = ''PENDING'' \<longrightarrow> (\<exists>err. fst (run_state (pgx_TaskListPending D c) w1) = Inl err))"
proof -
  obtain n where "run_state (db_Exec D taskInsert (pgx_taskArgs c task)) w = (Inr n, w1)"
    using create by (auto simp: pgx_TaskCreate_def execAny_def getTx_def run_attempt split: prod.splits sum.splits)
  from pg_server_Exec_insert [OF db this [unfolded taskInsert_def]] obtain r where
    row: "new_row co pg_schema (pv_now (view w)) ''flowstep_tasks'' taskInsertColumns (pgx_taskArgs c task) = Some r"
    and fresh: "\<not> clashes (pg_schema ''flowstep_tasks'') (pv_tables (view w) ''flowstep_tasks'') r"
    and w1: "view w1 = (view w)\<lparr>pv_tables := (pv_tables (view w))
      (''flowstep_tasks'' := pv_tables (view w) ''flowstep_tasks'' @ [r])\<rparr>" by blast
  obtain err where null: "db_ScanString D SNull = Inl err" by (rule sql_scans_null [OF pg_server_scans [OF db(1)]])
  note sent = pgx_task_sent [OF co row] and cols = pgx_task_cols [OF co row]
    and scan = pgx_task_scan_fails [OF pg_server_scans [OF db(1)] null co row]
  let ?get = "Select taskColumns ''flowstep_tasks'' [(''id'', EqOp, Arg 0)] None"
  have T: "pv_tables (view w1) ''flowstep_tasks'' = pv_tables (view w) ''flowstep_tasks'' @ [r]" by (simp add: w1)
  have sel: "chosen co pg_schema (pv_now (view w1)) [SText (tk_ID task)] ?get (pv_tables (view w1)) = [r]"
    unfolding chosen.simps T by (rule filter_new_id [OF fresh pg_spec_in(1) cols(1) sent(1)])
  obtain w2 where "run_state (db_QueryRow D ?get [SText (tk_ID task)]) w1 =
      (Inr (case [r] of [] \<Rightarrow> None | r # _ \<Rightarrow> Some (projected ?get r)), w2)"
    by (rule pg_server_QueryRow [OF db(1) _ sel]) (simp_all add: fitting_def opval_def sent)
  then have get: "\<exists>err. db_ScanString D SNull = Inl err \<and>
      fst (run_state (pgx_TaskGet D c errNotFound (tk_ID task)) w1) = Inl (Errorf ''pgxstore: get task: %w'' [] (Some err))"
    using null by (simp add: pgx_TaskGet_def run_attempt scan)
  have agg: "\<exists>err. fst (run_state (pgx_TaskGetByAggregate D c (tk_AggregateType task) (tk_AggregateID task)) w1) = Inl err"
    unfolding pgx_TaskGetByAggregate_def scanTasks_def selectTasks_def
    by (rule queryRows_bad [OF db(1), where r = r and err = err])
       (simp_all add: fitting_def matches_def opval_def sent cols w1 scan)
  have "\<exists>err. fst (run_state (pgx_TaskListPending D c) w1) = Inl err" if "tk_Status task = ''PENDING''"
    unfolding pgx_TaskListPending_def scanTasks_def selectTasks_def
    by (rule queryRows_bad [OF db(1), where r = r and err = err])
       (use sent(4) cols(4) that in \<open>simp_all add: fitting_def matches_def opval_def w1 scan\<close>)
  with get agg show ?thesis by blast
qed

lemma pgx_pending_task_unreadable_sample:
  "\<exists>w1. run_state (pgx_TaskCreate samplePg sampleCodec GNil sampleTask) (samplePgWith []) = (None, w1) \<and>
    (\<exists>err. fst (run_state (pgx_TaskGet samplePg sampleCodec (Sentinel ErrTaskNotFound) ''t1'') w1) = Inl err) \<and>
    (\<exists>err. fst (run_state (pgx_TaskListPending samplePg sampleCodec) w1) = Inl err)"
proof -
  obtain w1 where w1: "run_state (pgx_TaskCreate samplePg sampleCodec GNil sampleTask) (samplePgWith []) = (None, w1)"
    using samplePg_creates_task by (metis prod.collapse)
  with pgx_pending_task_unreadable [OF samplePg_contract _ samplePgCoercion_ok w1, of "Sentinel ErrTaskNotFound"]
  show ?thesis by (auto simp: sampleTask_def)
qed

end
