(* ===== verification/Flow_Dynamo.thy ===== *)
theory Flow_Dynamo
  imports Flow_Sqlite
begin

text \<open>
  The DynamoDB store, \<open>adapters/dynamostore/store.go\<close>. The AWS client and its attribute codec are the
  record \<open>ddbClient\<close>; \<open>c\<close> are the codecs of \<open>Flow_Sql\<close>. A transaction object \<open>ddbTx\<close> lives in the
  process: the world pairs the list of the transactions begun so far with the server.
\<close>

section \<open>Items, requests and the client\<close>

text \<open>A number attribute is kept as the number that its decimal text denotes.\<close>

datatype attrv = AttrS string | AttrN int | AttrBOOL bool | AttrOther nat

type_synonym ddbItem = "(string, attrv) gomap"

text \<open>A put with its condition expression and the values of the expression, if it has one.\<close>

record ddbPut =
  pt_Table :: string
  pt_Item :: ddbItem
  pt_Condition :: "(string \<times> ddbItem) option"

text \<open>The errors the store tells apart: a cancelled transaction has a reason code for each item.\<close>

datatype ddbErr = TransactionCanceled "string option list" gerr | ConditionalCheckFailed gerr | ClientErr gerr

fun ddbError :: "ddbErr \<Rightarrow> gerr" where
  "ddbError (TransactionCanceled reasons err) = err"
| "ddbError (ConditionalCheckFailed err) = err"
| "ddbError (ClientErr err) = err"

record eventRecord =
  er_ID :: string
  er_AggregateType :: string
  er_AggregateID :: string
  er_WorkflowType :: string
  er_WorkflowVersion :: int
  er_EventType :: string
  er_CorrelationID :: string
  er_ActorID :: string
  er_TransitionName :: string
  er_StateBefore :: string
  er_StateAfter :: string
  er_Payload :: string
  er_CreatedAt :: string

text \<open>
  The calls of the client: a query has a table, an index, a key condition and its values, a scan a filter
  with names and values; both return one page. The last three are \<open>attributevalue.MarshalMap\<close> and
  \<open>UnmarshalMap\<close> at the two types the store uses them at.
\<close>

record 's ddbClient =
  dc_TransactWriteItems :: "ddbPut list \<Rightarrow> ('s, ddbErr option) state"
  dc_PutItem :: "ddbPut \<Rightarrow> ('s, ddbErr option) state"
  dc_Query :: "string \<Rightarrow> string option \<Rightarrow> string \<Rightarrow> ddbItem \<Rightarrow> ('s, ddbItem list) prog"
  dc_GetItem :: "string \<Rightarrow> ddbItem \<Rightarrow> ('s, ddbItem option) prog"
  dc_Scan :: "string \<Rightarrow> string \<Rightarrow> (string, string) gomap \<Rightarrow> ddbItem \<Rightarrow> ('s, ddbItem list) prog"
  dc_MarshalInstance :: "WorkflowInstance \<Rightarrow> gerr + ddbItem"
  dc_UnmarshalInstance :: "ddbItem \<Rightarrow> gerr + WorkflowInstance"
  dc_UnmarshalEvent :: "ddbItem \<Rightarrow> gerr + eventRecord"

record 's ddbWorld =
  dw_txs :: "ddbPut list list"
  dw_server :: 's

definition onServer :: "('s, 'a) state \<Rightarrow> ('s ddbWorld, 'a) state" where
  "onServer m = State (\<lambda>w. case run_state m (dw_server w) of (r, s) \<Rightarrow> (r, w\<lparr>dw_server := s\<rparr>))"

lemma run_onServer:
  "run_state (onServer m) w = (fst (run_state m (dw_server w)), w\<lparr>dw_server := snd (run_state m (dw_server w))\<rparr>)"
  by (simp add: onServer_def split: prod.splits)

section \<open>Transactions\<close>

text \<open>The handle of a transaction is the pointer to its object; an assertion on another value panics.\<close>

definition ddbTxIndex :: "gval \<Rightarrow> 's ddbWorld \<Rightarrow> nat option" where
  "ddbTxIndex tx w = (case tx of GOpaque n \<Rightarrow> if n < length (dw_txs w) then Some n else None | _ \<Rightarrow> None)"

definition notDdbTx :: gerr where
  "notDdbTx = Panic ''interface conversion: interface {} is not *dynamostore.ddbTx''"

definition ddb_Begin :: "('s ddbWorld, gval) prog" where
  "ddb_Begin = State (\<lambda>w. (Inr (GOpaque (length (dw_txs w))), w\<lparr>dw_txs := dw_txs w @ [[]]\<rparr>))"

definition ddb_Commit :: "'s ddbClient \<Rightarrow> gval \<Rightarrow> 's ddbWorld proc" where
  "ddb_Commit dc tx = do {
     w \<leftarrow> State_Monad.get;
     case ddbTxIndex tx w of
       None \<Rightarrow> ret (Some notDdbTx)
     | Some n \<Rightarrow>
         if dw_txs w ! n = [] then ret None
         else do {
           res \<leftarrow> onServer (dc_TransactWriteItems dc (dw_txs w ! n));
           ret (case res of
             None \<Rightarrow> None
           | Some (TransactionCanceled reasons err) \<Rightarrow>
               Some (Errorf ''dynamostore: commit tx: %w'' []
                 (Some (if Some ''ConditionalCheckFailed'' \<in> set reasons then Sentinel ErrConcurrentModification else err)))
           | Some err \<Rightarrow> Some (Errorf ''dynamostore: commit tx: %w'' [] (Some (ddbError err)))) } }"

definition ddb_Rollback :: "gval \<Rightarrow> 's ddbWorld proc" where
  "ddb_Rollback tx = ret None"

definition ddb_NewTxProvider :: "'s ddbClient \<Rightarrow> 's ddbWorld TxProvider" where
  "ddb_NewTxProvider dc =
     \<lparr>tx_Begin = ddb_Begin, tx_Commit = ddb_Commit dc, tx_Rollback = ddb_Rollback, tx_Savepoints = None\<rparr>"

text \<open>\<open>t.items = append(t.items, ...)\<close> on the transaction object.\<close>

definition ddb_enlist :: "gval \<Rightarrow> ddbPut \<Rightarrow> 's ddbWorld proc" where
  "ddb_enlist tx put = State (\<lambda>w.
     case ddbTxIndex tx w of
       None \<Rightarrow> (Some notDdbTx, w)
     | Some n \<Rightarrow> (None, w\<lparr>dw_txs := (dw_txs w)[n := dw_txs w ! n @ [put]]\<rparr>))"

section \<open>Event store\<close>

definition eventPK :: "string \<Rightarrow> string \<Rightarrow> string" where
  "eventPK aggregateType aggregateID = ''EVENT#'' @ aggregateType @ ''#'' @ aggregateID"

definition corrPK :: "string \<Rightarrow> string" where
  "corrPK correlationID = ''CORR#'' @ correlationID"

definition ddb_eventItem :: "codec \<Rightarrow> DomainEvent \<Rightarrow> ddbItem" where
  "ddb_eventItem c event =
     [(''PK'', AttrS (eventPK (ev_AggregateType event) (ev_AggregateID event))), (''SK'', AttrS (ev_ID event)),
      (''GSI1PK'', AttrS (corrPK (ev_CorrelationID event))), (''GSI1SK'', AttrS (ev_ID event)),
      (''Type'', AttrS ''Event''), (''ID'', AttrS (ev_ID event)),
      (''AggregateType'', AttrS (ev_AggregateType event)), (''AggregateID'', AttrS (ev_AggregateID event)),
      (''WorkflowType'', AttrS (ev_WorkflowType event)), (''WorkflowVersion'', AttrN (ev_WorkflowVersion event)),
      (''EventType'', AttrS (ev_EventType event)), (''CorrelationID'', AttrS (ev_CorrelationID event)),
      (''ActorID'', AttrS (ev_ActorID event)), (''TransitionName'', AttrS (ev_TransitionName event)),
      (''StateBefore'', AttrS (cd_Params c (ev_StateBefore event))),
      (''StateAfter'', AttrS (cd_Params c (ev_StateAfter event))),
      (''Payload'', AttrS (cd_Params c (ev_Payload event))),
      (''CreatedAt'', AttrS (cd_Format c (ev_CreatedAt event)))]"

definition ddb_Append :: "'s ddbClient \<Rightarrow> codec \<Rightarrow> string \<Rightarrow> gval \<Rightarrow> DomainEvent \<Rightarrow> 's ddbWorld proc" where
  "ddb_Append dc c tableName tx event =
     (let put = \<lparr>pt_Table = tableName, pt_Item = ddb_eventItem c event, pt_Condition = None\<rparr> in
      if tx \<noteq> GNil then ddb_enlist tx put
      else do { err \<leftarrow> onServer (dc_PutItem dc put); ret (map_option ddbError err) })"

definition unmarshalEvent :: "'s ddbClient \<Rightarrow> codec \<Rightarrow> ddbItem \<Rightarrow> gerr + DomainEvent" where
  "unmarshalEvent dc c item =
     (case dc_UnmarshalEvent dc item of
        Inl err \<Rightarrow> Inl (Errorf ''dynamostore: unmarshal event: %w'' [] (Some err))
      | Inr r \<Rightarrow> Inr \<lparr>ev_ID = er_ID r, ev_AggregateType = er_AggregateType r, ev_AggregateID = er_AggregateID r,
           ev_WorkflowType = er_WorkflowType r, ev_WorkflowVersion = er_WorkflowVersion r,
           ev_EventType = er_EventType r, ev_CorrelationID = er_CorrelationID r, ev_CausationID = [],
           ev_ActorID = er_ActorID r, ev_StateBefore = cd_toParams c (er_StateBefore r),
           ev_StateAfter = cd_toParams c (er_StateAfter r), ev_TransitionName = er_TransitionName r,
           ev_Error = None, ev_Payload = cd_toParams c (er_Payload r), ev_CreatedAt = cd_Parse c (er_CreatedAt r),
           ev_SequenceNum = 0\<rparr>)"

fun unmarshalEvents :: "'s ddbClient \<Rightarrow> codec \<Rightarrow> ddbItem list \<Rightarrow> gerr + DomainEvent list" where
  "unmarshalEvents dc c [] = Inr []"
| "unmarshalEvents dc c (item # items) =
     into (unmarshalEvent dc c item) (\<lambda>e. into (unmarshalEvents dc c items) (\<lambda>es. Inr (e # es)))"

definition ddb_ListByCorrelation ::
  "'s ddbClient \<Rightarrow> codec \<Rightarrow> string \<Rightarrow> string \<Rightarrow> ('s ddbWorld, DomainEvent list) prog" where
  "ddb_ListByCorrelation dc c tableName correlationID =
     attempt (onServer (dc_Query dc tableName (Some ''GSI1'') ''GSI1PK = :pk'' [('':pk'', AttrS (corrPK correlationID))]))
       (\<lambda>err. fail (Errorf ''dynamostore: query by correlation: %w'' [] (Some err)))
       (\<lambda>items. ret (unmarshalEvents dc c items))"

definition ddb_ListByAggregate ::
  "'s ddbClient \<Rightarrow> codec \<Rightarrow> string \<Rightarrow> string \<Rightarrow> string \<Rightarrow> ('s ddbWorld, DomainEvent list) prog" where
  "ddb_ListByAggregate dc c tableName aggregateType aggregateID =
     attempt (onServer (dc_Query dc tableName None ''PK = :pk'' [('':pk'', AttrS (eventPK aggregateType aggregateID))]))
       (\<lambda>err. fail (Errorf ''dynamostore: query by aggregate: %w'' [] (Some err)))
       (\<lambda>items. ret (unmarshalEvents dc c items))"

definition ddb_NewEventStore :: "'s ddbClient \<Rightarrow> codec \<Rightarrow> string \<Rightarrow> 's ddbWorld EventStore" where
  "ddb_NewEventStore dc c tableName =
     \<lparr>es_Append = ddb_Append dc c tableName, es_ListByCorrelation = ddb_ListByCorrelation dc c tableName,
      es_ListByAggregate = ddb_ListByAggregate dc c tableName\<rparr>"

section \<open>Instance store\<close>

definition instPK :: "string \<Rightarrow> string \<Rightarrow> string" where
  "instPK aggregateType aggregateID = ''INST#'' @ aggregateType @ ''#'' @ aggregateID"

definition ddb_Get ::
  "'s ddbClient \<Rightarrow> string \<Rightarrow> gerr \<Rightarrow> string \<Rightarrow> string \<Rightarrow> ('s ddbWorld, WorkflowInstance) prog" where
  "ddb_Get dc tableName errNotFound aggregateType aggregateID =
     attempt (onServer (dc_GetItem dc tableName
         [(''PK'', AttrS (instPK aggregateType aggregateID)), (''SK'', AttrS ''INSTANCE'')]))
       (\<lambda>err. fail (Errorf ''dynamostore: get instance: %w'' [] (Some err)))
       (\<lambda>found. case found of
          None \<Rightarrow> fail errNotFound
        | Some item \<Rightarrow> (case dc_UnmarshalInstance dc item of
            Inl err \<Rightarrow> fail (Errorf ''dynamostore: unmarshal instance: %w'' [] (Some err))
          | Inr inst \<Rightarrow> ok inst))"

text \<open>The attributes that \<open>Create\<close> and \<open>Update\<close> set over those of the marshalled struct.\<close>

definition ddb_keyed :: "WorkflowInstance \<Rightarrow> ddbItem \<Rightarrow> ddbItem" where
  "ddb_keyed inst item =
     mput ''Type'' (AttrS ''Instance'') (mput ''SK'' (AttrS ''INSTANCE'')
       (mput ''PK'' (AttrS (instPK (wi_AggregateType inst) (wi_AggregateID inst))) item))"

definition ddb_Create :: "'s ddbClient \<Rightarrow> string \<Rightarrow> gval \<Rightarrow> WorkflowInstance \<Rightarrow> 's ddbWorld proc" where
  "ddb_Create dc tableName tx inst =
     (case dc_MarshalInstance dc inst of
        Inl err \<Rightarrow> ret (Some (Errorf ''dynamostore: marshal instance: %w'' [] (Some err)))
      | Inr item \<Rightarrow>
          (let put = \<lparr>pt_Table = tableName, pt_Item = ddb_keyed inst item, pt_Condition = None\<rparr> in
           if tx \<noteq> GNil then ddb_enlist tx put
           else do { err \<leftarrow> onServer (dc_PutItem dc put); ret (map_option ddbError err) }))"

definition ddb_Update :: "'s ddbClient \<Rightarrow> codec \<Rightarrow> string \<Rightarrow> gval \<Rightarrow> WorkflowInstance \<Rightarrow> 's ddbWorld proc" where
  "ddb_Update dc c tableName tx inst =
     (case dc_MarshalInstance dc inst of
        Inl err \<Rightarrow> ret (Some (Errorf ''dynamostore: marshal instance: %w'' [] (Some err)))
      | Inr item \<Rightarrow>
          (let put = \<lparr>pt_Table = tableName, pt_Item = ddb_keyed inst item,
                      pt_Condition = Some (''UpdatedAt = :oldUpdatedAt'',
                        [('':oldUpdatedAt'', AttrS (cd_Format c (wi_LastReadUpdatedAt inst)))])\<rparr> in
           if tx \<noteq> GNil then ddb_enlist tx put
           else do {
             res \<leftarrow> onServer (dc_PutItem dc put);
             ret (case res of
               None \<Rightarrow> None
             | Some (ConditionalCheckFailed _) \<Rightarrow>
                 Some (Errorf ''dynamostore: update instance: %w'' [] (Some (Sentinel ErrConcurrentModification)))
             | Some err \<Rightarrow> Some (Errorf ''dynamostore: update instance: %w'' [] (Some (ddbError err)))) }))"

text \<open>An item that cannot be unmarshalled is skipped.\<close>

definition ddb_ListStuck :: "'s ddbClient \<Rightarrow> string \<Rightarrow> ('s ddbWorld, WorkflowInstance list) prog" where
  "ddb_ListStuck dc tableName =
     attempt (onServer (dc_Scan dc tableName ''#type = :type AND IsStuck = :stuck'' [(''#type'', ''Type'')]
         [('':type'', AttrS ''Instance''), ('':stuck'', AttrBOOL True)]))
       (\<lambda>err. fail (Errorf ''dynamostore: scan stuck: %w'' [] (Some err)))
       (\<lambda>items. ok (List.map_filter (\<lambda>item. case dc_UnmarshalInstance dc item of Inl _ \<Rightarrow> None | Inr inst \<Rightarrow> Some inst) items))"

definition ddb_NewInstanceStore :: "'s ddbClient \<Rightarrow> codec \<Rightarrow> string \<Rightarrow> gerr \<Rightarrow> 's ddbWorld InstanceStore" where
  "ddb_NewInstanceStore dc c tableName errNotFound =
     \<lparr>is_Get = ddb_Get dc tableName errNotFound, is_Create = ddb_Create dc tableName,
      is_Update = ddb_Update dc c tableName, is_ListStuck = ddb_ListStuck dc tableName\<rparr>"

section \<open>What DynamoDB documents of the requests\<close>

text \<open>A table as a map from partition and sort key to the item.\<close>

type_synonym ddbTable = "string \<times> string \<Rightarrow> ddbItem option"

definition attrText :: "ddbItem \<Rightarrow> string \<Rightarrow> string" where
  "attrText item name = (case map_of item name of Some (AttrS s) \<Rightarrow> s | _ \<Rightarrow> [])"

definition itemKey :: "ddbPut \<Rightarrow> string \<times> string" where
  "itemKey put = (attrText (pt_Item put) ''PK'', attrText (pt_Item put) ''SK'')"

text \<open>
  The condition expressions in scope: the comparison of an attribute with a value of the request, and the
  functions \<open>attribute_exists\<close> and \<open>attribute_not_exists\<close>. A comparison needs a stored item with the attribute.
  An expression outside the grammar, or with a value that the request does not have, has no meaning here.
\<close>

datatype ddbCond = CondEq string string | CondExists string | CondNotExists string

fun wordsOf :: "string \<Rightarrow> string list" where
  "wordsOf [] = [[]]"
| "wordsOf (x # xs) =
     (if x = CHR '' '' then [] # wordsOf xs else case wordsOf xs of [] \<Rightarrow> [[x]] | w # ws \<Rightarrow> (x # w) # ws)"

definition isName :: "string \<Rightarrow> bool" where
  "isName s \<longleftrightarrow> s \<noteq> [] \<and> list_all (\<lambda>x. x \<notin> set '' :#()=<>,'') s"

definition callOf :: "string \<Rightarrow> string \<Rightarrow> string option" where
  "callOf f w =
     (let n = length f + 1; arg = butlast (drop n w) in
      if take n w = f @ ''('' \<and> drop n w \<noteq> [] \<and> last w = CHR '')'' \<and> isName arg then Some arg else None)"

definition parseCond :: "string \<Rightarrow> ddbCond option" where
  "parseCond expr =
     (case wordsOf expr of
        [a, op, v] \<Rightarrow> if isName a \<and> op = ''='' \<and> take 1 v = '':'' \<and> isName (drop 1 v) then Some (CondEq a v) else None
      | [w] \<Rightarrow> (case callOf ''attribute_exists'' w of
          Some a \<Rightarrow> Some (CondExists a)
        | None \<Rightarrow> map_option CondNotExists (callOf ''attribute_not_exists'' w))
      | _ \<Rightarrow> None)"

definition attrOf :: "ddbItem option \<Rightarrow> string \<Rightarrow> attrv option" where
  "attrOf stored a = Option.bind stored (\<lambda>item. map_of item a)"

definition condHolds :: "(string \<times> ddbItem) option \<Rightarrow> ddbItem option \<Rightarrow> bool option" where
  "condHolds cond stored =
     (case cond of
        None \<Rightarrow> Some True
      | Some (expr, vals) \<Rightarrow> (case parseCond expr of
          None \<Rightarrow> None
        | Some (CondEq a v) \<Rightarrow> map_option (\<lambda>x. attrOf stored a = Some x) (map_of vals v)
        | Some (CondExists a) \<Rightarrow> Some (attrOf stored a \<noteq> None)
        | Some (CondNotExists a) \<Rightarrow> Some (attrOf stored a = None)))"

text \<open>The condition of \<open>Update\<close>, and two it could be confused with.\<close>

lemma parseCond_lock:
  "parseCond ''UpdatedAt = :oldUpdatedAt'' = Some (CondEq ''UpdatedAt'' '':oldUpdatedAt'')"
  "parseCond ''attribute_exists(PK)'' = Some (CondExists ''PK'')"
  "parseCond ''attribute_not_exists(PK)'' = Some (CondNotExists ''PK'')"
  by code_simp+

lemma condHolds_None [simp]: "condHolds None stored = Some True"
  by (simp add: condHolds_def)

lemma condHolds_lock:
  "condHolds (Some (''UpdatedAt = :oldUpdatedAt'', [('':oldUpdatedAt'', x)])) stored = Some (attrOf stored ''UpdatedAt'' = Some x)"
  unfolding condHolds_def option.case prod.case parseCond_lock(1) by simp

definition putAll :: "ddbPut list \<Rightarrow> ddbTable \<Rightarrow> ddbTable" where
  "putAll puts T = foldl (\<lambda>T put. T(itemKey put \<mapsto> pt_Item put)) T puts"

text \<open>
  The key attributes of an item, those of the index \<open>GSI1\<close> included where it has them, are non-empty texts.
\<close>

definition keyed_put :: "ddbPut \<Rightarrow> bool" where
  "keyed_put put \<longleftrightarrow>
     (\<forall>k\<in>{''PK'', ''SK''}. attrText (pt_Item put) k \<noteq> []) \<and>
     (\<forall>k\<in>{''GSI1PK'', ''GSI1SK''}. map_of (pt_Item put) k \<noteq> None \<longrightarrow> attrText (pt_Item put) k \<noteq> [])"

text \<open>
  The requests in scope: up to 100 puts to distinct items of the table, with conditions of the grammar above.
\<close>

definition ddb_request :: "string \<Rightarrow> ddbPut list \<Rightarrow> bool" where
  "ddb_request tableName puts \<longleftrightarrow>
     puts \<noteq> [] \<and> length puts \<le> 100 \<and> distinct (map itemKey puts) \<and>
     (\<forall>p\<in>set puts. pt_Table p = tableName \<and> condHolds (pt_Condition p) None \<noteq> None)"

text \<open>
  Whether the server takes a put in its state (the size of the item, its capacity, a conflict with another
  transaction) is left to the predicate \<open>takes\<close>; it takes no item with an empty key. If it takes all puts of
  a transaction, it applies the transaction as a whole when every condition holds, and otherwise cancels it
  with the code \<open>ConditionalCheckFailed\<close> for each condition that does not hold. If it does not take one of
  them, the request fails, for whatever reason, and changes nothing. An item is read by its key.
\<close>

definition ddb_server :: "string \<Rightarrow> ('s \<Rightarrow> ddbPut \<Rightarrow> bool) \<Rightarrow> ('s \<Rightarrow> ddbTable) \<Rightarrow> 's ddbClient \<Rightarrow> bool" where
  "ddb_server tableName takes view dc \<longleftrightarrow>
     (\<forall>s p. takes s p \<longrightarrow> keyed_put p) \<and>
     (\<forall>puts s. ddb_request tableName puts \<longrightarrow>
        (let held = map (\<lambda>p. condHolds (pt_Condition p) (view s (itemKey p)) = Some True) puts in
         \<exists>res s'. run_state (dc_TransactWriteItems dc puts) s = (res, s') \<and>
           (if \<forall>p\<in>set puts. takes s p
            then if False \<in> set held
                 then view s' = view s \<and> (\<exists>err. res =
                   Some (TransactionCanceled (map (\<lambda>h. Some (if h then ''None'' else ''ConditionalCheckFailed'')) held) err))
                 else view s' = putAll puts (view s) \<and> res = None
            else view s' = view s \<and> res \<noteq> None))) \<and>
     (\<forall>pk sk s. pk \<noteq> [] \<and> sk \<noteq> [] \<longrightarrow> (\<exists>s'. view s' = view s \<and>
        run_state (dc_GetItem dc tableName [(''PK'', AttrS pk), (''SK'', AttrS sk)]) s = (Inr (view s (pk, sk)), s')))"

lemma ddb_server_write:
  assumes "ddb_server tableName takes view dc" "ddb_request tableName puts" "\<forall>p\<in>set puts. takes s p"
    and "\<forall>p\<in>set puts. condHolds (pt_Condition p) (view s (itemKey p)) = Some True"
  obtains s' where "view s' = putAll puts (view s)" "run_state (dc_TransactWriteItems dc puts) s = (None, s')"
proof -
  have "False \<notin> set (map (\<lambda>p. condHolds (pt_Condition p) (view s (itemKey p)) = Some True) puts)" using assms(4) by auto
  with assms(1) [unfolded ddb_server_def, THEN conjunct2, THEN conjunct1, rule_format, OF assms(2), of s] assms(3) that
  show thesis by (auto simp: Let_def split: if_splits)
qed

lemma ddb_server_cancel:
  assumes "ddb_server tableName takes view dc" "ddb_request tableName puts" "\<forall>p\<in>set puts. takes s p"
    and "\<exists>p\<in>set puts. condHolds (pt_Condition p) (view s (itemKey p)) \<noteq> Some True"
  obtains s' reasons err where "view s' = view s" "Some ''ConditionalCheckFailed'' \<in> set reasons"
    "run_state (dc_TransactWriteItems dc puts) s = (Some (TransactionCanceled reasons err), s')"
proof -
  let ?held = "map (\<lambda>p. condHolds (pt_Condition p) (view s (itemKey p)) = Some True) puts"
  have held: "False \<in> set ?held" using assms(4) by force
  then have "Some ''ConditionalCheckFailed'' \<in> set (map (\<lambda>h. Some (if h then ''None'' else ''ConditionalCheckFailed'')) ?held)"
    by force
  with assms(1) [unfolded ddb_server_def, THEN conjunct2, THEN conjunct1, rule_format, OF assms(2), of s] assms(3) that held
  show thesis by (auto simp: Let_def)
qed

lemma ddb_server_refuse:
  assumes "ddb_server tableName takes view dc" "ddb_request tableName puts" "\<not> (\<forall>p\<in>set puts. takes s p)"
  obtains s' err where "view s' = view s" "run_state (dc_TransactWriteItems dc puts) s = (Some err, s')"
  using assms(1) [unfolded ddb_server_def, THEN conjunct2, THEN conjunct1, rule_format, OF assms(2), of s] assms(3) that
  unfolding Let_def if_not_P [OF assms(3)] by blast

section \<open>A transition in one transaction\<close>

text \<open>What the engine writes for a transition: the event, then the instance.\<close>

definition ddb_write :: "'s ddbClient \<Rightarrow> codec \<Rightarrow> string \<Rightarrow> DomainEvent \<Rightarrow> WorkflowInstance \<Rightarrow> gval \<Rightarrow> 's ddbWorld proc" where
  "ddb_write dc c tableName event inst tx =
     check (ddb_Append dc c tableName tx event) (\<lambda>err. ret (Some err)) (ddb_Update dc c tableName tx inst)"

definition ddb_puts :: "codec \<Rightarrow> string \<Rightarrow> DomainEvent \<Rightarrow> WorkflowInstance \<Rightarrow> ddbItem \<Rightarrow> ddbPut list" where
  "ddb_puts c tableName event inst item =
     [\<lparr>pt_Table = tableName, pt_Item = ddb_eventItem c event, pt_Condition = None\<rparr>,
      \<lparr>pt_Table = tableName, pt_Item = ddb_keyed inst item,
       pt_Condition = Some (''UpdatedAt = :oldUpdatedAt'',
         [('':oldUpdatedAt'', AttrS (cd_Format c (wi_LastReadUpdatedAt inst)))])\<rparr>]"

lemma ddb_keyed_attrs [simp]:
  "map_of (ddb_keyed inst item) ''PK'' = Some (AttrS (instPK (wi_AggregateType inst) (wi_AggregateID inst)))"
  "map_of (ddb_keyed inst item) ''SK'' = Some (AttrS ''INSTANCE'')"
  "map_of (ddb_keyed inst item) ''UpdatedAt'' = map_of item ''UpdatedAt''"
  by (simp_all add: ddb_keyed_def)

lemma ddb_puts_keys:
  "map itemKey (ddb_puts c tableName event inst item) =
    [(eventPK (ev_AggregateType event) (ev_AggregateID event), ev_ID event),
     (instPK (wi_AggregateType inst) (wi_AggregateID inst), ''INSTANCE'')]"
  by (simp add: ddb_puts_def itemKey_def attrText_def ddb_eventItem_def)

lemma ddb_session:
  assumes "dc_MarshalInstance dc inst = Inr item"
  shows "\<exists>ts. run_state (inTx (ddb_NewTxProvider dc) (ddb_write dc c tableName event inst)) w =
    (case run_state (dc_TransactWriteItems dc (ddb_puts c tableName event inst item)) (dw_server w) of
       (None, s) \<Rightarrow> (None, \<lparr>dw_txs = ts, dw_server = s\<rparr>)
     | (Some (TransactionCanceled reasons err), s) \<Rightarrow>
         (Some (Errorf ''dynamostore: commit tx: %w'' []
            (Some (if Some ''ConditionalCheckFailed'' \<in> set reasons then Sentinel ErrConcurrentModification else err))),
          \<lparr>dw_txs = ts, dw_server = s\<rparr>)
     | (Some err, s) \<Rightarrow> (Some (Errorf ''dynamostore: commit tx: %w'' [] (Some (ddbError err))), \<lparr>dw_txs = ts, dw_server = s\<rparr>))"
  using assms
  by (cases w, intro exI [of _ "dw_txs w @ [ddb_puts c tableName event inst item]"])
     (auto simp: inTx_def ddb_NewTxProvider_def ddb_Begin_def ddb_write_def ddb_Append_def ddb_Update_def ddb_enlist_def
      ddb_Commit_def ddbTxIndex_def ddb_puts_def run_simps run_onServer nth_append list_update_append
      split: prod.splits option.splits ddbErr.splits)

lemma ddb_keys_differ: "eventPK at aid \<noteq> instPK at' aid'"
  by (simp add: eventPK_def instPK_def)

lemma ddb_puts_request: "ddb_request tableName (ddb_puts c tableName event inst item)"
proof -
  have "distinct (map itemKey (ddb_puts c tableName event inst item))"
    unfolding ddb_puts_keys by (simp add: ddb_keys_differ)
  then show ?thesis by (simp add: ddb_request_def ddb_puts_def condHolds_lock del: not_None_eq)
qed

lemma ddb_putAll:
  "putAll (ddb_puts c tableName event inst item) T =
    T((eventPK (ev_AggregateType event) (ev_AggregateID event), ev_ID event) \<mapsto> ddb_eventItem c event,
      (instPK (wi_AggregateType inst) (wi_AggregateID inst), ''INSTANCE'') \<mapsto> ddb_keyed inst item)"
  using ddb_puts_keys [of c tableName event inst item] by (simp add: putAll_def ddb_puts_def)

lemma ddb_conditions:
  "(\<forall>p\<in>set (ddb_puts c tableName event inst item). condHolds (pt_Condition p) (T (itemKey p)) = Some True) \<longleftrightarrow>
    (\<exists>old. T (instPK (wi_AggregateType inst) (wi_AggregateID inst), ''INSTANCE'') = Some old \<and>
       map_of old ''UpdatedAt'' = Some (AttrS (cd_Format c (wi_LastReadUpdatedAt inst))))"
  using ddb_puts_keys [of c tableName event inst item]
  by (auto simp: ddb_puts_def condHolds_lock attrOf_def bind_eq_Some_conv)

section \<open>Reads\<close>

lemma ddb_Get_result:
  assumes "ddb_server tableName takes view dc"
  shows "fst (run_state (ddb_Get dc tableName errNotFound at aid) w) =
    (case view (dw_server w) (instPK at aid, ''INSTANCE'') of
       None \<Rightarrow> Inl errNotFound
     | Some item \<Rightarrow> (case dc_UnmarshalInstance dc item of
         Inl err \<Rightarrow> Inl (Errorf ''dynamostore: unmarshal instance: %w'' [] (Some err)) | Inr inst \<Rightarrow> Inr inst))"
proof -
  obtain s' where "run_state (dc_GetItem dc tableName [(''PK'', AttrS (instPK at aid)), (''SK'', AttrS ''INSTANCE'')]) (dw_server w) =
      (Inr (view (dw_server w) (instPK at aid, ''INSTANCE'')), s')"
    using assms [unfolded ddb_server_def, THEN conjunct2, THEN conjunct2, rule_format, of "instPK at aid" "''INSTANCE''" "dw_server w"]
    by (auto simp: instPK_def)
  then show ?thesis by (simp add: ddb_Get_def run_attempt run_onServer split: option.splits sum.splits)
qed

text \<open>
  What is read back of an event, when each attribute is unmarshalled by its name: the item has no
  \<open>CausationID\<close>, which is lost.
\<close>

lemma ddb_event_back:
  assumes "dc_UnmarshalEvent dc (ddb_eventItem c event) = Inr
    \<lparr>er_ID = ev_ID event, er_AggregateType = ev_AggregateType event, er_AggregateID = ev_AggregateID event,
     er_WorkflowType = ev_WorkflowType event, er_WorkflowVersion = ev_WorkflowVersion event,
     er_EventType = ev_EventType event, er_CorrelationID = ev_CorrelationID event, er_ActorID = ev_ActorID event,
     er_TransitionName = ev_TransitionName event, er_StateBefore = cd_Params c (ev_StateBefore event),
     er_StateAfter = cd_Params c (ev_StateAfter event), er_Payload = cd_Params c (ev_Payload event),
     er_CreatedAt = cd_Format c (ev_CreatedAt event)\<rparr>"
  shows "unmarshalEvents dc c [ddb_eventItem c event] = Inr [(sqlite_eventBack c event)\<lparr>ev_CausationID := []\<rparr>]"
  using assms by (simp add: unmarshalEvent_def sqlite_eventBack_def)

text \<open>The keys run the two names together, so distinct aggregates can share one.\<close>

lemma ddb_keys_collide:
  "instPK ''a#b'' ''c'' = instPK ''a'' ''b#c''" "eventPK ''a#b'' ''c'' = eventPK ''a'' ''b#c''"
  by (simp_all add: instPK_def eventPK_def)

section \<open>A table for the witnesses\<close>

definition sampleMarshal :: "WorkflowInstance \<Rightarrow> ddbItem" where
  "sampleMarshal inst = [(''CurrentState'', AttrS (wi_CurrentState inst)), (''UpdatedAt'', AttrS (sampleFormat (wi_UpdatedAt inst)))]"

definition sampleDdb :: "ddbTable ddbClient" where
  "sampleDdb =
     \<lparr>dc_TransactWriteItems = (\<lambda>puts. State (\<lambda>T.
        let held = map (\<lambda>p. condHolds (pt_Condition p) (T (itemKey p)) = Some True) puts in
        if \<not> list_all keyed_put puts then (Some (ClientErr (UserErr 3)), T)
        else if False \<in> set held
        then (Some (TransactionCanceled (map (\<lambda>h. Some (if h then ''None'' else ''ConditionalCheckFailed'')) held) (UserErr 1)), T)
        else (None, putAll puts T))),
      dc_PutItem = (\<lambda>p. State (\<lambda>T. if \<not> keyed_put p then (Some (ClientErr (UserErr 3)), T)
        else if condHolds (pt_Condition p) (T (itemKey p)) = Some True then (None, putAll [p] T)
        else (Some (ConditionalCheckFailed (UserErr 1)), T))),
      dc_Query = (\<lambda>_ _ _ _. ok []),
      dc_GetItem = (\<lambda>_ key. State (\<lambda>T. (Inr (T (attrText key ''PK'', attrText key ''SK'')), T))),
      dc_Scan = (\<lambda>_ _ _ _. ok []),
      dc_MarshalInstance = (\<lambda>inst. Inr (sampleMarshal inst)),
      dc_UnmarshalInstance = (\<lambda>item. Inr (zero_instance\<lparr>wi_CurrentState := attrText item ''CurrentState''\<rparr>)),
      dc_UnmarshalEvent = (\<lambda>_. Inl (UserErr 2))\<rparr>"

lemma sampleDdb_server: "ddb_server ''flowstep'' (\<lambda>_. keyed_put) id sampleDdb"
  by (auto simp: ddb_server_def sampleDdb_def Let_def attrText_def list_all_iff)

section \<open>Atomicity and lock\<close>

text \<open>
  C24. A transition written to DynamoDB is atomic and locked, on a server that meets the contract above and
  for an instance that can be marshalled. If the server takes both puts, then: if the stored instance has
  the update time that was read, the commit writes the event and the instance and nothing else; otherwise,
  also when the instance is missing, it fails with \<open>ErrConcurrentModification\<close> and writes neither. If the
  server does not take one of them, for instance because the event has no ID, the commit fails and writes
  neither.
\<close>

theorem ddb_commit_atomic:
  assumes server: "ddb_server tableName takes view dc" and marshal: "dc_MarshalInstance dc inst = Inr item"
  shows "\<exists>r w'. run_state (inTx (ddb_NewTxProvider dc) (ddb_write dc c tableName event inst)) w = (r, w') \<and>
    (if \<forall>p\<in>set (ddb_puts c tableName event inst item). takes (dw_server w) p
     then if \<exists>old. view (dw_server w) (instPK (wi_AggregateType inst) (wi_AggregateID inst), ''INSTANCE'') = Some old \<and>
            map_of old ''UpdatedAt'' = Some (AttrS (cd_Format c (wi_LastReadUpdatedAt inst)))
          then r = None \<and> view (dw_server w') = (view (dw_server w))
            ((eventPK (ev_AggregateType event) (ev_AggregateID event), ev_ID event) \<mapsto> ddb_eventItem c event,
             (instPK (wi_AggregateType inst) (wi_AggregateID inst), ''INSTANCE'') \<mapsto> ddb_keyed inst item)
          else (\<exists>err. r = Some err \<and> err_is err ErrConcurrentModification) \<and> view (dw_server w') = view (dw_server w)
     else r \<noteq> None \<and> view (dw_server w') = view (dw_server w))"
proof -
  let ?puts = "ddb_puts c tableName event inst item" and ?s = "dw_server w"
  let ?held = "\<forall>p\<in>set ?puts. condHolds (pt_Condition p) (view ?s (itemKey p)) = Some True"
  note session = ddb_session [OF marshal, of c tableName event w] and request = ddb_puts_request
  consider (commits) "\<forall>p\<in>set ?puts. takes ?s p" ?held | (stale) "\<forall>p\<in>set ?puts. takes ?s p" "\<not> ?held"
    | (refuse) "\<not> (\<forall>p\<in>set ?puts. takes ?s p)" by blast
  then show ?thesis
  proof cases
    case commits
    obtain s' where s': "view s' = putAll ?puts (view ?s)" "run_state (dc_TransactWriteItems dc ?puts) ?s = (None, s')"
      by (rule ddb_server_write [OF server request commits])
    with session obtain ts where
      "run_state (inTx (ddb_NewTxProvider dc) (ddb_write dc c tableName event inst)) w = (None, \<lparr>dw_txs = ts, dw_server = s'\<rparr>)"
      by auto
    with s'(1) commits(1) commits(2) [unfolded ddb_conditions] show ?thesis by (simp add: ddb_putAll)
  next
    case stale
    then have "\<exists>p\<in>set ?puts. condHolds (pt_Condition p) (view ?s (itemKey p)) \<noteq> Some True" by blast
    then obtain s' reasons err where s': "view s' = view ?s" "Some ''ConditionalCheckFailed'' \<in> set reasons"
      "run_state (dc_TransactWriteItems dc ?puts) ?s = (Some (TransactionCanceled reasons err), s')"
      by (rule ddb_server_cancel [OF server request stale(1)])
    with session obtain ts where
      "run_state (inTx (ddb_NewTxProvider dc) (ddb_write dc c tableName event inst)) w =
        (Some (Errorf ''dynamostore: commit tx: %w'' [] (Some (Sentinel ErrConcurrentModification))), \<lparr>dw_txs = ts, dw_server = s'\<rparr>)"
      by auto
    with s'(1) stale(1) stale(2) [unfolded ddb_conditions] show ?thesis by simp
  next
    case refuse
    obtain s' err where s': "view s' = view ?s" "run_state (dc_TransactWriteItems dc ?puts) ?s = (Some err, s')"
      by (rule ddb_server_refuse [OF server request refuse])
    with session obtain ts r where
      "run_state (inTx (ddb_NewTxProvider dc) (ddb_write dc c tableName event inst)) w = (Some r, \<lparr>dw_txs = ts, dw_server = s'\<rparr>)"
      by (cases err) auto
    with s'(1) refuse show ?thesis by auto
  qed
qed

definition samplePaidEvent :: DomainEvent where
  "samplePaidEvent = zero_DomainEvent\<lparr>ev_ID := ''e1'', ev_AggregateType := ''order'', ev_AggregateID := ''o1'',
     ev_CorrelationID := ''c1'', ev_TransitionName := ''pay''\<rparr>"

definition sampleDdbWorld :: "ddbTable ddbWorld" where
  "sampleDdbWorld = \<lparr>dw_txs = [],
     dw_server = [(instPK ''order'' ''o1'', ''INSTANCE'') \<mapsto> ddb_keyed sampleInstance (sampleMarshal sampleInstance)]\<rparr>"

lemma samplePaid_taken:
  "\<forall>p\<in>set (ddb_puts sampleCodec ''flowstep'' samplePaidEvent samplePaid (sampleMarshal samplePaid)). keyed_put p"
  by (simp add: ddb_puts_def keyed_put_def attrText_def ddb_eventItem_def eventPK_def instPK_def corrPK_def samplePaidEvent_def)
     (simp add: ddb_keyed_def sampleMarshal_def)

theorem ddb_commit_atomic_witness:
  "\<exists>w'. run_state (inTx (ddb_NewTxProvider sampleDdb) (ddb_write sampleDdb sampleCodec ''flowstep'' samplePaidEvent samplePaid))
      sampleDdbWorld = (None, w') \<and>
    dw_server w' (eventPK ''order'' ''o1'', ''e1'') = Some (ddb_eventItem sampleCodec samplePaidEvent) \<and>
    dw_server w' (instPK ''order'' ''o1'', ''INSTANCE'') = Some (ddb_keyed samplePaid (sampleMarshal samplePaid))"
  using ddb_commit_atomic [OF sampleDdb_server, of samplePaid "sampleMarshal samplePaid" sampleCodec samplePaidEvent sampleDdbWorld]
    samplePaid_taken
  by (auto simp: sampleDdb_def samplePaid_def sampleInstance_def sampleMarshal_def sampleCodec_def sampleDdbWorld_def
      samplePaidEvent_def ddb_keys_differ)

end
