(* ===== verification/Flow_SqlEngine.thy ===== *)
theory Flow_SqlEngine
  imports Flow_Laws Flow_Sqlite "HOL-Library.Sublist"
begin

text \<open>
  The engine over a SQL database. The locale \<open>staged_stores\<close> is the contract of an event store, an instance
  store and a transaction provider whose writes stay in the open transaction until it is committed;
  the SQLite stores meet it on every server that meets \<open>sql_db\<close>. Under the contract every public
  operation changes the committed tables by steps of \<open>commit_step\<close> only and leaves no transaction open.
\<close>

section \<open>Steps of the committed tables\<close>

text \<open>The effect of the three writes of the stores on the tables of a transaction; \<open>None\<close> when refused.\<close>

record sqlwrites =
  sw_append :: "DomainEvent \<Rightarrow> sqltables \<Rightarrow> sqltables option"
  sw_create :: "WorkflowInstance \<Rightarrow> sqltables \<Rightarrow> sqltables option"
  sw_update :: "WorkflowInstance \<Rightarrow> sqltables \<Rightarrow> sqltables option"

definition event_for :: "DomainEvent \<Rightarrow> WorkflowInstance \<Rightarrow> bool" where
  "event_for event inst \<longleftrightarrow> ev_AggregateType event = wi_AggregateType inst \<and>
     ev_AggregateID event = wi_AggregateID inst \<and> ev_CorrelationID event = wi_CorrelationID inst"

text \<open>
  What one transaction of the engine may commit: a new instance, a new instance with the event of its
  restoring, an event with the update of its instance, the mark of a stuck instance, or the event of a
  side effect.
\<close>

inductive commit_step :: "sqlwrites \<Rightarrow> sqltables \<Rightarrow> sqltables \<Rightarrow> bool" for W where
  created: "sw_create W inst T = Some T' \<Longrightarrow> commit_step W T T'"
| restored: "sw_create W inst T = Some T1 \<Longrightarrow> sw_append W event T1 = Some T' \<Longrightarrow> event_for event inst \<Longrightarrow>
    commit_step W T T'"
| moved: "sw_append W event T = Some T1 \<Longrightarrow> sw_update W inst T1 = Some T' \<Longrightarrow> event_for event inst \<Longrightarrow>
    commit_step W T T'"
| stuck: "wi_IsStuck inst \<Longrightarrow> sw_update W inst T = Some T' \<Longrightarrow> commit_step W T T'"
| side_effect: "ev_EventType event = ''SideEffect'' \<Longrightarrow> sw_append W event T = Some T' \<Longrightarrow> commit_step W T T'"


text \<open>The last transaction committed an event together with the update of its instance.\<close>

definition commits :: "sqlwrites \<Rightarrow> DomainEvent \<Rightarrow> WorkflowInstance \<Rightarrow> sqltables \<Rightarrow> sqltables \<Rightarrow> bool" where
  "commits W event inst T T' \<longleftrightarrow>
     event_for event inst \<and> Option.bind (sw_append W event T) (sw_update W inst) = Some T'"

lemma commits_step: "commits W event inst T T' \<Longrightarrow> commit_step W T T'"
  by (auto simp: commits_def Option.bind_eq_Some_conv intro: commit_step.moved)

text \<open>No transaction is open, and the tables came from \<open>T0\<close> by steps.\<close>

definition settled :: "(gtime \<Rightarrow> sqlwrites) \<Rightarrow> gtime \<Rightarrow> sqltables \<Rightarrow> dbview \<Rightarrow> bool" where
  "settled W n T0 s \<longleftrightarrow> dv_tx s = None \<and> dv_now s = n \<and> (commit_step (W n))\<^sup>*\<^sup>* T0 (dv_tables s)"

lemma settled_refl: "dv_tx s = None \<Longrightarrow> settled W (dv_now s) (dv_tables s) s"
  by (simp add: settled_def)

lemma settled_step:
  "settled W n T0 s \<Longrightarrow> commit_step (W n) (dv_tables s) T' \<Longrightarrow> settled W n T0 (s\<lparr>dv_tables := T'\<rparr>)"
  by (auto simp: settled_def intro: rtranclp.rtrancl_into_rtrancl)

lemma settled_commits:
  "settled W n T0 s \<Longrightarrow> commits (W n) event inst (dv_tables s) T' \<Longrightarrow> settled W n T0 (s\<lparr>dv_tables := T'\<rparr>)"
  by (rule settled_step [OF _ commits_step])

lemma no_tx [simp]: "dv_tx s = None \<Longrightarrow> s\<lparr>dv_tx := None\<rparr> = s"
  by simp

text \<open>
  The committed tables before and after an operation: a failed one leaves them as they were, but for the
  mark on a stuck instance. A transition that fails in a post-commit step has been committed.
\<close>

definition unmoved :: "sqlwrites \<Rightarrow> sqltables \<Rightarrow> sqltables \<Rightarrow> bool" where
  "unmoved W T T' \<longleftrightarrow> T' = T \<or> (\<exists>inst. wi_IsStuck inst \<and> sw_update W inst T = Some T')"

definition committed :: "sqlwrites \<Rightarrow> sqltables \<Rightarrow> gerr + DomainEvent \<times> WorkflowInstance \<Rightarrow> sqltables \<Rightarrow> bool" where
  "committed W T r T' =
     (case r of Inr (event, moved) \<Rightarrow> commits W event moved T T' | Inl err \<Rightarrow> unmoved W T T')"

definition concluded :: "sqlwrites \<Rightarrow> sqltables \<Rightarrow> gerr + TransitionResult \<Rightarrow> sqltables \<Rightarrow> bool" where
  "concluded W T r T' =
     (case r of
        Inr res \<Rightarrow> commits W (rs_Event res) (rs_Instance res) T T'
      | Inl err \<Rightarrow> unmoved W T T' \<or> (\<exists>event inst. commits W event inst T T'))"

definition loaded :: "sqlwrites \<Rightarrow> sqltables \<Rightarrow> 'r \<Rightarrow> sqltables \<Rightarrow> bool" where
  "loaded W T r T' \<longleftrightarrow> T' = T \<or> (\<exists>inst. sw_create W inst T = Some T')"

definition outcome ::
  "(gtime \<Rightarrow> sqlwrites) \<Rightarrow> (sqlwrites \<Rightarrow> sqltables \<Rightarrow> 'r \<Rightarrow> sqltables \<Rightarrow> bool) \<Rightarrow> dbview \<Rightarrow> 'r \<Rightarrow> dbview \<Rightarrow> bool" where
  "outcome W C s0 r s \<longleftrightarrow> dv_tx s = None \<and> dv_now s = dv_now s0 \<and> C (W (dv_now s0)) (dv_tables s0) r (dv_tables s)"

lemma outcome_none:
  "dv_tx s0 = None \<Longrightarrow> outcome W committed s0 (Inl err) s0" "dv_tx s0 = None \<Longrightarrow> outcome W concluded s0 (Inl err') s0"
  by (simp_all add: outcome_def committed_def concluded_def unmoved_def)

lemma staged_check:
  assumes "triple v P m (\<lambda>r s. case x of None \<Rightarrow> r \<noteq> None \<and> s = s0 | Some y \<Rightarrow> r = None \<and> s = f y)"
    "\<And>err. x = None \<Longrightarrow> triple v (\<lambda>s. s = s0) (onerr err) Q" "\<And>y. x = Some y \<Longrightarrow> triple v (\<lambda>s. s = f y) k Q"
  shows "triple v P (check m onerr k) Q"
  by (rule triple_check [OF assms(1)]) (cases x, use assms(2,3) in auto)+

lemma staged_bind:
  assumes "triple v P m (\<lambda>r s. case x of None \<Rightarrow> r \<noteq> None \<and> s = s0 | Some y \<Rightarrow> r = None \<and> s = f y)"
    "\<And>r. x = None \<Longrightarrow> triple v (\<lambda>s. s = s0) (k r) Q" "\<And>r y. x = Some y \<Longrightarrow> triple v (\<lambda>s. s = f y) (k r) Q"
  shows "triple v P (State_Monad.bind m k) Q"
proof (rule triple_bind [OF assms(1)])
  fix r
  show "triple v (\<lambda>s. case x of None \<Rightarrow> r \<noteq> None \<and> s = s0 | Some y \<Rightarrow> r = None \<and> s = f y) (k r) Q"
    by (cases x) (use assms(2,3) in \<open>auto intro: triple_pre\<close>)
qed

lemma check_attempt:
  "check (attempt m onerr k) f g = attempt m (\<lambda>err. check (onerr err) f g) (\<lambda>x. check (k x) f g)"
  unfolding check_def attempt_def bind_assoc by (rule arg_cong [where f = "State_Monad.bind m"]) (auto split: sum.splits)

lemma triple_each_state: "(\<And>s0. P s0 \<Longrightarrow> triple v (\<lambda>s. s = s0) m Q) \<Longrightarrow> triple v P m Q"
  by (auto simp: triple_def)

lemma outcome_settled:
  assumes "settled W n T0 s0"
  shows "outcome W loaded s0 r s \<Longrightarrow> settled W n T0 s" "outcome W concluded s0 r' s \<Longrightarrow> settled W n T0 s"
    "outcome W committed s0 r'' s \<Longrightarrow> settled W n T0 s"
  using assms
  by (auto simp: settled_def outcome_def loaded_def concluded_def committed_def unmoved_def split: sum.splits
      intro: rtranclp.rtrancl_into_rtrancl commits_step commit_step.created commit_step.stuck)

text \<open>
  One step of a process that uses an engine: a call of a public operation, whatever its arguments and its
  result, or anything else that leaves the view alone.
\<close>

inductive engine_call :: "('w \<Rightarrow> 'v) \<Rightarrow> 'w Engine \<Rightarrow> 'w \<Rightarrow> 'w \<Rightarrow> bool" for view e where
  call_Transition: "run_state (Transition e at aid name actor params) w = (r, w') \<Longrightarrow> engine_call view e w w'"
| call_Signal: "run_state (Signal e input) w = (r, w') \<Longrightarrow> engine_call view e w w'"
| call_CompleteTask: "run_state (CompleteTask e tid choice actor) w = (r, w') \<Longrightarrow> engine_call view e w w'"
| call_ChildCompleted: "run_state (ChildCompleted e at aid final) w = (r, w') \<Longrightarrow> engine_call view e w w'"
| call_ForceState: "run_state (ForceState e at aid target actor reason) w = (r, w') \<Longrightarrow> engine_call view e w w'"
| call_SideEffect: "keeps view fn \<Longrightarrow> run_state (SideEffect e at aid name fn) w = (r, w') \<Longrightarrow> engine_call view e w w'"
| call_Snapshot: "run_state (takeSnapshot e at aid) w = (r, w') \<Longrightarrow> engine_call view e w w'"
| call_Restore: "run_state (Restore e snap) w = (r, w') \<Longrightarrow> engine_call view e w w'"
| call_other: "view w' = view w \<Longrightarrow> engine_call view e w w'"

section \<open>The contract\<close>

locale staged_stores = engine_frame view e
  for view :: "'w \<Rightarrow> dbview" and e :: "'w Engine" +
  fixes W :: "gtime \<Rightarrow> sqlwrites"
  assumes tx_begins: "dv_tx s0 = None \<Longrightarrow> triple view (\<lambda>s. s = s0) (tx_Begin (dp_TxProvider (en_deps e)))
      (\<lambda>r s. \<exists>tx. r = Inr tx \<and> s = s0\<lparr>dv_tx := Some (tx, dv_tables s0)\<rparr>)"
    and tx_commits: "dv_tx s0 = Some (tx, T) \<Longrightarrow> triple view (\<lambda>s. s = s0) (tx_Commit (dp_TxProvider (en_deps e)) tx)
      (\<lambda>r s. r = None \<and> s = s0\<lparr>dv_tables := T, dv_tx := None\<rparr>)"
    and tx_rolls_back: "dv_tx s0 = Some (tx, T) \<Longrightarrow> triple view (\<lambda>s. s = s0) (tx_Rollback (dp_TxProvider (en_deps e)) tx)
      (\<lambda>r s. s = s0\<lparr>dv_tx := None\<rparr>)"
    and no_savepoints: "tx_Savepoints (dp_TxProvider (en_deps e)) = None"
    and appends: "dv_tx s0 = Some (tx, T) \<Longrightarrow> triple view (\<lambda>s. s = s0) (es_Append (dp_EventStore (en_deps e)) tx event)
      (\<lambda>r s. case sw_append (W (dv_now s0)) event T of
         None \<Rightarrow> r \<noteq> None \<and> s = s0 | Some T' \<Rightarrow> r = None \<and> s = s0\<lparr>dv_tx := Some (tx, T')\<rparr>)"
    and creates: "dv_tx s0 = Some (tx, T) \<Longrightarrow> triple view (\<lambda>s. s = s0) (is_Create (dp_InstanceStore (en_deps e)) tx inst)
      (\<lambda>r s. case sw_create (W (dv_now s0)) inst T of
         None \<Rightarrow> r \<noteq> None \<and> s = s0 | Some T' \<Rightarrow> r = None \<and> s = s0\<lparr>dv_tx := Some (tx, T')\<rparr>)"
    and updates: "dv_tx s0 = Some (tx, T) \<Longrightarrow> triple view (\<lambda>s. s = s0) (is_Update (dp_InstanceStore (en_deps e)) tx inst)
      (\<lambda>r s. case sw_update (W (dv_now s0)) inst T of
         None \<Rightarrow> r \<noteq> None \<and> s = s0 | Some T' \<Rightarrow> r = None \<and> s = s0\<lparr>dv_tx := Some (tx, T')\<rparr>)"
    and get_keeps: "keeps view (is_Get (dp_InstanceStore (en_deps e)) at aid)"
    and get_key: "fst (run_state (is_Get (dp_InstanceStore (en_deps e)) at aid) w) = Inr inst \<Longrightarrow>
      wi_AggregateType inst = at \<and> wi_AggregateID inst = aid"
begin

lemmas [frame] = get_keeps

lemma savepoints_None [simp]: "savepoints e = None"
  by (simp add: savepoints_def no_savepoints)

lemma rollback_and:
  assumes "dv_tx s0 = Some (tx, T)" "Q x (s0\<lparr>dv_tx := None\<rparr>)"
  shows "triple view (\<lambda>s. s = s0) (do { _ \<leftarrow> tx_Rollback (dp_TxProvider (en_deps e)) tx; ret x }) Q"
  by (rule triple_bind [OF tx_rolls_back [OF assms(1)]]) (auto intro!: triple_ret assms(2))

lemma rollback_fail:
  assumes "dv_tx s0 = Some (tx, T)" "Q (Inl x) (s0\<lparr>dv_tx := None\<rparr>)"
  shows "triple view (\<lambda>s. s = s0) (do { _ \<leftarrow> tx_Rollback (dp_TxProvider (en_deps e)) tx; fail x }) Q"
  by (rule triple_bind [OF tx_rolls_back [OF assms(1)]]) (auto intro!: triple_fail assms(2))

text \<open>A write that is refused leaves the transaction as it was, one that is not goes into it.\<close>

lemmas append_check = staged_check [OF appends]
lemmas create_check = staged_check [OF creates]
lemmas update_check = staged_check [OF updates]

lemma commit_check:
  assumes "dv_tx s0 = Some (tx, T)" "triple view (\<lambda>s. s = s0\<lparr>dv_tables := T, dv_tx := None\<rparr>) k Q"
  shows "triple view (\<lambda>s. s = s0) (check (tx_Commit (dp_TxProvider (en_deps e)) tx) onerr k) Q"
  by (rule triple_check [OF tx_commits [OF assms(1)]]) (use assms(2) in auto)

lemma begin_attempt:
  assumes "dv_tx s0 = None" "\<And>tx. triple view (\<lambda>s. s = s0\<lparr>dv_tx := Some (tx, dv_tables s0)\<rparr>) (k tx) Q"
  shows "triple view (\<lambda>s. s = s0) (attempt (tx_Begin (dp_TxProvider (en_deps e))) onerr k) Q"
  by (rule triple_attempt [OF tx_begins [OF assms(1)]]) (use assms(2) in auto)

lemma staged_tail:
  assumes tx: "dv_tx s0 = Some (tx, dv_tables s0)" and ev: "event_for event inst"
  shows "triple view (\<lambda>s. s = s0) (appendUpdateCommit (en_deps e) tx event inst)
     (\<lambda>r s. dv_tx s = None \<and> dv_now s = dv_now s0 \<and>
        (if r = None then commits (W (dv_now s0)) event inst (dv_tables s0) (dv_tables s) else dv_tables s = dv_tables s0))"
  unfolding appendUpdateCommit_def
  by (intro append_check [OF tx] rollback_and [OF tx] update_check rollback_and commit_check triple_ret)
    (auto simp: commits_def ev)

lemma staged_appendUpdateCommit:
  assumes tx: "dv_tx s0 = Some (tx, dv_tables s0)" and ev: "event_for event inst"
  shows "triple view (\<lambda>s. s = s0) (check (appendUpdateCommit (en_deps e) tx event inst) fail (ok (event, inst)))
     (outcome W committed s0)"
  by (rule triple_check [OF staged_tail [OF assms]])
    (auto simp: outcome_def committed_def unmoved_def intro!: triple_fail triple_ok)

lemma staged_persistStuck:
  assumes "dv_tx s0 = None" "wi_IsStuck inst"
  shows "triple view (\<lambda>s. s = s0) (persistStuck (en_deps e) inst)
     (\<lambda>_ s. dv_tx s = None \<and> dv_now s = dv_now s0 \<and> unmoved (W (dv_now s0)) (dv_tables s0) (dv_tables s))"
  unfolding persistStuck_def
proof (rule begin_attempt [OF assms(1)])
  fix tx
  let ?s1 = "s0\<lparr>dv_tx := Some (tx, dv_tables s0)\<rparr>"
  have fin: "triple view (\<lambda>s. s = s0\<lparr>dv_tx := Some (tx, T)\<rparr>)
     (do { _ \<leftarrow> tx_Commit (dp_TxProvider (en_deps e)) tx; ret () })
     (\<lambda>_ s. dv_tx s = None \<and> dv_now s = dv_now s0 \<and> dv_tables s = T)" for T
    by (rule triple_bind [OF tx_commits]) (auto intro!: triple_ret)
  show "triple view (\<lambda>s. s = ?s1)
     (do { _ \<leftarrow> is_Update (dp_InstanceStore (en_deps e)) tx inst;
           _ \<leftarrow> tx_Commit (dp_TxProvider (en_deps e)) tx; ret () })
     (\<lambda>_ s. dv_tx s = None \<and> dv_now s = dv_now s0 \<and> unmoved (W (dv_now s0)) (dv_tables s0) (dv_tables s))"
    by (rule staged_bind [OF updates [of ?s1 tx "dv_tables s0"]])
      (use assms(2) in \<open>auto simp: unmoved_def intro!: triple_post [OF fin]\<close>)
qed

lemma staged_exitLoop:
  assumes "dv_tx s0 = Some (tx, T)"
  shows "triple view (\<lambda>s. s = s0) (exitLoop (en_deps e) def input tx seq)
     (\<lambda>r s. s = (if r = None then s0 else s0\<lparr>dv_tx := None\<rparr>))"
  by (induction seq)
    (auto simp: Let_def intro!: triple_ret triple_check_keeps frame rollback_and [OF assms])

lemma staged_entryLoop:
  assumes tx: "dv_tx s0 = Some (tx, dv_tables s0)"
  shows "triple view (\<lambda>s. s = s0) (entryLoop e def input tx inst src now seq)
     (\<lambda>r s. case r of
        Inr stuck \<Rightarrow> stuck = None \<and> s = s0
      | Inl err \<Rightarrow> dv_tx s = None \<and> dv_now s = dv_now s0 \<and> unmoved (W (dv_now s0)) (dv_tables s0) (dv_tables s))"
proof (induction seq)
  case (Cons name seq)
  have mark: "triple view (\<lambda>s. s = s0\<lparr>dv_tx := None\<rparr>) (persistStuck (en_deps e) (markStuck inst src reason now))
      (\<lambda>_ s. dv_tx s = None \<and> dv_now s = dv_now s0 \<and> unmoved (W (dv_now s0)) (dv_tables s0) (dv_tables s))" for reason
    by (rule triple_post [OF staged_persistStuck]) (auto simp: markStuck_def)
  from Cons show ?case
    by (auto simp: Let_def intro!: triple_bind_keeps frame triple_check_keeps triple_fail
        triple_bind [OF tx_rolls_back [OF tx]] triple_bind [OF mark])
qed (auto intro!: triple_ok)

lemma exit_check:
  assumes "dv_tx s0 = Some (tx, T)" "\<And>err. Q (Inl err) (s0\<lparr>dv_tx := None\<rparr>)" "triple view (\<lambda>s. s = s0) k Q"
  shows "triple view (\<lambda>s. s = s0) (check (exitLoop (en_deps e) def input tx seq) fail k) Q"
  by (rule triple_check [OF staged_exitLoop [OF assms(1)]]) (use assms in \<open>auto intro!: triple_fail\<close>)

lemma entry_attempt:
  assumes "dv_tx s0 = Some (tx, dv_tables s0)"
    "\<And>err s. dv_tx s = None \<Longrightarrow> dv_now s = dv_now s0 \<Longrightarrow> unmoved (W (dv_now s0)) (dv_tables s0) (dv_tables s) \<Longrightarrow> Q (Inl err) s"
    "triple view (\<lambda>s. s = s0) (k None) Q"
  shows "triple view (\<lambda>s. s = s0) (attempt (entryLoop e def input tx inst src now seq) fail k) Q"
  by (rule triple_attempt [OF staged_entryLoop [OF assms(1)]])
    (use assms in \<open>auto intro!: triple_fail triple_pure\<close>)

lemma staged_commitTransition:
  assumes "dv_tx s0 = None"
  shows "triple view (\<lambda>s. s = s0) (commitTransition e cm inst ct target name actor params) (outcome W committed s0)"
proof -
  let ?s1 = "\<lambda>tx. s0\<lparr>dv_tx := Some (tx, dv_tables s0)\<rparr>"
  have tx: "dv_tx (?s1 tx) = Some (tx, dv_tables (?s1 tx))" for tx by simp
  have same: "outcome W committed (?s1 tx) = outcome W committed s0" for tx by (simp add: outcome_def fun_eq_iff)
  have ev: "event_for (transitionEvent cm inst evID (tr_Event (ct_Def ct)) actor name params now)
     (movedInstance cm inst ct target now)" for evID now
    by (simp add: event_for_def transitionEvent_def movedInstance_def moveInstance_def enterParallelRegions_def Let_def)
  show ?thesis
    unfolding commitTransition_def Let_def withHistory_def [symmetric]
    by (intro triple_bind_keeps [OF clock_keeps] triple_bind_keeps [OF keeps_generateID] begin_attempt [OF assms]
        exit_check [OF tx] entry_attempt [OF tx] triple_bind_keeps [OF keeps_invalidateTasks])
      (simp_all add: outcome_def committed_def unmoved_def,
        fold movedInstance_def, use staged_appendUpdateCommit [OF tx ev, unfolded same]
        in \<open>simp add: outcome_def committed_def unmoved_def\<close>)
qed

lemma staged_beginAppendUpdateCommit:
  assumes "dv_tx s0 = None" "event_for event inst"
  shows "triple view (\<lambda>s. s = s0) (check (beginAppendUpdateCommit (en_deps e) event inst) fail (ok (event, inst)))
    (outcome W committed s0)"
proof -
  have tx: "dv_tx (s0\<lparr>dv_tx := Some (tx, dv_tables s0)\<rparr>) = Some (tx, dv_tables (s0\<lparr>dv_tx := Some (tx, dv_tables s0)\<rparr>))" for tx
    by simp
  show ?thesis
    unfolding beginAppendUpdateCommit_def check_attempt
    by (rule begin_attempt [OF assms(1)], rule triple_post [OF staged_appendUpdateCommit [OF tx assms(2)]])
      (simp add: outcome_def)
qed

lemma staged_commitParallelIntra:
  assumes "dv_tx s0 = None"
  shows "triple view (\<lambda>s. s = s0) (commitParallelIntra e cm inst candidates ps name actor params) (outcome W committed s0)"
  unfolding commitParallelIntra_def Let_def
  by (intro triple_bind_keeps [OF clock_keeps] triple_check_keeps [OF keeps_syncLoop] triple_bind_keeps [OF keeps_generateID]
      staged_beginAppendUpdateCommit [OF assms] triple_fail)
    (simp_all add: outcome_none assms event_for_def transitionEvent_def intraInstance_def)

lemma staged_commitParallelExit:
  assumes "dv_tx s0 = None"
  shows "triple view (\<lambda>s. s = s0) (commitParallelExit e cm inst ct target name actor params) (outcome W committed s0)"
  unfolding commitParallelExit_def Let_def
  by (intro triple_bind_keeps [OF clock_keeps] triple_check_keeps [OF keeps_syncLoop] triple_bind_keeps [OF keeps_generateID]
      staged_beginAppendUpdateCommit [OF assms] triple_fail)
    (simp_all add: outcome_none assms event_for_def transitionEvent_def)

text \<open>After a commit the post-commit steps report its event and instance, or fail.\<close>

lemma staged_afterCommit:
  assumes "triple view (\<lambda>s. s = s0) m (outcome W committed s0)"
  shows "triple view (\<lambda>s. s = s0) (attempt m fail (\<lambda>(event, moved). runPostCommit e cm moved ct event prev params start))
    (outcome W concluded s0)"
proof (rule triple_attempt [OF assms])
  fix p
  show "triple view (outcome W committed s0 (Inr p))
     (case p of (event, moved) \<Rightarrow> runPostCommit e cm moved ct event prev params start) (outcome W concluded s0)"
    by (cases p) (auto simp: outcome_def concluded_def committed_def reports_def split: sum.splits
        intro!: triple_post [OF triple_conj [OF triple_keeps [OF keeps_runPostCommit] runPostCommit_reports]])
qed (auto simp: outcome_def concluded_def committed_def intro!: triple_fail)

lemma staged_parallelTransition:
  assumes "dv_tx s0 = None"
  shows "triple view (\<lambda>s. s = s0) (parallelTransition e cm inst name actor params start) (outcome W concluded s0)"
  unfolding parallelTransition_def Let_def
  by (auto split: option.splits list.splits
      intro!: triple_fail outcome_none assms triple_attempt_keeps frame staged_afterCommit
        staged_commitParallelExit staged_commitParallelIntra)

lemma staged_createInstance:
  assumes "dv_tx s0 = None"
  shows "triple view (\<lambda>s. s = s0) (createInstance (en_deps e) cm at aid) (outcome W loaded s0)"
  unfolding createInstance_def Let_def
  by (intro triple_bind_keeps [OF clock_keeps] triple_bind_keeps [OF keeps_generateID] begin_attempt [OF assms]
      create_check commit_check rollback_fail triple_ok) (auto simp: outcome_def loaded_def)

lemma staged_load:
  assumes "dv_tx s0 = None"
  shows "triple view (\<lambda>s. s = s0) (loadInstanceAndCompiled e at aid) (outcome W loaded s0)"
proof -
  have none: "outcome W loaded s0 r s0" for r by (simp add: outcome_def loaded_def assms)
  have "triple view (\<lambda>s. s = s0) (attempt (createInstance (en_deps e) cm at aid) fail (\<lambda>inst. ok (cm, inst)))
     (outcome W loaded s0)" for cm
    by (rule triple_attempt [OF staged_createInstance [OF assms]])
      (auto simp: outcome_def loaded_def intro!: triple_fail triple_ok)
  then show ?thesis
    unfolding loadInstanceAndCompiled_def
    by (auto split: option.splits intro!: triple_attempt_keeps frame triple_fail triple_ok none)
qed

text \<open>\<open>Transition\<close> first makes sure that the instance exists, in a transaction of its own.\<close>

lemma staged_Transition:
  assumes "dv_tx s0 = None"
  shows "triple view (\<lambda>s. s = s0) (Transition e at aid name actor params)
    (\<lambda>r s. \<exists>s1. outcome W loaded s0 () s1 \<and> outcome W concluded s1 r s)"
proof -
  have none: "outcome W loaded s0 () s0" by (simp add: outcome_def loaded_def assms)
  have body: "triple view (outcome W loaded s0 r) (k (cm, inst)) (\<lambda>r s. \<exists>s1. outcome W loaded s0 () s1 \<and> outcome W concluded s1 r s)"
    if "\<And>s1. dv_tx s1 = None \<Longrightarrow> triple view (\<lambda>s. s = s1) (k (cm, inst)) (outcome W concluded s1)" for r k cm inst
  proof (rule triple_each_state)
    fix s1 assume l: "outcome W loaded s0 r s1"
    then have "dv_tx s1 = None" "outcome W loaded s0 () s1" by (simp_all add: outcome_def loaded_def)
    then show "triple view (\<lambda>s. s = s1) (k (cm, inst)) (\<lambda>r s. \<exists>s1. outcome W loaded s0 () s1 \<and> outcome W concluded s1 r s)"
      by (intro triple_post [OF that]) auto
  qed
  have failed: "\<exists>s1. outcome W loaded s0 () s1 \<and> outcome W concluded s1 (Inl err) s" if "outcome W loaded s0 r s" for r err s
    using that by (intro exI [of _ s]) (simp add: outcome_def loaded_def concluded_def unmoved_def)
  show ?thesis
    unfolding Transition_def
    by (cases "checkShutdown e")
      (auto intro!: triple_bind_keeps frame triple_attempt [OF staged_load [OF assms]] triple_fail failed body
          staged_parallelTransition staged_commitTransition triple_attempt_keeps staged_afterCommit outcome_none
          exI [of _ s0] none assms)
qed

lemma settled_idle: "settled W n T0 s \<Longrightarrow> dv_tx s = None"
  by (simp add: settled_def)

lemma settled_by:
  assumes "\<And>s0. dv_tx s0 = None \<Longrightarrow> triple view (\<lambda>s. s = s0) m (\<lambda>r s. \<exists>s1. outcome W loaded s0 () s1 \<and> outcome W concluded s1 (f r) s)"
  shows "triple view (settled W n T0) m (\<lambda>_. settled W n T0)"
proof (rule triple_each_state)
  fix s0 assume s: "settled W n T0 s0"
  show "triple view (\<lambda>s. s = s0) m (\<lambda>_. settled W n T0)"
    by (rule triple_post [OF assms [OF settled_idle [OF s]]]) (blast dest: outcome_settled [OF s] outcome_settled)
qed

lemma settled_Transition:
  "triple view (settled W n T0) (Transition e at aid name actor params) (\<lambda>_. settled W n T0)"
  by (rule settled_by [where f = id, unfolded id_apply]) (rule staged_Transition)

lemma settled_load: "triple view (settled W n T0) (loadInstanceAndCompiled e at aid) (\<lambda>_. settled W n T0)"
proof (rule triple_each_state)
  fix s0 assume s: "settled W n T0 s0"
  show "triple view (\<lambda>s. s = s0) (loadInstanceAndCompiled e at aid) (\<lambda>_. settled W n T0)"
    by (rule triple_post [OF staged_load [OF settled_idle [OF s]]]) (rule outcome_settled [OF s])
qed

lemma settled_Signal: "triple view (settled W n T0) (Signal e input) (\<lambda>_. settled W n T0)"
  unfolding Signal_def
  by (auto split: option.splits list.splits intro!: triple_attempt [OF settled_load] triple_fail settled_Transition)

lemma settled_CompleteTask: "triple view (settled W n T0) (CompleteTask e tid choice actor) (\<lambda>_. settled W n T0)"
  unfolding CompleteTask_def using task_keeps
  by (auto split: option.splits simp: Let_def
      intro!: triple_attempt_keeps triple_check_keeps frame triple_fail settled_Transition)

lemma settled_join:
  assumes "dp_ChildStore (en_deps e) = Some ch"
  shows "triple view (settled W n T0) (evaluateJoinPolicy e ch relation cm inst) (\<lambda>_. settled W n T0)"
  unfolding evaluateJoinPolicy_def using child_keeps [OF assms]
  by (auto split: option.splits simp: Let_def intro!: triple_attempt_keeps triple_fail settled_Transition)

lemma settled_ChildCompleted: "triple view (settled W n T0) (ChildCompleted e at aid final) (\<lambda>_. settled W n T0)"
  unfolding ChildCompleted_def using child_keeps
  by (auto split: option.splits list.splits simp: Let_def
      intro!: triple_attempt_keeps triple_bind_keeps frame triple_fail settled_Transition settled_join)

lemma triple_get_key:
  "triple view P (is_Get (dp_InstanceStore (en_deps e)) at aid)
     (\<lambda>r s. (\<forall>inst. r = Inr inst \<longrightarrow> wi_AggregateType inst = at \<and> wi_AggregateID inst = aid) \<and> P s)"
  unfolding triple_def using get_key get_keeps by (metis fst_conv keepsD)

lemma staged_force:
  assumes "dv_tx s0 = None" "event_for event forced" "\<And>ws. rs_Event (res ws) = event" "\<And>ws. rs_Instance (res ws) = forced"
  shows "triple view (\<lambda>s. s = s0\<lparr>dv_tx := Some (tx, dv_tables s0)\<rparr>)
     (check (appendUpdateCommit (en_deps e) tx event forced) fail
       (do { warnings \<leftarrow> emitToBus (en_deps e) event; ok (res warnings) })) (outcome W concluded s0)"
  by (rule triple_check [OF staged_tail])
    (auto simp: outcome_def concluded_def unmoved_def assms intro!: triple_fail triple_ok triple_bind_keeps frame)

lemma forcedInstance_key [simp]:
  "wi_AggregateType (forcedInstance cm inst target now) = wi_AggregateType inst"
  "wi_AggregateID (forcedInstance cm inst target now) = wi_AggregateID inst"
  "wi_CorrelationID (forcedInstance cm inst target now) = wi_CorrelationID inst"
  by (simp_all add: forcedInstance_def enterParallelRegions_def Let_def)

lemma staged_ForceState:
  assumes "dv_tx s0 = None"
  shows "triple view (\<lambda>s. s = s0) (ForceState e at aid target actor reason) (outcome W concluded s0)"
  unfolding ForceState_def Let_def
  by (cases "checkShutdown e")
    (auto split: option.splits simp: event_for_def transitionEvent_def
      intro!: triple_fail outcome_none assms triple_attempt [OF triple_get_key] triple_pure triple_bind_keeps frame
        begin_attempt [OF assms] staged_force [OF assms])

lemma settled_SideEffect:
  assumes "keeps view fn"
  shows "triple view (settled W n T0) (SideEffect e at aid name fn) (\<lambda>_. settled W n T0)"
proof (rule triple_each_state)
  fix s0 assume s: "settled W n T0 s0"
  have ev: "ev_EventType (NewSideEffectEvent evID at aid wt wv cid name result now) = ''SideEffect''" for evID wt wv cid result now
    by (simp add: NewSideEffectEvent_def)
  have fin: "settled W n T0 (s0\<lparr>dv_tx := None, dv_tables := T'\<rparr>)"
    if "sw_append (W (dv_now s0)) (NewSideEffectEvent evID at aid wt wv cid name result now) (dv_tables s0) = Some T'"
    for evID wt wv cid result now T'
    using settled_step [OF s, of T'] commit_step.side_effect [OF ev that] s by (simp add: settled_def)
  have "triple view (\<lambda>s. s = s0\<lparr>dv_tx := Some (tx, dv_tables s0)\<rparr>)
      (check (es_Append (dp_EventStore (en_deps e)) tx (NewSideEffectEvent evID at aid wt wv cid name result now))
        (\<lambda>err. do { _ \<leftarrow> tx_Rollback (dp_TxProvider (en_deps e)) tx; fail (err1 err) })
        (check (tx_Commit (dp_TxProvider (en_deps e)) tx) (\<lambda>err. fail (err2 err)) (ok result)))
      (\<lambda>_. settled W n T0)" for tx evID wt wv cid result now err1 err2
    by (intro append_check commit_check rollback_fail triple_ok) (use s fin in \<open>auto simp: settled_def\<close>)
  then show "triple view (\<lambda>s. s = s0) (SideEffect e at aid name fn) (\<lambda>_. settled W n T0)"
    unfolding SideEffect_def Let_def using s
    by (cases "checkShutdown e")
      (auto intro!: triple_attempt_keeps [OF get_keeps] triple_attempt_keeps [OF assms] triple_bind_keeps frame
         begin_attempt [OF settled_idle [OF s]] triple_fail)
qed

lemma staged_persistRestored:
  assumes "dv_tx s0 = None" "event_for event inst"
  shows "triple view (\<lambda>s. s = s0) (persistRestored (en_deps e) inst event)
     (\<lambda>r s. dv_tx s = None \<and> dv_now s = dv_now s0 \<and>
        (dv_tables s = dv_tables s0 \<or> commit_step (W (dv_now s0)) (dv_tables s0) (dv_tables s)))"
  unfolding persistRestored_def
  by (intro begin_attempt [OF assms(1)] create_check append_check commit_check rollback_and triple_ret)
    (auto intro: commit_step.restored [OF _ _ assms(2)])

lemma settled_Restore: "triple view (settled W n T0) (Restore e snap) (\<lambda>_. settled W n T0)"
proof -
  have ev: "event_for (restoredEvent cm snap evID now) (restoredInstance snap now)" for cm evID now
    by (simp add: event_for_def restoredEvent_def restoredInstance_def)
  have pr: "triple view (settled W n T0) (persistRestored (en_deps e) (restoredInstance snap now) (restoredEvent cm snap evID now))
     (\<lambda>_. settled W n T0)" for cm evID now
  proof (rule triple_each_state)
    fix s0 assume s: "settled W n T0 s0"
    show "triple view (\<lambda>s. s = s0) (persistRestored (en_deps e) (restoredInstance snap now) (restoredEvent cm snap evID now))
     (\<lambda>_. settled W n T0)"
      by (rule triple_post [OF staged_persistRestored [OF settled_idle [OF s] ev]])
        (use s in \<open>auto simp: settled_def intro: rtranclp.rtrancl_into_rtrancl\<close>)
  qed
  show ?thesis
    unfolding Restore_def Let_def using bus_keeps
    by (cases "dp_EventBus (en_deps e)") (auto split: option.splits sum.splits
        intro!: triple_ret triple_bind_keeps triple_check [OF pr] frame)
qed

lemma settled_ForceState:
  "triple view (settled W n T0) (ForceState e at aid target actor reason) (\<lambda>_. settled W n T0)"
proof (rule triple_each_state)
  fix s0 assume s: "settled W n T0 s0"
  show "triple view (\<lambda>s. s = s0) (ForceState e at aid target actor reason) (\<lambda>_. settled W n T0)"
    by (rule triple_post [OF staged_ForceState [OF settled_idle [OF s]]]) (rule outcome_settled [OF s])
qed

lemma keeps_snapshot: "keeps view (takeSnapshot e at aid)"
  unfolding takeSnapshot_def by (auto split: option.splits intro!: frame)

lemma settled_call:
  assumes "engine_call view e w w'" "settled W n T0 (view w)"
  shows "settled W n T0 (view w')"
  using assms
  by (cases rule: engine_call.cases)
    (auto dest: tripleD [OF settled_Transition] tripleD [OF settled_Signal] tripleD [OF settled_CompleteTask]
      tripleD [OF settled_ChildCompleted] tripleD [OF settled_ForceState] tripleD [OF settled_SideEffect]
      tripleD [OF settled_Restore] keepsD [OF keeps_snapshot])

lemma settled_calls:
  assumes "(engine_call view e)\<^sup>*\<^sup>* w w'" "dv_tx (view w) = None"
  shows "settled W (dv_now (view w)) (dv_tables (view w)) (view w')"
  using assms(1) by induction (simp_all add: settled_refl assms(2) settled_call)

end

section \<open>The SQLite stores\<close>

definition updateRows :: "(sqltables \<times> int) option \<Rightarrow> sqltables option" where
  "updateRows r = (case r of None \<Rightarrow> None | Some (T, n) \<Rightarrow> if n = 0 then None else Some T)"

definition sqlite_writes :: "coercion \<Rightarrow> codec \<Rightarrow> gtime \<Rightarrow> sqlwrites" where
  "sqlite_writes co c now =
     \<lparr>sw_append = (\<lambda>event T. map_option fst (apply_stmt co sqlite_schema now (sqlite_eventArgs c event)
        (Insert ''flowstep_events'' eventColumns) T)),
      sw_create = (\<lambda>inst T. map_option fst (apply_stmt co sqlite_schema now (sqlite_instanceArgs c inst)
        (Insert ''flowstep_instances'' instanceColumns) T)),
      sw_update = (\<lambda>inst T. updateRows (apply_stmt co sqlite_schema now (sqlite_updateArgs c inst) updateInstance T))\<rparr>"

text \<open>An engine whose event store, instance store and transactions are those of \<open>sqlitestore\<close>.\<close>

definition sqlite_engine :: "'w sqldb \<Rightarrow> codec \<Rightarrow> 'w Engine \<Rightarrow> bool" where
  "sqlite_engine D c e \<longleftrightarrow>
     dp_EventStore (en_deps e) = sqlite_NewEventStore D c \<and>
     (\<exists>notFound. dp_InstanceStore (en_deps e) = sqlite_NewInstanceStore D c notFound) \<and>
     dp_TxProvider (en_deps e) = sqlite_NewTxProvider D"

text \<open>An \<open>UPDATE\<close> that matches no row changes nothing.\<close>

lemma apply_update_none:
  assumes "apply_stmt co sch now args (Update tbl sets conds) T = Some (T', 0)"
  shows "T' = T"
proof -
  from assms have m: "\<forall>r\<in>set (T tbl). \<not> matches co sch tbl now args conds r"
    by (auto split: if_splits option.splits simp: filter_empty_conv)
  then have "those (map (\<lambda>r. if matches co sch tbl now args conds r then set_cols co sch tbl now args sets r else Some r)
      (T tbl)) = Some (T tbl)" using those_map_Some [of "T tbl" _ id] by simp
  with assms show ?thesis by (auto split: if_splits)
qed

lemma sql_tx_exec:
  assumes db: "sql_db co sch le view D" "keeps_unique sch st" and tx: "dv_tx (view w) = Some (tx, T)"
  obtains (refused) err w' where "run_state (db_TxExec D tx st args) w = (Inl err, w')" "view w' = view w"
      "apply_stmt co sch (dv_now (view w)) args st T = None"
  | (applied) n T' w' where "run_state (db_TxExec D tx st args) w = (Inr n, w')"
      "view w' = (view w)\<lparr>dv_tx := Some (tx, T')\<rparr>" "apply_stmt co sch (dv_now (view w)) args st T = Some (T', n)"
proof (cases "apply_stmt co sch (dv_now (view w)) args st T")
  case None
  then show ?thesis using sql_db_TxExec_None [OF db tx] refused by metis
next
  case (Some p)
  then show ?thesis using sql_db_TxExec_Some [OF db tx] applied by (metis surj_pair)
qed

text \<open>A store method that executes one statement in the transaction and turns its result into an error or none.\<close>

lemma sql_write_staged:
  assumes db: "sql_db co sch le view D" "keeps_unique sch st" and tx: "dv_tx s0 = Some (tx, T)"
    and none: "apply_stmt co sch (dv_now s0) args st T = None \<Longrightarrow> x = None"
    and some: "\<And>T' n. apply_stmt co sch (dv_now s0) args st T = Some (T', n) \<Longrightarrow>
      k n = ret None \<and> x = Some T' \<or> (\<exists>err. k n = ret (Some err)) \<and> x = None \<and> T' = T"
  shows "triple view (\<lambda>s. s = s0) (attempt (db_TxExec D tx st args) (\<lambda>err. ret (Some (f err))) k)
     (\<lambda>r s. case x of None \<Rightarrow> r \<noteq> None \<and> s = s0 | Some T' \<Rightarrow> r = None \<and> s = s0\<lparr>dv_tx := Some (tx, T')\<rparr>)"
  unfolding triple_def
proof (intro allI impI)
  fix w r w'
  assume s0: "view w = s0" and run: "run_state (attempt (db_TxExec D tx st args) (\<lambda>err. ret (Some (f err))) k) w = (r, w')"
  have tx': "dv_tx (view w) = Some (tx, T)" by (simp add: s0 tx)
  from db tx' show "case x of None \<Rightarrow> r \<noteq> None \<and> view w' = s0 | Some T' \<Rightarrow> r = None \<and> view w' = s0\<lparr>dv_tx := Some (tx, T')\<rparr>"
  proof (cases rule: sql_tx_exec [where args = args])
    case refused
    then show ?thesis using run none by (auto simp: run_attempt s0)
  next
    case (applied n T1 w1)
    then show ?thesis using some [of T1 n] run tx by (auto simp: run_attempt s0)
  qed
qed

lemma triple_reached: "(\<And>w. v w = s0 \<Longrightarrow> triple v (\<lambda>s. s = s0) m Q) \<Longrightarrow> triple v (\<lambda>s. s = s0) m Q"
  by (auto simp: triple_def)

lemma sqlite_staged_writes:
  assumes db: "sql_db co sqlite_schema le view D" and tx: "dv_tx s0 = Some (tx, T)" and w: "view w = s0"
  shows "triple view (\<lambda>s. s = s0) (sqlite_Append D c tx event)
     (\<lambda>r s. case sw_append (sqlite_writes co c (dv_now s0)) event T of
        None \<Rightarrow> r \<noteq> None \<and> s = s0 | Some T' \<Rightarrow> r = None \<and> s = s0\<lparr>dv_tx := Some (tx, T')\<rparr>)"
    "triple view (\<lambda>s. s = s0) (sqlite_Create D c tx inst)
     (\<lambda>r s. case sw_create (sqlite_writes co c (dv_now s0)) inst T of
        None \<Rightarrow> r \<noteq> None \<and> s = s0 | Some T' \<Rightarrow> r = None \<and> s = s0\<lparr>dv_tx := Some (tx, T')\<rparr>)"
    "triple view (\<lambda>s. s = s0) (sqlite_Update D c tx inst)
     (\<lambda>r s. case sw_update (sqlite_writes co c (dv_now s0)) inst T of
        None \<Rightarrow> r \<noteq> None \<and> s = s0 | Some T' \<Rightarrow> r = None \<and> s = s0\<lparr>dv_tx := Some (tx, T')\<rparr>)"
proof -
  have isTx: "db_isTx D tx" by (rule sql_db_isTx [OF db, of w]) (simp add: tx w)
  note wr = sql_write_staged [OF db sqlite_keeps_unique(2) tx] sql_write_staged [OF db sqlite_keeps_unique(1) tx]
  show "triple view (\<lambda>s. s = s0) (sqlite_Append D c tx event)
     (\<lambda>r s. case sw_append (sqlite_writes co c (dv_now s0)) event T of
        None \<Rightarrow> r \<noteq> None \<and> s = s0 | Some T' \<Rightarrow> r = None \<and> s = s0\<lparr>dv_tx := Some (tx, T')\<rparr>)"
    unfolding sqlite_Append_def if_False isTx [THEN eqTrueI] not_True_eq_False
    by (rule wr(1)) (auto simp: sqlite_writes_def)
  show "triple view (\<lambda>s. s = s0) (sqlite_Create D c tx inst)
     (\<lambda>r s. case sw_create (sqlite_writes co c (dv_now s0)) inst T of
        None \<Rightarrow> r \<noteq> None \<and> s = s0 | Some T' \<Rightarrow> r = None \<and> s = s0\<lparr>dv_tx := Some (tx, T')\<rparr>)"
    unfolding sqlite_Create_def if_False isTx [THEN eqTrueI] not_True_eq_False
    by (rule wr(1)) (auto simp: sqlite_writes_def)
  show "triple view (\<lambda>s. s = s0) (sqlite_Update D c tx inst)
     (\<lambda>r s. case sw_update (sqlite_writes co c (dv_now s0)) inst T of
        None \<Rightarrow> r \<noteq> None \<and> s = s0 | Some T' \<Rightarrow> r = None \<and> s = s0\<lparr>dv_tx := Some (tx, T')\<rparr>)"
    unfolding sqlite_Update_def if_False isTx [THEN eqTrueI] not_True_eq_False
    by (rule wr(2)) (auto simp: sqlite_writes_def updateRows_def dest: apply_update_none [where tbl = "''flowstep_instances''" and sets = instanceSets and conds = lockConds, folded updateInstance_def])
qed

lemma sqlite_staged_tx:
  assumes db: "sql_db co sqlite_schema le view D"
  shows "dv_tx s0 = None \<Longrightarrow> triple view (\<lambda>s. s = s0) (sqlite_Begin D)
      (\<lambda>r s. \<exists>tx. r = Inr tx \<and> s = s0\<lparr>dv_tx := Some (tx, dv_tables s0)\<rparr>)"
    "dv_tx s0 = Some (tx, T) \<Longrightarrow> triple view (\<lambda>s. s = s0) (sqlite_Commit D tx)
      (\<lambda>r s. r = None \<and> s = s0\<lparr>dv_tables := T, dv_tx := None\<rparr>)"
    "dv_tx s0 = Some (tx, T) \<Longrightarrow> triple view (\<lambda>s. s = s0) (sqlite_Rollback D tx) (\<lambda>r s. s = s0\<lparr>dv_tx := None\<rparr>)"
proof -
  show "triple view (\<lambda>s. s = s0) (sqlite_Begin D) (\<lambda>r s. \<exists>tx. r = Inr tx \<and> s = s0\<lparr>dv_tx := Some (tx, dv_tables s0)\<rparr>)"
    if "dv_tx s0 = None"
    unfolding triple_def using that
    by (auto simp: sqlite_Begin_def run_attempt elim!: sql_db_Begin [OF db])
  show "triple view (\<lambda>s. s = s0) (sqlite_Commit D tx) (\<lambda>r s. r = None \<and> s = s0\<lparr>dv_tables := T, dv_tx := None\<rparr>)"
    if "dv_tx s0 = Some (tx, T)"
    unfolding triple_def sqlite_Commit_def
  proof (intro allI impI)
    fix w r w' assume w: "view w = s0" and run: "run_state (if db_isTx D tx then db_Commit D tx else ret (Some notSqlTx)) w = (r, w')"
    have tx: "dv_tx (view w) = Some (tx, T)" by (simp add: that w)
    show "r = None \<and> view w' = s0\<lparr>dv_tables := T, dv_tx := None\<rparr>"
      by (rule sql_db_Commit [OF db tx]) (use run sql_db_isTx [OF db tx] w in auto)
  qed
  show "triple view (\<lambda>s. s = s0) (sqlite_Rollback D tx) (\<lambda>r s. s = s0\<lparr>dv_tx := None\<rparr>)"
    if "dv_tx s0 = Some (tx, T)"
    unfolding triple_def sqlite_Rollback_def
  proof (intro allI impI)
    fix w r w' assume w: "view w = s0" and run: "run_state (if db_isTx D tx then db_Rollback D tx else ret (Some notSqlTx)) w = (r, w')"
    have tx: "dv_tx (view w) = Some (tx, T)" by (simp add: that w)
    show "view w' = s0\<lparr>dv_tx := None\<rparr>"
      by (rule sql_db_Rollback [OF db tx]) (use run sql_db_isTx [OF db tx] w in auto)
  qed
qed

lemma sqlite_scanned_key:
  assumes "sqlite_scanInstance D c row = Inr inst"
  shows "db_ScanString D (row ! 3) = Inr (wi_AggregateType inst) \<and> db_ScanString D (row ! 4) = Inr (wi_AggregateID inst)"
  using assms by (auto simp: sqlite_scanInstance_def into_def split: if_splits sum.splits)

lemma sqlite_Get_key:
  assumes db: "sql_db co sqlite_schema le view D" and co: "plain_coercion co"
    and got: "fst (run_state (sqlite_Get D c notFound at aid) w) = Inr inst"
  shows "wi_AggregateType inst = at \<and> wi_AggregateID inst = aid"
proof -
  let ?args = "[SText at, SText aid]"
  have acc: "accepts co sqlite_schema (dv_now (view w)) ?args selectInstance"
    unfolding selectInstance_def accepts.simps by (rule sqlite_fitting(1) [OF co])
  obtain w' where w': "view w' = view w" "run_state (db_QueryRow D selectInstance ?args) w =
      (Inr (case chosen co sqlite_schema (dv_now (view w)) ?args selectInstance (dv_tables (view w)) of
              [] \<Rightarrow> None | r # _ \<Rightarrow> Some (projected selectInstance r)), w')"
    by (rule sql_db_QueryRow [OF db acc])
  from got w'(2) obtain r where "r \<in> set (chosen co sqlite_schema (dv_now (view w)) ?args selectInstance (dv_tables (view w)))"
    and scan: "sqlite_scanInstance D c (projected selectInstance r) = Inr inst"
    by (auto simp: sqlite_Get_def run_attempt split: list.splits sum.splits option.splits)
  then have "col r ''aggregate_type'' = SText at" "col r ''aggregate_id'' = SText aid"
    using co by (auto simp: selectInstance_def matches_def opval_def sqlite_sent_text)
  then show ?thesis
    using sqlite_scanned_key [OF scan] by (simp add: selectInstance_def instanceColumns_def sql_db_scans [OF db])
qed

lemma sqlite_Get_keeps:
  assumes db: "sql_db co sqlite_schema le view D" and co: "plain_coercion co"
  shows "keeps view (sqlite_Get D c notFound at aid)"
proof -
  have acc: "accepts co sqlite_schema now [SText at, SText aid] selectInstance" for now
    unfolding selectInstance_def accepts.simps by (rule sqlite_fitting(1) [OF co])
  have "keeps view (db_QueryRow D selectInstance [SText at, SText aid])"
    unfolding keeps_def by (metis sql_db_QueryRow [OF db acc] snd_conv)
  then show ?thesis
    unfolding sqlite_Get_def by (auto split: option.splits sum.splits intro!: frame)
qed

lemma sqlite_staged_stores:
  assumes db: "sql_db co sqlite_schema le view D" and co: "plain_coercion co"
    and e: "sqlite_engine D c e" and fr: "engine_frame view e"
  shows "staged_stores view e (sqlite_writes co c)"
proof -
  from e obtain nf where deps: "dp_EventStore (en_deps e) = sqlite_NewEventStore D c"
    "dp_InstanceStore (en_deps e) = sqlite_NewInstanceStore D c nf" "dp_TxProvider (en_deps e) = sqlite_NewTxProvider D"
    by (auto simp: sqlite_engine_def)
  note sel = deps sqlite_NewEventStore_def sqlite_NewInstanceStore_def sqlite_NewTxProvider_def
  show ?thesis
    by (intro staged_stores.intro fr staged_stores_axioms.intro)
      (simp_all add: sel sqlite_staged_tx [OF db] triple_reached [OF sqlite_staged_writes(1) [OF db]]
        triple_reached [OF sqlite_staged_writes(2) [OF db]] triple_reached [OF sqlite_staged_writes(3) [OF db]]
        sqlite_Get_keeps [OF db co] sqlite_Get_key [OF db co])
qed

section \<open>The stored events and instances\<close>

text \<open>The tables hold the events \<open>es\<close>, in the order in which they were appended, and the instances \<open>is\<close>.\<close>

definition sqlite_holds :: "codec \<Rightarrow> sqltables \<Rightarrow> DomainEvent list \<Rightarrow> WorkflowInstance list \<Rightarrow> bool" where
  "sqlite_holds c T es is \<longleftrightarrow> T ''flowstep_events'' = map (sqlite_eventRow c) es \<and>
     T ''flowstep_instances'' = map (sqlite_instanceRow c) is"

definition fresh_event :: "DomainEvent \<Rightarrow> DomainEvent list \<Rightarrow> bool" where
  "fresh_event event es \<longleftrightarrow> (\<forall>e\<in>set es. ev_ID e \<noteq> ev_ID event)"

definition fresh_instance :: "WorkflowInstance \<Rightarrow> WorkflowInstance list \<Rightarrow> bool" where
  "fresh_instance inst is \<longleftrightarrow> (\<forall>i\<in>set is. wi_ID i \<noteq> wi_ID inst \<and> wi_AggregateID i \<noteq> wi_AggregateID inst)"

definition can_update :: "codec \<Rightarrow> WorkflowInstance \<Rightarrow> WorkflowInstance list \<Rightarrow> bool" where
  "can_update c inst is \<longleftrightarrow> (\<exists>i\<in>set is. sqlite_current c inst i)"

text \<open>What a process that uses the engine can do to the events and instances, as the specification has it.\<close>

inductive log_step ::
  "codec \<Rightarrow> DomainEvent list \<times> WorkflowInstance list \<Rightarrow> DomainEvent list \<times> WorkflowInstance list \<Rightarrow> bool" for c where
  log_create: "fresh_instance inst is \<Longrightarrow> log_step c (es, is) (es, is @ [inst])"
| log_restore: "fresh_instance inst is \<Longrightarrow> fresh_event event es \<Longrightarrow> event_for event inst \<Longrightarrow>
    log_step c (es, is) (es @ [event], is @ [inst])"
| log_move: "fresh_event event es \<Longrightarrow> can_update c inst is \<Longrightarrow> event_for event inst \<Longrightarrow>
    log_step c (es, is) (es @ [event], sqlite_updated c inst is)"
| log_stuck: "wi_IsStuck inst \<Longrightarrow> can_update c inst is \<Longrightarrow> log_step c (es, is) (es, sqlite_updated c inst is)"
| log_side_effect: "ev_EventType event = ''SideEffect'' \<Longrightarrow> fresh_event event es \<Longrightarrow>
    log_step c (es, is) (es @ [event], is)"

lemma sqlite_writes_hold:
  assumes co: "plain_coercion co" and T: "sqlite_holds c T es is"
  shows "sw_append (sqlite_writes co c now) event T = Some T' \<Longrightarrow> fresh_event event es \<and> sqlite_holds c T' (es @ [event]) is"
    "sw_create (sqlite_writes co c now) inst T = Some T' \<Longrightarrow> fresh_instance inst is \<and> sqlite_holds c T' es (is @ [inst])"
    "sw_update (sqlite_writes co c now) inst T = Some T' \<Longrightarrow> can_update c inst is \<and> sqlite_holds c T' es (sqlite_updated c inst is)"
proof -
  from T have rows: "T ''flowstep_events'' = map (sqlite_eventRow c) es" "T ''flowstep_instances'' = map (sqlite_instanceRow c) is"
    by (simp_all add: sqlite_holds_def)
  note ap = sqlite_apply_append [where T = T, OF co rows(1)] sqlite_apply_create [where T = T, OF co rows(2)]
    sqlite_apply_update [where T = T, OF co rows(2)]
  show "sw_append (sqlite_writes co c now) event T = Some T' \<Longrightarrow> fresh_event event es \<and> sqlite_holds c T' (es @ [event]) is"
    using rows by (auto simp del: apply_stmt.simps simp: sqlite_writes_def ap sqlite_holds_def fresh_event_def split: if_splits)
  show "sw_create (sqlite_writes co c now) inst T = Some T' \<Longrightarrow> fresh_instance inst is \<and> sqlite_holds c T' es (is @ [inst])"
    using rows by (auto simp del: apply_stmt.simps simp: sqlite_writes_def ap sqlite_holds_def fresh_instance_def split: if_splits)
  show "sw_update (sqlite_writes co c now) inst T = Some T' \<Longrightarrow> can_update c inst is \<and> sqlite_holds c T' es (sqlite_updated c inst is)"
    using rows by (auto simp del: apply_stmt.simps simp: sqlite_writes_def ap sqlite_holds_def can_update_def updateRows_def filter_empty_conv split: if_splits)
qed

lemma sqlite_step_simulates:
  assumes co: "plain_coercion co" and T: "sqlite_holds c T es is" and st: "commit_step (sqlite_writes co c now) T T'"
  shows "\<exists>es' is'. log_step c (es, is) (es', is') \<and> sqlite_holds c T' es' is'"
  using st
proof cases
  case (created inst)
  with sqlite_writes_hold(2) [OF co T] show ?thesis by (blast intro: log_create)
next
  case (restored inst T1 event)
  with sqlite_writes_hold(2) [OF co T] have 1: "fresh_instance inst is" "sqlite_holds c T1 es (is @ [inst])" by blast+
  with sqlite_writes_hold(1) [OF co 1(2)] restored show ?thesis by (blast intro: log_restore)
next
  case (moved event T1 inst)
  with sqlite_writes_hold(1) [OF co T] have 1: "fresh_event event es" "sqlite_holds c T1 (es @ [event]) is" by blast+
  with sqlite_writes_hold(3) [OF co 1(2)] moved show ?thesis by (blast intro: log_move)
next
  case (stuck inst)
  with sqlite_writes_hold(3) [OF co T] show ?thesis by (blast intro: log_stuck)
next
  case (side_effect event)
  with sqlite_writes_hold(1) [OF co T] show ?thesis by (blast intro: log_side_effect)
qed

lemma sqlite_steps_simulate:
  assumes co: "plain_coercion co" and T: "sqlite_holds c T es is" and st: "(commit_step (sqlite_writes co c now))\<^sup>*\<^sup>* T T'"
  shows "\<exists>es' is'. (log_step c)\<^sup>*\<^sup>* (es, is) (es', is') \<and> sqlite_holds c T' es' is'"
  using st
proof induction
  case base
  from T show ?case by blast
next
  case (step T1 T2)
  then obtain es1 is1 where 1: "(log_step c)\<^sup>*\<^sup>* (es, is) (es1, is1)" "sqlite_holds c T1 es1 is1" by blast
  from sqlite_step_simulates [OF co 1(2) step.hyps(2)] 1(1) show ?case by (blast intro: rtranclp.rtrancl_into_rtrancl)
qed

text \<open>The log only grows, and identifiers stay unique.\<close>

definition log_ok :: "DomainEvent list \<times> WorkflowInstance list \<Rightarrow> bool" where
  "log_ok l \<longleftrightarrow> distinct (map ev_ID (fst l)) \<and> distinct (map wi_ID (snd l)) \<and> distinct (map wi_AggregateID (snd l))"

lemma overwritten_ids:
  "map wi_ID (overwritten p inst is) = map wi_ID is" "map wi_AggregateID (overwritten p inst is) = map wi_AggregateID is"
  by (simp_all add: overwritten_def written_def)

lemma log_step_ok:
  assumes "log_step c l l'" "log_ok l"
  shows "log_ok l'" "prefix (fst l) (fst l')"
  using assms
  by (induction rule: log_step.induct) (auto simp: log_ok_def fresh_event_def fresh_instance_def overwritten_ids prefix_def)

lemma log_steps_ok:
  assumes "(log_step c)\<^sup>*\<^sup>* l l'" "log_ok l"
  shows "log_ok l' \<and> prefix (fst l) (fst l')"
  using assms by induction (auto dest: log_step_ok intro: prefix_order.trans)

section \<open>A ticket workflow on a SQLite engine\<close>

definition ticket_def :: Definition where
  "ticket_def =
     \<lparr>df_AggregateType = ''ticket'', df_WorkflowType = ''ticket_workflow'', df_Version = 1,
      df_States = [(''OPEN'', (s_leaf ''OPEN'' [])\<lparr>st_IsInitial := True\<rparr>),
        (''CLOSED'', (s_leaf ''CLOSED'' [])\<lparr>st_IsTerminal := True\<rparr>)],
      df_Transitions = [(''close'', s_edge ''close'' [''OPEN''] ''CLOSED'')],
      df_InitialState = ''OPEN'', df_TerminalStates = [''CLOSED''], df_Warnings = []\<rparr>"

definition sqliteDeps :: "dbview Deps" where
  "sqliteDeps =
     \<lparr>dp_EventStore = sqlite_NewEventStore sampleDb sampleCodec,
      dp_InstanceStore = sqlite_NewInstanceStore sampleDb sampleCodec (Sentinel ErrInstanceNotFound),
      dp_TaskStore = None, dp_ChildStore = None, dp_ActivityStore = None,
      dp_TxProvider = sqlite_NewTxProvider sampleDb, dp_EventBus = None, dp_ActivityRunner = None,
      dp_Clock = State (\<lambda>v. (dv_now v, v)), dp_Observers = None, dp_RandRead = ret []\<rparr>"

definition sqliteSample :: "dbview Engine" where
  "sqliteSample = (case Compile (\<lambda>bytes. bytes) ticket_def of
     Some (Inr cm) \<Rightarrow> commitDefinition ticket_def cm (New sqliteDeps) | _ \<Rightarrow> New sqliteDeps)"

lemma sqliteSample_deps [simp]: "en_deps sqliteSample = sqliteDeps"
  by (simp add: sqliteSample_def commitDefinition_def New_def split: option.splits sum.splits)

lemma sqliteSample_engine: "sqlite_engine sampleDb sampleCodec sqliteSample"
  by (auto simp: sqlite_engine_def sqliteDeps_def)

lemma sqliteSample_frame: "engine_frame refdb_view sqliteSample"
  by unfold_locales (simp_all add: sqliteDeps_def keeps_def)

interpretation sqliteRun: staged_stores refdb_view sqliteSample "sqlite_writes sampleCoercion sampleCodec"
  by (rule sqlite_staged_stores [OF sampleDb_contract sampleCoercion_plain sqliteSample_engine sqliteSample_frame])

lemma sqliteSample_holds: "sqlite_holds sampleCodec (dv_tables (refdb_view (sampleWith []))) [] []"
  by (simp add: sqlite_holds_def sampleWith_def refdb_view_def)

lemma sqliteSample_evaluates:
  "case fst (run_state (Transition sqliteSample ''ticket'' ''t1'' ''close'' ''u1'' None) (sampleWith [])) of
     Inl err \<Rightarrow> False | Inr res \<Rightarrow> wi_CurrentState (rs_Instance res) = ''CLOSED''"
  by code_simp

lemma sqliteSample_runs:
  obtains res w' where "run_state (Transition sqliteSample ''ticket'' ''t1'' ''close'' ''u1'' None) (sampleWith []) = (Inr res, w')"
    "wi_CurrentState (rs_Instance res) = ''CLOSED''"
proof (cases "run_state (Transition sqliteSample ''ticket'' ''t1'' ''close'' ''u1'' None) (sampleWith [])")
  case (Pair r w')
  with sqliteSample_evaluates that show thesis by (cases r) simp_all
qed

section \<open>The properties\<close>

text \<open>
  C5. On SQLite an engine refines the log of events and instances. Whatever public operations are called, in
  any order, with any arguments and results: afterwards no transaction is open, the events and instances
  in the tables came from those before by the steps of the specification (an event and the update of
  its instance together or not at all, under the optimistic lock), no event was changed or removed,
  and the identifiers are unique.
\<close>

theorem sqlite_engine_refines_log:
  assumes "sql_db co sqlite_schema le view D" "plain_coercion co" "sqlite_engine D c e" "engine_frame view e"
    and "dv_tx (view w) = None" "sqlite_holds c (dv_tables (view w)) es is" "log_ok (es, is)"
    and "(engine_call view e)\<^sup>*\<^sup>* w w'"
  shows "dv_tx (view w') = None \<and>
    (\<exists>es' is'. sqlite_holds c (dv_tables (view w')) es' is' \<and> (log_step c)\<^sup>*\<^sup>* (es, is) (es', is') \<and>
       prefix es es' \<and> log_ok (es', is'))"
proof -
  from staged_stores.settled_calls [OF sqlite_staged_stores [OF assms(1-4)] assms(8,5)]
  have s: "dv_tx (view w') = None" "(commit_step (sqlite_writes co c (dv_now (view w))))\<^sup>*\<^sup>* (dv_tables (view w)) (dv_tables (view w'))"
    by (simp_all add: settled_def)
  from sqlite_steps_simulate [OF assms(2,6) s(2)] s(1) log_steps_ok [OF _ assms(7)] show ?thesis by fastforce
qed

theorem sqlite_engine_refines_log_witness:
  "\<exists>res w' es' is'. run_state (Transition sqliteSample ''ticket'' ''t1'' ''close'' ''u1'' None) (sampleWith []) = (Inr res, w') \<and>
     sqlite_holds sampleCodec (dv_tables (refdb_view w')) es' is' \<and> (log_step sampleCodec)\<^sup>*\<^sup>* ([], []) (es', is') \<and>
     log_ok (es', is')"
proof -
  obtain res w' where r: "run_state (Transition sqliteSample ''ticket'' ''t1'' ''close'' ''u1'' None) (sampleWith []) = (Inr res, w')"
    by (rule sqliteSample_runs)
  have "log_ok ([], [])" by (simp add: log_ok_def)
  from sqlite_engine_refines_log [OF sampleDb_contract sampleCoercion_plain sqliteSample_engine sqliteSample_frame
      sampleWith_simps(1) sqliteSample_holds this r_into_rtranclp, OF call_Transition, OF r] r show ?thesis by blast
qed

text \<open>
  C6. A transition on SQLite is atomic. The instance exists afterwards, created on the fly when it was missing.
  If \<open>Transition\<close> returns a result, exactly its event was appended and its instance was written over the
  row that carried the time stamp it was loaded with. If it fails, either the log and the instances are
  as they were, or an instance was marked stuck, or a post-commit step failed and event and instance
  were both written.
\<close>

theorem sqlite_Transition_atomic:
  assumes "sql_db co sqlite_schema le view D" "plain_coercion co" "sqlite_engine D c e" "engine_frame view e"
    and "dv_tx (view w) = None" "sqlite_holds c (dv_tables (view w)) es is"
    and "run_state (Transition e at aid name actor params) w = (r, w')"
  shows "dv_tx (view w') = None \<and>
    (\<exists>is1. (is1 = is \<or> (\<exists>new. fresh_instance new is \<and> is1 = is @ [new])) \<and>
       (case r of
          Inr res \<Rightarrow> fresh_event (rs_Event res) es \<and> can_update c (rs_Instance res) is1 \<and>
            event_for (rs_Event res) (rs_Instance res) \<and>
            sqlite_holds c (dv_tables (view w')) (es @ [rs_Event res]) (sqlite_updated c (rs_Instance res) is1)
        | Inl err \<Rightarrow> sqlite_holds c (dv_tables (view w')) es is1 \<or>
            (\<exists>inst. wi_IsStuck inst \<and> can_update c inst is1 \<and>
               sqlite_holds c (dv_tables (view w')) es (sqlite_updated c inst is1)) \<or>
            (\<exists>event inst. event_for event inst \<and> fresh_event event es \<and> can_update c inst is1 \<and>
               sqlite_holds c (dv_tables (view w')) (es @ [event]) (sqlite_updated c inst is1))))"
proof -
  let ?W = "sqlite_writes co c"
  from tripleD [OF staged_stores.staged_Transition [OF sqlite_staged_stores [OF assms(1-4)] assms(5)] assms(7) refl]
  obtain s1 where s1: "outcome ?W loaded (view w) () s1" "outcome ?W concluded s1 r (view w')" by blast
  from s1(1) sqlite_writes_hold(2) [OF assms(2,6)] obtain is1
    where is1: "is1 = is \<or> (\<exists>new. fresh_instance new is \<and> is1 = is @ [new])" "sqlite_holds c (dv_tables s1) es is1"
    unfolding outcome_def loaded_def using assms(6) by metis
  have both: "event_for event inst \<and> fresh_event event es \<and> can_update c inst is1 \<and>
      sqlite_holds c T' (es @ [event]) (sqlite_updated c inst is1)"
    if "commits (?W now) event inst (dv_tables s1) T'" for now event inst T'
    using that sqlite_writes_hold(1) [OF assms(2) is1(2)] sqlite_writes_hold(3) [OF assms(2)]
    unfolding commits_def Option.bind_eq_Some_conv by blast
  have stuck: "sqlite_holds c T' es is1 \<or> (\<exists>inst. wi_IsStuck inst \<and> can_update c inst is1 \<and>
      sqlite_holds c T' es (sqlite_updated c inst is1))" if "unmoved (?W now) (dv_tables s1) T'" for now T'
    using that sqlite_writes_hold(3) [OF assms(2) is1(2)] is1(2) unfolding unmoved_def by blast
  from s1(2) have tx: "dv_tx (view w') = None"
    and c: "concluded (?W (dv_now s1)) (dv_tables s1) r (dv_tables (view w'))" by (simp_all add: outcome_def)
  show ?thesis
  proof (cases r)
    case (Inl err)
    with c have "unmoved (?W (dv_now s1)) (dv_tables s1) (dv_tables (view w')) \<or>
        (\<exists>event inst. commits (?W (dv_now s1)) event inst (dv_tables s1) (dv_tables (view w')))"
      by (simp add: concluded_def)
    with tx is1(1) both stuck show ?thesis unfolding Inl sum.case by blast
  next
    case (Inr res)
    with c have "commits (?W (dv_now s1)) (rs_Event res) (rs_Instance res) (dv_tables s1) (dv_tables (view w'))"
      by (simp add: concluded_def)
    with tx is1(1) both show ?thesis unfolding Inr sum.case by blast
  qed
qed

theorem sqlite_Transition_atomic_witness:
  "\<exists>res w' is1. run_state (Transition sqliteSample ''ticket'' ''t1'' ''close'' ''u1'' None) (sampleWith []) = (Inr res, w') \<and>
     wi_CurrentState (rs_Instance res) = ''CLOSED'' \<and> can_update sampleCodec (rs_Instance res) is1 \<and>
     sqlite_holds sampleCodec (dv_tables (refdb_view w')) [rs_Event res] (sqlite_updated sampleCodec (rs_Instance res) is1)"
proof -
  obtain res w' where r: "run_state (Transition sqliteSample ''ticket'' ''t1'' ''close'' ''u1'' None) (sampleWith []) = (Inr res, w')"
    "wi_CurrentState (rs_Instance res) = ''CLOSED''" by (rule sqliteSample_runs)
  from sqlite_Transition_atomic [OF sampleDb_contract sampleCoercion_plain sqliteSample_engine sqliteSample_frame
      sampleWith_simps(1) sqliteSample_holds r(1)] r show ?thesis by fastforce
qed

end
