(* ===== verification/Flow_Programs.thy ===== *)
theory Flow_Programs
  imports Flow_Memstore Flow_Examples Flow_Mermaid
begin

text \<open>
  The \<open>main\<close> functions under \<open>examples/\<close> and the assertions of \<open>testutil/assertions.go\<close>, as programs over
  the in-memory stores. The user part of the world is the console: what was printed, as format and
  arguments, and the files written (the arrows and dashes of example 02 are written in ASCII). \<open>log.Fatalf\<close> ends a program, so it is the error of the
  program; the deferred \<open>Shutdown\<close> has nothing left to wait for. A main function is \<open>None\<close> when one of
  the pure computations it starts with does not return.
\<close>

section \<open>Console and files\<close>

record console =
  co_out :: "(string \<times> gval list \<times> gerr option) list"
  co_files :: "(string \<times> string) list"

type_synonym osworld = "console memworld"

definition printf :: "string \<Rightarrow> gval list \<Rightarrow> (osworld, unit) state" where
  "printf fmt args = onUser (modifies (\<lambda>u. ((), u\<lparr>co_out := co_out u @ [(fmt, args, None)]\<rparr>)))"

definition printErr :: "string \<Rightarrow> gerr \<Rightarrow> (osworld, unit) state" where
  "printErr fmt err = onUser (modifies (\<lambda>u. ((), u\<lparr>co_out := co_out u @ [(fmt, [], Some err)]\<rparr>)))"

abbreviation println :: "string \<Rightarrow> (osworld, unit) state" where
  "println s \<equiv> printf (s @ newline) []"

text \<open>\<open>os.WriteFile\<close> fails on the paths for which \<open>noWrite\<close> has an error.\<close>

definition writeFile :: "(string \<Rightarrow> gerr option) \<Rightarrow> string \<Rightarrow> string \<Rightarrow> osworld proc" where
  "writeFile noWrite path content =
     (case noWrite path of
        Some err \<Rightarrow> ret (Some err)
      | None \<Rightarrow> onUser (modifies (\<lambda>u. (None, u\<lparr>co_files := co_files u @ [(path, content)]\<rparr>))))"

definition fatalf :: "string \<Rightarrow> gerr \<Rightarrow> (osworld, 'a) prog" where
  "fatalf msg err = fail (Errorf msg [] (Some err))"

definition fatal :: "string \<Rightarrow> gval list \<Rightarrow> (osworld, 'a) prog" where
  "fatal msg args = fail (Errorf msg args None)"

section \<open>How the programs start\<close>

text \<open>They build their workflows, write the diagrams, create an engine and register the workflows, in this order.\<close>

fun buildAll :: "(string list \<Rightarrow> string list) \<Rightarrow> (string \<times> DefBuilder) list \<Rightarrow> (gerr + Definition list) option" where
  "buildAll order [] = Some (Inr [])"
| "buildAll order ((msg, b) # bs) =
     (case Build order b of
        None \<Rightarrow> None
      | Some (Inl err) \<Rightarrow> Some (Inl (Errorf msg [] (Some err)))
      | Some (Inr def) \<Rightarrow> map_option (map_sum id (Cons def)) (buildAll order bs))"

fun registerEach :: "(string \<Rightarrow> string) \<Rightarrow> (string \<times> Definition) list \<Rightarrow> 'w Engine \<Rightarrow> (gerr + 'w Engine) option" where
  "registerEach digest [] e = Some (Inr e)"
| "registerEach digest ((msg, def) # ds) e =
     (case Register digest def e of
        None \<Rightarrow> None
      | Some (Some err, _) \<Rightarrow> Some (Inl (Errorf msg [] (Some err)))
      | Some (None, e') \<Rightarrow> registerEach digest ds e')"

definition fence :: "string \<Rightarrow> string \<Rightarrow> string" where
  "fence title diagram =
     ''# '' @ title @ newline @ newline @ ''```mermaid'' @ newline @ diagram @ ''```'' @ newline"

text \<open>\<open>docs\<close> writes the diagrams, \<open>body\<close> is the rest of the program.\<close>

definition exampleMain ::
  "(string list \<Rightarrow> string list) \<Rightarrow> (string \<Rightarrow> string) \<Rightarrow> (string \<times> DefBuilder) list \<Rightarrow> (string list \<Rightarrow> osworld proc) \<Rightarrow>
     osworld Option list \<Rightarrow> string list \<Rightarrow> (osworld Engine \<Rightarrow> (osworld, unit) prog) \<Rightarrow> (osworld, unit) prog option" where
  "exampleMain order digest builds docs opts registerMsgs body =
     (case buildAll order builds of
        None \<Rightarrow> None
      | Some (Inl err) \<Rightarrow> Some (fail err)
      | Some (Inr defs) \<Rightarrow>
          (case those (map Mermaid defs) of
             None \<Rightarrow> None
           | Some diagrams \<Rightarrow>
               (case NewEngine (asks mw_wall) readEntropy opts of
                  Inl err \<Rightarrow> Some (check (docs diagrams) fail (fatalf ''create engine: %v'' err))
                | Inr e \<Rightarrow>
                    (case registerEach digest (zip registerMsgs defs) e of
                       None \<Rightarrow> None
                     | Some (Inl err) \<Rightarrow> Some (check (docs diagrams) fail (fail err))
                     | Some (Inr engine) \<Rightarrow> Some (check (docs diagrams) fail (body engine))))))"

definition writeDocs :: "(string \<Rightarrow> gerr option) \<Rightarrow> string \<Rightarrow> string \<Rightarrow> string \<Rightarrow> osworld proc" where
  "writeDocs noWrite path content note =
     check (writeFile noWrite path content) (\<lambda>err. ret (Some (Errorf ''write workflow.md: %v'' [] (Some err))))
       (do { println note; ret None })"

definition requiredStores :: "osworld Option list" where
  "requiredStores = [WithEventStore NewEventStore, WithInstanceStore NewInstanceStore, WithTxProvider NewTxProvider]"

section \<open>Example 01\<close>

definition arrow :: "TransitionResult \<Rightarrow> gval list" where
  "arrow result = qs [rs_PreviousState result, rs_NewState result]"

definition basicLinear :: "osworld Engine \<Rightarrow> (osworld, unit) prog" where
  "basicLinear engine =
     attempt (Transition engine ''order'' ''order-1'' ''start_processing'' ''system'' None) (fatalf ''start_processing: %v'')
     (\<lambda>result. do {
       printf (''Transition: %s -> %s'' @ newline) (arrow result);
       attempt (Transition engine ''order'' ''order-1'' ''complete'' ''system'' None) (fatalf ''complete: %v'')
     (\<lambda>result. do {
       printf (''Transition: %s -> %s (terminal: %v)'' @ newline) (arrow result @ [GBool (rs_IsTerminal result)]);
       attempt (Transition engine ''order'' ''order-2'' ''start_processing'' ''system'' None)
         (fatalf ''start_processing order-2: %v'')
     (\<lambda>result. do {
       printf (''Transition: %s -> %s'' @ newline) (arrow result);
       attempt (Transition engine ''order'' ''order-2'' ''cancel'' ''user-1'' None) (fatalf ''cancel: %v'')
     (\<lambda>result. do {
       printf (''Transition: %s -> %s (terminal: %v)'' @ newline) (arrow result @ [GBool (rs_IsTerminal result)]);
       ok ()
     }) }) }) })"

definition main01 ::
  "(string list \<Rightarrow> string list) \<Rightarrow> (string \<Rightarrow> string) \<Rightarrow> (string \<Rightarrow> gerr option) \<Rightarrow> (osworld, unit) prog option" where
  "main01 order digest noWrite =
     exampleMain order digest [(''build workflow: %v'', OrderWorkflow)]
       (\<lambda>ds. writeDocs noWrite ''examples/01-basic-linear/workflow.md'' (fence ''Order Workflow'' (ds ! 0))
          ''Wrote Mermaid diagram to examples/01-basic-linear/workflow.md'')
       requiredStores [''register workflow: %v''] basicLinear"

section \<open>Example 02\<close>

text \<open>
  The guard, the condition and the three amounts, which are \<open>float64\<close> values, are parameters; the two
  variables of interface type only check that the types implement the interfaces.
\<close>

definition amount :: "gval \<Rightarrow> gparams" where
  "amount v = Some [(''amount'', v)]"

definition guardsAndRouting :: "gval \<Rightarrow> gval \<Rightarrow> gval \<Rightarrow> osworld Engine \<Rightarrow> (osworld, unit) prog" where
  "guardsAndRouting low high standard engine = do {
     println ''--- Guard failure (amount too low) ---'';
     blocked \<leftarrow> Transition engine ''loan'' ''loan-1'' ''evaluate'' ''system'' (amount low);
     (case blocked of
        Inr _ \<Rightarrow> fatal ''expected ErrGuardFailed, got %v'' [GNil]
      | Inl err \<Rightarrow>
          if \<not> err_is err ErrGuardFailed then fatalf ''expected ErrGuardFailed, got %v'' err
          else do {
            printErr (''Guard blocked transition: %v'' @ newline) err;
            println (newline @ ''--- High-value loan (> 10000) -> MANUAL_REVIEW ---'');
            attempt (Transition engine ''loan'' ''loan-1'' ''evaluate'' ''system'' (amount high)) (fatalf ''evaluate high-value: %v'')
            (\<lambda>result. do {
              printf (''Transition: %s -> %s'' @ newline) (arrow result);
              println (newline @ ''--- Standard loan (<= 10000) -> AUTO_APPROVED ---'');
              attempt (Transition engine ''loan'' ''loan-2'' ''evaluate'' ''system'' (amount standard)) (fatalf ''evaluate standard: %v'')
            (\<lambda>result. do {
              printf (''Transition: %s -> %s'' @ newline) (arrow result);
              println (newline @ ''--- Guard and Condition types ---'');
              println ''Guard:     minimumAmountGuard - blocks if amount < minimum'';
              println ''Condition: highValueCondition - routes to MANUAL_REVIEW if amount > threshold'';
              ok ()
            }) })
          })
   }"

definition main02 ::
  "(string list \<Rightarrow> string list) \<Rightarrow> (string \<Rightarrow> string) \<Rightarrow> (string \<Rightarrow> gerr option) \<Rightarrow> Guard \<Rightarrow> Condition \<Rightarrow>
     gval \<Rightarrow> gval \<Rightarrow> gval \<Rightarrow> (osworld, unit) prog option" where
  "main02 order digest noWrite minimumAmountGuard highValueCondition low high standard =
     exampleMain order digest [(''build workflow: %v'', loanWorkflow minimumAmountGuard highValueCondition)]
       (\<lambda>ds. writeDocs noWrite ''examples/02-guards-and-routing/workflow.md'' (fence ''Loan Workflow'' (ds ! 0))
          ''Wrote Mermaid diagram to examples/02-guards-and-routing/workflow.md'')
       requiredStores [''register workflow: %v''] (guardsAndRouting low high standard)"

section \<open>Example 03\<close>

definition paymentSignal :: "string \<Rightarrow> string \<Rightarrow> gparams \<Rightarrow> SignalInput" where
  "paymentSignal booking name payload =
     \<lparr>si_TargetAggregateType = ''booking'', si_TargetAggregateID = booking, si_SignalName = name,
      si_Payload = payload, si_ActorID = ''payment-gateway''\<rparr>"

definition ended :: "TransitionResult \<Rightarrow> gval list" where
  "ended result = [GString (rs_NewState result), GBool (rs_IsTerminal result)]"

definition signals :: "osworld Engine \<Rightarrow> (osworld, unit) prog" where
  "signals engine = do {
     println ''--- Booking 1: payment succeeds ---'';
     attempt (Transition engine ''booking'' ''booking-1'' ''initiate_payment'' ''user-1'' None) (fatalf ''initiate_payment: %v'')
     (\<lambda>result. do {
       printf (''Transition: %s -> %s'' @ newline) (arrow result);
       attempt (Signal engine (paymentSignal ''booking-1'' ''payment_succeeded''
                  (Some [(''transaction_id'', GString ''txn-abc123'')]))) (fatalf ''signal payment_succeeded: %v'')
     (\<lambda>result. do {
       printf (''Signal:     payment_succeeded -> %s (terminal: %v)'' @ newline) (ended result);
       println (newline @ ''--- Booking 2: payment fails ---'');
       attempt (Transition engine ''booking'' ''booking-2'' ''initiate_payment'' ''user-2'' None)
         (fatalf ''initiate_payment booking-2: %v'')
     (\<lambda>result. do {
       printf (''Transition: %s -> %s'' @ newline) (arrow result);
       attempt (Signal engine (paymentSignal ''booking-2'' ''payment_failed''
                  (Some [(''reason'', GString ''insufficient_funds'')]))) (fatalf ''signal payment_failed: %v'')
     (\<lambda>result. do {
       printf (''Signal:     payment_failed -> %s (terminal: %v)'' @ newline) (ended result);
       ok ()
     }) }) }) })
   }"

definition main03 ::
  "(string list \<Rightarrow> string list) \<Rightarrow> (string \<Rightarrow> string) \<Rightarrow> (string \<Rightarrow> gerr option) \<Rightarrow> (osworld, unit) prog option" where
  "main03 order digest noWrite =
     exampleMain order digest [(''build workflow: %v'', bookingWorkflow)]
       (\<lambda>ds. writeDocs noWrite ''examples/03-signals/workflow.md'' (fence ''Booking Workflow'' (ds ! 0))
          ''Wrote Mermaid diagram to examples/03-signals/workflow.md'')
       requiredStores [''register workflow: %v''] signals"

section \<open>Example 04\<close>

definition taskStores :: "osworld Option list" where
  "taskStores = [WithEventStore NewEventStore, WithInstanceStore NewInstanceStore, WithTaskStore NewTaskStore,
     WithTxProvider NewTxProvider]"

definition expectTask :: "TransitionResult \<Rightarrow> (PendingTask \<Rightarrow> (osworld, 'a) prog) \<Rightarrow> (osworld, 'a) prog" where
  "expectTask result k =
     (case rs_TaskCreated result of None \<Rightarrow> fatal ''expected task to be created'' [] | Some task \<Rightarrow> k task)"

definition waitStatesTasks :: "osworld Engine \<Rightarrow> (osworld, unit) prog" where
  "waitStatesTasks engine = do {
     println ''--- Expense 1: approved ---'';
     attempt (Transition engine ''expense'' ''expense-1'' ''submit_for_approval'' ''employee-1'' None)
       (fatalf ''submit_for_approval: %v'')
     (\<lambda>result. do {
       printf (''Transition: %s -> %s'' @ newline) (arrow result);
       expectTask result (\<lambda>task. do {
       printf (''Task created: id=%s type=%s options=%v'' @ newline) (qs (tk_ID task # tk_TaskType task # tk_Options task));
       attempt (CompleteTask engine (tk_ID task) ''approve'' ''manager-1'') (fatalf ''complete task (approve): %v'')
     (\<lambda>result. do {
       printf (''Task completed: choice=approve -> %s (terminal: %v)'' @ newline) (ended result);
       println (newline @ ''--- Expense 2: rejected ---'');
       attempt (Transition engine ''expense'' ''expense-2'' ''submit_for_approval'' ''employee-2'' None)
         (fatalf ''submit_for_approval expense-2: %v'')
     (\<lambda>result. do {
       printf (''Transition: %s -> %s'' @ newline) (arrow result);
       expectTask result (\<lambda>task. do {
       printf (''Task created: id=%s type=%s'' @ newline) (qs [tk_ID task, tk_TaskType task]);
       attempt (CompleteTask engine (tk_ID task) ''reject'' ''manager-1'') (fatalf ''complete task (reject): %v'')
     (\<lambda>result. do {
       printf (''Task completed: choice=reject -> %s (terminal: %v)'' @ newline) (ended result);
       ok ()
     }) }) }) }) }) })
   }"

definition main04 ::
  "(string list \<Rightarrow> string list) \<Rightarrow> (string \<Rightarrow> string) \<Rightarrow> (string \<Rightarrow> gerr option) \<Rightarrow> (osworld, unit) prog option" where
  "main04 order digest noWrite =
     exampleMain order digest [(''build workflow: %v'', expenseWorkflow)]
       (\<lambda>ds. writeDocs noWrite ''examples/04-wait-states-tasks/workflow.md'' (fence ''Expense Workflow'' (ds ! 0))
          ''Wrote Mermaid diagram to examples/04-wait-states-tasks/workflow.md'')
       taskStores [''register workflow: %v''] waitStatesTasks"

section \<open>Example 05\<close>

definition childStores :: "osworld Option list" where
  "childStores = [WithEventStore NewEventStore, WithInstanceStore NewInstanceStore, WithChildStore NewChildStore,
     WithTxProvider NewTxProvider]"

definition childWorkflow :: "osworld Engine \<Rightarrow> (osworld, unit) prog" where
  "childWorkflow engine = do {
     println ''--- Parent: order workflow ---'';
     attempt (Transition engine ''order'' ''order-1'' ''start_processing'' ''system'' None) (fatalf ''start_processing: %v'')
     (\<lambda>result. do {
       printf (''Parent: %s -> %s'' @ newline) (arrow result);
       attempt (Transition engine ''order'' ''order-1'' ''ship'' ''system'' None) (fatalf ''ship: %v'')
     (\<lambda>result. do {
       printf (''Parent: %s -> %s'' @ newline) (arrow result);
       (case rs_ChildrenSpawned result of
          [] \<Rightarrow> fatal ''expected child to be spawned'' []
        | child # _ \<Rightarrow> do {
            printf (''Child spawned: workflowType=%s id=%s'' @ newline) (qs [cr_ChildWorkflowType child, cr_ChildAggregateID child]);
            println (newline @ ''--- Child: shipment workflow ---'');
            attempt (Transition engine ''shipment'' (cr_ChildAggregateID child) ''pick_up'' ''courier'' None) (fatalf ''pick_up: %v'')
          (\<lambda>result. do {
            printf (''Child:  %s -> %s'' @ newline) (arrow result);
            attempt (Transition engine ''shipment'' (cr_ChildAggregateID child) ''deliver'' ''courier'' None) (fatalf ''deliver: %v'')
          (\<lambda>result. do {
            printf (''Child:  %s -> %s (terminal: %v)'' @ newline) (arrow result @ [GBool (rs_IsTerminal result)]);
            println (newline @ ''--- Notify parent: child completed ---'');
            attempt (ChildCompleted engine (cr_ChildAggregateType child) (cr_ChildAggregateID child) ''DELIVERED'')
              (fatalf ''ChildCompleted: %v'')
          (\<lambda>result. do {
            printf (''Parent: WAITING_FOR_SHIPMENT -> %s (terminal: %v)'' @ newline) (ended result);
            ok ()
          }) }) }) })
     }) })
   }"

definition main05 ::
  "(string list \<Rightarrow> string list) \<Rightarrow> (string \<Rightarrow> string) \<Rightarrow> (string \<Rightarrow> gerr option) \<Rightarrow> (osworld, unit) prog option" where
  "main05 order digest noWrite =
     exampleMain order digest
       [(''build order workflow: %v'', buildOrderWorkflow), (''build shipment workflow: %v'', buildShipmentWorkflow)]
       (\<lambda>ds. writeDocs noWrite ''examples/05-child-workflow/workflow.md''
          (fence ''Order Workflow'' (ds ! 0) @ newline @ fence ''Shipment Workflow'' (ds ! 1))
          ''Wrote Mermaid diagrams to examples/05-child-workflow/workflow.md'')
       childStores [''register order workflow: %v'', ''register shipment workflow: %v''] childWorkflow"

section \<open>Example 06\<close>

text \<open>Slicing a string beyond its length panics.\<close>

definition shortID :: "string \<Rightarrow> (string \<Rightarrow> (osworld, 'a) prog) \<Rightarrow> (osworld, 'a) prog" where
  "shortID s k = (if length s < 8 then fail (Panic ''slice bounds out of range'') else k (take 8 s))"

fun itemLoop :: "osworld Engine \<Rightarrow> int \<Rightarrow> ChildRelation list \<Rightarrow> (osworld, unit) prog" where
  "itemLoop engine i [] = ok ()"
| "itemLoop engine i (child # children) =
     attempt (Transition engine ''item'' (cr_ChildAggregateID child) ''process'' ''worker'' None)
       (\<lambda>err. fail (Errorf ''item %d process: %v'' [GInt i] (Some err)))
     (\<lambda>r. shortID (cr_ChildAggregateID child) (\<lambda>short. do {
       printf (''Item %d (%s): %s -> %s'' @ newline) (GInt (i + 1) # GString short # arrow r);
       attempt (Transition engine ''item'' (cr_ChildAggregateID child) ''complete'' ''worker'' None)
         (\<lambda>err. fail (Errorf ''item %d complete: %v'' [GInt i] (Some err)))
     (\<lambda>r. do {
       printf (''Item %d (%s): %s -> %s (terminal: %v)'' @ newline)
         (GInt (i + 1) # GString short # arrow r @ [GBool (rs_IsTerminal r)]);
       joined \<leftarrow> ChildCompleted engine (cr_ChildAggregateType child) (cr_ChildAggregateID child) ''DONE'';
       (case joined of
          Inl err \<Rightarrow>
            if \<not> err_is err ErrNoMatchingSignal
            then fail (Errorf ''ChildCompleted item %d: %v'' [GInt i] (Some err))
            else itemLoop engine (i + 1) children
        | Inr joinResult \<Rightarrow> do {
            printf (newline @ ''Join satisfied! Parent: AWAITING_ITEMS -> %s'' @ newline) (qs [rs_NewState joinResult]);
            itemLoop engine (i + 1) children })
     }) }))"

definition parallelChildren :: "osworld Engine \<Rightarrow> (osworld, unit) prog" where
  "parallelChildren engine = do {
     println ''--- Parent: purchase_order workflow ---'';
     attempt (Transition engine ''purchase_order'' ''po-1'' ''start'' ''system'' None) (fatalf ''start: %v'')
     (\<lambda>result. do {
       printf (''Parent: %s -> %s'' @ newline) (arrow result);
       attempt (Transition engine ''purchase_order'' ''po-1'' ''fan_out'' ''system'' None) (fatalf ''fan_out: %v'')
     (\<lambda>result. do {
       printf (''Parent: %s -> %s (%d children spawned)'' @ newline)
         (arrow result @ [GInt (int (length (rs_ChildrenSpawned result)))]);
       let children = rs_ChildrenSpawned result;
       if length children \<noteq> 3 then fatal ''expected 3 children, got %d'' [GInt (int (length children))]
       else do {
         println (newline @ ''--- Children: item workflows ---'');
         attempt (itemLoop engine 0 children) fail
     (\<lambda>_. do {
         println (newline @ ''--- Signal: payment_succeeded ---'');
         attempt (Signal engine \<lparr>si_TargetAggregateType = ''purchase_order'', si_TargetAggregateID = ''po-1'',
                    si_SignalName = ''payment_succeeded'', si_Payload = None, si_ActorID = ''payment-gateway''\<rparr>)
           (fatalf ''signal payment_succeeded: %v'')
     (\<lambda>result. do {
         printf (''Parent: AWAITING_PAYMENT -> %s (terminal: %v)'' @ newline) (ended result);
         ok ()
     }) }) } }) })
   }"

definition main06 ::
  "(string list \<Rightarrow> string list) \<Rightarrow> (string \<Rightarrow> string) \<Rightarrow> (string \<Rightarrow> gerr option) \<Rightarrow> (osworld, unit) prog option" where
  "main06 order digest noWrite =
     exampleMain order digest
       [(''build order workflow: %v'', purchaseOrderWorkflow), (''build item workflow: %v'', buildItemWorkflow)]
       (\<lambda>ds. writeDocs noWrite ''examples/06-parallel-children-signals/workflow.md''
          (fence ''Purchase Order Workflow'' (ds ! 0) @ newline @ fence ''Item Workflow'' (ds ! 1))
          ''Wrote Mermaid diagrams to examples/06-parallel-children-signals/workflow.md'')
       childStores [''register order workflow: %v'', ''register item workflow: %v''] parallelChildren"

section \<open>Example 07\<close>

definition printState :: "string \<Rightarrow> TransitionResult \<Rightarrow> (osworld, unit) state" where
  "printState label result =
     printf (''%-20s state=%-10s parallel=%v'' @ newline)
       [GString (label @ '':''), GString (wi_CurrentState (rs_Instance result)),
        GMap (map_option (map (\<lambda>(k, v). (k, GString v))) (wi_ActiveInParallel (rs_Instance result)))]"

fun editSteps :: "osworld Engine \<Rightarrow> string list \<Rightarrow> TransitionResult \<Rightarrow> (osworld, TransitionResult) prog" where
  "editSteps engine [] result = ok result"
| "editSteps engine (name # names) result =
     attempt (Transition engine ''Editor'' ''doc-1'' name ''user'' None) (fatalf (name @ '': %v''))
       (\<lambda>result. do { printState name result; editSteps engine names result })"

definition parallelStates :: "osworld Engine \<Rightarrow> (osworld, unit) prog" where
  "parallelStates engine = do {
     println ''=== Text Editor Parallel State Example ==='';
     println [];
     attempt (Transition engine ''Editor'' ''doc-1'' ''startEditing'' ''user'' None) (fatalf ''startEditing: %v'')
     (\<lambda>result. do {
       printState ''startEditing'' result;
       attempt (editSteps engine [''toggleBold'', ''toggleItalic'', ''untoggleBold'', ''finishEditing''] result) fail
     (\<lambda>result. do {
       printf (newline @ ''Final state: %s (terminal: %v)'' @ newline) (ended result);
       ok ()
     }) })
   }"

text \<open>This program writes no diagram.\<close>

definition main07 :: "(string list \<Rightarrow> string list) \<Rightarrow> (string \<Rightarrow> string) \<Rightarrow> (osworld, unit) prog option" where
  "main07 order digest =
     (case buildAll order [(''build workflow: %v'', buildEditorWorkflow)] of
        None \<Rightarrow> None
      | Some (Inl err) \<Rightarrow> Some (fail err)
      | Some (Inr defs) \<Rightarrow>
          (case NewEngine (asks mw_wall) readEntropy requiredStores of
             Inl err \<Rightarrow> Some (fatalf ''create engine: %v'' err)
           | Inr e \<Rightarrow>
               (case registerEach digest (zip [''register workflow: %v''] defs) e of
                  None \<Rightarrow> None
                | Some (Inl err) \<Rightarrow> Some (fail err)
                | Some (Inr engine) \<Rightarrow> Some (parallelStates engine))))"

section \<open>Assertions\<close>

text \<open>\<open>t.Fatalf\<close> stops the test, so it is the error of the program; the result are the failures of \<open>t.Errorf\<close>.\<close>

type_synonym 'u assertion = "('u memworld, (string \<times> gval list) list) prog"

definition AssertState :: "string \<Rightarrow> string \<Rightarrow> string \<Rightarrow> 'u assertion" where
  "AssertState aggregateType aggregateID expected =
     attempt (InstanceStore_Get aggregateType aggregateID)
       (\<lambda>err. fail (Errorf ''testutil: get instance %s/%s: %v'' (qs [aggregateType, aggregateID]) (Some err)))
       (\<lambda>inst. ok (if wi_CurrentState inst \<noteq> expected
          then [(''testutil: expected state %q for %s/%s, got %q'',
                 qs [expected, aggregateType, aggregateID, wi_CurrentState inst])] else []))"

definition AssertEventCount :: "string \<Rightarrow> string \<Rightarrow> int \<Rightarrow> 'u assertion" where
  "AssertEventCount aggregateType aggregateID expected =
     attempt (EventStore_ListByAggregate aggregateType aggregateID)
       (\<lambda>err. fail (Errorf ''testutil: list events for %s/%s: %v'' (qs [aggregateType, aggregateID]) (Some err)))
       (\<lambda>events. ok (if int (length events) \<noteq> expected
          then [(''testutil: expected %d events for %s/%s, got %d'',
                 [GInt expected, GString aggregateType, GString aggregateID, GInt (int (length events))])] else []))"

fun chainLoop :: "nat \<Rightarrow> string list \<Rightarrow> DomainEvent list \<Rightarrow> (string \<times> gval list) list" where
  "chainLoop i (expected # expectedTypes) (event # events) =
     (if ev_EventType event \<noteq> expected
      then [(''testutil: event[%d] expected type %q, got %q'', GInt (int i) # qs [expected, ev_EventType event])] else []) @
     chainLoop (i + 1) expectedTypes events"
| "chainLoop i _ _ = []"

definition AssertEventChain :: "string \<Rightarrow> string list \<Rightarrow> 'u assertion" where
  "AssertEventChain correlationID expectedEventTypes =
     attempt (EventStore_ListByCorrelation correlationID)
       (\<lambda>err. fail (Errorf ''testutil: list events by correlation %s: %v'' (qs [correlationID]) (Some err)))
       (\<lambda>events. if length events \<noteq> length expectedEventTypes
          then fail (Errorf ''testutil: expected %d events in chain, got %d''
                 [GInt (int (length expectedEventTypes)), GInt (int (length events))] None)
          else ok (chainLoop 0 expectedEventTypes events))"

lemma chainLoop_passes: "length events = length types \<Longrightarrow> chainLoop i types events = [] \<longleftrightarrow> map ev_EventType events = types"
  by (induction types events arbitrary: i rule: list_induct2') auto

text \<open>The assertions pass exactly on the worlds they describe, and leave the world alone.\<close>

lemma AssertState_passes:
  "run_state (AssertState at aid expected) w = (Inr [], w) \<longleftrightarrow>
     (\<exists>inst. map_of (mw_instances w) (key at aid) = Some inst \<and> wi_CurrentState inst = expected)"
  by (auto simp: AssertState_def run_attempt InstanceStore_Get_def split: option.splits)

lemma AssertEventChain_passes:
  "run_state (AssertEventChain cid types) w = (Inr [], w) \<longleftrightarrow>
     map ev_EventType (filter (\<lambda>ev. ev_CorrelationID ev = cid) (mw_events w)) = types"
  by (auto simp: AssertEventChain_def run_attempt EventStore_ListByCorrelation_def chainLoop_passes)

section \<open>The programs start\<close>

lemmas builder_steps = applyOptions_def DefBuilder_Version_def DefBuilder_States_def DefBuilder_Transition_def
  Define_def NewDefBuilder_def flattenStates_def Initial_def StateOpt_def WaitState_def Terminal_def plain_state_def
  zero_StateDef_def Let_def

lemma workflows_ok:
  "builder_ok OrderWorkflow" "builder_ok (loanWorkflow guard cond)" "builder_ok bookingWorkflow" "builder_ok expenseWorkflow"
  "builder_ok buildOrderWorkflow" "builder_ok buildShipmentWorkflow" "builder_ok purchaseOrderWorkflow"
  "builder_ok buildItemWorkflow"
  by (simp_all add: builder_ok_def builder_steps OrderWorkflow_def loanWorkflow_def bookingWorkflow_def
      expenseWorkflow_def buildOrderWorkflow_def buildShipmentWorkflow_def purchaseOrderWorkflow_def buildItemWorkflow_def)

lemma registerAll_starts:
  assumes "registerAll digest bs e = Some e'" "\<forall>b\<in>set bs. builder_ok b \<and> db_validateFn b = Some Validate"
    "distinct (map db_aggregateType bs)" "\<forall>b\<in>set bs. inner (en_compiled e) (db_aggregateType b) = []"
    "length msgs = length bs" "length regs = length bs"
  shows "\<exists>defs diagrams. buildAll (\<lambda>keys. keys) (zip msgs bs) = Some (Inr defs) \<and>
    those (map Mermaid defs) = Some diagrams \<and> registerEach digest (zip regs defs) e = Some (Inr e')"
  using assms
proof (induction bs arbitrary: e msgs regs)
  case (Cons b bs)
  from Cons.prems(5,6) obtain m ms r rs where ms: "msgs = m # ms" "regs = r # rs"
    by (cases msgs; cases regs) auto
  from Cons.prems(1) obtain def e1 where b: "Build (\<lambda>keys. keys) b = Some (Inr def)"
    and reg: "Register digest def e = Some (None, e1)" and rest: "registerAll digest bs e1 = Some e'"
    by (auto split: option.splits sum.splits prod.splits)
  have agg: "df_AggregateType def = db_aggregateType b" by (rule Build_Inr(3) [OF b])
  with Cons.prems(4) have new: "\<not> registeredHash digest def e" by (simp add: registeredHash_def)
  from reg new obtain cm where c: "Validate def = Some None" "Compile digest def = Some (Inr cm)" "e1 = commitDefinition def cm e"
    by (auto elim!: Register_cases)
  from Cons.prems(2) have "tree_ok def"
    by (intro tree_ok_built [OF b _ _ c(1) Compile_acyclic [OF c(2)]]) simp_all
  from Mermaid_contains [OF this] obtain out where out: "Mermaid def = Some out" by metis
  have "inner (en_compiled e1) (db_aggregateType b') = []" if "b' \<in> set bs" for b'
  proof -
    from Cons.prems(3) that have "db_aggregateType b' \<noteq> db_aggregateType b"
      by (metis distinct.simps(2) image_eqI list.set_map list.simps(9))
    with Cons.prems(4) that agg show ?thesis by (simp add: c(3) commitDefinition_def put2_def inner_def)
  qed
  then have "\<forall>b\<in>set bs. inner (en_compiled e1) (db_aggregateType b) = []" by blast
  from Cons.IH [OF rest _ _ this, of ms rs] Cons.prems ms obtain defs diagrams where
    "buildAll (\<lambda>keys. keys) (zip ms bs) = Some (Inr defs)" "those (map Mermaid defs) = Some diagrams"
    "registerEach digest (zip rs defs) e1 = Some (Inr e')" by auto
  with b out reg ms show ?case by (intro exI [of _ "def # defs"] exI [of _ "out # diagrams"]) simp
qed simp

text \<open>The program gets to its body with the engine on which its workflows are registered.\<close>

definition starts ::
  "(osworld, unit) prog option \<Rightarrow> DefBuilder list \<Rightarrow> (osworld Engine \<Rightarrow> (osworld, unit) prog) \<Rightarrow> bool" where
  "starts main workflows body \<longleftrightarrow>
     (\<exists>docs D engine. registerAll (\<lambda>bytes. bytes) workflows (New D) = Some engine \<and>
        main = Some (check docs fail (body engine)))"

lemma exampleMain_starts:
  assumes "registerAll digest bs (New D) \<noteq> None" "NewEngine (asks mw_wall) readEntropy opts = Inr (New D)"
    "\<forall>b\<in>set bs. builder_ok b \<and> db_validateFn b = Some Validate" "distinct (map db_aggregateType bs)"
    "length msgs = length bs" "length regs = length bs"
  shows "\<exists>ds engine. registerAll digest bs (New D) = Some engine \<and>
    exampleMain (\<lambda>keys. keys) digest (zip msgs bs) docs opts regs body = Some (check (docs ds) fail (body engine))"
proof -
  from assms(1) obtain e' where e': "registerAll digest bs (New D) = Some e'" by blast
  have "\<forall>b\<in>set bs. inner (en_compiled (New D)) (db_aggregateType b) = []" by (simp add: New_def inner_def)
  from registerAll_starts [OF e' assms(3,4) this assms(5,6)] e' show ?thesis by (auto simp: exampleMain_def assms(2))
qed

lemma engine_created:
  assumes "opts \<in> {requiredStores, taskStores, childStores}"
  shows "\<exists>D. NewEngine (asks mw_wall) readEntropy opts = Inr (New D)"
  using assms
  by (auto simp: NewEngine_def requiredStores_def taskStores_def childStores_def zero_config_def WithEventStore_def
      WithInstanceStore_def WithTaskStore_def WithChildStore_def WithTxProvider_def)

lemma workflows_built:
  "db_validateFn OrderWorkflow = Some Validate" "db_validateFn (loanWorkflow guard cond) = Some Validate"
  "db_validateFn bookingWorkflow = Some Validate" "db_validateFn expenseWorkflow = Some Validate"
  "db_validateFn buildOrderWorkflow = Some Validate" "db_validateFn buildShipmentWorkflow = Some Validate"
  "db_validateFn purchaseOrderWorkflow = Some Validate" "db_validateFn buildItemWorkflow = Some Validate"
  "db_aggregateType buildOrderWorkflow \<noteq> db_aggregateType buildShipmentWorkflow"
  "db_aggregateType purchaseOrderWorkflow \<noteq> db_aggregateType buildItemWorkflow"
  by (simp_all add: builder_steps OrderWorkflow_def loanWorkflow_def bookingWorkflow_def
      expenseWorkflow_def buildOrderWorkflow_def buildShipmentWorkflow_def purchaseOrderWorkflow_def buildItemWorkflow_def)

lemma starts_one:
  assumes "registerAll (\<lambda>bytes. bytes) [b] (New D) \<noteq> None" "NewEngine (asks mw_wall) readEntropy opts = Inr (New D)"
    "builder_ok b" "db_validateFn b = Some Validate"
  shows "starts (exampleMain (\<lambda>keys. keys) (\<lambda>bytes. bytes) [(msg, b)] docs opts [reg] body) [b] body"
  unfolding starts_def
  using exampleMain_starts [OF assms(1,2), of "[msg]" "[reg]" docs body] assms(3,4) by (auto simp del: registerAll.simps)

lemma starts_two:
  assumes "registerAll (\<lambda>bytes. bytes) [b, b'] (New D) \<noteq> None" "NewEngine (asks mw_wall) readEntropy opts = Inr (New D)"
    "builder_ok b" "db_validateFn b = Some Validate" "builder_ok b'" "db_validateFn b' = Some Validate"
    "db_aggregateType b \<noteq> db_aggregateType b'"
  shows "starts (exampleMain (\<lambda>keys. keys) (\<lambda>bytes. bytes) [(msg, b), (msg', b')] docs opts [reg, reg'] body) [b, b'] body"
  unfolding starts_def
  using exampleMain_starts [OF assms(1,2), of "[msg, msg']" "[reg, reg']" docs body] assms(3-)
  by (auto simp del: registerAll.simps)

text \<open>
  Every example program gets through its start: its workflows build, their diagrams are rendered, the engine is
  created and the workflows are registered one after the other, none hangs and none is rejected; what
  remains is to write the diagrams and to run the body on that engine (for the map order and the digest of
  the samples).
\<close>

lemma Examples_start:
  "starts (main01 (\<lambda>keys. keys) (\<lambda>bytes. bytes) noWrite) [OrderWorkflow] basicLinear \<and>
   starts (main02 (\<lambda>keys. keys) (\<lambda>bytes. bytes) noWrite guard cond low high standard) [loanWorkflow guard cond]
     (guardsAndRouting low high standard) \<and>
   starts (main03 (\<lambda>keys. keys) (\<lambda>bytes. bytes) noWrite) [bookingWorkflow] signals \<and>
   starts (main04 (\<lambda>keys. keys) (\<lambda>bytes. bytes) noWrite) [expenseWorkflow] waitStatesTasks \<and>
   starts (main05 (\<lambda>keys. keys) (\<lambda>bytes. bytes) noWrite) [buildOrderWorkflow, buildShipmentWorkflow] childWorkflow \<and>
   starts (main06 (\<lambda>keys. keys) (\<lambda>bytes. bytes) noWrite) [purchaseOrderWorkflow, buildItemWorkflow] parallelChildren \<and>
   (\<exists>D engine. registerAll (\<lambda>bytes. bytes) [buildEditorWorkflow] (New D) = Some engine \<and>
      main07 (\<lambda>keys. keys) (\<lambda>bytes. bytes) = Some (parallelStates engine))"
proof -
  note reg = Examples_register(1,3-8)
  obtain D where D: "NewEngine (asks mw_wall) readEntropy requiredStores = Inr (New D)"
    using engine_created [of requiredStores] by auto
  obtain D1 where D1: "NewEngine (asks mw_wall) readEntropy childStores = Inr (New D1)"
    using engine_created [of childStores] by auto
  obtain D2 where D2: "NewEngine (asks mw_wall) readEntropy taskStores = Inr (New D2)"
    using engine_created [of taskStores] by auto
  have "\<exists>engine. registerAll (\<lambda>bytes. bytes) [buildEditorWorkflow] (New D) = Some engine \<and>
      main07 (\<lambda>keys. keys) (\<lambda>bytes. bytes) = Some (parallelStates engine)"
    using reg(7) [of D] by (auto simp: main07_def D split: option.splits sum.splits prod.splits)
  then show ?thesis
    unfolding main01_def main02_def main03_def main04_def main05_def main06_def
    by (intro conjI starts_one [OF reg(1) D] starts_one [OF reg(2) D] starts_one [OF reg(3) D]
        starts_one [OF reg(4) D2] starts_two [OF reg(5) D1] starts_two [OF reg(6) D1] workflows_ok workflows_built) blast
qed

end
