(* ===== verification/Spec2Isabelle.thy ===== *)
theory Spec2Isabelle
  imports Flow_Recovery Flow_Instances Flow_Regions Flow_Examples Flow_Mermaid Flow_Goroutines Flow_Adapters
    Flow_PgxLaws Flow_Dynamo Flow_SqlEngine Flow_Programs
begin

text \<open>
  A verification library for flowstep, a Go engine for hierarchical workflow state machines.

  \<^bold>\<open>The program.\<close> A user describes a workflow with the builder (\<open>internal/builder\<close>, exported by
  \<open>flowstep.go\<close>): states in a hierarchy, parallel states with regions, transitions with guards, routes,
  triggers, activities, tasks and child workflows. \<open>Build\<close> validates the definition
  (\<open>internal/graph/validate.go\<close>); \<open>Engine.Register\<close> (\<open>internal/runtime/runtime.go\<close>) compiles it
  (\<open>internal/graph/compiled.go\<close>: ancestry, depths, initial leaves, regions, transitions by state, a
  content hash), rejects cycles of child workflows (\<open>internal/graph/spawn.go\<close>) and keeps it by aggregate
  type and version. \<open>Transition\<close> (\<open>executor.go\<close>, \<open>parallel.go\<close>, \<open>helpers.go\<close>) loads or creates the
  instance of an aggregate, checks source, guards and route, runs exit and entry activities, and commits
  one event and one instance update in a transaction; \<open>dispatcher.go\<close> then dispatches activities, creates
  tasks and child relations and emits the event. \<open>Signal\<close>, \<open>CompleteTask\<close> and \<open>ChildCompleted\<close>
  (\<open>scheduler.go\<close>) choose a transition by trigger and run it; \<open>ForceState\<close>, \<open>SideEffect\<close>, \<open>Snapshot\<close>
  and \<open>Restore\<close> complete the interface. Stores, transactions, clock, bus, runner and observers are
  interfaces (\<open>types/interfaces.go\<close>) with an in-memory implementation (\<open>adapters/memstore\<close>, \<open>memrunner\<close>,
  \<open>chanbus\<close>) that \<open>testutil.NewTestEngine\<close> wires together.

  \<^bold>\<open>How the model corresponds to the code.\<close> Structs are records whose fields carry a two-letter prefix
  and the Go name; enums and error values are datatypes (\<open>err_is\<close> is \<open>errors.Is\<close>). A Go map is an
  association list: its order stands for the unspecified iteration order, so a theorem about all
  association lists covers all orders. Functions with effects are state monads over a world of type
  \<open>'w\<close>; \<open>('w, 'a) prog\<close> returns \<open>gerr + 'a\<close> and \<open>'w proc\<close> an optional error, so every early return is a
  branch. An interface value is a record of such operations, an optional interface an optional field.
  Loops that may not end are \<open>partial_function (option)\<close>, \<open>None\<close> standing for not returning; no fuel is
  used anywhere. Integers of Go type \<open>int64\<close> that are counted up are \<open>64 word\<close>.

  \<^item> \<open>Flow_Prelude\<close>: Go maps, dynamically typed values, a generic graph traversal, list lemmas.
  \<^item> \<open>Flow_Types\<close>: the data model, \<open>types/*.go\<close> and \<open>errors.go\<close>; side-effect events and their parsing.
  \<^item> \<open>Flow_Samples\<close>: an order workflow with compound and parallel states and a circular definition, the
    concrete inputs of the witnesses.
  \<^item> \<open>Flow_Compile\<close>: \<open>compiled.go\<close>. \<open>Compile\<close> returns on every definition (a machine or
    \<open>ErrCircularHierarchy\<close>), ancestry is the chain of parents, \<open>LCA\<close> is the nearest common ancestor, the hash
    is independent of map order.
  \<^item> \<open>Flow_Validate\<close>: \<open>validate.go\<close>. \<open>Validate\<close> accepts exactly the declaratively valid definitions, its
    search is reachability, its result does not depend on map order, and there is a circular definition
    on which it does not return.
  \<^item> \<open>Flow_Spawn\<close>: \<open>spawn.go\<close>. The depth-first search rejects exactly the cyclic spawn relations.
  \<^item> \<open>Flow_Interfaces\<close>: \<open>interfaces.go\<close>, \<open>observer.go\<close>; the monad and the frame rules \<open>keeps\<close>.
  \<^item> \<open>Flow_Runtime\<close>: the registry of \<open>runtime.go\<close> and its invariant over all sequences of calls: what is
    registered is validated and compiled, the latest version is the highest.
  \<^item> \<open>Flow_Helpers\<close>, \<open>Flow_Executor\<close>, \<open>Flow_Dispatcher\<close>, \<open>Flow_Parallel\<close>, \<open>Flow_Engine\<close>: \<open>helpers.go\<close>,
    \<open>executor.go\<close>, \<open>dispatcher.go\<close>, \<open>parallel.go\<close>, and \<open>scheduler.go\<close> with \<open>snapshot.go\<close>, \<open>engine.go\<close>,
    \<open>options.go\<close>; the lemmas on exit and entry sequences, routes, guards and history stand beside them.
  \<^item> \<open>Flow_Laws\<close>: the contracts of the stores as locales over an abstract view of the world (instances by
    key, event log, time), \<open>engine_frame\<close> and \<open>engine_env\<close> collecting what the engine relies on, and the effect of the
    committing operations proved once under them as triples.
  \<^item> \<open>Flow_Steps\<close>: the step relation \<open>inst_step\<close> of an instance (move, leave a parallel state, move
    regions inside it), the refinement of \<open>Transition\<close> to it, and progress.
  \<^item> \<open>Flow_Memstore\<close>: the in-memory adapters and \<open>NewTestEngine\<close>, with the interpretations of the locales.
  \<^item> \<open>Flow_Transitions\<close>, \<open>Flow_Triggers\<close>, \<open>Flow_Recovery\<close>, \<open>Flow_Regions\<close>: what the public operations do on
    that engine, on success and on failure, with the optimistic lock, the snapshot round trip, the
    parallel clock and the cancelling of tasks. The specifications are stated over the definition (its
    parent links, sources, declared policies), not over the functions of the code. Where the code departs
    from the documentation the theorems are stated beside it: \<open>Signal\<close>, \<open>CompleteTask\<close> and joins outside
    parallel states and without a claim on triggers that only an ancestor lists, \<open>CompleteTask\<close> for
    choices among the options and tasks that have not expired, moves inside a parallel state between
    sibling leaves, the cancelling of tasks for transitions that do not leave a parallel state, exit
    sequences without a common ancestor only for sources without a parent.
  \<^item> \<open>Flow_Builder\<close>, \<open>Flow_Examples\<close>: \<open>builder.go\<close>, \<open>Define\<close>, the fixtures and the workflows of
    the example programs. \<open>Build\<close> returns the definition the calls describe for every iteration order of
    its maps, what it returns can be registered, every compound state of it leads to a state to rest in,
    and its hash is stable between builds and under every arrangement of its maps.
  \<^item> \<open>Flow_Programs\<close>: the \<open>main\<close> functions of the example programs over a console, which all get through
    their start, and the assertions of \<open>testutil/assertions.go\<close>.
  \<^item> \<open>Flow_Instances\<close>: the type invariant of stored instances over every sequence of public calls, for
    definitions in which no transition leads from a parallel state straight into another.
  \<^item> \<open>Flow_Mermaid\<close>: \<open>mermaid.go\<close>. The renderer returns on trees, draws every transition, puts it in the
    innermost compound state around it, and is deterministic.
  \<^item> \<open>Flow_Goroutines\<close>: \<open>adapters/goroutinerunner\<close> as a step relation over the interleavings of its
    goroutines; nothing that was dispatched is lost or run twice, and \<open>Wait\<close> is never blocked for ever. The
    counter of the wait group is the number of live goroutines, an activity is a total function executed
    in one step, and the timeout context is left out.
  \<^item> \<open>Flow_Adapters\<close>: \<open>natsbus\<close>, \<open>redisbus\<close>, \<open>asynqrunner\<close> and \<open>slogadapter\<close> over their clients, with the
    lemmas that a message is acknowledged exactly when it was handled, that an enqueued invocation is
    executed on its own input and that every notification is logged once.
  \<^item> \<open>Flow_Sql\<close>: the database interface of the SQL stores. Statements are kept as parsed forms, a driver is
    a record of the calls the stores make, \<open>sql_db\<close> states what SQL documents of these statements (one
    transaction at a time, a server that does not fail), and a reference server meets it. A transaction
    of the engine commits all its writes or none.
  \<^item> \<open>Flow_Sqlite\<close>: \<open>adapters/sqlitestore\<close> with its schema. What \<open>Create\<close> stores \<open>Get\<close> returns, \<open>Update\<close> is
    an optimistic lock, a listing returns exactly the matching rows in their order.
  \<^item> \<open>Flow_SqlEngine\<close>: the engine over a SQL database. The locale \<open>staged_stores\<close> states how stores write into
    the open transaction, the SQLite stores meet it on every server that meets \<open>sql_db\<close>, and under it all
    public operations refine a log of events and instances; a transition is atomic.
  \<^item> \<open>Flow_Pgx\<close>, \<open>Flow_PgxLaws\<close>: \<open>adapters/pgxstore\<close> with its schema, all stores of it. The same round trip,
    up to the resolution of the columns, and the same lock, on every server that meets \<open>pg_server\<close>: as
    \<open>sql_db\<close>, but a statement that fails aborts its transaction, which can then only be rolled back, a query
    for one row delivers any that matches, and which texts are accepted is left to the server; pending tasks, active children and scheduled
    activities cannot be read back, because a NULL column is scanned into a string.
  \<^item> \<open>Flow_Dynamo\<close>: \<open>adapters/dynamostore\<close> over the AWS client: the writes collected by a transaction reach
    the tables together or not at all, and what a failed commit returns, on every server that meets
    \<open>ddb_server\<close>, which reads the text of the condition expression and may refuse puts.

  \<^bold>\<open>Parameters.\<close> SHA-256 (\<open>digest\<close>), guards, conditions, activities, handlers and observers are arguments
  of the definitions, as are the third-party clients and the JSON codec in \<open>Flow_Adapters\<close>, the SQL drivers
  (\<open>sqldb\<close>), the AWS client (\<open>ddbClient\<close>) and the JSON and time codecs (\<open>codec\<close>) of the stores; random bytes
  and the wall clock come from the world. \<open>Build\<close> takes the order in which it ranges over its map
  (\<open>some_order\<close>).

  \<^bold>\<open>Not modelled.\<close> The mutexes and the waiting in \<open>Shutdown\<close> (each operation of a store is one atomic step,
  and operations of the engine run one after the other); contexts and their cancellation; database
  transactions that interleave with one another; the forwarding methods of \<open>engine.go\<close>; floating-point
  numbers, so that the guard and the condition of example 02 are parameters; the type aliases. The text of formatted errors is kept as format and arguments.
\<close>

end
